(* ===== verification/Prelude.thy ===== *)
theory Prelude
  imports Main "HOL-Library.Word"
begin

text \<open>
  Types, collections of rules and generic lemmas shared by every component.

  Go operations that read or change package state are modelled as functions from a state to a
  pair of a result and the next state. The result is a value of a sum type: \<open>Inl\<close> carries
  the error value of the source, \<open>Inr\<close> the returned value. The state is returned on the
  error branches too, because some of the source's operations change it before they fail.

  A Go \<open>int\<close> or \<open>int64\<close> is an \<^typ>\<open>int\<close>, with \<open>wrap64\<close> (theory \<open>GoLib\<close>) written
  around arithmetic that can overflow; unsigned integers are words of their width; a Go
  \<open>string\<close> is a \<^typ>\<open>string\<close>, whose characters are bytes; a Go slice of bytes is a list of
  8-bit words; a Go map is a partial function.
\<close>

section \<open>Types\<close>

type_synonym byte = "8 word"
type_synonym bytes = "byte list"
type_synonym u8 = "8 word"
type_synonym u16 = "16 word"
type_synonym u32 = "32 word"
type_synonym u64 = "64 word"

text \<open>A \<open>time.Time\<close> is its instant in nanoseconds since the Unix epoch, a
  \<open>time.Duration\<close> a number of nanoseconds.\<close>

type_synonym gotime = int
type_synonym duration = int

type_synonym ('s, 'e, 'a) stateful = "'s \<Rightarrow> ('e + 'a) \<times> 's"

section \<open>Collections of rules\<close>

named_theorems result_splits \<open>case splits for results of operations\<close>
named_theorems codec_simps \<open>rewrite rules for encoders and decoders\<close>

declare sum.splits [result_splits] option.splits [result_splits]
  if_splits [result_splits] prod.splits [result_splits]

section \<open>Results\<close>

definition is_ok :: "'e + 'a \<Rightarrow> bool" where
  "is_ok r \<longleftrightarrow> (case r of Inl _ \<Rightarrow> False | Inr _ \<Rightarrow> True)"

lemma is_ok_simps [simp]: "is_ok (Inr x)" "\<not> is_ok (Inl e)"
  by (simp_all add: is_ok_def)

section \<open>Lists\<close>

text \<open>Go's \<open>append(xs[:i], xs[i+1:]...)\<close>.\<close>

definition remove_at :: "nat \<Rightarrow> 'a list \<Rightarrow> 'a list" where
  "remove_at i xs = take i xs @ drop (Suc i) xs"

lemma length_remove_at [simp]: "i < length xs \<Longrightarrow> length (remove_at i xs) = length xs - 1"
  by (simp add: remove_at_def)

lemma set_remove_at_subset: "set (remove_at i xs) \<subseteq> set xs"
  by (auto simp: remove_at_def dest: in_set_takeD in_set_dropD)

lemma split_at_index: "i < length xs \<Longrightarrow> xs = take i xs @ xs ! i # drop (Suc i) xs"
  by (rule id_take_nth_drop)

lemma distinct_remove_at:
  assumes "distinct xs" and "i < length xs"
  shows "distinct (remove_at i xs)" and "set (remove_at i xs) = set xs - {xs ! i}"
proof -
  let ?a = "take i xs" and ?b = "drop (Suc i) xs"
  have xs: "xs = ?a @ xs ! i # ?b" using assms(2) by (rule split_at_index)
  have "distinct (?a @ xs ! i # ?b)" using assms(1) xs by metis
  moreover have "set xs = set ?a \<union> {xs ! i} \<union> set ?b"
    using arg_cong [OF xs, of set] by auto
  ultimately have "distinct (?a @ ?b) \<and> set (?a @ ?b) = set xs - {xs ! i}" by auto
  then show "distinct (remove_at i xs)" and "set (remove_at i xs) = set xs - {xs ! i}"
    by (simp_all add: remove_at_def)
qed

lemma filter_remove_at_other:
  assumes "i < length xs" and "\<not> P (xs ! i)"
  shows "filter P (remove_at i xs) = filter P xs"
proof -
  have "filter P xs = filter P (take i xs @ xs ! i # drop (Suc i) xs)"
    using split_at_index [OF assms(1)] by metis
  also have "\<dots> = filter P (remove_at i xs)" using assms(2) by (simp add: remove_at_def)
  finally show ?thesis by simp
qed

section \<open>Reachable states and invariants\<close>

text \<open>The reachable states of a component: its initial states and everything its steps lead to.
  The locale is the proof obligation of an invariant; each component interprets it with its own
  step relation, which gives that the invariant holds in every reachable state.\<close>

inductive reach :: "('s \<Rightarrow> bool) \<Rightarrow> ('s \<Rightarrow> 's \<Rightarrow> bool) \<Rightarrow> 's \<Rightarrow> bool"
  for init :: "'s \<Rightarrow> bool" and step :: "'s \<Rightarrow> 's \<Rightarrow> bool" where
  reach_init: "init s \<Longrightarrow> reach init step s"
| reach_step: "reach init step s \<Longrightarrow> step s t \<Longrightarrow> reach init step t"

locale invariant_system =
  fixes init :: "'s \<Rightarrow> bool"
    and step :: "'s \<Rightarrow> 's \<Rightarrow> bool"
    and inv :: "'s \<Rightarrow> bool"
  assumes inv_init: "init s \<Longrightarrow> inv s"
    and inv_step: "inv s \<Longrightarrow> step s t \<Longrightarrow> inv t"
begin

lemma inv_reach: "reach init step s \<Longrightarrow> inv s"
  by (induction rule: reach.induct) (auto intro: inv_init inv_step)

lemma inv_steps: "inv s \<Longrightarrow> step\<^sup>*\<^sup>* s t \<Longrightarrow> inv t"
  by (rotate_tac, induction rule: rtranclp_induct) (auto intro: inv_step)

end

text \<open>A relation between successive states that is a preorder extends from steps to runs.\<close>

locale monotone_system =
  fixes step :: "'s \<Rightarrow> 's \<Rightarrow> bool"
    and le :: "'s \<Rightarrow> 's \<Rightarrow> bool"
  assumes le_refl: "le s s"
    and le_trans: "le s t \<Longrightarrow> le t u \<Longrightarrow> le s u"
    and step_le: "step s t \<Longrightarrow> le s t"
begin

lemma run_le: "step\<^sup>*\<^sup>* s t \<Longrightarrow> le s t"
  by (induction rule: rtranclp_induct) (auto intro: le_refl le_trans step_le)

end

text \<open>A forward simulation: under an invariant, every step of the concrete system is a step of the abstract one
  or leaves the abstract state as it is. Then the abstraction of a reachable state is reachable.\<close>

locale forward_simulation = invariant_system init step inv
  for init :: "'s \<Rightarrow> bool" and step :: "'s \<Rightarrow> 's \<Rightarrow> bool" and inv :: "'s \<Rightarrow> bool" +
  fixes ainit :: "'a \<Rightarrow> bool"
    and astep :: "'a \<Rightarrow> 'a \<Rightarrow> bool"
    and abs_of :: "'s \<Rightarrow> 'a"
  assumes abs_init: "init s \<Longrightarrow> ainit (abs_of s)"
    and abs_step: "inv s \<Longrightarrow> step s t \<Longrightarrow> astep (abs_of s) (abs_of t) \<or> abs_of t = abs_of s"
begin

lemma reach_abs: "reach init step s \<Longrightarrow> reach ainit astep (abs_of s)"
proof (induction rule: reach.induct)
  case (reach_init s)
  then show ?case by (intro reach.reach_init abs_init)
next
  case (reach_step s t)
  then show ?case using abs_step [OF inv_reach, of s t] by (auto intro: reach.reach_step)
qed

end

end
