(* ===== verification/GoLib.thy ===== *)
theory GoLib
  imports Prelude
begin

text \<open>
  The parts of Go's standard library the source computes with: two's-complement wrap-around of
  \<open>int64\<close>, byte views of strings, \<open>encoding/binary\<close> in both byte orders, \<open>encoding/hex\<close>,
  \<open>strconv\<close> in base 10, \<open>big.Int.SetBytes\<close>, and an \<open>io.Reader\<close> with \<open>io.ReadFull\<close>.
\<close>

section \<open>Signed 64-bit integers\<close>

definition wrap64 :: "int \<Rightarrow> int" where
  "wrap64 x = (x + 2 ^ 63) mod 2 ^ 64 - 2 ^ 63"

definition in_int64 :: "int \<Rightarrow> bool" where
  "in_int64 x \<longleftrightarrow> - (2 ^ 63) \<le> x \<and> x < 2 ^ 63"

lemma wrap64_in_range: "in_int64 (wrap64 x)"
  by (simp add: in_int64_def wrap64_def)

lemma wrap64_id [simp]: "in_int64 x \<Longrightarrow> wrap64 x = x"
  by (simp add: in_int64_def wrap64_def mod_pos_pos_trivial)

text \<open>Go's integer division truncates towards zero.\<close>

definition quot :: "int \<Rightarrow> int \<Rightarrow> int" where
  "quot a b = sgn a * sgn b * (\<bar>a\<bar> div \<bar>b\<bar>)"

lemma quot_nonneg [simp]: "0 \<le> a \<Longrightarrow> 0 < b \<Longrightarrow> quot a b = a div b"
  by (auto simp: quot_def sgn_if)

section \<open>Counters\<close>

lemma unat_plus_one: "unat (w :: 'a::len word) + 1 < 2 ^ LENGTH('a) \<Longrightarrow> unat (w + 1) = unat w + 1"
  by (simp add: unat_word_ariths)

lemma unat_succ: "w \<noteq> - 1 \<Longrightarrow> unat (w + 1) = unat w + 1" for w :: "'a::len word"
  using unatSuc [of w] by (metis Suc_eq_plus1 add.commute add_eq_0_iff minus_minus)

section \<open>Strings as bytes\<close>

definition str_bytes :: "string \<Rightarrow> bytes" where
  "str_bytes s = map of_char s"

definition bytes_str :: "bytes \<Rightarrow> string" where
  "bytes_str bs = map (\<lambda>b. char_of (unat b)) bs"

lemma length_str_bytes [simp]: "length (str_bytes s) = length s"
  by (simp add: str_bytes_def)

lemma str_bytes_append [simp]: "str_bytes (s @ t) = str_bytes s @ str_bytes t"
  by (simp add: str_bytes_def)

lemma unat_of_char [simp]: "unat (of_char c :: byte) = of_char c"
proof -
  have "(of_char c :: byte) = of_nat (of_char c)" by (simp add: of_nat_of_char)
  then show ?thesis by (simp add: unat_of_nat take_bit_eq_mod)
qed

lemma bytes_str_str_bytes [simp]: "bytes_str (str_bytes s) = s"
  by (induction s) (simp_all add: str_bytes_def bytes_str_def)

lemma str_bytes_inject [simp]: "str_bytes s = str_bytes t \<longleftrightarrow> s = t"
  by (metis bytes_str_str_bytes)

text \<open>\<open>make([]byte, n)\<close> followed by \<open>copy\<close> of \<open>bs\<close> into it.\<close>

definition copy_into :: "nat \<Rightarrow> bytes \<Rightarrow> bytes" where
  "copy_into n bs = take n (bs @ replicate n 0)"

lemma length_copy_into [simp]: "length (copy_into n bs) = n"
  by (simp add: copy_into_def)

lemma copy_into_same [simp]: "length bs = n \<Longrightarrow> copy_into n bs = bs"
  by (simp add: copy_into_def)

text \<open>\<open>bs[0] ^= 0xFF\<close>, which the callers only execute on a non-empty slice.\<close>

definition flip_first :: "bytes \<Rightarrow> bytes" where
  "flip_first bs = (case bs of [] \<Rightarrow> [] | b # bs' \<Rightarrow> xor b 0xFF # bs')"

section \<open>Fixed-width integers in both byte orders\<close>

text \<open>\<open>le_bytes n k\<close> is the \<open>n\<close>-byte little-endian form of \<open>k\<close>; Go's
  \<open>binary.LittleEndian\<close> and \<open>binary.BigEndian\<close> are the two functions below at the
  width of the integer type.\<close>

primrec le_bytes :: "nat \<Rightarrow> nat \<Rightarrow> bytes" where
  "le_bytes 0 k = []"
| "le_bytes (Suc n) k = of_nat (k mod 256) # le_bytes n (k div 256)"

primrec le_nat :: "bytes \<Rightarrow> nat" where
  "le_nat [] = 0"
| "le_nat (b # bs) = unat b + 256 * le_nat bs"

lemma length_le_bytes [simp]: "length (le_bytes n k) = n"
  by (induction n arbitrary: k) simp_all

lemma unat_of_nat_mod_256 [simp]: "unat (of_nat (k mod 256) :: byte) = k mod 256"
  by (simp add: unat_of_nat take_bit_eq_mod)

lemma le_nat_le_bytes: "le_nat (le_bytes n k) = k mod 256 ^ n"
proof (induction n arbitrary: k)
  case 0
  then show ?case by simp
next
  case (Suc n)
  have "k mod 256 ^ Suc n = k mod 256 + 256 * (k div 256 mod 256 ^ n)"
    by (simp add: mod_mult2_eq)
  with Suc.IH show ?case by simp
qed

lemma le_nat_bound: "le_nat bs < 256 ^ length bs"
proof (induction bs)
  case Nil
  then show ?case by simp
next
  case (Cons b bs)
  have "unat b < 256" using unsigned_less [of b, where ?'a = nat] by simp
  moreover have "256 * le_nat bs + 256 \<le> 256 * 256 ^ length bs"
    using Cons.IH by (metis Suc_leI add_Suc_right mult_le_mono2 mult_Suc_right add.commute plus_1_eq_Suc)
  ultimately show ?case by simp
qed

lemma le_bytes_le_nat: "le_bytes (length bs) (le_nat bs) = bs"
proof (induction bs)
  case Nil
  then show ?case by simp
next
  case (Cons b bs)
  have "unat b < 256" using unsigned_less [of b, where ?'a = nat] by simp
  then show ?case using Cons.IH by simp
qed

definition put_u16_le :: "u16 \<Rightarrow> bytes" where "put_u16_le w = le_bytes 2 (unat w)"
definition put_u32_le :: "u32 \<Rightarrow> bytes" where "put_u32_le w = le_bytes 4 (unat w)"
definition put_u64_le :: "u64 \<Rightarrow> bytes" where "put_u64_le w = le_bytes 8 (unat w)"
definition put_u16_be :: "u16 \<Rightarrow> bytes" where "put_u16_be w = rev (le_bytes 2 (unat w))"
definition put_u64_be :: "u64 \<Rightarrow> bytes" where "put_u64_be w = rev (le_bytes 8 (unat w))"

definition get_u16_le :: "bytes \<Rightarrow> u16" where "get_u16_le bs = of_nat (le_nat bs)"
definition get_u32_le :: "bytes \<Rightarrow> u32" where "get_u32_le bs = of_nat (le_nat bs)"
definition get_u64_le :: "bytes \<Rightarrow> u64" where "get_u64_le bs = of_nat (le_nat bs)"
definition get_u16_be :: "bytes \<Rightarrow> u16" where "get_u16_be bs = of_nat (le_nat (rev bs))"
definition get_u64_be :: "bytes \<Rightarrow> u64" where "get_u64_be bs = of_nat (le_nat (rev bs))"

lemmas put_defs = put_u16_le_def put_u32_le_def put_u64_le_def put_u16_be_def put_u64_be_def
lemmas get_defs = get_u16_le_def get_u32_le_def get_u64_le_def get_u16_be_def get_u64_be_def

lemma length_put [simp]:
  "length (put_u16_le a) = 2" "length (put_u32_le b) = 4" "length (put_u64_le c) = 8"
  "length (put_u16_be a) = 2" "length (put_u64_be c) = 8"
  by (simp_all add: put_defs)

lemma get_put [simp]:
  "get_u16_le (put_u16_le a) = a" "get_u32_le (put_u32_le b) = b" "get_u64_le (put_u64_le c) = c"
  "get_u16_be (put_u16_be a) = a" "get_u64_be (put_u64_be c) = c"
  using unsigned_less [of a, where ?'a = nat] unsigned_less [of b, where ?'a = nat]
    unsigned_less [of c, where ?'a = nat]
  by (simp_all add: put_defs get_defs le_nat_le_bytes)

lemma put_inject [simp]:
  "put_u16_le a = put_u16_le a' \<longleftrightarrow> a = a'" "put_u32_le b = put_u32_le b' \<longleftrightarrow> b = b'"
  "put_u64_be c = put_u64_be c' \<longleftrightarrow> c = c'"
  by (metis get_put(1), metis get_put(2), metis get_put(5))

text \<open>\<open>new(big.Int).SetBytes\<close>: the unsigned big-endian value of a byte slice.\<close>

definition be_nat :: "bytes \<Rightarrow> nat" where
  "be_nat bs = le_nat (rev bs)"

section \<open>Hexadecimal and decimal text\<close>

definition hex_digit :: "nat \<Rightarrow> char" where
  "hex_digit d = ''0123456789abcdef'' ! d"

text \<open>\<open>hex.EncodeToString\<close>: two lower-case digits per byte.\<close>

definition hex_encode :: "bytes \<Rightarrow> string" where
  "hex_encode bs = concat (map (\<lambda>b. [hex_digit (unat b div 16), hex_digit (unat b mod 16)]) bs)"

text \<open>\<open>hex.DecodeString\<close>: both cases are accepted, an odd length or another character is an
  error.\<close>

definition hex_val :: "char \<Rightarrow> nat option" where
  "hex_val c = (let n = of_char c :: nat in
     if 48 \<le> n \<and> n \<le> 57 then Some (n - 48)
     else if 97 \<le> n \<and> n \<le> 102 then Some (n - 87)
     else if 65 \<le> n \<and> n \<le> 70 then Some (n - 55)
     else None)"

fun hex_decode :: "string \<Rightarrow> bytes option" where
  "hex_decode [] = Some []"
| "hex_decode [c] = None"
| "hex_decode (c # d # s) =
     (case (hex_val c, hex_val d, hex_decode s) of
        (Some h, Some l, Some bs) \<Rightarrow> Some (of_nat (16 * h + l) # bs)
      | _ \<Rightarrow> None)"

lemma hex_val_hex_digit: "d < 16 \<Longrightarrow> hex_val (hex_digit d) = Some d"
proof -
  have "\<forall>d \<in> {0..<16}. hex_val (hex_digit d) = Some d" by code_simp
  then show "d < 16 \<Longrightarrow> hex_val (hex_digit d) = Some d" by simp
qed

lemma hex_encode_simps [simp]:
  "hex_encode [] = []"
  "hex_encode (b # bs) = hex_digit (unat b div 16) # hex_digit (unat b mod 16) # hex_encode bs"
  by (simp_all add: hex_encode_def)

lemma hex_decode_encode [simp]: "hex_decode (hex_encode bs) = Some bs"
proof (induction bs)
  case Nil
  then show ?case by simp
next
  case (Cons b bs)
  have "unat b < 256" using unsigned_less [of b, where ?'a = nat] by simp
  then have "hex_val (hex_digit (unat b div 16)) = Some (unat b div 16)"
    by (intro hex_val_hex_digit) simp
  moreover have "hex_val (hex_digit (unat b mod 16)) = Some (unat b mod 16)"
    by (intro hex_val_hex_digit) simp
  ultimately show ?case using Cons.IH by simp
qed

lemma hex_encode_inject [simp]: "hex_encode a = hex_encode b \<longleftrightarrow> a = b"
  by (metis hex_decode_encode option.inject)

lemma length_hex_encode [simp]: "length (hex_encode bs) = 2 * length bs"
  by (induction bs) simp_all

lemma hex_encode_Nil [simp]: "hex_encode b = [] \<longleftrightarrow> b = []"
  by (cases b) simp_all

text \<open>\<open>strconv.FormatUint\<close> and \<open>strconv.FormatInt\<close> in base 10.\<close>

function format_nat :: "nat \<Rightarrow> string" where
  "format_nat n = (if n < 10 then [hex_digit n] else format_nat (n div 10) @ [hex_digit (n mod 10)])"
  by pat_completeness auto
termination by (relation "measure id") auto

declare format_nat.simps [simp del]

definition format_int :: "int \<Rightarrow> string" where
  "format_int i = (if i < 0 then ''-'' @ format_nat (nat (- i)) else format_nat (nat i))"

section \<open>Readers\<close>

text \<open>An \<open>io.Reader\<close> is the bytes it will still deliver and the error it reports after the
  last one. \<open>io.ReadFull\<close> reports that error if it read nothing, and
  \<open>io.ErrUnexpectedEOF\<close> in place of \<open>io.EOF\<close> if it read too little. \<open>binary.Read\<close> of
  a fixed-size value is \<open>io.ReadFull\<close> of its size followed by decoding.\<close>

datatype io_error = EOF | ErrUnexpectedEOF | Transport string

record reader =
  rd_data :: bytes
  rd_end :: io_error

definition bytes_reader :: "bytes \<Rightarrow> reader" where
  "bytes_reader bs = \<lparr>rd_data = bs, rd_end = EOF\<rparr>"

definition ReadFull :: "nat \<Rightarrow> reader \<Rightarrow> (io_error + bytes) \<times> reader" where
  "ReadFull n r =
     (if n \<le> length (rd_data r)
      then (Inr (take n (rd_data r)), r\<lparr>rd_data := drop n (rd_data r)\<rparr>)
      else (Inl (if rd_data r \<noteq> [] \<and> rd_end r = EOF then ErrUnexpectedEOF else rd_end r),
            r\<lparr>rd_data := []\<rparr>))"

lemma ReadFull_append [simp]:
  "length bs = n \<Longrightarrow>
   ReadFull n \<lparr>rd_data = bs @ rest, rd_end = e\<rparr> = (Inr bs, \<lparr>rd_data = rest, rd_end = e\<rparr>)"
  by (simp add: ReadFull_def)

lemma ReadFull_ok:
  "ReadFull n r = (Inr bs, r') \<Longrightarrow>
     length bs = n \<and> rd_data r = bs @ rd_data r' \<and> rd_end r' = rd_end r"
  by (auto simp: ReadFull_def split: if_splits)

section \<open>Prefix codes\<close>

text \<open>The byte strings that get hashed or signed are concatenations of self-delimiting fields.
  A field encoder with the law below can be cancelled from the left of two equal
  concatenations, so a concatenation of such fields determines every field.\<close>

locale prefix_code =
  fixes enc :: "'a \<Rightarrow> bytes"
    and valid :: "'a \<Rightarrow> bool"
  assumes cancel: "valid x \<Longrightarrow> valid y \<Longrightarrow> enc x @ r = enc y @ s \<Longrightarrow> x = y \<and> r = s"
begin

lemma cancel_iff: "valid x \<Longrightarrow> valid y \<Longrightarrow> enc x @ r = enc y @ s \<longleftrightarrow> x = y \<and> r = s"
  using cancel by blast

lemma enc_inj: "valid x \<Longrightarrow> valid y \<Longrightarrow> enc x = enc y \<longleftrightarrow> x = y"
  using cancel [of x y "[]" "[]"] by auto

lemma concat_inj:
  "length xs = length ys \<Longrightarrow> \<forall>x \<in> set xs. valid x \<Longrightarrow> \<forall>y \<in> set ys. valid y \<Longrightarrow>
   concat (map enc xs) = concat (map enc ys) \<longleftrightarrow> xs = ys"
  by (induction xs ys rule: list_induct2) (auto dest: cancel)

end

text \<open>A field written as an 8-byte big-endian length and the bytes of the string.\<close>

definition put_string_be :: "string \<Rightarrow> bytes" where
  "put_string_be s = put_u64_be (of_nat (length s)) @ str_bytes s"

abbreviation len64 :: "string \<Rightarrow> bool" where
  "len64 s \<equiv> length s < 2 ^ 64"

lemma put_string_be_cancel:
  assumes "len64 s" and "len64 t" and eq: "put_string_be s @ x = put_string_be t @ y"
  shows "s = t \<and> x = y"
proof -
  from eq have "put_u64_be (of_nat (length s)) = put_u64_be (of_nat (length t))"
    and rest: "str_bytes s @ x = str_bytes t @ y"
    by (simp_all add: put_string_be_def append_eq_append_conv)
  then have "(of_nat (length s) :: u64) = of_nat (length t)" by simp
  then have "unat (of_nat (length s) :: u64) = unat (of_nat (length t) :: u64)" by simp
  then have "length s = length t"
    using assms(1,2) by (simp add: unat_of_nat take_bit_eq_mod)
  with rest show ?thesis by (simp add: append_eq_append_conv)
qed

interpretation u64_field: prefix_code put_u64_be "\<lambda>_. True"
  by unfold_locales (simp add: append_eq_append_conv)

interpretation string_field: prefix_code put_string_be len64
  by unfold_locales (rule put_string_be_cancel)

end
