(* ===== verification/Sha256.thy ===== *)
theory Sha256
  imports GoLib
begin

unbundle bit_operations_syntax

text \<open>
  SHA-256 (FIPS 180-4), the function behind Go's \<open>crypto/sha256\<close>. The components hash
  with \<open>sha256\<close>; what they rely on is that the digest has 32 bytes.
\<close>

text \<open>The constants of the standard: the first 32 bits of the fractional parts of the cube roots
  of the first 64 primes, and of the square roots of the first 8. \<open>int_root k b t a\<close> extends
  \<open>a\<close> by its lower \<open>b\<close> bits to the integer \<open>k\<close>-th root of \<open>t\<close>; all roots taken here
  have at most 35 bits.\<close>

primrec int_root :: "nat \<Rightarrow> nat \<Rightarrow> nat \<Rightarrow> nat \<Rightarrow> nat" where
  "int_root k 0 t a = a"
| "int_root k (Suc b) t a = (let a' = a + 2 ^ b in int_root k b t (if a' ^ k \<le> t then a' else a))"

definition first_primes :: "nat list" where
  "first_primes = filter (\<lambda>n. list_all (\<lambda>d. n mod d \<noteq> 0) [2..<n]) [2..<312]"

definition sha_K :: "u32 list" where
  "sha_K = map (\<lambda>p. of_nat (int_root 3 35 (p * 2 ^ 96) 0)) first_primes"

type_synonym sha_regs = "u32 \<times> u32 \<times> u32 \<times> u32 \<times> u32 \<times> u32 \<times> u32 \<times> u32"

definition sha_init :: "nat \<Rightarrow> u32" where
  "sha_init i = of_nat (int_root 2 35 (first_primes ! i * 2 ^ 64) 0)"

definition sha_H0 :: sha_regs where
  "sha_H0 = (sha_init 0, sha_init 1, sha_init 2, sha_init 3,
     sha_init 4, sha_init 5, sha_init 6, sha_init 7)"

definition rotr32 :: "nat \<Rightarrow> u32 \<Rightarrow> u32" where
  "rotr32 n x = drop_bit n x OR push_bit (32 - n) x"

definition small_sigma0 :: "u32 \<Rightarrow> u32" where
  "small_sigma0 x = rotr32 7 x XOR rotr32 18 x XOR drop_bit 3 x"
definition small_sigma1 :: "u32 \<Rightarrow> u32" where
  "small_sigma1 x = rotr32 17 x XOR rotr32 19 x XOR drop_bit 10 x"
definition big_sigma0 :: "u32 \<Rightarrow> u32" where
  "big_sigma0 x = rotr32 2 x XOR rotr32 13 x XOR rotr32 22 x"
definition big_sigma1 :: "u32 \<Rightarrow> u32" where
  "big_sigma1 x = rotr32 6 x XOR rotr32 11 x XOR rotr32 25 x"

definition sha_pad :: "bytes \<Rightarrow> bytes" where
  "sha_pad m = m @ [0x80] @ replicate ((119 - length m mod 64) mod 64) 0
     @ put_u64_be (of_nat (8 * length m))"

fun word32s_be :: "bytes \<Rightarrow> u32 list" where
  "word32s_be (a # b # c # d # bs) = of_nat (le_nat [d, c, b, a]) # word32s_be bs"
| "word32s_be _ = []"

text \<open>The message schedule, newest word first: \<open>n\<close> more words are put in front.\<close>

primrec sha_expand :: "nat \<Rightarrow> u32 list \<Rightarrow> u32 list" where
  "sha_expand 0 ws = ws"
| "sha_expand (Suc n) ws =
     sha_expand n ((small_sigma1 (ws ! 1) + ws ! 6 + small_sigma0 (ws ! 14) + ws ! 15) # ws)"

fun sha_round :: "u32 \<times> u32 \<Rightarrow> sha_regs \<Rightarrow> sha_regs" where
  "sha_round (k, w) (a, b, c, d, e, f, g, h) =
     (let t1 = h + big_sigma1 e + ((e AND f) XOR (NOT e AND g)) + k + w;
          t2 = big_sigma0 a + ((a AND b) XOR (a AND c) XOR (b AND c))
      in (t1 + t2, a, b, c, d + t1, e, f, g))"

fun sha_add :: "sha_regs \<Rightarrow> sha_regs \<Rightarrow> sha_regs" where
  "sha_add (a, b, c, d, e, f, g, h) (a', b', c', d', e', f', g', h') =
     (a + a', b + b', c + c', d + d', e + e', f + f', g + g', h + h')"

definition sha_compress :: "sha_regs \<Rightarrow> bytes \<Rightarrow> sha_regs" where
  "sha_compress hs block =
     (let ws = rev (sha_expand 48 (rev (word32s_be block)))
      in sha_add hs (fold sha_round (zip sha_K ws) hs))"

function sha_blocks :: "sha_regs \<Rightarrow> bytes \<Rightarrow> sha_regs" where
  "sha_blocks hs bs = (if length bs < 64 then hs else sha_blocks (sha_compress hs (take 64 bs)) (drop 64 bs))"
  by pat_completeness auto
termination by (relation "measure (\<lambda>(hs, bs). length bs)") auto

declare sha_blocks.simps [simp del]

definition put_u32_be :: "u32 \<Rightarrow> bytes" where "put_u32_be w = rev (le_bytes 4 (unat w))"

fun sha_digest :: "sha_regs \<Rightarrow> bytes" where
  "sha_digest (a, b, c, d, e, f, g, h) = concat (map put_u32_be [a, b, c, d, e, f, g, h])"

text \<open>\<open>sha256.Sum256\<close>, and equally \<open>sha256.New()\<close> followed by \<open>Write\<close> of the parts of \<open>m\<close>
  in order and \<open>Sum(nil)\<close>.\<close>

definition sha256 :: "bytes \<Rightarrow> bytes" where
  "sha256 m = sha_digest (sha_blocks sha_H0 (sha_pad m))"

lemma length_sha_digest: "length (sha_digest r) = 32"
  by (cases r rule: sha_digest.cases) (simp add: put_u32_be_def)

lemma length_sha256 [simp]: "length (sha256 m) = 32"
  by (simp add: sha256_def length_sha_digest)

end
