(* ===== verification/AvailTypes.thy ===== *)
theory AvailTypes
  imports Sha256
begin

text \<open>
  The protocol objects of \<open>availability/availability-contracts/types/types.go\<close>. A Go string
  type with named constants is a datatype with one constructor per constant and a last one for
  every other string, so that the zero value and unknown values stay representable. Field names
  are the source's with a prefix per struct.
\<close>

type_synonym ContractID = string
type_synonym EpochID = string
type_synonym ChallengeID = string

datatype ContractState =
    Proposed | Agreed | Transferring | Ready | Active
  | Completed | Expired | Terminated | Disputed | OtherState string

fun IsTerminal :: "ContractState \<Rightarrow> bool" where
  "IsTerminal s \<longleftrightarrow> s = Completed \<or> s = Expired \<or> s = Terminated \<or> s = Disputed"

datatype AvailabilityStatus = AvailabilityPass | AvailabilityFail | AvailabilityOther string

text \<open>The text of a status, as \<open>string(status)\<close> gives it.\<close>

fun status_string :: "AvailabilityStatus \<Rightarrow> string" where
  "status_string AvailabilityPass = ''PASS''"
| "status_string AvailabilityFail = ''FAIL''"
| "status_string (AvailabilityOther s) = s"

datatype EpochStatus = EpochActive | EpochEnded

record Epoch =
  ep_ID :: EpochID
  ep_ProviderID :: string
  ep_FileID :: string
  ep_TotalChunks :: int
  ep_ChallengeCounter :: u64
  ep_Uncovered :: "int list"
  ep_Status :: EpochStatus
  ep_RoundNumber :: u64
  ep_CreatedAt :: gotime

record EpochState =
  es_EpochID :: EpochID
  es_ChallengeCounter :: u64
  es_UncoveredChunkCount :: nat
  es_EpochStatus :: EpochStatus
  es_RoundNumber :: u64

record Challenge =
  ch_ChallengeID :: ChallengeID
  ch_ContractID :: ContractID
  ch_ProviderID :: string
  ch_FileID :: string
  ch_EpochID :: EpochID
  ch_ChunkID :: int
  ch_Nonce :: bytes
  ch_ChallengeCounter :: u64
  ch_RoundNumber :: u64
  ch_TriggerStatus :: bool
  ch_CreatedAt :: gotime

record ChallengeResult =
  cr_ChallengeID :: ChallengeID
  cr_Succeeded :: bool
  cr_RecordedAt :: gotime

record AvailabilityResult =
  ar_ContractID :: ContractID
  ar_ProviderID :: string
  ar_Period :: u64
  ar_ChallengeID :: ChallengeID
  ar_Result :: AvailabilityStatus
  ar_Timestamp :: gotime

datatype SettlementStatus =
    SettlementPending | SettlementCompleted | SettlementWithheld | SettlementExpired
  | SettlementTerminated | OtherSettlement string

text \<open>The zero \<open>time.Time\<close>, 1 January of year 1, in nanoseconds before the Unix epoch.\<close>

definition zero_time :: gotime where
  "zero_time = -62135596800000000000"

record SettlementState =
  st_Status :: SettlementStatus
  st_ReleasedAmount :: int
  st_WithheldAmount :: int
  st_SuccessfulProofs :: nat
  st_FailedProofs :: nat
  st_FinalizedAt :: gotime

text \<open>\<open>SettlementState{}\<close>.\<close>

definition zero_settlement :: SettlementState where
  "zero_settlement = \<lparr>st_Status = OtherSettlement [], st_ReleasedAmount = 0, st_WithheldAmount = 0,
     st_SuccessfulProofs = 0, st_FailedProofs = 0, st_FinalizedAt = zero_time\<rparr>"

record AvailabilityContract =
  ac_ID :: ContractID
  ac_PublisherID :: string
  ac_ProviderID :: string
  ac_FileID :: string
  ac_TotalChunks :: int
  ac_PaymentAmount :: int
  ac_FundedAmount :: int
  ac_Duration :: duration
  ac_CreatedAt :: gotime
  ac_EndsAt :: gotime
  ac_State :: ContractState
  ac_Challenges :: "ChallengeID list"
  ac_Results :: "ChallengeResult list"
  ac_AvailabilityResults :: "AvailabilityResult list"
  ac_Settlement :: SettlementState

end
