(* ===== verification/Epochs.thy ===== *)
theory Epochs
  imports AvailTypes
begin

text \<open>
  The package \<open>challenge\<close> of \<open>availability/availability-contracts\<close>: epochs
  (\<open>epoch.go\<close>), nonces and hashes (\<open>randomness.go\<close>) and challenges (\<open>challenge.go\<close>).
  The package-level \<open>epochStore\<close> is the record \<open>epoch_store\<close>. The bytes delivered by
  \<open>crypto/rand\<close> and the clock readings are arguments; \<open>None\<close> is a failing \<open>rand.Read\<close>.
\<close>

section \<open>State and errors\<close>

record epoch_store =
  epochs :: "EpochID \<rightharpoonup> Epoch"
  latest :: "string \<rightharpoonup> EpochID"

definition empty_epoch_store :: epoch_store where
  "empty_epoch_store = \<lparr>epochs = Map.empty, latest = Map.empty\<rparr>"

datatype challenge_error =
    ProviderAndFileRequired
  | TotalChunksNotPositive
  | RandFailed
  | EpochAndHashRequired
  | UnknownEpoch EpochID
  | EpochNotActive EpochID
  | NoUncoveredChunks
  | NoPriorEpoch
  | LatestEpochUnavailable
  | EpochIDRequired
  | ChallengeIDsRequired
  | CounterMismatch u64 u64
  | WrapErr string challenge_error

section \<open>Randomness\<close>

definition GenerateNonce :: "bytes option \<Rightarrow> EpochID \<Rightarrow> u64 \<Rightarrow> challenge_error + bytes" where
  "GenerateNonce rnd epochID challengeCounter =
     (if epochID = [] then Inl EpochIDRequired
      else case rnd of None \<Rightarrow> Inl RandFailed | Some nonce \<Rightarrow> Inr nonce)"

definition GenerateChunkHash :: "string \<Rightarrow> string \<Rightarrow> EpochID \<Rightarrow> u64 \<Rightarrow> bytes \<Rightarrow> bytes" where
  "GenerateChunkHash providerID fileID epochID challengeCounter nonce =
     sha256 (str_bytes providerID @ str_bytes fileID @ str_bytes epochID
       @ put_u64_be challengeCounter @ nonce @ str_bytes ''CHUNK'')"

definition GenerateRoundHash :: "string \<Rightarrow> string \<Rightarrow> EpochID \<Rightarrow> u64 \<Rightarrow> bytes \<Rightarrow> u64 \<Rightarrow> bytes" where
  "GenerateRoundHash providerID fileID epochID challengeCounter nonce roundNumber =
     sha256 (str_bytes providerID @ str_bytes fileID @ str_bytes epochID
       @ put_u64_be challengeCounter @ nonce @ put_u64_be roundNumber @ str_bytes ''ROUND'')"

section \<open>Epochs\<close>

text \<open>The key \<open>providerID + "\x00" + fileID\<close> of the map \<open>latest\<close>.\<close>

definition epoch_key :: "string \<Rightarrow> string \<Rightarrow> string" where
  "epoch_key providerID fileID = providerID @ CHR 0x00 # fileID"

definition CreateEpoch ::
  "bytes option \<Rightarrow> gotime \<Rightarrow> string \<Rightarrow> string \<Rightarrow> int
     \<Rightarrow> (epoch_store, challenge_error, EpochID) stateful" where
  "CreateEpoch rnd now providerID fileID totalChunks s =
     (if providerID = [] \<or> fileID = [] then (Inl ProviderAndFileRequired, s)
      else if totalChunks \<le> 0 then (Inl TotalChunksNotPositive, s)
      else case rnd of
        None \<Rightarrow> (Inl RandFailed, s)
      | Some randomID \<Rightarrow>
          let epochID = ''epoch-'' @ hex_encode randomID;
              uncovered = map int [0..<nat totalChunks];
              key = epoch_key providerID fileID;
              (roundNumber, eps) =
                (case latest s key of
                   None \<Rightarrow> (0, epochs s)
                 | Some previousID \<Rightarrow>
                     (case epochs s previousID of
                        None \<Rightarrow> (0, epochs s)
                      | Some previous \<Rightarrow>
                          (ep_RoundNumber previous + 1,
                           (epochs s)(previousID \<mapsto> previous\<lparr>ep_Status := EpochEnded\<rparr>))));
              epoch = \<lparr>ep_ID = epochID, ep_ProviderID = providerID, ep_FileID = fileID,
                 ep_TotalChunks = totalChunks, ep_ChallengeCounter = 0, ep_Uncovered = uncovered,
                 ep_Status = EpochActive, ep_RoundNumber = roundNumber, ep_CreatedAt = now\<rparr>
          in (Inr epochID,
              s\<lparr>epochs := eps(epochID \<mapsto> epoch), latest := (latest s)(key \<mapsto> epochID)\<rparr>))"

definition SelectUncoveredChunk ::
  "EpochID \<Rightarrow> bytes \<Rightarrow> (epoch_store, challenge_error, int) stateful" where
  "SelectUncoveredChunk epochID chunkHash s =
     (if epochID = [] \<or> chunkHash = [] then (Inl EpochAndHashRequired, s)
      else case epochs s epochID of
        None \<Rightarrow> (Inl (UnknownEpoch epochID), s)
      | Some epoch \<Rightarrow>
          if ep_Status epoch \<noteq> EpochActive then (Inl (EpochNotActive epochID), s)
          else if ep_Uncovered epoch = [] then (Inl NoUncoveredChunks, s)
          else
            let selectedIndex = be_nat chunkHash mod length (ep_Uncovered epoch);
                chunkID = ep_Uncovered epoch ! selectedIndex
            in (Inr chunkID,
                s\<lparr>epochs := (epochs s)(epochID \<mapsto>
                    epoch\<lparr>ep_Uncovered := remove_at selectedIndex (ep_Uncovered epoch),
                          ep_ChallengeCounter := ep_ChallengeCounter epoch + 1\<rparr>)\<rparr>))"

definition CheckRoundTrigger :: "bytes \<Rightarrow> bool" where
  "CheckRoundTrigger roundHash \<longleftrightarrow> roundHash \<noteq> [] \<and> be_nat roundHash mod 3 = 0"

definition StartNextEpoch ::
  "bytes option \<Rightarrow> gotime \<Rightarrow> string \<Rightarrow> string \<Rightarrow> (epoch_store, challenge_error, EpochID) stateful" where
  "StartNextEpoch rnd now providerID fileID s =
     (if providerID = [] \<or> fileID = [] then (Inl ProviderAndFileRequired, s)
      else case latest s (epoch_key providerID fileID) of
        None \<Rightarrow> (Inl NoPriorEpoch, s)
      | Some previousID \<Rightarrow>
          (case epochs s previousID of
             None \<Rightarrow> (Inl LatestEpochUnavailable, s)
           | Some previous \<Rightarrow> CreateEpoch rnd now providerID fileID (ep_TotalChunks previous) s))"

definition GetEpochState :: "EpochID \<Rightarrow> epoch_store \<Rightarrow> challenge_error + EpochState" where
  "GetEpochState epochID s =
     (if epochID = [] then Inl EpochIDRequired
      else case epochs s epochID of
        None \<Rightarrow> Inl (UnknownEpoch epochID)
      | Some epoch \<Rightarrow> Inr \<lparr>es_EpochID = ep_ID epoch,
          es_ChallengeCounter = ep_ChallengeCounter epoch,
          es_UncoveredChunkCount = length (ep_Uncovered epoch),
          es_EpochStatus = ep_Status epoch, es_RoundNumber = ep_RoundNumber epoch\<rparr>)"

section \<open>Challenges\<close>

definition challengeID :: "string \<Rightarrow> EpochID \<Rightarrow> u64 \<Rightarrow> bytes \<Rightarrow> ChallengeID" where
  "challengeID contractID epochID counter nonce =
     ''challenge-'' @ hex_encode (sha256 (str_bytes (contractID @ ''|'' @ epochID @ ''|''
       @ format_nat (unat counter) @ ''|'') @ nonce))"

definition GenerateNextChallenge ::
  "bytes option \<Rightarrow> gotime \<Rightarrow> string \<Rightarrow> string \<Rightarrow> string \<Rightarrow> EpochID \<Rightarrow> u64 \<Rightarrow> u64
     \<Rightarrow> (epoch_store, challenge_error, Challenge) stateful" where
  "GenerateNextChallenge rnd now contractID providerID fileID epochID challengeCounter roundNumber s =
     (if contractID = [] \<or> providerID = [] \<or> fileID = [] \<or> epochID = []
      then (Inl ChallengeIDsRequired, s)
      else case GetEpochState epochID s of
        Inl e \<Rightarrow> (Inl (WrapErr ''get epoch state'' e), s)
      | Inr epochState \<Rightarrow>
          if es_ChallengeCounter epochState \<noteq> challengeCounter
          then (Inl (CounterMismatch challengeCounter (es_ChallengeCounter epochState)), s)
          else case GenerateNonce rnd epochID challengeCounter of
            Inl e \<Rightarrow> (Inl (WrapErr ''generate nonce'' e), s)
          | Inr nonce \<Rightarrow>
              let chunkHash = GenerateChunkHash providerID fileID epochID challengeCounter nonce
              in case SelectUncoveredChunk epochID chunkHash s of
                   (Inl e, s') \<Rightarrow> (Inl (WrapErr ''select uncovered chunk'' e), s')
                 | (Inr chunkID, s') \<Rightarrow>
                     let roundHash = GenerateRoundHash providerID fileID epochID challengeCounter
                                       nonce roundNumber
                     in (Inr \<lparr>ch_ChallengeID = challengeID contractID epochID challengeCounter nonce,
                              ch_ContractID = contractID, ch_ProviderID = providerID,
                              ch_FileID = fileID, ch_EpochID = epochID, ch_ChunkID = chunkID,
                              ch_Nonce = nonce, ch_ChallengeCounter = challengeCounter,
                              ch_RoundNumber = roundNumber,
                              ch_TriggerStatus = CheckRoundTrigger roundHash,
                              ch_CreatedAt = now\<rparr>, s'))"

definition CreateChallenge ::
  "bytes option \<Rightarrow> bytes option \<Rightarrow> gotime \<Rightarrow> gotime \<Rightarrow> string \<Rightarrow> string \<Rightarrow> string \<Rightarrow> int \<Rightarrow> u64
     \<Rightarrow> (epoch_store, challenge_error, Challenge) stateful" where
  "CreateChallenge rnd_id rnd_nonce now_epoch now contractID providerID fileID totalChunks roundNumber s =
     (if contractID = [] \<or> providerID = [] \<or> fileID = [] then (Inl ChallengeIDsRequired, s)
      else case CreateEpoch rnd_id now_epoch providerID fileID totalChunks s of
        (Inl e, s') \<Rightarrow> (Inl (WrapErr ''create epoch'' e), s')
      | (Inr epochID, s') \<Rightarrow>
          GenerateNextChallenge rnd_nonce now contractID providerID fileID epochID 0 roundNumber s')"

section \<open>Well-formed epochs\<close>

text \<open>The chunks still to be challenged are distinct chunk numbers of the file, and together
  with the number of challenges already drawn they add up to the chunk count.\<close>

definition epoch_wf :: "Epoch \<Rightarrow> bool" where
  "epoch_wf e \<longleftrightarrow>
     0 < ep_TotalChunks e \<and> in_int64 (ep_TotalChunks e)
     \<and> distinct (ep_Uncovered e) \<and> set (ep_Uncovered e) \<subseteq> {0..<ep_TotalChunks e}
     \<and> unat (ep_ChallengeCounter e) + length (ep_Uncovered e) = nat (ep_TotalChunks e)"

text \<open>The store: every epoch is well-formed and filed under its own ID, and the active epochs
  are exactly the ones that \<open>latest\<close> points to, under the key of their provider and file.\<close>

definition epoch_key_of :: "Epoch \<Rightarrow> string" where
  "epoch_key_of e = epoch_key (ep_ProviderID e) (ep_FileID e)"

definition epoch_store_inv :: "epoch_store \<Rightarrow> bool" where
  "epoch_store_inv s \<longleftrightarrow>
     (\<forall>i e. epochs s i = Some e \<longrightarrow> epoch_wf e \<and> ep_ID e = i)
     \<and> (\<forall>i e. epochs s i = Some e \<and> ep_Status e = EpochActive \<longrightarrow> latest s (epoch_key_of e) = Some i)
     \<and> (\<forall>k i. latest s k = Some i \<longrightarrow>
          (\<exists>e. epochs s i = Some e \<and> ep_Status e = EpochActive \<and> epoch_key_of e = k))"

lemma epoch_store_invD:
  assumes "epoch_store_inv s"
  shows "epochs s i = Some e \<Longrightarrow> epoch_wf e" and "epochs s i = Some e \<Longrightarrow> ep_ID e = i"
    and "epochs s i = Some e \<Longrightarrow> ep_Status e = EpochActive \<Longrightarrow> latest s (epoch_key_of e) = Some i"
    and "latest s k = Some i \<Longrightarrow>
      \<exists>e. epochs s i = Some e \<and> ep_Status e = EpochActive \<and> epoch_key_of e = k"
  using assms unfolding epoch_store_inv_def by blast+

lemma epoch_wf_new:
  assumes "0 < n" and "in_int64 n" and "ep_TotalChunks e = n" and "ep_ChallengeCounter e = 0"
    and "ep_Uncovered e = map int [0..<nat n]"
  shows "epoch_wf e"
  using assms by (auto simp: epoch_wf_def distinct_map)

lemma SelectUncoveredChunk_ok:
  assumes sel: "SelectUncoveredChunk i h s = (Inr c, s')"
  obtains e e' where "epochs s i = Some e" and "ep_Status e = EpochActive"
    and "c \<in> set (ep_Uncovered e)" and "s' = s\<lparr>epochs := (epochs s)(i \<mapsto> e')\<rparr>"
    and "e' = e\<lparr>ep_Uncovered := ep_Uncovered e', ep_ChallengeCounter := ep_ChallengeCounter e + 1\<rparr>"
    and "length (ep_Uncovered e) = Suc (length (ep_Uncovered e'))"
    and "distinct (ep_Uncovered e) \<Longrightarrow>
      distinct (ep_Uncovered e') \<and> set (ep_Uncovered e') = set (ep_Uncovered e) - {c}"
proof -
  from sel obtain e where e: "epochs s i = Some e" "ep_Status e = EpochActive" "ep_Uncovered e \<noteq> []"
    by (auto simp: SelectUncoveredChunk_def Let_def split: if_splits option.splits)
  define k where "k = be_nat h mod length (ep_Uncovered e)"
  define e' where "e' = e\<lparr>ep_Uncovered := remove_at k (ep_Uncovered e),
    ep_ChallengeCounter := ep_ChallengeCounter e + 1\<rparr>"
  have k: "k < length (ep_Uncovered e)" using e(3) by (simp add: k_def)
  from sel e have c: "c = ep_Uncovered e ! k" and s': "s' = s\<lparr>epochs := (epochs s)(i \<mapsto> e')\<rparr>"
    by (auto simp: SelectUncoveredChunk_def Let_def k_def e'_def split: if_splits)
  show thesis
    by (rule that [OF e(1,2) _ s'])
      (use k c in \<open>auto simp: e'_def distinct_remove_at\<close>)
qed

lemma SelectUncoveredChunk_err:
  "SelectUncoveredChunk i h s = (Inl err, s') \<Longrightarrow> s' = s"
  by (auto simp: SelectUncoveredChunk_def Let_def split: if_splits option.splits)

lemma epoch_wf_select:
  assumes wf: "epoch_wf e" and ne: "length (ep_Uncovered e) = Suc (length (ep_Uncovered e'))"
    and e': "e' = e\<lparr>ep_Uncovered := ep_Uncovered e', ep_ChallengeCounter := ep_ChallengeCounter e + 1\<rparr>"
    and us: "distinct (ep_Uncovered e')" "set (ep_Uncovered e') = set (ep_Uncovered e) - {c}"
  shows "epoch_wf e'"
proof -
  have flds: "ep_TotalChunks e' = ep_TotalChunks e" "ep_ChallengeCounter e' = ep_ChallengeCounter e + 1"
    by (subst e', simp)+
  have "unat (ep_ChallengeCounter e) < nat (ep_TotalChunks e)"
    using wf ne by (simp add: epoch_wf_def)
  moreover have "nat (ep_TotalChunks e) < 2 ^ 63"
    using wf by (simp add: epoch_wf_def in_int64_def nat_less_iff)
  ultimately have "unat (ep_ChallengeCounter e + 1) = unat (ep_ChallengeCounter e) + 1"
    by (intro unat_plus_one) simp
  then show ?thesis using wf ne us flds by (auto simp: epoch_wf_def)
qed

section \<open>Every operation keeps the store well-formed\<close>

text \<open>An ID drawn by \<open>CreateEpoch\<close> is fresh when the store has no epoch under it.\<close>

definition fresh_epoch :: "bytes option \<Rightarrow> epoch_store \<Rightarrow> bool" where
  "fresh_epoch rnd s \<longleftrightarrow> (\<forall>r. rnd = Some r \<longrightarrow> epochs s (''epoch-'' @ hex_encode r) = None)"

lemma CreateEpoch_ok:
  assumes ok: "CreateEpoch rnd now p f n s = (Inr i, s')"
  obtains r e eps where "rnd = Some r" and "i = ''epoch-'' @ hex_encode r" and "p \<noteq> []" and "f \<noteq> []"
    and "0 < n" and "ep_ID e = i" and "ep_ProviderID e = p" and "ep_FileID e = f"
    and "ep_TotalChunks e = n" and "ep_ChallengeCounter e = 0" and "ep_Status e = EpochActive"
    and "ep_Uncovered e = map int [0..<nat n]"
    and "s' = s\<lparr>epochs := eps(i \<mapsto> e), latest := (latest s)(epoch_key p f \<mapsto> i)\<rparr>"
    and "\<And>j. latest s (epoch_key p f) \<noteq> Some j \<Longrightarrow> eps j = epochs s j"
    and "\<And>j. latest s (epoch_key p f) = Some j \<Longrightarrow>
      eps j = map_option (\<lambda>e. e\<lparr>ep_Status := EpochEnded\<rparr>) (epochs s j)"
  using ok
  by (auto simp: CreateEpoch_def Let_def split: if_splits option.splits prod.splits intro!: that)

lemma CreateEpoch_err: "CreateEpoch rnd now p f n s = (Inl err, s') \<Longrightarrow> s' = s"
  by (auto simp: CreateEpoch_def Let_def split: if_splits option.splits prod.splits)

lemma CreateEpoch_inv:
  assumes inv: "epoch_store_inv s" and fresh: "fresh_epoch rnd s" and n: "in_int64 n"
    and run: "CreateEpoch rnd now p f n s = (res, s')"
  shows "epoch_store_inv s'"
proof (cases res)
  case (Inl err)
  with run inv show ?thesis by (auto dest: CreateEpoch_err)
next
  case (Inr i)
  from run [unfolded Inr] show ?thesis
  proof (rule CreateEpoch_ok)
    fix r e eps
    assume r: "rnd = Some r" "i = ''epoch-'' @ hex_encode r" and "0 < n"
      and e: "ep_ID e = i" "ep_ProviderID e = p" "ep_FileID e = f" "ep_TotalChunks e = n"
        "ep_ChallengeCounter e = 0" "ep_Status e = EpochActive" "ep_Uncovered e = map int [0..<nat n]"
      and s': "s' = s\<lparr>epochs := eps(i \<mapsto> e), latest := (latest s)(epoch_key p f \<mapsto> i)\<rparr>"
      and other: "\<And>j. latest s (epoch_key p f) \<noteq> Some j \<Longrightarrow> eps j = epochs s j"
      and prev: "\<And>j. latest s (epoch_key p f) = Some j \<Longrightarrow>
        eps j = map_option (\<lambda>e. e\<lparr>ep_Status := EpochEnded\<rparr>) (epochs s j)"
    have wf: "epoch_wf e" using \<open>0 < n\<close> n e by (intro epoch_wf_new) auto
    have key: "epoch_key_of e = epoch_key p f" using e by (simp add: epoch_key_of_def)
    have new: "epochs s i = None" using fresh r by (simp add: fresh_epoch_def)
    have old: "\<exists>e0. epochs s j = Some e0 \<and> epoch_wf e0 \<and> ep_ID e0 = j
        \<and> (ep_Status e1 = EpochActive \<longrightarrow> e1 = e0 \<and> latest s (epoch_key p f) \<noteq> Some j)
        \<and> epoch_key_of e1 = epoch_key_of e0 \<and> epoch_wf e1 \<and> ep_ID e1 = j"
      if "eps j = Some e1" for j e1
    proof (cases "latest s (epoch_key p f) = Some j")
      case True
      with that prev obtain e0 where "epochs s j = Some e0" "e1 = e0\<lparr>ep_Status := EpochEnded\<rparr>"
        by auto
      moreover from this inv have "epoch_wf e0" "ep_ID e0 = j" by (auto simp: epoch_store_inv_def)
      ultimately show ?thesis by (auto simp: epoch_wf_def epoch_key_of_def)
    next
      case False
      with that other have "epochs s j = Some e1" by simp
      with inv False show ?thesis by (auto simp: epoch_store_inv_def)
    qed
    show ?thesis unfolding epoch_store_inv_def
    proof (intro conjI allI impI)
      fix j e1 assume "epochs s' j = Some e1"
      then show "epoch_wf e1" "ep_ID e1 = j" using s' wf e(1) old by (auto split: if_splits)
    next
      fix j e1 assume a: "epochs s' j = Some e1 \<and> ep_Status e1 = EpochActive"
      show "latest s' (epoch_key_of e1) = Some j"
      proof (cases "j = i")
        case True
        with a s' key show ?thesis by simp
      next
        case False
        with a s' have "eps j = Some e1" by simp
        from old [OF this] a have j: "epochs s j = Some e1" "latest s (epoch_key p f) \<noteq> Some j" by auto
        with a inv have "latest s (epoch_key_of e1) = Some j" by (auto simp: epoch_store_inv_def)
        with j s' show ?thesis by auto
      qed
    next
      fix k j assume a: "latest s' k = Some j"
      show "\<exists>e. epochs s' j = Some e \<and> ep_Status e = EpochActive \<and> epoch_key_of e = k"
      proof (cases "k = epoch_key p f")
        case True
        with a s' key e show ?thesis by auto
      next
        case False
        with a s' have "latest s k = Some j" by simp
        with epoch_store_invD(4) [OF inv] obtain e0
          where e0: "epochs s j = Some e0" "ep_Status e0 = EpochActive" "epoch_key_of e0 = k" by blast
        with new have "j \<noteq> i" by auto
        moreover have "latest s (epoch_key p f) \<noteq> Some j"
        proof
          assume "latest s (epoch_key p f) = Some j"
          with epoch_store_invD(4) [OF inv] e0 have "epoch_key_of e0 = epoch_key p f" by fastforce
          with e0 False show False by simp
        qed
        ultimately show ?thesis using s' e0 other by auto
      qed
    qed
  qed
qed

lemma SelectUncoveredChunk_inv:
  assumes inv: "epoch_store_inv s" and run: "SelectUncoveredChunk i h s = (res, s')"
  shows "epoch_store_inv s'"
proof (cases res)
  case (Inl err)
  with run inv show ?thesis by (auto dest: SelectUncoveredChunk_err)
next
  case (Inr c)
  from run [unfolded Inr] show ?thesis
  proof (rule SelectUncoveredChunk_ok)
    fix e e'
    assume e: "epochs s i = Some e" "ep_Status e = EpochActive" "c \<in> set (ep_Uncovered e)"
      and s': "s' = s\<lparr>epochs := (epochs s)(i \<mapsto> e')\<rparr>"
      and e': "e' = e\<lparr>ep_Uncovered := ep_Uncovered e', ep_ChallengeCounter := ep_ChallengeCounter e + 1\<rparr>"
      and len: "length (ep_Uncovered e) = Suc (length (ep_Uncovered e'))"
      and us: "distinct (ep_Uncovered e) \<Longrightarrow>
        distinct (ep_Uncovered e') \<and> set (ep_Uncovered e') = set (ep_Uncovered e) - {c}"
    have wfe: "epoch_wf e" and "ep_ID e = i" using inv e by (auto simp: epoch_store_inv_def)
    then have us': "distinct (ep_Uncovered e')" "set (ep_Uncovered e') = set (ep_Uncovered e) - {c}"
      using us by (auto simp: epoch_wf_def)
    have wf: "epoch_wf e'" by (rule epoch_wf_select [OF wfe len e' us'])
    have same: "ep_ID e' = i" "ep_Status e' = EpochActive" "epoch_key_of e' = epoch_key_of e"
      using e \<open>ep_ID e = i\<close> by (subst e', simp add: epoch_key_of_def)+
    have "k = epoch_key_of e" if "latest s k = Some i" for k
      using epoch_store_invD(4) [OF inv that] e by auto
    then show ?thesis
      using inv e wf same epoch_store_invD(3,4) [OF inv] unfolding epoch_store_inv_def s' by auto
  qed
qed

lemma StartNextEpoch_inv:
  assumes inv: "epoch_store_inv s" and fresh: "fresh_epoch rnd s"
    and run: "StartNextEpoch rnd now p f s = (res, s')"
  shows "epoch_store_inv s'"
proof -
  have "s' = s \<or> (\<exists>j e. epochs s j = Some e \<and> CreateEpoch rnd now p f (ep_TotalChunks e) s = (res, s'))"
    using run by (auto simp: StartNextEpoch_def split: if_splits option.splits)
  moreover have "in_int64 (ep_TotalChunks e)" if "epochs s j = Some e" for j e
    using inv that by (auto simp: epoch_store_inv_def epoch_wf_def)
  ultimately show ?thesis using inv fresh CreateEpoch_inv by blast
qed

lemma GenerateNextChallenge_cases:
  assumes "GenerateNextChallenge rnd now cid p f i ctr rn s = (res, s')"
  shows "s' = s \<or> (\<exists>h r. SelectUncoveredChunk i h s = (r, s'))"
  using assms
  by (auto simp: GenerateNextChallenge_def Let_def split: if_splits option.splits sum.splits prod.splits)

lemma GenerateNextChallenge_inv:
  assumes inv: "epoch_store_inv s"
    and run: "GenerateNextChallenge rnd now cid p f i ctr rn s = (res, s')"
  shows "epoch_store_inv s'"
  using GenerateNextChallenge_cases [OF run] inv SelectUncoveredChunk_inv by blast

lemma CreateChallenge_inv:
  assumes inv: "epoch_store_inv s" and fresh: "fresh_epoch rnd s" and n: "in_int64 n"
    and run: "CreateChallenge rnd rnd' now now' cid p f n rn s = (res, s')"
  shows "epoch_store_inv s'"
proof -
  obtain r t where ce: "CreateEpoch rnd now p f n s = (r, t)" by fastforce
  have "epoch_store_inv t" by (rule CreateEpoch_inv [OF inv fresh n ce])
  moreover have "s' = s \<or> s' = t \<or> (\<exists>i. GenerateNextChallenge rnd' now' cid p f i 0 rn t = (res, s'))"
    using run ce by (auto simp: CreateChallenge_def split: if_splits sum.splits)
  ultimately show ?thesis using inv GenerateNextChallenge_inv by blast
qed

section \<open>Reachable stores\<close>

text \<open>One step is one call of a package function, with the bytes from \<open>crypto/rand\<close> and
  the clock as the environment chooses them. A drawn epoch ID is taken not to be in use already;
  a chunk count is a Go \<open>int\<close>.\<close>

inductive epoch_step :: "epoch_store \<Rightarrow> epoch_store \<Rightarrow> bool" where
  step_create: "fresh_epoch rnd s \<Longrightarrow> in_int64 n \<Longrightarrow> CreateEpoch rnd now p f n s = (res, t)
     \<Longrightarrow> epoch_step s t"
| step_next: "fresh_epoch rnd s \<Longrightarrow> StartNextEpoch rnd now p f s = (res, t) \<Longrightarrow> epoch_step s t"
| step_select: "SelectUncoveredChunk i h s = (res', t) \<Longrightarrow> epoch_step s t"
| step_generate: "GenerateNextChallenge rnd now c p f i ctr rn s = (resc, t) \<Longrightarrow> epoch_step s t"
| step_challenge: "fresh_epoch rnd s \<Longrightarrow> in_int64 n
     \<Longrightarrow> CreateChallenge rnd rnd' now now' c p f n rn s = (resc, t) \<Longrightarrow> epoch_step s t"

lemma epoch_step_inv: "epoch_store_inv s \<Longrightarrow> epoch_step s t \<Longrightarrow> epoch_store_inv t"
  by (erule epoch_step.cases)
    (auto intro: CreateEpoch_inv StartNextEpoch_inv SelectUncoveredChunk_inv
      GenerateNextChallenge_inv CreateChallenge_inv)

interpretation epoch_sys: invariant_system "\<lambda>s. s = empty_epoch_store" epoch_step epoch_store_inv
  by unfold_locales (simp add: epoch_store_inv_def empty_epoch_store_def, rule epoch_step_inv)

abbreviation epoch_reachable :: "epoch_store \<Rightarrow> bool" where
  "epoch_reachable \<equiv> reach (\<lambda>s. s = empty_epoch_store) epoch_step"

section \<open>Coverage of an epoch\<close>

text \<open>A run of selections in one epoch, one per hash: the chunks chosen and the final store.\<close>

fun select_run :: "EpochID \<Rightarrow> bytes list \<Rightarrow> epoch_store \<Rightarrow> int list \<times> epoch_store" where
  "select_run i [] s = ([], s)"
| "select_run i (h # hs) s =
     (case SelectUncoveredChunk i h s of
        (Inl _, s') \<Rightarrow> select_run i hs s'
      | (Inr c, s') \<Rightarrow> (let (cs, s'') = select_run i hs s' in (c # cs, s'')))"

lemma SelectUncoveredChunk_succeeds:
  assumes "i \<noteq> []" and "h \<noteq> []" and "epochs s i = Some e" and "ep_Status e = EpochActive"
    and "ep_Uncovered e \<noteq> []"
  shows "\<exists>c s'. SelectUncoveredChunk i h s = (Inr c, s')"
  using assms by (simp add: SelectUncoveredChunk_def Let_def)

lemma SelectUncoveredChunk_exhausted:
  assumes "i \<noteq> []" and "h \<noteq> []" and "epochs s i = Some e" and "ep_Status e = EpochActive"
    and "ep_Uncovered e = []"
  shows "SelectUncoveredChunk i h s = (Inl NoUncoveredChunks, s)"
  using assms by (simp add: SelectUncoveredChunk_def Let_def)

lemma select_run_partition:
  assumes "i \<noteq> []" and "\<forall>h \<in> set hs. h \<noteq> []" and "epochs s i = Some e"
    and "ep_Status e = EpochActive" and "distinct (ep_Uncovered e)"
    and "select_run i hs s = (cs, s')"
  shows "\<exists>e'. epochs s' i = Some e' \<and> ep_Status e' = EpochActive
    \<and> distinct (cs @ ep_Uncovered e') \<and> set cs \<union> set (ep_Uncovered e') = set (ep_Uncovered e)
    \<and> length cs = min (length hs) (length (ep_Uncovered e))"
  using assms
proof (induction hs arbitrary: s e cs)
  case Nil
  then show ?case by auto
next
  case (Cons h hs)
  show ?case
  proof (cases "ep_Uncovered e = []")
    case True
    with Cons.prems have "SelectUncoveredChunk i h s = (Inl NoUncoveredChunks, s)"
      by (intro SelectUncoveredChunk_exhausted) auto
    with Cons.prems have "select_run i hs s = (cs, s')" by simp
    from Cons.IH [OF _ _ Cons.prems(3,4,5) this] Cons.prems(1,2) True show ?thesis by simp
  next
    case False
    with Cons.prems obtain c t where sel: "SelectUncoveredChunk i h s = (Inr c, t)"
      using SelectUncoveredChunk_succeeds [of i h s e] by auto
    with Cons.prems(6) obtain cs' where run: "select_run i hs t = (cs', s')" and cs: "cs = c # cs'"
      by (auto split: prod.splits)
    from sel obtain e' where e': "epochs t i = Some e'" "ep_Status e' = EpochActive"
      "c \<in> set (ep_Uncovered e)" "length (ep_Uncovered e) = Suc (length (ep_Uncovered e'))"
      "distinct (ep_Uncovered e')" "set (ep_Uncovered e') = set (ep_Uncovered e) - {c}"
    proof (rule SelectUncoveredChunk_ok, goal_cases)
      case (1 e0 e1)
      have "ep_Status e1 = ep_Status e0" by (subst 1(6), simp)
      with 1 Cons.prems(3,4,5) show ?case by simp
    qed
    from Cons.IH [OF Cons.prems(1) _ e'(1,2,5) run] Cons.prems(2) obtain e''
      where "epochs s' i = Some e''" "ep_Status e'' = EpochActive" "distinct (cs' @ ep_Uncovered e'')"
        and part: "set cs' \<union> set (ep_Uncovered e'') = set (ep_Uncovered e')"
        and len: "length cs' = min (length hs) (length (ep_Uncovered e'))" by auto
    moreover have "c \<notin> set cs' \<union> set (ep_Uncovered e'')" unfolding part e'(6) by simp
    moreover have "insert c (set cs' \<union> set (ep_Uncovered e'')) = set (ep_Uncovered e)"
      unfolding part e'(6) using e'(3) by auto
    ultimately show ?thesis using cs e'(4) by auto
  qed
qed

section \<open>Properties\<close>

text \<open>C8. Within an epoch every chunk of the file is challenged exactly once: after
  \<open>CreateEpoch\<close> for \<open>n\<close> chunks, \<open>n\<close> selections with any hashes draw each of the chunk
  numbers \<open>0, \<dots>, n - 1\<close> once, and the next selection reports that no chunk is left.\<close>

theorem epoch_covers_each_chunk_once:
  assumes create: "CreateEpoch rnd now p f n s = (Inr i, s1)"
    and hs: "\<forall>h \<in> set hs. h \<noteq> []" "length hs = nat n"
    and run: "select_run i hs s1 = (cs, s2)" and h: "h \<noteq> []"
  shows "distinct cs \<and> set cs = {0..<n} \<and> SelectUncoveredChunk i h s2 = (Inl NoUncoveredChunks, s2)"
  using create
proof (rule CreateEpoch_ok)
  fix r e eps
  assume i: "i = ''epoch-'' @ hex_encode r" and "0 < n" and st: "ep_Status e = EpochActive"
    and unc: "ep_Uncovered e = map int [0..<nat n]"
    and s1: "s1 = s\<lparr>epochs := eps(i \<mapsto> e), latest := (latest s)(epoch_key p f \<mapsto> i)\<rparr>"
  have all: "set (ep_Uncovered e) = {0..<n}"
    unfolding unc using \<open>0 < n\<close> by (auto simp: image_iff intro!: bexI [of _ "nat _"])
  have "epochs s1 i = Some e" and "distinct (ep_Uncovered e)" and "i \<noteq> []"
    using s1 unc i by (auto simp: distinct_map)
  from select_run_partition [OF \<open>i \<noteq> []\<close> hs(1) this(1) st this(2) run] obtain e'
    where e': "epochs s2 i = Some e'" "ep_Status e' = EpochActive" "distinct (cs @ ep_Uncovered e')"
      "set cs \<union> set (ep_Uncovered e') = {0..<n}" "length cs = nat n"
    using unc hs(2) all by auto
  then have "card (set cs) = card {0..<n}" by (simp add: distinct_card)
  then have "set cs = {0..<n}" using e'(4) by (intro card_subset_eq) auto
  moreover from this e'(3,4) have "ep_Uncovered e' = []" by (cases "ep_Uncovered e'") auto
  ultimately show ?thesis
    using e' \<open>i \<noteq> []\<close> h by (simp add: SelectUncoveredChunk_exhausted)
qed

theorem epoch_covers_each_chunk_once_witness:
  "let (res, s1) = CreateEpoch (Some [7]) 0 ''p'' ''f'' 2 empty_epoch_store;
       (cs, s2) = select_run (''epoch-'' @ hex_encode [7]) [[1], [0]] s1
   in distinct cs \<and> set cs = {0..<2}
     \<and> SelectUncoveredChunk (''epoch-'' @ hex_encode [7]) [9] s2 = (Inl NoUncoveredChunks, s2)"
proof -
  obtain s1 where c: "CreateEpoch (Some [7]) 0 ''p'' ''f'' 2 empty_epoch_store
      = (Inr (''epoch-'' @ hex_encode [7]), s1)"
    by (simp add: CreateEpoch_def Let_def empty_epoch_store_def)
  obtain cs s2 where r: "select_run (''epoch-'' @ hex_encode [7]) [[1], [0]] s1 = (cs, s2)"
    by fastforce
  show ?thesis using epoch_covers_each_chunk_once [OF c _ _ r, of "[9]"] c r by simp
qed

text \<open>In every reachable store a provider and file have at most one active epoch, and it is
  the one \<open>latest\<close> records; its uncovered list has no duplicates, stays within the chunk numbers
  of the file, and has exactly as many entries as challenges remain to be drawn.\<close>

lemma one_active_epoch_per_file:
  assumes "epoch_reachable s"
    and "epochs s i = Some e" "ep_Status e = EpochActive"
    and "epochs s j = Some e'" "ep_Status e' = EpochActive"
    and "ep_ProviderID e = ep_ProviderID e'" "ep_FileID e = ep_FileID e'"
  shows "i = j \<and> latest s (epoch_key (ep_ProviderID e) (ep_FileID e)) = Some i
    \<and> distinct (ep_Uncovered e) \<and> set (ep_Uncovered e) \<subseteq> {0..<ep_TotalChunks e}
    \<and> length (ep_Uncovered e) = nat (ep_TotalChunks e) - unat (ep_ChallengeCounter e)"
proof -
  have inv: "epoch_store_inv s" using assms(1) by (rule epoch_sys.inv_reach)
  have "epoch_key_of e = epoch_key_of e'" using assms(6,7) by (simp add: epoch_key_of_def)
  then have "i = j"
    using epoch_store_invD(3) [OF inv assms(2,3)] epoch_store_invD(3) [OF inv assms(4,5)] by simp
  with epoch_store_invD(1) [OF inv assms(2)] epoch_store_invD(3) [OF inv assms(2,3)]
  show ?thesis by (auto simp: epoch_wf_def epoch_key_of_def)
qed

lemma one_active_epoch_per_file_witness:
  "\<exists>s i e. epoch_reachable s \<and> epochs s i = Some e \<and> ep_Status e = EpochActive
     \<and> latest s (epoch_key (ep_ProviderID e) (ep_FileID e)) = Some i
     \<and> length (ep_Uncovered e) = nat (ep_TotalChunks e) - unat (ep_ChallengeCounter e)"
proof -
  let ?i = "''epoch-'' @ hex_encode [7]"
  obtain s1 e where c: "CreateEpoch (Some [7]) 0 ''p'' ''f'' 2 empty_epoch_store = (Inr ?i, s1)"
    and e: "epochs s1 ?i = Some e" "ep_Status e = EpochActive"
    by (simp add: CreateEpoch_def Let_def empty_epoch_store_def)
  have "fresh_epoch (Some [7]) empty_epoch_store" "in_int64 2"
    by (simp_all add: fresh_epoch_def empty_epoch_store_def in_int64_def)
  then have "epoch_reachable s1"
    using c by (blast intro: reach.intros step_create)
  from one_active_epoch_per_file [OF this e e] this e show ?thesis by blast
qed

end
