(* ===== verification/Settlement.thy ===== *)
theory Settlement
  imports AvailTypes
begin

text \<open>
  The package \<open>settlement\<close> (\<open>availability-contracts/settlement/settlement.go\<close>): the
  proportional payout of a contract. Amounts are \<open>int64\<close>, so the product and the difference
  wrap around.
\<close>

datatype settlement_error = FundedNotPositive | ResultsRequired

definition CalculateSettlement :: "int \<Rightarrow> ChallengeResult list \<Rightarrow> settlement_error + SettlementState" where
  "CalculateSettlement fundedAmount results =
     (if fundedAmount \<le> 0 then Inl FundedNotPositive
      else if results = [] then Inl ResultsRequired
      else
        let successful = length (filter cr_Succeeded results);
            failed = length (filter (\<lambda>r. \<not> cr_Succeeded r) results);
            released = quot (wrap64 (fundedAmount * int successful)) (int (length results));
            withheld = wrap64 (fundedAmount - released)
        in Inr (zero_settlement\<lparr>st_SuccessfulProofs := successful, st_FailedProofs := failed,
             st_ReleasedAmount := released, st_WithheldAmount := withheld,
             st_Status := (if withheld = 0 then SettlementCompleted else SettlementWithheld)\<rparr>))"

text \<open>The payout the source means: the funded amount times the share of passed challenges,
  rounded down.\<close>

definition proportional_share :: "int \<Rightarrow> ChallengeResult list \<Rightarrow> int" where
  "proportional_share fundedAmount results =
     fundedAmount * int (length (filter cr_Succeeded results)) div int (length results)"

lemma passed_le: "length (filter cr_Succeeded results) \<le> length results"
  by (rule length_filter_le)

lemma share_bounds:
  assumes "0 < funded" and "results \<noteq> []"
  shows "0 \<le> proportional_share funded results" and "proportional_share funded results \<le> funded"
    and "proportional_share funded results = funded \<longleftrightarrow> list_all cr_Succeeded results"
proof -
  let ?k = "int (length (filter cr_Succeeded results))" and ?n = "int (length results)"
  have k: "0 \<le> ?k" "?k \<le> ?n" "0 < ?n" using passed_le [of results] assms(2) by simp_all
  then show "0 \<le> proportional_share funded results"
    using assms(1) by (simp add: proportional_share_def pos_imp_zdiv_nonneg_iff)
  have "funded * ?k \<le> funded * ?n" using k assms(1) by (simp add: mult_left_mono)
  then have "funded * ?k div ?n \<le> funded * ?n div ?n" using k by (intro zdiv_mono1)
  then show "proportional_share funded results \<le> funded" using k by (simp add: proportional_share_def)
  have "list_all cr_Succeeded results \<longleftrightarrow> ?k = ?n"
    using length_filter_less [of _ results cr_Succeeded] by (fastforce simp: list_all_iff)
  moreover have "funded * ?k div ?n < funded" if "?k \<noteq> ?n"
  proof -
    have "?k < ?n" using that k(2) by linarith
    then have "funded * ?k < funded * ?n" using assms(1) by simp
    moreover have "(funded * ?k div ?n) * ?n \<le> funded * ?k"
      using pos_mod_sign [OF k(3), of "funded * ?k"] div_mult_mod_eq [of "funded * ?k" ?n] by linarith
    ultimately show ?thesis using mult_right_mono [of funded "funded * ?k div ?n" ?n] k(3) by linarith
  qed
  ultimately show "proportional_share funded results = funded \<longleftrightarrow> list_all cr_Succeeded results"
    using k by (auto simp: proportional_share_def)
qed

lemma CalculateSettlement_no_overflow:
  assumes "0 < funded" and "results \<noteq> []"
    and "funded * int (length (filter cr_Succeeded results)) < 2 ^ 63"
  obtains st where "CalculateSettlement funded results = Inr st"
    and "st_ReleasedAmount st = proportional_share funded results"
    and "st_WithheldAmount st = wrap64 (funded - st_ReleasedAmount st)"
    and "st_Status st = (if st_WithheldAmount st = 0 then SettlementCompleted else SettlementWithheld)"
    and "st_SuccessfulProofs st + st_FailedProofs st = length results"
proof -
  let ?p = "funded * int (length (filter cr_Succeeded results))"
  have p: "0 \<le> ?p" using assms(1) by simp
  then have w: "wrap64 ?p = ?p" using assms(3) by (intro wrap64_id) (simp add: in_int64_def)
  have "quot (wrap64 ?p) (int (length results)) = proportional_share funded results"
    unfolding w using p assms(2) by (simp add: proportional_share_def)
  with assms(1,2) obtain st where st: "CalculateSettlement funded results = Inr st"
    "st_ReleasedAmount st = proportional_share funded results"
    "st_WithheldAmount st = wrap64 (funded - proportional_share funded results)"
    "st_Status st = (if wrap64 (funded - proportional_share funded results) = 0
       then SettlementCompleted else SettlementWithheld)"
    "st_SuccessfulProofs st = length (filter cr_Succeeded results)"
    "st_FailedProofs st = length (filter (\<lambda>r. \<not> cr_Succeeded r) results)"
    unfolding CalculateSettlement_def Let_def by simp
  then show thesis by (intro that [OF st(1)]) (simp_all add: sum_length_filter_compl)
qed

lemma wrap64_two_63: "wrap64 9223372036854775808 = - 9223372036854775808"
  by (simp add: wrap64_def)

lemma quot_two_63: "quot (- 9223372036854775808) 2 = - 4611686018427387904"
  by (simp add: quot_def)

section \<open>Properties\<close>

text \<open>C24. As long as the product of the funded amount and the number of passed challenges fits
  an \<open>int64\<close>, a settlement releases exactly the proportional share rounded down, never a
  negative amount and never more than was funded; released and withheld amounts add up to the
  funded amount; and the status is \<open>COMPLETED\<close> exactly when every challenge was passed.\<close>

theorem settlement_proportional_and_conserving:
  assumes "0 < funded" and "in_int64 funded" and "results \<noteq> []"
    and "funded * int (length (filter cr_Succeeded results)) < 2 ^ 63"
  shows "\<exists>st. CalculateSettlement funded results = Inr st
    \<and> st_ReleasedAmount st = proportional_share funded results
    \<and> 0 \<le> st_ReleasedAmount st \<and> st_ReleasedAmount st \<le> funded
    \<and> st_ReleasedAmount st + st_WithheldAmount st = funded
    \<and> (st_Status st = SettlementCompleted \<longleftrightarrow> list_all cr_Succeeded results)
    \<and> st_SuccessfulProofs st + st_FailedProofs st = length results"
  using assms(1,3,4)
proof (rule CalculateSettlement_no_overflow)
  fix st
  assume st: "CalculateSettlement funded results = Inr st"
    "st_ReleasedAmount st = proportional_share funded results"
    "st_WithheldAmount st = wrap64 (funded - st_ReleasedAmount st)"
    "st_Status st = (if st_WithheldAmount st = 0 then SettlementCompleted else SettlementWithheld)"
    "st_SuccessfulProofs st + st_FailedProofs st = length results"
  note b = share_bounds [OF assms(1,3)]
  have "in_int64 (funded - proportional_share funded results)"
    using b(1,2) assms(2) by (simp add: in_int64_def)
  then have "st_WithheldAmount st = funded - proportional_share funded results" using st by simp
  with st b show ?thesis by auto
qed

theorem settlement_proportional_and_conserving_witness:
  "\<exists>st. CalculateSettlement 100
      [\<lparr>cr_ChallengeID = ''a'', cr_Succeeded = True, cr_RecordedAt = 0\<rparr>,
       \<lparr>cr_ChallengeID = ''b'', cr_Succeeded = False, cr_RecordedAt = 0\<rparr>,
       \<lparr>cr_ChallengeID = ''c'', cr_Succeeded = True, cr_RecordedAt = 0\<rparr>] = Inr st
    \<and> st_ReleasedAmount st = 66 \<and> st_ReleasedAmount st + st_WithheldAmount st = 100"
  using settlement_proportional_and_conserving [of 100
      "[\<lparr>cr_ChallengeID = ''a'', cr_Succeeded = True, cr_RecordedAt = 0\<rparr>,
       \<lparr>cr_ChallengeID = ''b'', cr_Succeeded = False, cr_RecordedAt = 0\<rparr>,
       \<lparr>cr_ChallengeID = ''c'', cr_Succeeded = True, cr_RecordedAt = 0\<rparr>]"]
  by (auto simp: in_int64_def proportional_share_def)

text \<open>The product is not protected against overflow: a contract funded with \<open>2\<^sup>6\<^sup>2\<close>
  units whose two challenges both passed settles with a negative released amount and a negative
  withheld amount.\<close>

lemma settlement_overflow_releases_negative:
  "\<exists>st. CalculateSettlement (2 ^ 62)
      [\<lparr>cr_ChallengeID = ''a'', cr_Succeeded = True, cr_RecordedAt = t\<rparr>,
       \<lparr>cr_ChallengeID = ''b'', cr_Succeeded = True, cr_RecordedAt = t\<rparr>] = Inr st
    \<and> st_ReleasedAmount st = - (2 ^ 62) \<and> st_WithheldAmount st = - (2 ^ 63)
    \<and> st_Status st = SettlementWithheld"
  by (simp add: CalculateSettlement_def Let_def wrap64_two_63 quot_two_63)

end
