(* ===== verification/Signatures.thy ===== *)
theory Signatures
  imports GoLib
begin

text \<open>
  What the components rely on of \<open>crypto/ed25519\<close>. Its curve arithmetic is not modelled: signing
  and verification are arguments of the definitions that call them, and the documented contract
  is the predicate \<open>ed25519_correct\<close>, a hypothesis of the statements that need it. A private key
  is 64 bytes, the seed followed by the public key, so \<open>PrivateKey.Public\<close> is its second half.
\<close>

definition ed_public :: "bytes \<Rightarrow> bytes" where
  "ed_public privKey = drop 32 privKey"

text \<open>\<open>valid\<close> tells the key pairs that \<open>GenerateKey\<close> or \<open>NewKeyFromSeed\<close> return.\<close>

definition ed25519_correct ::
    "(bytes \<Rightarrow> bool) \<Rightarrow> (bytes \<Rightarrow> bytes \<Rightarrow> bytes) \<Rightarrow> (bytes \<Rightarrow> bytes \<Rightarrow> bytes \<Rightarrow> bool) \<Rightarrow> bool" where
  "ed25519_correct valid ed_sign ed_verify \<longleftrightarrow>
     (\<forall>k m. valid k \<longrightarrow> length k = 64 \<and> length (ed_sign k m) = 64
        \<and> ed_verify (ed_public k) m (ed_sign k m))"

lemma ed25519_correctD:
  assumes "ed25519_correct valid ed_sign ed_verify" and "valid k"
  shows "length k = 64" and "length (ed_public k) = 32" and "length (ed_sign k m) = 64"
    and "ed_verify (ed_public k) m (ed_sign k m)" and "ed_public k \<noteq> []"
  using assms by (auto simp: ed25519_correct_def ed_public_def)

text \<open>A signature scheme that satisfies the contract, for concrete instances: the signature is
  the beginning of the public key followed by the message.\<close>

definition plain_sign :: "bytes \<Rightarrow> bytes \<Rightarrow> bytes" where
  "plain_sign k m = take 64 (ed_public k @ m @ replicate 32 0)"

definition plain_verify :: "bytes \<Rightarrow> bytes \<Rightarrow> bytes \<Rightarrow> bool" where
  "plain_verify pk m s \<longleftrightarrow> s = take 64 (pk @ m @ replicate 32 0)"

lemma plain_correct: "ed25519_correct (\<lambda>k. length k = 64) plain_sign plain_verify"
  by (auto simp: ed25519_correct_def plain_sign_def plain_verify_def ed_public_def min_def)

end
