(* ===== verification/Verification.thy ===== *)
theory Verification
  imports AvailTypes Signatures
begin

text \<open>
  The package \<open>verification\<close> (\<open>availability-contracts/verification/verifier.go\<close>): Merkle
  audit paths, the digest a provider signs, and the check of a challenge response. SHA-256 is the
  concrete function of theory \<open>Sha256\<close>; \<open>ed25519.Verify\<close> is the parameter
  \<open>ed_verify\<close> (public key, message, signature).
\<close>

section \<open>Responses and digests\<close>

record ChallengeResponse =
  rs_ChallengeID :: ChallengeID
  rs_ContractID :: ContractID
  rs_ProviderID :: string
  rs_FileID :: string
  rs_ChunkID :: int
  rs_ChunkHash :: bytes
  rs_MerkleProof :: "bytes list"
  rs_Signature :: bytes
  rs_RespondedAt :: gotime

definition ComputeProofDigest :: "bytes \<Rightarrow> bytes \<Rightarrow> ChallengeID \<Rightarrow> bytes" where
  "ComputeProofDigest chunkHash nonce challengeID = sha256 (chunkHash @ nonce @ str_bytes challengeID)"

section \<open>Audit paths\<close>

text \<open>What is hashed at one level of the path: the current node is the left child at an even
  index and the right child at an odd one.\<close>

definition ordered_pair :: "nat \<Rightarrow> bytes \<Rightarrow> bytes \<Rightarrow> bytes" where
  "ordered_pair idx current sibling =
     (if even idx then current @ sibling else sibling @ current)"

text \<open>The loop over the siblings; \<open>None\<close> is the early return of \<open>false\<close> on a sibling of
  the wrong length.\<close>

fun merkle_walk :: "bytes \<Rightarrow> nat \<Rightarrow> bytes list \<Rightarrow> bytes option" where
  "merkle_walk current idx [] = Some current"
| "merkle_walk current idx (sibling # proof) =
     (if length sibling \<noteq> 32 then None
      else merkle_walk (sha256 (ordered_pair idx current sibling)) (idx div 2) proof)"

definition VerifyMerkleProof :: "bytes \<Rightarrow> int \<Rightarrow> bytes list \<Rightarrow> bytes \<Rightarrow> bool" where
  "VerifyMerkleProof leafHash leafIndex proof expectedRoot =
     (if length leafHash \<noteq> 32 \<or> length expectedRoot \<noteq> 32 \<or> leafIndex < 0 then False
      else case merkle_walk (copy_into 32 leafHash) (nat leafIndex) proof of
        None \<Rightarrow> False
      | Some current \<Rightarrow> current = expectedRoot)"

section \<open>Challenge responses\<close>

datatype verify_error =
    EmptyChallengeID
  | ChallengeIDMismatch ChallengeID ChallengeID
  | ContractIDMismatch ContractID ContractID
  | ProviderIDMismatch string string
  | FileIDMismatch string string
  | ChunkIDMismatch int int
  | AfterDeadline duration duration
  | BadRootLength
  | MerkleProofFailed
  | BadPublicKeySize
  | BadSignatureSize
  | SignatureFailed

definition VerifyChallengeResponse ::
    "(bytes \<Rightarrow> bytes \<Rightarrow> bytes \<Rightarrow> bool) \<Rightarrow> Challenge \<Rightarrow> ChallengeResponse \<Rightarrow> bytes \<Rightarrow> bytes \<Rightarrow> duration
     \<Rightarrow> verify_error + bool" where
  "VerifyChallengeResponse ed_verify challenge response expectedMerkleRoot providerPubKey maxTimeout =
     (if ch_ChallengeID challenge = [] then Inl EmptyChallengeID
      else if rs_ChallengeID response \<noteq> ch_ChallengeID challenge then
        Inl (ChallengeIDMismatch (rs_ChallengeID response) (ch_ChallengeID challenge))
      else if rs_ContractID response \<noteq> ch_ContractID challenge then
        Inl (ContractIDMismatch (rs_ContractID response) (ch_ContractID challenge))
      else if rs_ProviderID response \<noteq> ch_ProviderID challenge then
        Inl (ProviderIDMismatch (rs_ProviderID response) (ch_ProviderID challenge))
      else if rs_FileID response \<noteq> ch_FileID challenge then
        Inl (FileIDMismatch (rs_FileID response) (ch_FileID challenge))
      else if rs_ChunkID response \<noteq> ch_ChunkID challenge then
        Inl (ChunkIDMismatch (rs_ChunkID response) (ch_ChunkID challenge))
      else if 0 < maxTimeout \<and> ch_CreatedAt challenge + maxTimeout < rs_RespondedAt response then
        Inl (AfterDeadline (rs_RespondedAt response - ch_CreatedAt challenge) maxTimeout)
      else if length expectedMerkleRoot \<noteq> 32 then Inl BadRootLength
      else if \<not> VerifyMerkleProof (rs_ChunkHash response) (rs_ChunkID response)
                 (rs_MerkleProof response) expectedMerkleRoot then Inl MerkleProofFailed
      else if providerPubKey \<noteq> [] \<and> length providerPubKey \<noteq> 32 then Inl BadPublicKeySize
      else if providerPubKey \<noteq> [] \<and> length (rs_Signature response) \<noteq> 64 then Inl BadSignatureSize
      else if providerPubKey \<noteq> [] \<and>
              \<not> ed_verify providerPubKey
                  (ComputeProofDigest (rs_ChunkHash response) (ch_Nonce challenge)
                    (ch_ChallengeID challenge))
                  (rs_Signature response) then Inl SignatureFailed
      else Inr True)"

definition BuildChallengeResult ::
    "(bytes \<Rightarrow> bytes \<Rightarrow> bytes \<Rightarrow> bool) \<Rightarrow> gotime \<Rightarrow> Challenge \<Rightarrow> ChallengeResponse \<Rightarrow> bytes \<Rightarrow> bytes
     \<Rightarrow> duration \<Rightarrow> ChallengeResult" where
  "BuildChallengeResult ed_verify now challenge response expectedMerkleRoot providerPubKey maxTimeout =
     (let valid = (case VerifyChallengeResponse ed_verify challenge response expectedMerkleRoot
                          providerPubKey maxTimeout of Inl _ \<Rightarrow> False | Inr b \<Rightarrow> b)
      in \<lparr>cr_ChallengeID = ch_ChallengeID challenge, cr_Succeeded = valid, cr_RecordedAt = now\<rparr>)"

section \<open>Audit paths: lemmas\<close>

lemma length_ordered_pair [simp]:
  "length (ordered_pair idx a b) = length a + length b"
  by (simp add: ordered_pair_def)

lemma ordered_pair_inject:
  assumes "length a = length b" and "length p = length q"
  shows "ordered_pair idx a p = ordered_pair idx b q \<longleftrightarrow> a = b \<and> p = q"
  using assms by (auto simp: ordered_pair_def append_eq_append_conv)

text \<open>The path reads only as many bits of the index as it has siblings.\<close>

lemma ordered_pair_parity: "even i = even j \<Longrightarrow> ordered_pair i a b = ordered_pair j a b"
  by (simp add: ordered_pair_def)

lemma merkle_walk_index_bits:
  "merkle_walk current (idx mod 2 ^ length ps) ps = merkle_walk current idx ps"
proof (induction ps arbitrary: current idx)
  case (Cons s ps)
  let ?m = "idx mod 2 ^ length (s # ps)"
  have "even ?m = even idx" by (simp add: even_iff_mod_2_eq_zero mod_mod_cancel)
  then have "ordered_pair ?m current s = ordered_pair idx current s" by (rule ordered_pair_parity)
  moreover have "?m div 2 = (idx div 2) mod 2 ^ length ps"
    by (simp add: mod_mult2_eq)
  ultimately show ?case
    using Cons.IH by simp
qed simp

text \<open>The search for a SHA-256 collision along two paths with the same index: the first level at
  which the hashed strings differ and their digests agree.\<close>

fun find_collision :: "bytes \<Rightarrow> bytes \<Rightarrow> nat \<Rightarrow> bytes list \<Rightarrow> bytes list \<Rightarrow> (bytes \<times> bytes) option" where
  "find_collision a b idx (p # ps) (q # qs) =
     (let x = ordered_pair idx a p; y = ordered_pair idx b q in
      if x \<noteq> y \<and> sha256 x = sha256 y then Some (x, y)
      else find_collision (sha256 x) (sha256 y) (idx div 2) ps qs)"
| "find_collision a b idx _ _ = None"

definition is_collision :: "(bytes \<times> bytes) option \<Rightarrow> bool" where
  "is_collision c \<longleftrightarrow> (case c of None \<Rightarrow> False | Some (x, y) \<Rightarrow> x \<noteq> y \<and> sha256 x = sha256 y)"

lemma merkle_walk_binding:
  assumes "merkle_walk a idx ps = Some r" and "merkle_walk b idx qs = Some r"
    and "length ps = length qs" and "length a = 32" and "length b = 32" and "a \<noteq> b"
  shows "is_collision (find_collision a b idx ps qs)"
  using assms(3,1,2,4-)
proof (induction ps qs arbitrary: a b idx rule: list_induct2)
  case (Cons p ps q qs)
  let ?x = "ordered_pair idx a p" and ?y = "ordered_pair idx b q"
  have len: "length p = 32" "length q = 32" using Cons.prems(1,2) by (auto split: if_splits)
  then have ne: "?x \<noteq> ?y"
    using Cons.prems by (simp add: ordered_pair_inject)
  show ?case
  proof (cases "sha256 ?x = sha256 ?y")
    case True
    with ne show ?thesis by (simp add: is_collision_def Let_def)
  next
    case False
    then show ?thesis using Cons.IH [of "sha256 ?x" "idx div 2" "sha256 ?y"] Cons.prems len
      by (simp add: Let_def)
  qed
qed simp

section \<open>Responses: lemmas\<close>

text \<open>What an accepted response satisfies, and that nothing else is required.\<close>

definition response_binds :: "Challenge \<Rightarrow> ChallengeResponse \<Rightarrow> bool" where
  "response_binds c r \<longleftrightarrow> ch_ChallengeID c \<noteq> [] \<and> rs_ChallengeID r = ch_ChallengeID c
     \<and> rs_ContractID r = ch_ContractID c \<and> rs_ProviderID r = ch_ProviderID c
     \<and> rs_FileID r = ch_FileID c \<and> rs_ChunkID r = ch_ChunkID c"

definition signature_ok :: "(bytes \<Rightarrow> bytes \<Rightarrow> bytes \<Rightarrow> bool) \<Rightarrow> Challenge \<Rightarrow> ChallengeResponse \<Rightarrow> bytes \<Rightarrow> bool" where
  "signature_ok ed_verify c r pk \<longleftrightarrow> length pk = 32 \<and> length (rs_Signature r) = 64
     \<and> ed_verify pk (ComputeProofDigest (rs_ChunkHash r) (ch_Nonce c) (ch_ChallengeID c)) (rs_Signature r)"

lemma VerifyMerkleProof_root_length: "VerifyMerkleProof h i ps r \<Longrightarrow> length r = 32 \<and> length h = 32 \<and> 0 \<le> i"
  by (auto simp: VerifyMerkleProof_def split: if_splits)

lemma VerifyChallengeResponse_accepts:
  "VerifyChallengeResponse ed_verify c r root pk timeout = Inr b \<longleftrightarrow> b \<and> response_binds c r
     \<and> (0 < timeout \<longrightarrow> rs_RespondedAt r \<le> ch_CreatedAt c + timeout)
     \<and> VerifyMerkleProof (rs_ChunkHash r) (ch_ChunkID c) (rs_MerkleProof r) root
     \<and> (pk \<noteq> [] \<longrightarrow> signature_ok ed_verify c r pk)"
  using VerifyMerkleProof_root_length [of "rs_ChunkHash r" "ch_ChunkID c" "rs_MerkleProof r" root]
  unfolding VerifyChallengeResponse_def response_binds_def signature_ok_def
  by (auto split: if_splits)

lemma VerifyChallengeResponse_never_false:
  "VerifyChallengeResponse ed_verify c r root pk timeout \<noteq> Inr False"
  by (simp add: VerifyChallengeResponse_accepts)

lemma BuildChallengeResult_succeeded:
  "cr_Succeeded (BuildChallengeResult ed_verify now c r root pk timeout) \<longleftrightarrow>
     VerifyChallengeResponse ed_verify c r root pk timeout = Inr True"
  using VerifyChallengeResponse_never_false [of ed_verify c r root pk timeout]
  by (auto simp: BuildChallengeResult_def split: sum.splits)

lemma BuildChallengeResult_id [simp]:
  "cr_ChallengeID (BuildChallengeResult ed_verify now c r root pk timeout) = ch_ChallengeID c"
  by (simp add: BuildChallengeResult_def)

section \<open>Properties\<close>

text \<open>C35. The verifier does not fix the number of siblings. A response that carries the Merkle
  root itself as its chunk hash and an empty audit path is accepted for every challenge, whatever
  chunk was asked for: a provider that keeps its signing key and the 32-byte root and no chunk at
  all passes every challenge.\<close>

theorem root_alone_passes_every_challenge:
  assumes "ed25519_correct valid ed_sign ed_verify" and "valid k"
    and "ch_ChallengeID c \<noteq> []" and "0 \<le> ch_ChunkID c" and "length root = 32"
  shows "VerifyChallengeResponse ed_verify c
    \<lparr>rs_ChallengeID = ch_ChallengeID c, rs_ContractID = ch_ContractID c,
     rs_ProviderID = ch_ProviderID c, rs_FileID = ch_FileID c, rs_ChunkID = ch_ChunkID c,
     rs_ChunkHash = root, rs_MerkleProof = [],
     rs_Signature = ed_sign k (ComputeProofDigest root (ch_Nonce c) (ch_ChallengeID c)),
     rs_RespondedAt = ch_CreatedAt c\<rparr> root (ed_public k) maxTimeout = Inr True"
  using assms(3-) ed25519_correctD [OF assms(1,2)]
  by (simp add: VerifyChallengeResponse_accepts response_binds_def signature_ok_def VerifyMerkleProof_def)

theorem root_alone_passes_every_challenge_witness:
  "VerifyChallengeResponse plain_verify
    \<lparr>ch_ChallengeID = ''c1'', ch_ContractID = ''k1'', ch_ProviderID = ''p'', ch_FileID = ''f'',
     ch_EpochID = ''e'', ch_ChunkID = 7, ch_Nonce = [1, 2], ch_ChallengeCounter = 0,
     ch_RoundNumber = 1, ch_TriggerStatus = False, ch_CreatedAt = 5\<rparr>
    \<lparr>rs_ChallengeID = ''c1'', rs_ContractID = ''k1'', rs_ProviderID = ''p'', rs_FileID = ''f'',
     rs_ChunkID = 7, rs_ChunkHash = replicate 32 9, rs_MerkleProof = [],
     rs_Signature = plain_sign (replicate 64 3) (ComputeProofDigest (replicate 32 9) [1, 2] ''c1''),
     rs_RespondedAt = 5\<rparr> (replicate 32 9) (ed_public (replicate 64 3)) 10 = Inr True"
  using root_alone_passes_every_challenge [OF plain_correct, of "replicate 64 3"
    "\<lparr>ch_ChallengeID = ''c1'', ch_ContractID = ''k1'', ch_ProviderID = ''p'', ch_FileID = ''f'',
     ch_EpochID = ''e'', ch_ChunkID = 7, ch_Nonce = [1, 2], ch_ChallengeCounter = 0,
     ch_RoundNumber = 1, ch_TriggerStatus = False, ch_CreatedAt = 5\<rparr>" "replicate 32 9" 10]
  by simp

text \<open>An accepted response answers exactly the challenge it was checked against: it names the
  same challenge, contract, provider, file and chunk, is not dated after the deadline, its audit
  path leads from its chunk hash to the expected root, and, when a public key is given, its
  signature covers the chunk hash together with the nonce and the identifier of the challenge.
  Conversely every such response is accepted, and a recorded result is a success in exactly this
  case.\<close>

lemma challenge_accepted_iff:
  "cr_Succeeded (BuildChallengeResult ed_verify now c r root pk timeout) \<longleftrightarrow>
     ch_ChallengeID c \<noteq> [] \<and> rs_ChallengeID r = ch_ChallengeID c
     \<and> rs_ContractID r = ch_ContractID c \<and> rs_ProviderID r = ch_ProviderID c
     \<and> rs_FileID r = ch_FileID c \<and> rs_ChunkID r = ch_ChunkID c
     \<and> (timeout \<le> 0 \<or> rs_RespondedAt r \<le> ch_CreatedAt c + timeout)
     \<and> VerifyMerkleProof (rs_ChunkHash r) (ch_ChunkID c) (rs_MerkleProof r) root
     \<and> (pk = [] \<or> (length pk = 32 \<and> length (rs_Signature r) = 64
          \<and> ed_verify pk (ComputeProofDigest (rs_ChunkHash r) (ch_Nonce c) (ch_ChallengeID c))
                (rs_Signature r)))"
  unfolding BuildChallengeResult_succeeded VerifyChallengeResponse_accepts response_binds_def
    signature_ok_def by (auto simp: not_less)

text \<open>An audit path with \<open>n\<close> siblings reads only the lowest \<open>n\<close> bits of the leaf index:
  the same chunk hash and path are accepted at every index that agrees with the given one modulo
  \<open>2\<^sup>n\<close>.\<close>

lemma audit_path_index_modulo:
  assumes "0 \<le> i" and "0 \<le> j" and "i mod 2 ^ length ps = j mod 2 ^ length ps"
  shows "VerifyMerkleProof h i ps root = VerifyMerkleProof h j ps root"
proof -
  have "nat i mod 2 ^ length ps = nat j mod 2 ^ length ps"
    using assms by (metis nat_mod_distrib nat_power_eq nat_numeral zero_le_numeral zero_le_power)
  then have "merkle_walk x (nat i) ps = merkle_walk x (nat j) ps" for x
    by (metis merkle_walk_index_bits)
  with assms show ?thesis by (simp add: VerifyMerkleProof_def)
qed

lemma audit_path_index_modulo_witness:
  "VerifyMerkleProof (replicate 32 1) 1 [replicate 32 2] (replicate 32 3)
     = VerifyMerkleProof (replicate 32 1) 5 [replicate 32 2] (replicate 32 3)"
  by (rule audit_path_index_modulo) simp_all

end
