(* ===== verification/Contracts.thy ===== *)
theory Contracts
  imports Epochs Settlement Verification "HOL-Library.Sublist"
begin

text \<open>
  The package \<open>contract\<close> of \<open>availability/availability-contracts\<close>: the lifecycle
  (\<open>state.go\<close>, \<open>lifecycle.go\<close>), the contract store and its public operations
  (\<open>contract.go\<close>) and \<open>VerifyAndRecordChallengeResponse\<close> (\<open>verify_and_record.go\<close>). The
  package variables \<open>contractStore\<close> and \<open>chunkCountResolver\<close> and the \<open>epochStore\<close> of the
  package \<open>challenge\<close> that the operations call are one record. Every operation runs under the
  store's lock, so an interleaving of calls is a sequence of steps.
\<close>

section \<open>Lifecycle\<close>

fun isValidState :: "ContractState \<Rightarrow> bool" where
  "isValidState (OtherState _) = False"
| "isValidState _ = True"

definition isTerminalState :: "ContractState \<Rightarrow> bool" where
  "isTerminalState s \<longleftrightarrow> s = Completed \<or> s = Expired \<or> s = Terminated \<or> s = Disputed"

definition CanTransition :: "ContractState \<Rightarrow> ContractState \<Rightarrow> bool" where
  "CanTransition from to =
     (if \<not> isValidState from \<or> \<not> isValidState to \<or> isTerminalState from then False
      else case from of
        Proposed \<Rightarrow> to = Agreed \<or> to = Terminated \<or> to = Disputed
      | Agreed \<Rightarrow> to = Transferring \<or> to = Terminated \<or> to = Disputed
      | Transferring \<Rightarrow> to = Ready \<or> to = Terminated \<or> to = Disputed
      | Ready \<Rightarrow> to = Active \<or> to = Terminated \<or> to = Disputed
      | Active \<Rightarrow> to = Completed \<or> to = Expired \<or> to = Terminated \<or> to = Disputed
      | _ \<Rightarrow> False)"

datatype contract_error =
    PartiesRequired
  | PaymentAndDurationPositive
  | ResolverRequired
  | NoResolverConfigured
  | ResolveChunkCount string
  | ChunkCountNotPositive
  | ContractIDRandFailed
  | UnknownContract ContractID
  | CannotFundFrom ContractState
  | FundingMismatch
  | NotReadyForChallenge
  | ContractHasExpired
  | GetActiveEpochState challenge_error
  | GenerateChallengeFailed challenge_error
  | InvalidTransition ContractState ContractState
  | ContractNotActive ContractID
  | ChallengeNotOfContract
  | ResultIDMismatch
  | AlreadyRecorded
  | NoRecordedResult
  | CannotSettleFrom ContractState
  | NothingToSettle
  | SettlementFailed settlement_error
  | AlreadyTerminal ContractID

definition Transition :: "ContractState \<Rightarrow> ContractState \<Rightarrow> contract_error + ContractState" where
  "Transition from to = (if \<not> CanTransition from to then Inl (InvalidTransition from to) else Inr to)"

section \<open>State\<close>

record activeEpoch =
  ae_id :: EpochID
  ae_endAfterCurrent :: bool

text \<open>\<open>ChunkCountResolver\<close>: from a provider and a file to an error or a chunk count.\<close>

type_synonym ChunkCountResolver = "string \<Rightarrow> string \<Rightarrow> string + int"

record contractStore =
  contracts :: "ContractID \<rightharpoonup> AvailabilityContract"
  challenges :: "ChallengeID \<rightharpoonup> ContractID"
  activeEpochs :: "ContractID \<rightharpoonup> activeEpoch"
  resolver :: "ChunkCountResolver option"
  epochStore :: epoch_store

definition empty_contractStore :: contractStore where
  "empty_contractStore = \<lparr>contracts = Map.empty, challenges = Map.empty, activeEpochs = Map.empty,
     resolver = None, epochStore = empty_epoch_store\<rparr>"

definition set_contract :: "ContractID \<Rightarrow> AvailabilityContract \<Rightarrow> contractStore \<Rightarrow> contractStore" where
  "set_contract i c s = s\<lparr>contracts := (contracts s)(i \<mapsto> c)\<rparr>"

section \<open>Operations\<close>

definition ConfigureChunkCountResolver ::
    "ChunkCountResolver option \<Rightarrow> (contractStore, contract_error, unit) stateful" where
  "ConfigureChunkCountResolver r s =
     (case r of None \<Rightarrow> (Inl ResolverRequired, s) | Some _ \<Rightarrow> (Inr (), s\<lparr>resolver := r\<rparr>))"

definition CreateAvailabilityContract ::
    "bytes option \<Rightarrow> gotime \<Rightarrow> string \<Rightarrow> string \<Rightarrow> string \<Rightarrow> int \<Rightarrow> duration
     \<Rightarrow> (contractStore, contract_error, ContractID) stateful" where
  "CreateAvailabilityContract rnd now publisherID providerID fileID paymentAmount duration s =
     (if publisherID = [] \<or> providerID = [] \<or> fileID = [] then (Inl PartiesRequired, s)
      else if paymentAmount \<le> 0 \<or> duration \<le> 0 then (Inl PaymentAndDurationPositive, s)
      else case resolver s of
        None \<Rightarrow> (Inl NoResolverConfigured, s)
      | Some res \<Rightarrow>
          (case res providerID fileID of
             Inl e \<Rightarrow> (Inl (ResolveChunkCount e), s)
           | Inr totalChunks \<Rightarrow>
               if totalChunks \<le> 0 then (Inl ChunkCountNotPositive, s)
               else case rnd of
                 None \<Rightarrow> (Inl ContractIDRandFailed, s)
               | Some randomID \<Rightarrow>
                   let contractID = ''contract-'' @ hex_encode randomID
                   in (Inr contractID, set_contract contractID
                        \<lparr>ac_ID = contractID, ac_PublisherID = publisherID, ac_ProviderID = providerID,
                         ac_FileID = fileID, ac_TotalChunks = totalChunks,
                         ac_PaymentAmount = paymentAmount, ac_FundedAmount = 0,
                         ac_Duration = duration, ac_CreatedAt = now, ac_EndsAt = now + duration,
                         ac_State = Proposed, ac_Challenges = [], ac_Results = [],
                         ac_AvailabilityResults = [],
                         ac_Settlement = zero_settlement\<lparr>st_Status := SettlementPending\<rparr>\<rparr> s)))"

definition FundAvailabilityContract ::
    "ContractID \<Rightarrow> int \<Rightarrow> (contractStore, contract_error, ContractState) stateful" where
  "FundAvailabilityContract contractID paymentAmount s =
     (case contracts s contractID of
        None \<Rightarrow> (Inl (UnknownContract contractID), s)
      | Some c \<Rightarrow>
          if ac_State c \<noteq> Proposed then (Inl (CannotFundFrom (ac_State c)), s)
          else if paymentAmount \<noteq> ac_PaymentAmount c then (Inl FundingMismatch, s)
          else case Transition (ac_State c) Agreed of
            Inl e \<Rightarrow> (Inl e, s)
          | Inr nextState \<Rightarrow>
              (Inr nextState,
               set_contract contractID (c\<lparr>ac_FundedAmount := paymentAmount, ac_State := nextState\<rparr>) s))"

text \<open>The loop over the lifecycle states in \<open>InitiateAvailabilityChallenge\<close>. A failing
  \<open>Transition\<close> returns the empty state, which the assignment stores.\<close>

fun advance :: "ContractState \<Rightarrow> ContractState list \<Rightarrow> contract_error option \<times> ContractState" where
  "advance st [] = (None, st)"
| "advance st (nextState # rest) =
     (case Transition st nextState of
        Inl e \<Rightarrow> (Some e, OtherState [])
      | Inr st' \<Rightarrow> advance st' rest)"

text \<open>The challenge that continues the tracked epoch or opens a new one.\<close>

definition next_challenge ::
    "bytes option \<Rightarrow> bytes option \<Rightarrow> gotime \<Rightarrow> gotime \<Rightarrow> ContractID \<Rightarrow> AvailabilityContract
     \<Rightarrow> activeEpoch option \<Rightarrow> (epoch_store, contract_error, Challenge) stateful" where
  "next_challenge rnd_id rnd_nonce now_epoch now contractID c tracked es =
     (let wrap = (\<lambda>(r, es'). (case r of Inl e \<Rightarrow> Inl (GenerateChallengeFailed e) | Inr ch \<Rightarrow> Inr ch, es'))
      in case tracked of
        None \<Rightarrow> wrap (CreateChallenge rnd_id rnd_nonce now_epoch now contractID (ac_ProviderID c)
                       (ac_FileID c) (ac_TotalChunks c) 0 es)
      | Some ae \<Rightarrow>
          (case GetEpochState (ae_id ae) es of
             Inl e \<Rightarrow> (Inl (GetActiveEpochState e), es)
           | Inr st \<Rightarrow>
               if es_EpochStatus st = EpochActive \<and> 0 < es_UncoveredChunkCount st
                  \<and> \<not> ae_endAfterCurrent ae
               then wrap (GenerateNextChallenge rnd_nonce now contractID (ac_ProviderID c)
                      (ac_FileID c) (ae_id ae) (es_ChallengeCounter st) (es_RoundNumber st) es)
               else wrap (CreateChallenge rnd_id rnd_nonce now_epoch now contractID (ac_ProviderID c)
                      (ac_FileID c) (ac_TotalChunks c) (es_RoundNumber st + 1) es)))"

definition InitiateAvailabilityChallenge ::
    "bytes option \<Rightarrow> bytes option \<Rightarrow> gotime \<Rightarrow> gotime \<Rightarrow> gotime \<Rightarrow> ContractID
     \<Rightarrow> (contractStore, contract_error, ChallengeID \<times> EpochID) stateful" where
  "InitiateAvailabilityChallenge rnd_id rnd_nonce now now_epoch now_ch contractID s =
     (case contracts s contractID of
        None \<Rightarrow> (Inl (UnknownContract contractID), s)
      | Some c \<Rightarrow>
          if (ac_State c \<noteq> Agreed \<and> ac_State c \<noteq> Active) \<or> ac_FundedAmount c \<noteq> ac_PaymentAmount c
          then (Inl NotReadyForChallenge, s)
          else if \<not> now < ac_EndsAt c
          then (Inl ContractHasExpired, set_contract contractID (c\<lparr>ac_State := Expired\<rparr>) s)
          else
            (case next_challenge rnd_id rnd_nonce now_epoch now_ch contractID c
                    (activeEpochs s contractID) (epochStore s) of
               (Inl e, es) \<Rightarrow> (Inl e, s\<lparr>epochStore := es\<rparr>)
             | (Inr generated, es) \<Rightarrow>
                 let s1 = s\<lparr>epochStore := es\<rparr>;
                     (err, st) = (if ac_State c = Agreed
                                  then advance Agreed [Transferring, Ready, Active]
                                  else (None, ac_State c))
                 in case err of
                      Some e \<Rightarrow> (Inl e, set_contract contractID (c\<lparr>ac_State := st\<rparr>) s1)
                    | None \<Rightarrow>
                        (Inr (ch_ChallengeID generated, ch_EpochID generated),
                         (set_contract contractID
                            (c\<lparr>ac_State := st,
                               ac_Challenges := ac_Challenges c @ [ch_ChallengeID generated]\<rparr>) s1)
                           \<lparr>challenges := (challenges s)(ch_ChallengeID generated \<mapsto> contractID),
                            activeEpochs := (activeEpochs s)(contractID \<mapsto>
                              \<lparr>ae_id = ch_EpochID generated,
                               ae_endAfterCurrent = ch_TriggerStatus generated\<rparr>)\<rparr>)))"

definition RecordAvailabilityResult ::
    "gotime \<Rightarrow> ContractID \<Rightarrow> ChallengeID \<Rightarrow> ChallengeResult
     \<Rightarrow> (contractStore, contract_error, ContractState) stateful" where
  "RecordAvailabilityResult now contractID chID result s =
     (case contracts s contractID of
        None \<Rightarrow> (Inl (UnknownContract contractID), s)
      | Some c \<Rightarrow>
          if ac_State c \<noteq> Active then (Inl (ContractNotActive contractID), s)
          else if challenges s chID \<noteq> Some contractID then (Inl ChallengeNotOfContract, s)
          else if cr_ChallengeID result \<noteq> [] \<and> cr_ChallengeID result \<noteq> chID
          then (Inl ResultIDMismatch, s)
          else if list_ex (\<lambda>recorded. cr_ChallengeID recorded = chID) (ac_Results c)
          then (Inl AlreadyRecorded, s)
          else
            let result' = result\<lparr>cr_ChallengeID := chID, cr_RecordedAt := now\<rparr>;
                availabilityStatus = (if cr_Succeeded result' then AvailabilityPass else AvailabilityFail);
                ar = \<lparr>ar_ContractID = contractID, ar_ProviderID = ac_ProviderID c,
                  ar_Period = of_nat (length (ac_AvailabilityResults c) + 1),
                  ar_ChallengeID = chID, ar_Result = availabilityStatus,
                  ar_Timestamp = cr_RecordedAt result'\<rparr>
            in (Inr (ac_State c), set_contract contractID
                  (c\<lparr>ac_Results := ac_Results c @ [result'],
                     ac_AvailabilityResults := ac_AvailabilityResults c @ [ar]\<rparr>) s))"

definition GetLatestAvailabilityResult ::
    "ContractID \<Rightarrow> contractStore \<Rightarrow> contract_error + AvailabilityResult" where
  "GetLatestAvailabilityResult contractID s =
     (case contracts s contractID of
        None \<Rightarrow> Inl (UnknownContract contractID)
      | Some c \<Rightarrow>
          if length (ac_AvailabilityResults c) = 0 then Inl NoRecordedResult
          else Inr (ac_AvailabilityResults c ! (length (ac_AvailabilityResults c) - 1)))"

text \<open>\<open>now\<close> is read for the comparison with the end of the contract, \<open>now_final\<close> for the
  time of the settlement.\<close>

definition SettleAvailabilityContract ::
    "gotime \<Rightarrow> gotime \<Rightarrow> ContractID \<Rightarrow> (contractStore, contract_error, SettlementStatus) stateful" where
  "SettleAvailabilityContract now now_final contractID s =
     (case contracts s contractID of
        None \<Rightarrow> (Inl (UnknownContract contractID), s)
      | Some c \<Rightarrow>
          if ac_State c \<noteq> Active \<and> ac_State c \<noteq> Expired then (Inl (CannotSettleFrom (ac_State c)), s)
          else if length (ac_Results c) = 0 then (Inl NothingToSettle, s)
          else case CalculateSettlement (ac_FundedAmount c) (ac_Results c) of
            Inl e \<Rightarrow> (Inl (SettlementFailed e), s)
          | Inr settlementState \<Rightarrow>
              let c' = c\<lparr>ac_Settlement := settlementState\<rparr>
              in case (if \<not> now < ac_EndsAt c then Transition (ac_State c) Expired
                       else Transition (ac_State c) Completed) of
                   Inl e \<Rightarrow> (Inl e, set_contract contractID c' s)
                 | Inr nextState \<Rightarrow>
                     (Inr (st_Status settlementState), set_contract contractID
                        (c'\<lparr>ac_State := nextState,
                            ac_Settlement := settlementState\<lparr>st_FinalizedAt := now_final\<rparr>\<rparr>) s))"

definition TerminateAvailabilityContract ::
    "gotime \<Rightarrow> ContractID \<Rightarrow> (contractStore, contract_error, ContractState) stateful" where
  "TerminateAvailabilityContract now contractID s =
     (case contracts s contractID of
        None \<Rightarrow> (Inl (UnknownContract contractID), s)
      | Some c \<Rightarrow>
          if IsTerminal (ac_State c) then (Inl (AlreadyTerminal contractID), s)
          else case Transition (ac_State c) Terminated of
            Inl e \<Rightarrow> (Inl e, s)
          | Inr nextState \<Rightarrow>
              (Inr nextState, set_contract contractID
                 (c\<lparr>ac_State := nextState,
                    ac_Settlement := (ac_Settlement c)\<lparr>st_Status := SettlementTerminated,
                                                       st_FinalizedAt := now\<rparr>\<rparr>) s))"

definition VerifyAndRecordChallengeResponse ::
    "(bytes \<Rightarrow> bytes \<Rightarrow> bytes \<Rightarrow> bool) \<Rightarrow> gotime \<Rightarrow> gotime \<Rightarrow> ContractID \<Rightarrow> Challenge
     \<Rightarrow> ChallengeResponse \<Rightarrow> bytes \<Rightarrow> bytes \<Rightarrow> duration
     \<Rightarrow> contractStore \<Rightarrow> ((contract_error + ContractState) \<times> ChallengeResult) \<times> contractStore" where
  "VerifyAndRecordChallengeResponse ed_verify now_build now contractID challenge response
       fileMerkleRoot providerPubKey maxTimeout s =
     (let challengeResult = BuildChallengeResult ed_verify now_build challenge response
            fileMerkleRoot providerPubKey maxTimeout;
          (r, s') = RecordAvailabilityResult now contractID (ch_ChallengeID challenge) challengeResult s
      in ((r, challengeResult), s'))"

section \<open>What an operation may do to a contract\<close>

text \<open>The state changes of one call: a step the lifecycle allows, the three steps from
  \<open>Agreed\<close> to \<open>Active\<close> at the first challenge, or the expiry noticed when a challenge is
  initiated.\<close>

definition lifecycle_step :: "ContractState \<Rightarrow> ContractState \<Rightarrow> bool" where
  "lifecycle_step st st' \<longleftrightarrow> st' = st \<or> CanTransition st st'
     \<or> st = Agreed \<and> st' = Active \<or> st = Agreed \<and> st' = Expired"

lemma CanTransition_terminal: "IsTerminal st \<Longrightarrow> \<not> CanTransition st st'"
  by (auto simp: CanTransition_def isTerminalState_def)

lemma IsTerminal_isTerminalState: "IsTerminal st = isTerminalState st"
  by (simp add: isTerminalState_def)

lemma Transition_Inr [simp]: "Transition a b = Inr c \<longleftrightarrow> CanTransition a b \<and> c = b"
  by (auto simp: Transition_def)

lemma Transition_Inl: "Transition a b = Inl e \<longleftrightarrow> \<not> CanTransition a b \<and> e = InvalidTransition a b"
  by (auto simp: Transition_def)

lemma CanTransition_simps [simp]:
  "CanTransition Proposed Agreed" "CanTransition Agreed Transferring"
  "CanTransition Transferring Ready" "CanTransition Ready Active"
  "CanTransition Active Completed" "CanTransition Active Expired"
  "CanTransition Proposed Terminated" "CanTransition Agreed Terminated" "CanTransition Active Terminated"
  "\<not> CanTransition Expired st" "\<not> CanTransition Completed st" "\<not> CanTransition Terminated st"
  "\<not> CanTransition Disputed st"
  by (simp_all add: CanTransition_def isTerminalState_def)

lemma advance_to_active [simp]: "advance Agreed [Transferring, Ready, Active] = (None, Active)"
  by (simp add: Transition_def)

text \<open>What may still happen to a contract in a terminal state: nothing, except that an attempt to settle an
  expired contract leaves the computed settlement.\<close>

definition sealed_contract :: "AvailabilityContract \<Rightarrow> AvailabilityContract \<Rightarrow> bool" where
  "sealed_contract c c' \<longleftrightarrow> c' = c \<or> ac_State c = Expired \<and> c' = c\<lparr>ac_Settlement := ac_Settlement c'\<rparr>"

lemma sealed_contract_simps [simp]:
  "sealed_contract c c" "ac_State c = Expired \<Longrightarrow> sealed_contract c (c\<lparr>ac_Settlement := st\<rparr>)"
  by (simp_all add: sealed_contract_def)

lemma sealed_contract_cases:
  assumes "sealed_contract c c'"
  obtains "c' = c" | st where "ac_State c = Expired" and "c' = c\<lparr>ac_Settlement := st\<rparr>"
  using assms unfolding sealed_contract_def by blast

lemma sealed_contractD:
  "sealed_contract c c' \<Longrightarrow> ac_State c' = ac_State c" "sealed_contract c c' \<Longrightarrow> ac_Results c' = ac_Results c"
  "sealed_contract c c' \<Longrightarrow> ac_FundedAmount c' = ac_FundedAmount c"
  by (erule sealed_contract_cases; simp)+

lemma sealed_contract_trans: "sealed_contract c d \<Longrightarrow> sealed_contract d e \<Longrightarrow> sealed_contract c e"
  by (elim sealed_contract_cases) simp_all

text \<open>The challenges, results and terms of a contract only grow or stay, and its lifecycle only
  advances, until a terminal state seals the contract.\<close>

definition contract_le :: "AvailabilityContract \<Rightarrow> AvailabilityContract \<Rightarrow> bool" where
  "contract_le c c' \<longleftrightarrow>
     ac_ID c' = ac_ID c \<and> ac_PublisherID c' = ac_PublisherID c \<and> ac_ProviderID c' = ac_ProviderID c
     \<and> ac_FileID c' = ac_FileID c \<and> ac_TotalChunks c' = ac_TotalChunks c
     \<and> ac_PaymentAmount c' = ac_PaymentAmount c \<and> ac_EndsAt c' = ac_EndsAt c
     \<and> prefix (ac_Challenges c) (ac_Challenges c') \<and> prefix (ac_Results c) (ac_Results c')
     \<and> prefix (ac_AvailabilityResults c) (ac_AvailabilityResults c')
     \<and> lifecycle_step\<^sup>*\<^sup>* (ac_State c) (ac_State c')
     \<and> (IsTerminal (ac_State c) \<longrightarrow> sealed_contract c c')"

lemma contract_le_refl: "contract_le c c"
  by (simp add: contract_le_def)

lemma contract_le_trans:
  assumes "contract_le c d" and "contract_le d e"
  shows "contract_le c e"
proof -
  note cd = assms(1) [unfolded contract_le_def] and de = assms(2) [unfolded contract_le_def]
  have "sealed_contract c e" if "IsTerminal (ac_State c)"
    using that cd de sealed_contract_trans sealed_contractD(1) by metis
  moreover have "lifecycle_step\<^sup>*\<^sup>* (ac_State c) (ac_State e)" using cd de by (meson rtranclp_trans)
  ultimately show ?thesis using cd de unfolding contract_le_def by (auto intro: prefix_order.trans simp del: IsTerminal.simps)
qed

section \<open>Well-formed contracts\<close>

text \<open>The history the payment module reads repeats the recorded results: one entry per result, in
  the same order, with consecutive periods from 1.\<close>

definition availability_history ::
    "ContractID \<Rightarrow> string \<Rightarrow> ChallengeResult list \<Rightarrow> AvailabilityResult list" where
  "availability_history i p rs = map (\<lambda>(n, r).
     \<lparr>ar_ContractID = i, ar_ProviderID = p, ar_Period = of_nat n, ar_ChallengeID = cr_ChallengeID r,
      ar_Result = (if cr_Succeeded r then AvailabilityPass else AvailabilityFail),
      ar_Timestamp = cr_RecordedAt r\<rparr>) (enumerate 1 rs)"

lemma length_availability_history [simp]: "length (availability_history i p rs) = length rs"
  by (simp add: availability_history_def)

lemma availability_history_append [simp]:
  "availability_history i p (rs @ [r]) = availability_history i p rs @
     [\<lparr>ar_ContractID = i, ar_ProviderID = p, ar_Period = of_nat (length rs + 1),
       ar_ChallengeID = cr_ChallengeID r,
       ar_Result = (if cr_Succeeded r then AvailabilityPass else AvailabilityFail),
       ar_Timestamp = cr_RecordedAt r\<rparr>]"
  by (simp add: availability_history_def enumerate_append_eq)

definition contract_wf :: "ContractID \<Rightarrow> AvailabilityContract \<Rightarrow> bool" where
  "contract_wf i c \<longleftrightarrow>
     ac_ID c = i \<and> i \<noteq> [] \<and> ac_ProviderID c \<noteq> [] \<and> ac_FileID c \<noteq> []
     \<and> 0 < ac_PaymentAmount c \<and> 0 < ac_TotalChunks c \<and> in_int64 (ac_TotalChunks c)
     \<and> ac_State c \<in> {Proposed, Agreed, Active, Completed, Expired, Terminated}
     \<and> (ac_State c = Proposed \<longrightarrow> ac_FundedAmount c = 0 \<and> ac_Challenges c = [])
     \<and> (ac_State c \<in> {Agreed, Active, Completed, Expired} \<longrightarrow> ac_FundedAmount c = ac_PaymentAmount c)
     \<and> (ac_State c \<in> {Proposed, Agreed} \<longrightarrow> ac_Results c = [])
     \<and> distinct (map cr_ChallengeID (ac_Results c))
     \<and> ac_AvailabilityResults c = availability_history i (ac_ProviderID c) (ac_Results c)
     \<and> (ac_State c \<in> {Proposed, Agreed, Active} \<longrightarrow>
          ac_Settlement c = zero_settlement\<lparr>st_Status := SettlementPending\<rparr>)
     \<and> (ac_State c = Terminated \<longrightarrow> st_Status (ac_Settlement c) = SettlementTerminated)
     \<and> (ac_State c = Completed \<longrightarrow> (\<exists>st t. CalculateSettlement (ac_FundedAmount c) (ac_Results c) = Inr st
          \<and> ac_Settlement c = st\<lparr>st_FinalizedAt := t\<rparr>))"

section \<open>Every operation keeps contracts well-formed\<close>

text \<open>How one call changes the contract map.\<close>

definition evolves :: "(ContractID \<rightharpoonup> AvailabilityContract) \<Rightarrow> (ContractID \<rightharpoonup> AvailabilityContract) \<Rightarrow> bool" where
  "evolves m m' \<longleftrightarrow> (\<forall>i. case m i of
     None \<Rightarrow> (\<forall>c'. m' i = Some c' \<longrightarrow> contract_wf i c')
   | Some c \<Rightarrow> (\<exists>c'. m' i = Some c' \<and> (contract_wf i c \<longrightarrow> contract_wf i c' \<and> contract_le c c')))"

lemma evolves_refl [simp]: "evolves m m"
  by (auto simp: evolves_def contract_le_refl split: option.splits)

lemma evolves_update:
  assumes "m i = Some c" and "contract_wf i c \<Longrightarrow> contract_wf i c' \<and> contract_le c c'"
  shows "evolves m (m(i \<mapsto> c'))"
  using assms by (auto simp: evolves_def contract_le_refl split: option.splits)

lemma evolves_set_contract:
  assumes "contracts s i = Some c" and "contract_wf i c \<Longrightarrow> contract_wf i c' \<and> contract_le c c'"
  shows "evolves (contracts s) (contracts (set_contract i c' s))"
  using assms by (simp add: set_contract_def evolves_update)

lemma contracts_set_contract [simp]: "contracts (set_contract i c s) = (contracts s)(i \<mapsto> c)"
  by (simp add: set_contract_def)

lemma other_fields_set_contract [simp]:
  "challenges (set_contract i c s) = challenges s" "activeEpochs (set_contract i c s) = activeEpochs s"
  "resolver (set_contract i c s) = resolver s" "epochStore (set_contract i c s) = epochStore s"
  by (simp_all add: set_contract_def)

lemma lifecycle_stepI: "lifecycle_step a b \<Longrightarrow> lifecycle_step\<^sup>*\<^sup>* a b"
  by (rule r_into_rtranclp)

text \<open>An ID drawn by \<open>CreateAvailabilityContract\<close> is fresh when no contract has it.\<close>

definition fresh_contract :: "bytes option \<Rightarrow> contractStore \<Rightarrow> bool" where
  "fresh_contract rnd s \<longleftrightarrow> (\<forall>r. rnd = Some r \<longrightarrow> contracts s (''contract-'' @ hex_encode r) = None)"

definition resolver_ok :: "contractStore \<Rightarrow> bool" where
  "resolver_ok s \<longleftrightarrow> (\<forall>r p f n. resolver s = Some r \<and> r p f = Inr n \<longrightarrow> in_int64 n)"

lemma Create_evolves:
  assumes "CreateAvailabilityContract rnd now pub p f amount d s = (res, s')"
    and "fresh_contract rnd s" and "resolver_ok s"
  shows "evolves (contracts s) (contracts s')"
proof (cases res)
  case (Inl e)
  with assms(1) have "s' = s"
    by (auto simp: CreateAvailabilityContract_def Let_def split: if_splits option.splits sum.splits)
  then show ?thesis by simp
next
  case (Inr i)
  with assms obtain c where "s' = set_contract i c s" "contract_wf i c" "contracts s i = None"
    by (auto simp: CreateAvailabilityContract_def Let_def contract_wf_def availability_history_def
        fresh_contract_def resolver_ok_def split: if_splits option.splits sum.splits)
  then show ?thesis
    by (auto simp: evolves_def contract_le_refl split: option.splits)
qed

lemma Fund_cases:
  assumes "FundAvailabilityContract i amount s = (res, s')"
  obtains (unchanged) "\<not> is_ok res" and "s' = s"
  | (funded) c where "contracts s i = Some c" and "ac_State c = Proposed"
      and "amount = ac_PaymentAmount c" and "res = Inr Agreed"
      and "s' = set_contract i (c\<lparr>ac_FundedAmount := amount, ac_State := Agreed\<rparr>) s"
proof (cases "contracts s i")
  case (Some c)
  show thesis
  proof (cases "ac_State c = Proposed \<and> amount = ac_PaymentAmount c")
    case True
    with assms Some show thesis by (intro funded [of c]) (auto simp: FundAvailabilityContract_def Transition_def)
  next
    case False
    with assms Some show thesis
      by (intro unchanged) (auto simp: FundAvailabilityContract_def split: if_splits)
  qed
qed (use assms unchanged in \<open>auto simp: FundAvailabilityContract_def\<close>)

lemma Fund_evolves:
  assumes "FundAvailabilityContract i amount s = (res, s')"
  shows "evolves (contracts s) (contracts s')"
  using assms
proof (cases rule: Fund_cases)
  case (funded c)
  have "contract_wf i c \<Longrightarrow> contract_wf i (c\<lparr>ac_FundedAmount := amount, ac_State := Agreed\<rparr>)"
    using funded by (simp add: contract_wf_def)
  moreover have "contract_le c (c\<lparr>ac_FundedAmount := amount, ac_State := Agreed\<rparr>)"
    using funded by (simp add: contract_le_def lifecycle_step_def lifecycle_stepI)
  ultimately show ?thesis using funded by (simp add: evolves_update)
qed simp

text \<open>What a successful \<open>RecordAvailabilityResult\<close> appends.\<close>

definition recorded_result :: "gotime \<Rightarrow> ChallengeID \<Rightarrow> ChallengeResult \<Rightarrow> ChallengeResult" where
  "recorded_result now ch r = r\<lparr>cr_ChallengeID := ch, cr_RecordedAt := now\<rparr>"

lemma Record_cases:
  assumes "RecordAvailabilityResult now i ch r s = (res, s')"
  obtains (unchanged) "\<not> is_ok res" and "s' = s"
  | (recorded) c ar where "contracts s i = Some c" and "ac_State c = Active" and "res = Inr Active"
      and "challenges s ch = Some i" and "cr_ChallengeID r = [] \<or> cr_ChallengeID r = ch"
      and "ch \<notin> cr_ChallengeID ` set (ac_Results c)"
      and "ar = \<lparr>ar_ContractID = i, ar_ProviderID = ac_ProviderID c,
             ar_Period = of_nat (length (ac_AvailabilityResults c) + 1), ar_ChallengeID = ch,
             ar_Result = (if cr_Succeeded r then AvailabilityPass else AvailabilityFail),
             ar_Timestamp = now\<rparr>"
      and "s' = set_contract i (c\<lparr>ac_Results := ac_Results c @ [recorded_result now ch r],
             ac_AvailabilityResults := ac_AvailabilityResults c @ [ar]\<rparr>) s"
proof (cases "contracts s i")
  case (Some c)
  let ?ok = "ac_State c = Active \<and> challenges s ch = Some i
    \<and> (cr_ChallengeID r = [] \<or> cr_ChallengeID r = ch)
    \<and> \<not> list_ex (\<lambda>recorded. cr_ChallengeID recorded = ch) (ac_Results c)"
  show thesis
  proof (cases ?ok)
    case True
    then have "ch \<notin> cr_ChallengeID ` set (ac_Results c)" by (auto simp: list_ex_iff)
    with assms Some True show thesis
      by (intro recorded [OF Some])
        (auto simp: RecordAvailabilityResult_def recorded_result_def Let_def split: if_splits)
  next
    case False
    with assms Some show thesis
      by (intro unchanged) (auto simp: RecordAvailabilityResult_def split: if_splits)
  qed
qed (use assms unchanged in \<open>auto simp: RecordAvailabilityResult_def\<close>)

lemma Record_evolves:
  assumes "RecordAvailabilityResult now i ch r s = (res, s')"
  shows "evolves (contracts s) (contracts s')"
  using assms
proof (cases rule: Record_cases)
  case (recorded c ar)
  let ?c' = "c\<lparr>ac_Results := ac_Results c @ [recorded_result now ch r],
    ac_AvailabilityResults := ac_AvailabilityResults c @ [ar]\<rparr>"
  have "contract_wf i c \<Longrightarrow> contract_wf i ?c'"
    using recorded by (simp add: contract_wf_def recorded_result_def)
  moreover have "contract_le c ?c'" using recorded by (simp add: contract_le_def)
  ultimately show ?thesis using recorded by (simp add: evolves_update)
qed simp

lemma Terminate_cases:
  assumes "TerminateAvailabilityContract now i s = (res, s')"
  obtains (unchanged) "\<not> is_ok res" and "s' = s"
  | (terminated) c where "contracts s i = Some c" and "\<not> IsTerminal (ac_State c)" and "res = Inr Terminated"
      and "CanTransition (ac_State c) Terminated"
      and "s' = set_contract i (c\<lparr>ac_State := Terminated, ac_Settlement :=
             (ac_Settlement c)\<lparr>st_Status := SettlementTerminated, st_FinalizedAt := now\<rparr>\<rparr>) s"
proof (cases "contracts s i")
  case (Some c)
  show thesis
  proof (cases "\<not> IsTerminal (ac_State c) \<and> CanTransition (ac_State c) Terminated")
    case True
    with assms Some show thesis
      by (intro terminated [OF Some]) (simp_all add: TerminateAvailabilityContract_def Transition_def del: IsTerminal.simps)
  next
    case False
    with assms Some show thesis
      by (intro unchanged)
        (auto simp: TerminateAvailabilityContract_def Transition_def simp del: IsTerminal.simps split: if_splits)
  qed
qed (use assms unchanged in \<open>auto simp: TerminateAvailabilityContract_def\<close>)

lemma Terminate_evolves:
  assumes "TerminateAvailabilityContract now i s = (res, s')"
  shows "evolves (contracts s) (contracts s')"
  using assms
proof (cases rule: Terminate_cases)
  case (terminated c)
  let ?c' = "c\<lparr>ac_State := Terminated, ac_Settlement :=
    (ac_Settlement c)\<lparr>st_Status := SettlementTerminated, st_FinalizedAt := now\<rparr>\<rparr>"
  have "contract_wf i c \<Longrightarrow> contract_wf i ?c'" by (simp add: contract_wf_def)
  moreover have "contract_le c ?c'"
    using terminated
    by (simp add: contract_le_def lifecycle_step_def lifecycle_stepI del: IsTerminal.simps)
  ultimately show ?thesis using terminated by (simp add: evolves_update)
qed simp

text \<open>A settlement either completes, or, on an expired contract, stores the computed amounts and
  then fails at the transition.\<close>

lemma Settle_cases:
  assumes "SettleAvailabilityContract now now' i s = (res, s')"
  obtains (unchanged) "\<not> is_ok res" and "s' = s"
  | (stuck) c st where "contracts s i = Some c" and "ac_State c = Expired"
      and "CalculateSettlement (ac_FundedAmount c) (ac_Results c) = Inr st" and "\<not> is_ok res"
      and "s' = set_contract i (c\<lparr>ac_Settlement := st\<rparr>) s"
  | (settled) c st st' where "contracts s i = Some c" and "ac_State c = Active"
      and "CalculateSettlement (ac_FundedAmount c) (ac_Results c) = Inr st"
      and "st' = (if ac_EndsAt c \<le> now then Expired else Completed)" and "res = Inr (st_Status st)"
      and "s' = set_contract i (c\<lparr>ac_State := st', ac_Settlement := st\<lparr>st_FinalizedAt := now'\<rparr>\<rparr>) s"
proof (cases "contracts s i")
  case (Some c)
  show thesis
  proof (cases "CalculateSettlement (ac_FundedAmount c) (ac_Results c)")
    case (Inl e)
    with assms Some show thesis
      by (intro unchanged) (auto simp: SettleAvailabilityContract_def split: if_splits)
  next
    case (Inr st)
    then have ne: "ac_Results c \<noteq> []" by (auto simp: CalculateSettlement_def split: if_splits)
    consider "ac_State c = Active" | "ac_State c = Expired" | "ac_State c \<notin> {Active, Expired}" by auto
    then show thesis
    proof cases
      case 1
      with assms Some Inr ne show thesis
        by (intro settled [OF Some 1 Inr])
          (auto simp: SettleAvailabilityContract_def Transition_def Let_def not_less split: if_splits)
    next
      case 2
      with assms Some Inr ne show thesis
        by (intro stuck [OF Some 2 Inr])
          (auto simp: SettleAvailabilityContract_def Transition_def Let_def split: if_splits)
    next
      case 3
      with assms Some show thesis by (intro unchanged) (auto simp: SettleAvailabilityContract_def)
    qed
  qed
qed (use assms unchanged in \<open>auto simp: SettleAvailabilityContract_def\<close>)

lemma Settle_evolves:
  assumes "SettleAvailabilityContract now now' i s = (res, s')"
  shows "evolves (contracts s) (contracts s')"
  using assms
proof (cases rule: Settle_cases)
  case (stuck c st)
  have "contract_wf i c \<Longrightarrow> contract_wf i (c\<lparr>ac_Settlement := st\<rparr>)"
    using stuck(2) by (simp add: contract_wf_def)
  moreover have "contract_le c (c\<lparr>ac_Settlement := st\<rparr>)" using stuck(2) by (simp add: contract_le_def)
  ultimately show ?thesis using stuck by (simp add: evolves_update)
next
  case (settled c st st')
  let ?c' = "c\<lparr>ac_State := st', ac_Settlement := st\<lparr>st_FinalizedAt := now'\<rparr>\<rparr>"
  have "contract_wf i c \<Longrightarrow> contract_wf i ?c'"
    using settled(2-4) by (auto simp: contract_wf_def)
  moreover have "contract_le c ?c'"
    using settled(2,4) by (simp add: contract_le_def lifecycle_step_def lifecycle_stepI)
  ultimately show ?thesis using settled by (simp add: evolves_update)
qed simp

lemma Initiate_cases:
  assumes "InitiateAvailabilityChallenge rid rn now now' now'' i s = (res, s')"
  obtains (unchanged) "\<not> is_ok res" and "s' = s"
  | (expired) c where "contracts s i = Some c" and "ac_State c \<in> {Agreed, Active}"
      and "ac_EndsAt c \<le> now" and "res = Inl ContractHasExpired"
      and "s' = set_contract i (c\<lparr>ac_State := Expired\<rparr>) s"
  | (failed) c e es where "contracts s i = Some c" and "ac_State c \<in> {Agreed, Active}"
      and "next_challenge rid rn now' now'' i c (activeEpochs s i) (epochStore s) = (Inl e, es)"
      and "res = Inl e" and "s' = s\<lparr>epochStore := es\<rparr>"
  | (issued) c g es where "contracts s i = Some c" and "ac_State c \<in> {Agreed, Active}"
      and "ac_FundedAmount c = ac_PaymentAmount c" and "now < ac_EndsAt c"
      and "next_challenge rid rn now' now'' i c (activeEpochs s i) (epochStore s) = (Inr g, es)"
      and "res = Inr (ch_ChallengeID g, ch_EpochID g)"
      and "s' = s\<lparr>epochStore := es,
             contracts := (contracts s)(i \<mapsto> c\<lparr>ac_State := Active,
               ac_Challenges := ac_Challenges c @ [ch_ChallengeID g]\<rparr>),
             challenges := (challenges s)(ch_ChallengeID g \<mapsto> i),
             activeEpochs := (activeEpochs s)(i \<mapsto>
               \<lparr>ae_id = ch_EpochID g, ae_endAfterCurrent = ch_TriggerStatus g\<rparr>)\<rparr>"
proof (cases "contracts s i")
  case (Some c)
  let ?ready = "ac_State c \<in> {Agreed, Active} \<and> ac_FundedAmount c = ac_PaymentAmount c"
  consider "\<not> ?ready" | "?ready" "ac_EndsAt c \<le> now" | "?ready" "now < ac_EndsAt c" by linarith
  then show thesis
  proof cases
    case 1
    with assms Some show thesis
      by (intro unchanged) (auto simp: InitiateAvailabilityChallenge_def split: if_splits)
  next
    case 2
    with assms Some show thesis
      by (intro expired [OF Some]) (auto simp: InitiateAvailabilityChallenge_def)
  next
    case 3
    obtain r es where n: "next_challenge rid rn now' now'' i c (activeEpochs s i) (epochStore s) = (r, es)"
      by fastforce
    show thesis
    proof (cases r)
      case (Inl e)
      with assms Some 3 n show thesis
        by (intro failed [OF Some]) (auto simp: InitiateAvailabilityChallenge_def)
    next
      case (Inr g)
      with 3 n have "ac_State c \<in> {Agreed, Active}" "ac_FundedAmount c = ac_PaymentAmount c"
        "next_challenge rid rn now' now'' i c (activeEpochs s i) (epochStore s) = (Inr g, es)" by auto
      moreover from this assms Some 3(2) have
        "res = Inr (ch_ChallengeID g, ch_EpochID g) \<and> s' = s\<lparr>epochStore := es,
             contracts := (contracts s)(i \<mapsto> c\<lparr>ac_State := Active,
               ac_Challenges := ac_Challenges c @ [ch_ChallengeID g]\<rparr>),
             challenges := (challenges s)(ch_ChallengeID g \<mapsto> i),
             activeEpochs := (activeEpochs s)(i \<mapsto>
               \<lparr>ae_id = ch_EpochID g, ae_endAfterCurrent = ch_TriggerStatus g\<rparr>)\<rparr>"
        by (auto simp: InitiateAvailabilityChallenge_def set_contract_def simp del: advance.simps)
      ultimately show thesis using issued [OF Some _ _ 3(2)] by blast
    qed
  qed
qed (use assms unchanged in \<open>auto simp: InitiateAvailabilityChallenge_def\<close>)

lemma Initiate_evolves:
  assumes "InitiateAvailabilityChallenge rid rn now now' now'' i s = (res, s')"
  shows "evolves (contracts s) (contracts s')"
  using assms
proof (cases rule: Initiate_cases)
  case (expired c)
  then show ?thesis
    by (auto simp: contract_wf_def contract_le_def lifecycle_step_def
        intro!: evolves_update lifecycle_stepI)
next
  case (issued c g es)
  then show ?thesis
    by (auto simp: contract_wf_def contract_le_def lifecycle_step_def
        intro!: evolves_update lifecycle_stepI)
qed simp_all

end
