(* ===== verification/ContractRuns.thy ===== *)
theory ContractRuns
  imports Contracts
begin

text \<open>
  Sequences of calls of the package \<open>contract\<close>: the step relation, the invariant of the
  reachable stores, the growth of a contract along a run, and the properties of the contract
  module.
\<close>

section \<open>The epoch store under contract operations\<close>

lemma CreateEpoch_dom:
  assumes "CreateEpoch rnd now p f n s = (res, t)"
  shows "dom (epochs s) \<subseteq> dom (epochs t)"
proof (cases res)
  case (Inl e)
  with assms show ?thesis by (auto dest: CreateEpoch_err)
next
  case (Inr i)
  from assms [unfolded Inr] show ?thesis
  proof (rule CreateEpoch_ok)
    fix e eps
    assume t: "t = s\<lparr>epochs := eps(i \<mapsto> e), latest := (latest s)(epoch_key p f \<mapsto> i)\<rparr>"
      and "\<And>j. latest s (epoch_key p f) \<noteq> Some j \<Longrightarrow> eps j = epochs s j"
      and "\<And>j. latest s (epoch_key p f) = Some j \<Longrightarrow>
        eps j = map_option (\<lambda>e. e\<lparr>ep_Status := EpochEnded\<rparr>) (epochs s j)"
    then have "eps j \<noteq> None" if "epochs s j \<noteq> None" for j using that by (metis option.map_disc_iff)
    with t show ?thesis by (auto simp: dom_def)
  qed
qed

lemma SelectUncoveredChunk_dom:
  assumes "SelectUncoveredChunk i h s = (res, t)"
  shows "dom (epochs s) \<subseteq> dom (epochs t)"
  using assms by (auto simp: SelectUncoveredChunk_def Let_def split: if_splits option.splits)

lemma GenerateNextChallenge_dom:
  assumes "GenerateNextChallenge rnd now c p f i ctr rn s = (res, t)"
  shows "dom (epochs s) \<subseteq> dom (epochs t)"
  using GenerateNextChallenge_cases [OF assms] SelectUncoveredChunk_dom by blast

lemma CreateChallenge_cases:
  assumes "CreateChallenge rnd rnd' now now' c p f n rn s = (res, s')"
  obtains (rejected) "s' = s"
  | (no_challenge) r where "CreateEpoch rnd now p f n s = (r, s')"
  | (generated) i t where "CreateEpoch rnd now p f n s = (Inr i, t)"
      and "GenerateNextChallenge rnd' now' c p f i 0 rn t = (res, s')"
  using assms by (auto simp: CreateChallenge_def split: if_splits prod.splits sum.splits intro: that)

lemma epoch_step_dom: "epoch_step s t \<Longrightarrow> dom (epochs s) \<subseteq> dom (epochs t)"
proof (induction rule: epoch_step.induct)
  case (step_next rnd s now p f res t)
  then have "t = s \<or> (\<exists>n. CreateEpoch rnd now p f n s = (res, t))"
    by (auto simp: StartNextEpoch_def split: if_splits option.splits)
  with step_next show ?case using CreateEpoch_dom by blast
next
  case (step_challenge rnd s n rnd' now now' c p f rn resc t)
  from step_challenge(3) show ?case
  proof (cases rule: CreateChallenge_cases)
    case (generated i u)
    from CreateEpoch_dom [OF generated(1)] GenerateNextChallenge_dom [OF generated(2)]
    show ?thesis by (rule subset_trans)
  qed (auto dest: CreateEpoch_dom)
qed (auto dest: CreateEpoch_dom SelectUncoveredChunk_dom GenerateNextChallenge_dom)

lemma GenerateNextChallenge_epoch:
  assumes "GenerateNextChallenge rnd now c p f i ctr rn s = (Inr g, t)"
  shows "ch_EpochID g = i \<and> i \<noteq> [] \<and> i \<in> dom (epochs t)"
proof -
  from assms have "ch_EpochID g = i \<and> i \<noteq> [] \<and> i \<in> dom (epochs s)"
    by (auto simp: GenerateNextChallenge_def GetEpochState_def Let_def
        split: if_splits option.splits sum.splits prod.splits)
  with GenerateNextChallenge_dom [OF assms] show ?thesis by blast
qed

lemma CreateChallenge_epoch:
  assumes "CreateChallenge rnd rnd' now now' c p f n rn s = (Inr g, t)"
  shows "ch_EpochID g \<noteq> [] \<and> ch_EpochID g \<in> dom (epochs t)"
proof -
  from assms obtain i u where "GenerateNextChallenge rnd' now' c p f i 0 rn u = (Inr g, t)"
    by (auto simp: CreateChallenge_def split: if_splits prod.splits sum.splits)
  from GenerateNextChallenge_epoch [OF this] show ?thesis by auto
qed

lemma next_challenge_run:
  assumes "next_challenge rid rn now' now'' i c tracked es = (res, es')"
    and "fresh_epoch rid es" and "in_int64 (ac_TotalChunks c)"
  shows "es' = es \<or> epoch_step es es'"
  using assms
  by (auto simp: next_challenge_def Let_def split: option.splits sum.splits if_splits prod.splits
      intro: step_challenge step_generate)

lemma next_challenge_epoch:
  assumes "next_challenge rid rn now' now'' i c tracked es = (Inr g, es')"
  shows "ch_EpochID g \<noteq> [] \<and> ch_EpochID g \<in> dom (epochs es')"
  using assms
  by (auto simp: next_challenge_def Let_def split: option.splits sum.splits if_splits prod.splits
      dest: GenerateNextChallenge_epoch CreateChallenge_epoch)

section \<open>Steps and invariant\<close>

text \<open>One step is one call, with the random bytes and the clock as the environment chooses them;
  a drawn ID is taken not to be in use already. Other callers of the package \<open>challenge\<close> may
  change the epoch store in between.\<close>

inductive contract_step :: "contractStore \<Rightarrow> contractStore \<Rightarrow> bool" where
  cstep_configure: "ConfigureChunkCountResolver r s = (res, t) \<Longrightarrow> resolver_ok t \<Longrightarrow> contract_step s t"
| cstep_create: "CreateAvailabilityContract rnd now pub p f a d s = (res', t) \<Longrightarrow> fresh_contract rnd s
     \<Longrightarrow> contract_step s t"
| cstep_fund: "FundAvailabilityContract i a s = (res'', t) \<Longrightarrow> contract_step s t"
| cstep_initiate: "InitiateAvailabilityChallenge rid rn now now' now'' i s = (resi, t)
     \<Longrightarrow> fresh_epoch rid (epochStore s) \<Longrightarrow> contract_step s t"
| cstep_record: "RecordAvailabilityResult now i ch r' s = (res'', t) \<Longrightarrow> contract_step s t"
| cstep_settle: "SettleAvailabilityContract now now' i s = (ress, t) \<Longrightarrow> contract_step s t"
| cstep_terminate: "TerminateAvailabilityContract now i s = (res'', t) \<Longrightarrow> contract_step s t"
| cstep_epoch: "epoch_step (epochStore s) es \<Longrightarrow> contract_step s (s\<lparr>epochStore := es\<rparr>)"

text \<open>Every epoch a contract tracks is in the epoch store.\<close>

definition tracked_ok :: "(ContractID \<rightharpoonup> activeEpoch) \<Rightarrow> epoch_store \<Rightarrow> bool" where
  "tracked_ok act es \<longleftrightarrow> (\<forall>i ae. act i = Some ae \<longrightarrow> ae_id ae \<noteq> [] \<and> ae_id ae \<in> dom (epochs es))"

lemma tracked_ok_mono: "tracked_ok act es \<Longrightarrow> dom (epochs es) \<subseteq> dom (epochs es') \<Longrightarrow> tracked_ok act es'"
  unfolding tracked_ok_def by blast

lemma tracked_ok_upd:
  "tracked_ok act es \<Longrightarrow> ae_id ae \<noteq> [] \<Longrightarrow> ae_id ae \<in> dom (epochs es) \<Longrightarrow> tracked_ok (act(i \<mapsto> ae)) es"
  unfolding tracked_ok_def by simp

definition store_inv :: "contractStore \<Rightarrow> bool" where
  "store_inv s \<longleftrightarrow> (\<forall>i c. contracts s i = Some c \<longrightarrow> contract_wf i c)
     \<and> epoch_store_inv (epochStore s) \<and> resolver_ok s \<and> tracked_ok (activeEpochs s) (epochStore s)"

lemma store_invD:
  assumes "store_inv s"
  shows "contracts s i = Some c \<Longrightarrow> contract_wf i c" and "epoch_store_inv (epochStore s)"
    and "resolver_ok s" and "tracked_ok (activeEpochs s) (epochStore s)"
  using assms unfolding store_inv_def by blast+

lemma resolver_ok_cong [simp]:
  "resolver_ok (s\<lparr>contracts := m\<rparr>) = resolver_ok s" "resolver_ok (s\<lparr>epochStore := es\<rparr>) = resolver_ok s"
  "resolver_ok (s\<lparr>challenges := ch\<rparr>) = resolver_ok s" "resolver_ok (s\<lparr>activeEpochs := act\<rparr>) = resolver_ok s"
  by (simp_all add: resolver_ok_def)

lemma evolvesD:
  assumes "evolves m m'"
  shows "m i = None \<Longrightarrow> m' i = Some c' \<Longrightarrow> contract_wf i c'"
    and "m i = Some c \<Longrightarrow> \<exists>c'. m' i = Some c' \<and> (contract_wf i c \<longrightarrow> contract_wf i c' \<and> contract_le c c')"
proof -
  from assms have e: "case m i of None \<Rightarrow> (\<forall>c'. m' i = Some c' \<longrightarrow> contract_wf i c')
   | Some c \<Rightarrow> (\<exists>c'. m' i = Some c' \<and> (contract_wf i c \<longrightarrow> contract_wf i c' \<and> contract_le c c'))"
    unfolding evolves_def by (rule spec)
  show "m i = None \<Longrightarrow> m' i = Some c' \<Longrightarrow> contract_wf i c'" using e by simp
  show "m i = Some c \<Longrightarrow> \<exists>c'. m' i = Some c' \<and> (contract_wf i c \<longrightarrow> contract_wf i c' \<and> contract_le c c')"
    using e by simp
qed

lemma evolves_wf:
  assumes "evolves m m'" and "\<forall>i c. m i = Some c \<longrightarrow> contract_wf i c"
  shows "\<forall>i c. m' i = Some c \<longrightarrow> contract_wf i c"
proof (intro allI impI)
  fix i c assume c: "m' i = Some c"
  show "contract_wf i c"
  proof (cases "m i")
    case None
    then show ?thesis using evolvesD(1) [OF assms(1)] c by blast
  next
    case (Some c0)
    with evolvesD(2) [OF assms(1) Some] c assms(2) show ?thesis by auto
  qed
qed

text \<open>The calls that leave everything but the contract map alone.\<close>

lemma quiet_calls:
  "CreateAvailabilityContract rnd now pub p f a d s = (res, t) \<Longrightarrow>
     \<exists>m. t = s\<lparr>contracts := m\<rparr>"
  "FundAvailabilityContract i a s = (res', t) \<Longrightarrow> \<exists>m. t = s\<lparr>contracts := m\<rparr>"
  "RecordAvailabilityResult now i ch r s = (res', t) \<Longrightarrow> \<exists>m. t = s\<lparr>contracts := m\<rparr>"
  "SettleAvailabilityContract now now' i s = (ress, t) \<Longrightarrow> \<exists>m. t = s\<lparr>contracts := m\<rparr>"
  "TerminateAvailabilityContract now i s = (res', t) \<Longrightarrow> \<exists>m. t = s\<lparr>contracts := m\<rparr>"
proof -
  have id: "\<exists>m. s = s\<lparr>contracts := m\<rparr>" by (rule exI [of _ "contracts s"]) simp
  have set: "\<exists>m. set_contract i' c s = s\<lparr>contracts := m\<rparr>" for i' c by (auto simp: set_contract_def)
  show "CreateAvailabilityContract rnd now pub p f a d s = (res, t) \<Longrightarrow> \<exists>m. t = s\<lparr>contracts := m\<rparr>"
    using id set
    by (auto simp: CreateAvailabilityContract_def Let_def split: if_splits option.splits sum.splits)
  show "FundAvailabilityContract i a s = (res', t) \<Longrightarrow> \<exists>m. t = s\<lparr>contracts := m\<rparr>"
    by (erule Fund_cases) (use id set in auto)
  show "RecordAvailabilityResult now i ch r s = (res', t) \<Longrightarrow> \<exists>m. t = s\<lparr>contracts := m\<rparr>"
    by (erule Record_cases) (use id set in auto)
  show "SettleAvailabilityContract now now' i s = (ress, t) \<Longrightarrow> \<exists>m. t = s\<lparr>contracts := m\<rparr>"
    by (erule Settle_cases) (use id set in auto)
  show "TerminateAvailabilityContract now i s = (res', t) \<Longrightarrow> \<exists>m. t = s\<lparr>contracts := m\<rparr>"
    by (erule Terminate_cases) (use id set in auto)
qed

lemma store_inv_quiet:
  assumes "store_inv s" and "evolves (contracts s) (contracts t)" and "\<exists>m. t = s\<lparr>contracts := m\<rparr>"
  shows "store_inv t"
proof -
  obtain m where t: "t = s\<lparr>contracts := m\<rparr>" using assms(3) by blast
  have "\<forall>i c. contracts t i = Some c \<longrightarrow> contract_wf i c"
    by (rule evolves_wf [OF assms(2)]) (use assms(1) in \<open>simp add: store_inv_def\<close>)
  with assms(1) show ?thesis by (simp add: store_inv_def t)
qed

lemma store_inv_initiate:
  assumes inv: "store_inv s" and fresh: "fresh_epoch rid (epochStore s)"
    and run: "InitiateAvailabilityChallenge rid rn now now' now'' i s = (res, t)"
  shows "store_inv t"
proof -
  have wf: "\<forall>i c. contracts t i = Some c \<longrightarrow> contract_wf i c"
    by (rule evolves_wf [OF Initiate_evolves [OF run]]) (use inv in \<open>simp add: store_inv_def\<close>)
  have es: "es = epochStore s \<or> epoch_step (epochStore s) es"
    if "next_challenge rid rn now' now'' i c (activeEpochs s i) (epochStore s) = (r, es)"
      and "contracts s i = Some c" for c r es
  proof -
    have "in_int64 (ac_TotalChunks c)" using store_invD(1) [OF inv that(2)] by (simp add: contract_wf_def)
    then show ?thesis by (rule next_challenge_run [OF that(1) fresh])
  qed
  have keep: "epoch_store_inv es \<and> dom (epochs (epochStore s)) \<subseteq> dom (epochs es)"
    if "es = epochStore s \<or> epoch_step (epochStore s) es" for es
    using that store_invD(2) [OF inv] epoch_step_inv epoch_step_dom by blast
  from run show ?thesis
  proof (cases rule: Initiate_cases)
    case (failed c e es)
    note k = keep [OF es [OF failed(3,1)]]
    then have "tracked_ok (activeEpochs s) es" using tracked_ok_mono store_invD(4) [OF inv] by blast
    with failed wf k store_invD(3) [OF inv] show ?thesis by (simp add: store_inv_def)
  next
    case (issued c g es)
    note k = keep [OF es [OF issued(5,1)]]
    then have "tracked_ok (activeEpochs s) es" using tracked_ok_mono store_invD(4) [OF inv] by blast
    then have "tracked_ok (activeEpochs t) es"
      using next_challenge_epoch [OF issued(5)] issued(7) by (simp add: tracked_ok_upd)
    with issued wf k store_invD(3) [OF inv] show ?thesis by (simp add: store_inv_def)
  next
    case (expired c)
    then have "activeEpochs t = activeEpochs s" "epochStore t = epochStore s" "resolver_ok t = resolver_ok s"
      by (simp_all add: set_contract_def)
    with wf store_invD(2-4) [OF inv] show ?thesis unfolding store_inv_def by simp
  qed (use inv in blast)
qed

lemma contract_step_inv:
  assumes "store_inv s" and "contract_step s t"
  shows "store_inv t"
  using assms(2,1)
proof (induction rule: contract_step.cases)
  case (cstep_configure r s res t)
  then show ?case by (auto simp: ConfigureChunkCountResolver_def store_inv_def split: option.splits)
next
  case (cstep_create rnd now pub p f a d s res' t)
  then show ?case
    using Create_evolves quiet_calls(1) store_invD(3) store_inv_quiet by metis
next
  case (cstep_initiate rid rn now now' now'' i s resi t)
  then show ?case using store_inv_initiate by blast
next
  case (cstep_epoch s es)
  then show ?case
    using epoch_step_inv epoch_step_dom tracked_ok_mono by (auto simp: store_inv_def)
qed (auto intro: store_inv_quiet Fund_evolves Record_evolves Settle_evolves Terminate_evolves quiet_calls)

interpretation contract_sys: invariant_system "\<lambda>s. s = empty_contractStore" contract_step store_inv
proof unfold_locales
  fix s assume "s = empty_contractStore"
  moreover have "epoch_store_inv empty_epoch_store"
    by (rule epoch_sys.inv_init) simp
  ultimately show "store_inv s"
    by (simp add: store_inv_def empty_contractStore_def resolver_ok_def tracked_ok_def)
qed (rule contract_step_inv)

abbreviation contract_reachable :: "contractStore \<Rightarrow> bool" where
  "contract_reachable \<equiv> reach (\<lambda>s. s = empty_contractStore) contract_step"

section \<open>Growth along a run\<close>

definition store_le :: "contractStore \<Rightarrow> contractStore \<Rightarrow> bool" where
  "store_le s t \<longleftrightarrow> (\<forall>i c. contracts s i = Some c \<longrightarrow> (\<exists>c'. contracts t i = Some c' \<and> contract_le c c'))"

lemma contract_step_evolves:
  assumes "contract_step s t" and "store_inv s"
  shows "evolves (contracts s) (contracts t)"
  using assms
proof (induction rule: contract_step.induct)
  case (cstep_configure r s res t)
  then show ?case by (auto simp: ConfigureChunkCountResolver_def split: option.splits)
next
  case (cstep_create rnd now pub p f a d s res' t)
  then show ?case using Create_evolves store_invD(3) by blast
qed (auto intro: Fund_evolves Record_evolves Settle_evolves Terminate_evolves Initiate_evolves)

lemma evolves_le:
  assumes "evolves (contracts s) (contracts t)" and "store_inv s"
  shows "store_le s t"
  unfolding store_le_def
proof (intro allI impI)
  fix i c assume c: "contracts s i = Some c"
  from evolvesD(2) [OF assms(1) c] store_invD(1) [OF assms(2) c]
  show "\<exists>c'. contracts t i = Some c' \<and> contract_le c c'" by blast
qed

interpretation contract_growth: monotone_system "\<lambda>s t. store_inv s \<and> contract_step s t" store_le
proof unfold_locales
  show "store_le s s" for s by (auto simp: store_le_def contract_le_refl)
  show "store_le s t \<Longrightarrow> store_le t u \<Longrightarrow> store_le s u" for s t u
    unfolding store_le_def by (meson contract_le_trans)
  show "store_inv s \<and> contract_step s t \<Longrightarrow> store_le s t" for s t
    using contract_step_evolves evolves_le by blast
qed

lemma store_run_le:
  assumes "contract_step\<^sup>*\<^sup>* s t" and "store_inv s"
  shows "store_inv t \<and> store_le s t"
proof -
  have "store_inv t \<and> (\<lambda>s t. store_inv s \<and> contract_step s t)\<^sup>*\<^sup>* s t"
    using assms
    by (induction rule: rtranclp_induct) (auto intro: rtranclp.rtrancl_into_rtrancl contract_step_inv)
  then show ?thesis using contract_growth.run_le by blast
qed

lemma run_contract:
  assumes "contract_reachable s" and "contract_step\<^sup>*\<^sup>* s t" and "contracts s i = Some c"
  obtains c' where "contracts t i = Some c'" and "contract_le c c'" and "contract_wf i c'"
proof -
  have "store_inv s" using assms(1) by (rule contract_sys.inv_reach)
  with store_run_le [OF assms(2)] assms(3) show thesis using that store_invD(1) unfolding store_le_def by blast
qed

section \<open>Issuing challenges\<close>

lemma GenerateNextChallenge_succeeds:
  assumes "c \<noteq> []" "p \<noteq> []" "f \<noteq> []" "i \<noteq> []" and "epochs s i = Some e"
    and "ep_Status e = EpochActive" and "ep_Uncovered e \<noteq> []"
  shows "\<exists>g t. GenerateNextChallenge (Some r) now c p f i (ep_ChallengeCounter e) rn s = (Inr g, t)"
proof -
  let ?h = "GenerateChunkHash p f i (ep_ChallengeCounter e) r"
  have "length ?h \<noteq> 0" by (simp add: GenerateChunkHash_def del: length_0_conv)
  then have "?h \<noteq> []" by auto
  with SelectUncoveredChunk_succeeds [of i ?h s e] assms
  show ?thesis by (auto simp: GenerateNextChallenge_def GetEpochState_def GenerateNonce_def Let_def)
qed

lemma CreateChallenge_succeeds:
  assumes "c \<noteq> []" "p \<noteq> []" "f \<noteq> []" and "0 < n"
  shows "\<exists>g t. CreateChallenge (Some r) (Some r') now now' c p f n rn s = (Inr g, t)"
proof -
  have "is_ok (fst (CreateEpoch (Some r) now p f n s))"
    using assms by (simp add: CreateEpoch_def Let_def split: prod.splits)
  then obtain i t where ce: "CreateEpoch (Some r) now p f n s = (Inr i, t)"
    by (cases "CreateEpoch (Some r) now p f n s"; cases "fst (CreateEpoch (Some r) now p f n s)") auto
  then have "\<exists>e. i \<noteq> [] \<and> epochs t i = Some e \<and> ep_Status e = EpochActive \<and> ep_Uncovered e \<noteq> []
      \<and> ep_ChallengeCounter e = 0"
    using assms(4) by (auto elim!: CreateEpoch_ok)
  then obtain e where e: "i \<noteq> []" "epochs t i = Some e" "ep_Status e = EpochActive"
    "ep_Uncovered e \<noteq> []" "ep_ChallengeCounter e = 0" by blast
  from GenerateNextChallenge_succeeds [OF assms(1-3) e(1-4), of r' now' rn] e(5) ce assms(1-3)
  show ?thesis by (simp add: CreateChallenge_def)
qed

lemma next_challenge_succeeds:
  assumes "contract_wf i c" and "tracked_ok act es"
  shows "\<exists>g es'. next_challenge (Some r) (Some r') now' now'' i c (act i) es = (Inr g, es')"
proof -
  have c: "i \<noteq> []" "ac_ProviderID c \<noteq> []" "ac_FileID c \<noteq> []" "0 < ac_TotalChunks c"
    using assms(1) by (simp_all add: contract_wf_def)
  have create: "\<exists>g t. CreateChallenge (Some r) (Some r') now' now'' i (ac_ProviderID c) (ac_FileID c)
      (ac_TotalChunks c) rn es = (Inr g, t)" for rn
    by (rule CreateChallenge_succeeds [OF c])
  show ?thesis
  proof (cases "act i")
    case None
    with create [of 0] show ?thesis by (auto simp: next_challenge_def)
  next
    case (Some ae)
    with assms(2) obtain e where e: "ae_id ae \<noteq> []" "epochs es (ae_id ae) = Some e"
      unfolding tracked_ok_def by blast
    have "\<exists>g t. GenerateNextChallenge (Some r') now'' i (ac_ProviderID c) (ac_FileID c) (ae_id ae)
        (ep_ChallengeCounter e) (ep_RoundNumber e) es = (Inr g, t)"
      if "ep_Status e = EpochActive" "ep_Uncovered e \<noteq> []"
      by (rule GenerateNextChallenge_succeeds [OF c(1-3) e that])
    with create [of "ep_RoundNumber e + 1"] Some e show ?thesis
      by (cases "ep_Status e = EpochActive \<and> ep_Uncovered e \<noteq> [] \<and> \<not> ae_endAfterCurrent ae")
        (auto simp: next_challenge_def GetEpochState_def)
  qed
qed

lemma Initiate_succeeds:
  assumes "store_inv s" and "contracts s i = Some c" and "ac_State c \<in> {Agreed, Active}"
    and "now < ac_EndsAt c"
  shows "\<exists>(g :: Challenge) t. InitiateAvailabilityChallenge (Some r) (Some r') now now' now'' i s
       = (Inr (ch_ChallengeID g, ch_EpochID g), t)
     \<and> contracts t i = Some (c\<lparr>ac_State := Active, ac_Challenges := ac_Challenges c @ [ch_ChallengeID g]\<rparr>)
     \<and> challenges t (ch_ChallengeID g) = Some i"
proof -
  note wf = store_invD(1) [OF assms(1,2)]
  obtain g es where g: "next_challenge (Some r) (Some r') now' now'' i c (activeEpochs s i) (epochStore s)
      = (Inr g, es)"
    using next_challenge_succeeds [OF wf store_invD(4) [OF assms(1)]] by blast
  have "ac_FundedAmount c = ac_PaymentAmount c" using wf assms(3) by (auto simp: contract_wf_def)
  with assms g show ?thesis
    by (intro exI [of _ g])
      (auto simp: InitiateAvailabilityChallenge_def set_contract_def simp del: advance.simps)
qed

lemma reachable_contract_funds:
  assumes "contract_reachable s" and "contracts s i = Some c" and "ac_State c \<in> {Agreed, Active, Completed, Expired}"
  shows "ac_FundedAmount c = ac_PaymentAmount c"
  using store_invD(1) [OF contract_sys.inv_reach [OF assms(1)] assms(2)] assms(3)
  unfolding contract_wf_def by blast

lemma contract_reachable_step: "contract_reachable s \<Longrightarrow> contract_step s t \<Longrightarrow> contract_reachable t"
  by (rule reach_step)

section \<open>A funded contract, for concrete instances\<close>

definition example_id :: ContractID where
  "example_id = ''contract-'' @ hex_encode [1]"

lemma funded_example:
  obtains s c where "contract_reachable s" and "contracts s example_id = Some c"
    and "ac_State c = Agreed" and "ac_EndsAt c = 10" and "ac_PaymentAmount c = 100"
    and "epochStore s = empty_epoch_store"
proof -
  let ?s1 = "empty_contractStore\<lparr>resolver := Some (\<lambda>_ _. Inr 2)\<rparr>"
  have "contract_reachable empty_contractStore" by (rule reach_init) (rule refl)
  then have s1: "contract_reachable ?s1"
    by (rule contract_reachable_step, intro cstep_configure [of "Some (\<lambda>_ _. Inr 2)"])
      (simp_all add: ConfigureChunkCountResolver_def resolver_ok_def in_int64_def)
  obtain s2 c where c2: "CreateAvailabilityContract (Some [1]) 0 ''pub'' ''p'' ''f'' 100 10 ?s1
      = (Inr example_id, s2)" "contracts s2 example_id = Some c" "ac_State c = Proposed"
      "ac_EndsAt c = 10" "ac_PaymentAmount c = 100" "epochStore s2 = empty_epoch_store"
    by (simp add: CreateAvailabilityContract_def example_id_def empty_contractStore_def Let_def)
  have s2: "contract_reachable s2"
    by (rule contract_reachable_step [OF s1 cstep_create [OF c2(1)]])
      (simp add: fresh_contract_def empty_contractStore_def)
  obtain s3 where s3: "FundAvailabilityContract example_id 100 s2 = (Inr Agreed, s3)"
      "contracts s3 example_id = Some (c\<lparr>ac_FundedAmount := 100, ac_State := Agreed\<rparr>)"
      "epochStore s3 = empty_epoch_store"
    using c2 by (simp add: FundAvailabilityContract_def Transition_def)
  show thesis
    by (rule that [OF contract_reachable_step [OF s2 cstep_fund [OF s3(1)]] s3(2)]) (simp_all add: c2 s3)
qed

lemma active_example:
  obtains s c ch where "contract_reachable s" and "contracts s example_id = Some c"
    and "ac_State c = Active" and "ac_EndsAt c = 10" and "ac_PaymentAmount c = 100"
    and "challenges s ch = Some example_id" and "ac_Results c = []" and "ac_FundedAmount c = 100"
proof -
  obtain s c where s: "contract_reachable s" "contracts s example_id = Some c" "ac_State c = Agreed"
    "ac_EndsAt c = 10" "ac_PaymentAmount c = 100" "epochStore s = empty_epoch_store"
    by (rule funded_example) blast
  then have inv: "store_inv s" by (intro contract_sys.inv_reach)
  have c: "ac_Results c = []" "ac_FundedAmount c = 100"
    using store_invD(1) [OF inv s(2)] s by (simp_all add: contract_wf_def)
  obtain g :: Challenge and t
    where g: "InitiateAvailabilityChallenge (Some [7]) (Some [8]) 1 1 1 example_id s
        = (Inr (ch_ChallengeID g, ch_EpochID g), t)"
      "contracts t example_id
        = Some (c\<lparr>ac_State := Active, ac_Challenges := ac_Challenges c @ [ch_ChallengeID g]\<rparr>)"
      "challenges t (ch_ChallengeID g) = Some example_id"
    using Initiate_succeeds [OF inv s(2), of 1 "[7]" "[8]" 1 1] s by auto
  have "contract_reachable t"
    by (rule contract_reachable_step [OF s(1) cstep_initiate [OF g(1)]])
      (simp add: s(6) fresh_epoch_def empty_epoch_store_def)
  then show thesis by (rule that [OF _ g(2) _ _ _ g(3)]) (simp_all add: s c)
qed

lemma recorded_example:
  obtains s c ch s1 c1 where "contract_reachable s" and "contracts s example_id = Some c"
    and "RecordAvailabilityResult 4 example_id ch \<lparr>cr_ChallengeID = [], cr_Succeeded = True, cr_RecordedAt = 0\<rparr> s
      = (Inr Active, s1)"
    and "contract_reachable s1" and "contracts s1 example_id = Some c1" and "ac_State c1 = Active"
    and "ac_EndsAt c1 = 10" and "ac_FundedAmount c1 = 100"
    and "ac_Results c1 = [\<lparr>cr_ChallengeID = ch, cr_Succeeded = True, cr_RecordedAt = 4\<rparr>]"
proof -
  let ?r = "\<lparr>cr_ChallengeID = [], cr_Succeeded = True, cr_RecordedAt = 0\<rparr>"
  obtain s c ch where s: "contract_reachable s" "contracts s example_id = Some c" "ac_State c = Active"
    "ac_EndsAt c = 10" "challenges s ch = Some example_id" "ac_Results c = []" "ac_FundedAmount c = 100"
    by (rule active_example) blast
  then obtain s1 c1 where r: "RecordAvailabilityResult 4 example_id ch ?r s = (Inr Active, s1)"
    "contracts s1 example_id = Some c1" "ac_State c1 = Active" "ac_EndsAt c1 = 10"
    "ac_FundedAmount c1 = 100" "ac_Results c1 = [\<lparr>cr_ChallengeID = ch, cr_Succeeded = True, cr_RecordedAt = 4\<rparr>]"
    by (simp add: RecordAvailabilityResult_def)
  show thesis
    by (rule that [OF s(1,2) r(1) contract_reachable_step [OF s(1) cstep_record [OF r(1)]] r(2-)])
qed

section \<open>Properties\<close>

text \<open>C22. In every reachable store a contract is funded with exactly the agreed amount from the
  moment it is agreed until it completes or expires and with nothing before; no challenge has two
  results; the history read by the payment module repeats the results in order with the periods
  1, 2, 3, and so on; and a completed contract carries the settlement computed from its funds and
  results.\<close>

theorem reachable_contract_bookkeeping:
  assumes "contract_reachable s" and "contracts s i = Some c"
  shows "(ac_State c = Proposed \<longrightarrow> ac_FundedAmount c = 0)
    \<and> (ac_State c \<in> {Agreed, Active, Completed, Expired} \<longrightarrow> ac_FundedAmount c = ac_PaymentAmount c)
    \<and> distinct (map cr_ChallengeID (ac_Results c))
    \<and> ac_AvailabilityResults c = availability_history i (ac_ProviderID c) (ac_Results c)
    \<and> (ac_State c = Completed \<longrightarrow> (\<exists>st t. CalculateSettlement (ac_PaymentAmount c) (ac_Results c) = Inr st
          \<and> ac_Settlement c = st\<lparr>st_FinalizedAt := t\<rparr>))"
proof -
  have "contract_wf i c" using contract_sys.inv_reach [OF assms(1)] assms(2) by (rule store_invD)
  then show ?thesis unfolding contract_wf_def by (metis insertCI)
qed

theorem reachable_contract_bookkeeping_witness:
  "\<exists>s c. contract_reachable s \<and> contracts s example_id = Some c \<and> ac_State c = Agreed
     \<and> ac_FundedAmount c = 100"
proof -
  obtain s c where "contract_reachable s" "contracts s example_id = Some c" "ac_State c = Agreed"
    "ac_PaymentAmount c = 100" by (rule funded_example) blast
  with reachable_contract_bookkeeping [OF this(1,2)] show ?thesis by auto
qed



text \<open>A result is recorded at most once: after a successful
  \<open>RecordAvailabilityResult\<close> for a challenge, no later call for the same contract and challenge
  succeeds, whatever else happens in between.\<close>

lemma result_recorded_once:
  assumes "contract_reachable s" and "RecordAvailabilityResult now i ch r s = (Inr st, s1)"
    and "contract_step\<^sup>*\<^sup>* s1 t"
  shows "\<not> is_ok (fst (RecordAvailabilityResult now' i ch r' t))"
proof
  assume "is_ok (fst (RecordAvailabilityResult now' i ch r' t))"
  then obtain st' t' where again: "RecordAvailabilityResult now' i ch r' t = (Inr st', t')"
    by (cases "RecordAvailabilityResult now' i ch r' t"; cases "fst (RecordAvailabilityResult now' i ch r' t)") auto
  obtain c1 where c1: "contracts s1 i = Some c1" "ch \<in> cr_ChallengeID ` set (ac_Results c1)"
    using assms(2) by (cases rule: Record_cases) (auto simp: recorded_result_def)
  have "contract_reachable s1" using assms(1,2) by (blast intro: contract_reachable_step cstep_record)
  from run_contract [OF this assms(3) c1(1)] obtain c' where c': "contracts t i = Some c'" "contract_le c1 c'"
    by blast
  then have "ch \<in> cr_ChallengeID ` set (ac_Results c')"
    using c1(2) by (auto simp: contract_le_def dest!: set_mono_prefix)
  with again c'(1) show False by (cases rule: Record_cases) auto
qed

lemma result_recorded_once_witness:
  "\<exists>s ch r st s1. contract_reachable s \<and> RecordAvailabilityResult 4 example_id ch r s = (Inr st, s1)
     \<and> \<not> is_ok (fst (RecordAvailabilityResult 5 example_id ch r s1))"
proof -
  obtain s c ch s1 c1 where "contract_reachable s" and
    "RecordAvailabilityResult 4 example_id ch \<lparr>cr_ChallengeID = [], cr_Succeeded = True, cr_RecordedAt = 0\<rparr> s
      = (Inr Active, s1)" by (rule recorded_example) blast
  with result_recorded_once [OF this rtranclp.rtrancl_refl] show ?thesis by blast
qed

text \<open>An expired contract cannot be settled. \<open>SettleAvailabilityContract\<close> lets the state
  \<open>Expired\<close> pass its guard, but no transition leaves that state: in every store reached from one
  in which the contract is expired the call fails. It fails after it has overwritten the
  settlement with the computed amounts, so the contract shows released funds that were never
  finalised.\<close>

lemma expired_contract_never_settles:
  assumes "contract_reachable s" and "contracts s i = Some c" and "ac_State c = Expired"
    and "contract_step\<^sup>*\<^sup>* s t" and "ac_Results c \<noteq> []"
  shows "\<exists>st t' c'. CalculateSettlement (ac_PaymentAmount c) (ac_Results c) = Inr st
    \<and> fst (SettleAvailabilityContract now now' i t)
        = Inl (InvalidTransition Expired (if ac_EndsAt c \<le> now then Expired else Completed))
    \<and> snd (SettleAvailabilityContract now now' i t) = t'
    \<and> contracts t' i = Some c' \<and> ac_State c' = Expired
    \<and> ac_Settlement c' = st \<and> st_FinalizedAt st = zero_time"
proof -
  from assms(1,4,2) obtain c' where c': "contracts t i = Some c'" "contract_le c c'" "contract_wf i c'"
    by (rule run_contract)
  have same: "ac_State c' = Expired" "ac_Results c' = ac_Results c" "ac_EndsAt c' = ac_EndsAt c"
    "ac_FundedAmount c' = ac_PaymentAmount c" "0 < ac_PaymentAmount c"
    using c'(2,3) assms(3) sealed_contractD [of c c'] by (auto simp: contract_le_def contract_wf_def)
  then obtain st where st: "CalculateSettlement (ac_PaymentAmount c) (ac_Results c) = Inr st"
    "st_FinalizedAt st = zero_time"
    using assms(5) by (simp add: CalculateSettlement_def Let_def zero_settlement_def)
  with c'(1) same assms(5) show ?thesis
    by (simp add: SettleAvailabilityContract_def Transition_def Let_def)
qed

lemma expired_contract_never_settles_witness:
  "\<exists>s c. contract_reachable s \<and> contracts s example_id = Some c \<and> ac_State c = Expired
     \<and> ac_Results c \<noteq> [] \<and> (\<forall>now now'. \<not> is_ok (fst (SettleAvailabilityContract now now' example_id s)))"
proof -
  obtain ch s1 c1 where s1: "contract_reachable s1" "contracts s1 example_id = Some c1" "ac_State c1 = Active"
    "ac_EndsAt c1 = 10" "ac_FundedAmount c1 = 100"
    "ac_Results c1 = [\<lparr>cr_ChallengeID = ch, cr_Succeeded = True, cr_RecordedAt = 4\<rparr>]"
    by (rule recorded_example) blast
  let ?c = "c1\<lparr>ac_State := Expired\<rparr>"
  have f: "ac_FundedAmount c1 = ac_PaymentAmount c1"
    by (rule reachable_contract_funds [OF s1(1,2)]) (simp add: s1(3))
  have i: "InitiateAvailabilityChallenge None None 10 0 0 example_id s1
      = (Inl ContractHasExpired, set_contract example_id ?c s1)"
    using s1 f by (simp add: InitiateAvailabilityChallenge_def)
  have r: "contract_reachable (set_contract example_id ?c s1)"
    by (rule contract_reachable_step [OF s1(1) cstep_initiate [OF i]]) (simp add: fresh_epoch_def)
  have c: "contracts (set_contract example_id ?c s1) example_id = Some ?c" by simp
  have "\<not> is_ok (fst (SettleAvailabilityContract now now' example_id (set_contract example_id ?c s1)))" for now now'
    using expired_contract_never_settles [OF r c _ rtranclp.rtrancl_refl, of now now'] s1 by auto
  with r c s1 show ?thesis by (intro exI [of _ "set_contract example_id ?c s1"] exI [of _ ?c]) simp
qed

text \<open>C25. Challenges can always be issued: in every reachable store, for an agreed or active
  contract that has not reached its end, \<open>InitiateAvailabilityChallenge\<close> succeeds whatever epoch
  is tracked for it, as long as the random source delivers; the contract is then active and the
  new challenge is filed under it.\<close>

theorem challenge_can_always_be_issued:
  assumes "contract_reachable s" and "contracts s i = Some c" and "ac_State c \<in> {Agreed, Active}"
    and "now < ac_EndsAt c"
  shows "\<exists>ch ep t c'. InitiateAvailabilityChallenge (Some r) (Some r') now now' now'' i s = (Inr (ch, ep), t)
     \<and> contracts t i = Some c' \<and> ac_State c' = Active
     \<and> ac_Challenges c' = ac_Challenges c @ [ch] \<and> challenges t ch = Some i"
  using Initiate_succeeds [OF contract_sys.inv_reach [OF assms(1)] assms(2-4), of r r' now' now'']
  by fastforce

theorem challenge_can_always_be_issued_witness:
  "\<exists>s ch ep t. contract_reachable s
     \<and> InitiateAvailabilityChallenge (Some [7]) (Some [8]) 1 2 3 example_id s = (Inr (ch, ep), t)"
proof -
  obtain s c where s: "contract_reachable s" "contracts s example_id = Some c" "ac_State c = Agreed"
    "ac_EndsAt c = 10" by (rule funded_example) blast
  with challenge_can_always_be_issued [OF s(1,2), of 1 "[7]" "[8]" 2 3] show ?thesis by auto
qed

text \<open>\<open>VerifyAndRecordChallengeResponse\<close> records a pass exactly when the response verifies:
  if the call succeeds, the history gains one entry, for this challenge and with the next period,
  which \<open>GetLatestAvailabilityResult\<close> then returns and which is \<open>PASS\<close> if and only if
  \<open>VerifyChallengeResponse\<close> accepted.\<close>

lemma verify_and_record_outcome:
  assumes "VerifyAndRecordChallengeResponse ed_verify now now' i ch r root pk timeout s
      = ((Inr st, res), t)"
  shows "\<exists>c ar. contracts s i = Some c \<and> GetLatestAvailabilityResult i t = Inr ar
    \<and> ar_ChallengeID ar = ch_ChallengeID ch \<and> ar_ContractID ar = i
    \<and> ar_Period ar = of_nat (length (ac_AvailabilityResults c) + 1)
    \<and> (ar_Result ar = AvailabilityPass
         \<longleftrightarrow> VerifyChallengeResponse ed_verify ch r root pk timeout = Inr True)
    \<and> (ar_Result ar = AvailabilityPass \<longleftrightarrow> ar_Result ar \<noteq> AvailabilityFail)"
proof -
  let ?b = "BuildChallengeResult ed_verify now ch r root pk timeout"
  have "RecordAvailabilityResult now' i (ch_ChallengeID ch) ?b s = (Inr st, t)"
    using assms by (simp add: VerifyAndRecordChallengeResponse_def Let_def split: prod.splits)
  then show ?thesis
  proof (cases rule: Record_cases)
    case (recorded c ar)
    then have "GetLatestAvailabilityResult i t = Inr ar" by (simp add: GetLatestAvailabilityResult_def)
    with recorded(1,7) show ?thesis by (simp add: BuildChallengeResult_succeeded)
  qed simp
qed

lemma verify_and_record_outcome_witness:
  "\<exists>(s :: contractStore) c ch st res t ar. contracts s example_id = Some c
     \<and> VerifyAndRecordChallengeResponse plain_verify 3 4 example_id ch
          \<lparr>rs_ChallengeID = [], rs_ContractID = [], rs_ProviderID = [], rs_FileID = [], rs_ChunkID = 0,
           rs_ChunkHash = [], rs_MerkleProof = [], rs_Signature = [], rs_RespondedAt = 0\<rparr>
          [] [] 0 s = ((Inr st, res), t)
     \<and> GetLatestAvailabilityResult example_id t = Inr ar \<and> ar_Result ar \<noteq> AvailabilityPass"
proof -
  obtain s :: contractStore and c :: AvailabilityContract and ch
    where s: "contracts s example_id = Some c" "ac_State c = Active" "challenges s ch = Some example_id" "ac_Results c = []" by (rule active_example) blast
  let ?ch = "\<lparr>ch_ChallengeID = ch, ch_ContractID = example_id, ch_ProviderID = ''p'', ch_FileID = ''f'',
     ch_EpochID = ''e'', ch_ChunkID = 0, ch_Nonce = [], ch_ChallengeCounter = 0, ch_RoundNumber = 0,
     ch_TriggerStatus = False, ch_CreatedAt = 0\<rparr>"
  let ?r = "\<lparr>rs_ChallengeID = [], rs_ContractID = [], rs_ProviderID = [], rs_FileID = [], rs_ChunkID = 0,
     rs_ChunkHash = [], rs_MerkleProof = [], rs_Signature = [], rs_RespondedAt = 0\<rparr>"
  obtain st res t where v: "VerifyAndRecordChallengeResponse plain_verify 3 4 example_id ?ch ?r [] [] 0 s
      = ((Inr st, res), t)"
    using s by (simp add: VerifyAndRecordChallengeResponse_def RecordAvailabilityResult_def Let_def)
  have "VerifyChallengeResponse plain_verify ?ch ?r [] [] 0 \<noteq> Inr True"
    by (simp add: VerifyChallengeResponse_def)
  with verify_and_record_outcome [OF v] v s(1) show ?thesis by blast
qed

end
