(* ===== verification/Content.thy ===== *)
theory Content
  imports Sha256 "HOL-Library.Monad_Syntax"
begin

text \<open>
  The content layer, \<open>network/content\<close>: chunks and their headers (\<open>core/types.go\<close>), the
  chunker (\<open>chunker/chunker.go\<close>), the digest (\<open>verifier/sha256.go\<close>), the encryptor
  (\<open>crypto/chacha20.go\<close>), the manifest (\<open>manifest/manifest.go\<close>) and the in-memory keys
  (\<open>engine/keys.go\<close>). ChaCha20-Poly1305 comes from \<open>golang.org/x/crypto\<close> and is a pair of
  arguments, \<open>seal\<close> and \<open>unseal\<close>.
\<close>

section \<open>Chunks\<close>

type_synonym ChunkID = bytes
type_synonym ContentID = bytes
type_synonym Hash = bytes

text \<open>Go's fixed-sz arrays are byte lists whose length is part of \<open>header_wf\<close>; the
  \<open>int64\<close> offset is kept as its 64 bits.\<close>

record ChunkHeader =
  hd_Version :: u16
  hd_ID :: ChunkID
  hd_Index :: u32
  hd_Offset :: u64
  hd_PlainSize :: u32
  hd_CipherSize :: u32
  hd_Nonce :: bytes

record Chunk =
  ck_Header :: ChunkHeader
  ck_Data :: bytes

definition header_wf :: "ChunkHeader \<Rightarrow> bool" where
  "header_wf h \<longleftrightarrow> length (hd_ID h) = 32 \<and> length (hd_Nonce h) = 12"

text \<open>\<open>binary.Write\<close> and \<open>binary.Read\<close> of the header struct in little-endian order.\<close>

definition put_header :: "ChunkHeader \<Rightarrow> bytes" where
  "put_header h = put_u16_le (hd_Version h) @ hd_ID h @ put_u32_le (hd_Index h)
     @ put_u64_le (hd_Offset h) @ put_u32_le (hd_PlainSize h) @ put_u32_le (hd_CipherSize h)
     @ hd_Nonce h"

definition header_of :: "bytes \<Rightarrow> ChunkHeader" where
  "header_of b = \<lparr>hd_Version = get_u16_le (take 2 b), hd_ID = take 32 (drop 2 b),
     hd_Index = get_u32_le (take 4 (drop 34 b)), hd_Offset = get_u64_le (take 8 (drop 38 b)),
     hd_PlainSize = get_u32_le (take 4 (drop 46 b)), hd_CipherSize = get_u32_le (take 4 (drop 50 b)),
     hd_Nonce = take 12 (drop 54 b)\<rparr>"

definition get_header :: "reader \<Rightarrow> (io_error + ChunkHeader) \<times> reader" where
  "get_header r = (case ReadFull 66 r of
     (Inl e, r') \<Rightarrow> (Inl e, r')
   | (Inr b, r') \<Rightarrow> (Inr (header_of b), r'))"

lemma length_put_header [simp]: "header_wf h \<Longrightarrow> length (put_header h) = 66"
  by (simp add: put_header_def header_wf_def)

lemma header_of_put_header [simp]: "header_wf h \<Longrightarrow> header_of (put_header h) = h"
  by (simp add: put_header_def header_of_def header_wf_def)

lemma get_header_put_header [codec_simps]:
  "header_wf h \<Longrightarrow> get_header \<lparr>rd_data = put_header h @ rest, rd_end = e\<rparr>
     = (Inr h, \<lparr>rd_data = rest, rd_end = e\<rparr>)"
  by (simp add: get_header_def)

section \<open>The chunker\<close>

text \<open>\<open>io.ReadFull\<close> with the bytes it read even when it fails.\<close>

definition read_chunk :: "nat \<Rightarrow> reader \<Rightarrow> bytes \<times> io_error option \<times> reader" where
  "read_chunk n r =
     (if n \<le> length (rd_data r)
      then (take n (rd_data r), None, r\<lparr>rd_data := drop n (rd_data r)\<rparr>)
      else (rd_data r,
            Some (if rd_data r \<noteq> [] \<and> rd_end r = EOF then ErrUnexpectedEOF else rd_end r),
            r\<lparr>rd_data := []\<rparr>))"

definition plain_chunk :: "u32 \<Rightarrow> u64 \<Rightarrow> bytes \<Rightarrow> Chunk" where
  "plain_chunk index offset buf =
     \<lparr>ck_Header = \<lparr>hd_Version = 1, hd_ID = replicate 32 0, hd_Index = index, hd_Offset = offset,
        hd_PlainSize = of_nat (length buf), hd_CipherSize = 0, hd_Nonce = replicate 12 0\<rparr>,
      ck_Data = buf\<rparr>"

text \<open>The loop of \<open>Split\<close>: the chunks sent on the channel and the error sent at the end. The
  loop may not end, so it is a partial function; \<open>None\<close> is a loop that never ends.\<close>

partial_function (option) split_loop ::
    "nat \<Rightarrow> u32 \<Rightarrow> u64 \<Rightarrow> reader \<Rightarrow> (Chunk list \<times> io_error option) option" where
  "split_loop sz index offset r =
     (case read_chunk sz r of (buf, err, r') \<Rightarrow>
        let sent = (if buf \<noteq> [] then [plain_chunk index offset buf] else []);
            index' = (if buf \<noteq> [] then index + 1 else index);
            offset' = offset + of_nat (length buf)
        in case err of
             Some e \<Rightarrow> Some (sent, if e \<noteq> EOF \<and> e \<noteq> ErrUnexpectedEOF then Some e else None)
           | None \<Rightarrow> do { rest \<leftarrow> split_loop sz index' offset' r';
                          Some (sent @ fst rest, snd rest) })"

definition Split :: "u32 \<Rightarrow> reader \<Rightarrow> (Chunk list \<times> io_error option) option" where
  "Split chunkSize r = split_loop (unat chunkSize) 0 0 r"

section \<open>Digest and encryption\<close>

definition Sum :: "bytes \<Rightarrow> Hash" where
  "Sum data = sha256 data"

definition Verify :: "bytes \<Rightarrow> Hash \<Rightarrow> bool" where
  "Verify data hash \<longleftrightarrow> sha256 data = hash"

definition generateNonce :: "u32 \<Rightarrow> bytes" where
  "generateNonce index = copy_into 12 (take 12 (sha256 (str_bytes ''cipher-nonce''
     @ put_u64_le (of_nat (unat index)))))"

datatype crypto_error =
    BadKeyLength nat
  | CipherSizeMismatch
  | AuthenticationFailed
  | PlainSizeMismatch

text \<open>\<open>chacha20poly1305.New\<close> refuses a key that is not 32 bytes long.\<close>

definition EncryptChunk ::
    "(bytes \<Rightarrow> bytes \<Rightarrow> bytes \<Rightarrow> bytes) \<Rightarrow> bytes \<Rightarrow> Chunk \<Rightarrow> crypto_error + Chunk" where
  "EncryptChunk seal key chunk =
     (if length key \<noteq> 32 then Inl (BadKeyLength (length key))
      else
        let nonce = generateNonce (hd_Index (ck_Header chunk));
            ciphertext = seal key nonce (ck_Data chunk)
        in Inr \<lparr>ck_Header = (ck_Header chunk)\<lparr>hd_Nonce := copy_into 12 nonce,
                  hd_CipherSize := of_nat (length ciphertext)\<rparr>,
                ck_Data = ciphertext\<rparr>)"

definition DecryptChunk ::
    "(bytes \<Rightarrow> bytes \<Rightarrow> bytes \<Rightarrow> bytes option) \<Rightarrow> bytes \<Rightarrow> Chunk \<Rightarrow> crypto_error + Chunk" where
  "DecryptChunk unseal key chunk =
     (if length key \<noteq> 32 then Inl (BadKeyLength (length key))
      else if hd_CipherSize (ck_Header chunk) \<noteq> of_nat (length (ck_Data chunk))
      then Inl CipherSizeMismatch
      else case unseal key (hd_Nonce (ck_Header chunk)) (ck_Data chunk) of
        None \<Rightarrow> Inl AuthenticationFailed
      | Some plaintext \<Rightarrow>
          if hd_PlainSize (ck_Header chunk) \<noteq> of_nat (length plaintext) then Inl PlainSizeMismatch
          else Inr (chunk\<lparr>ck_Data := plaintext\<rparr>))"

text \<open>What the content layer relies on of the cipher: opening a sealed text with the same key and
  nonce returns it.\<close>

definition aead_correct ::
    "(bytes \<Rightarrow> bytes \<Rightarrow> bytes \<Rightarrow> bytes) \<Rightarrow> (bytes \<Rightarrow> bytes \<Rightarrow> bytes \<Rightarrow> bytes option) \<Rightarrow> bool" where
  "aead_correct seal unseal \<longleftrightarrow>
     (\<forall>k n p. length k = 32 \<and> length n = 12 \<longrightarrow> unseal k n (seal k n p) = Some p)"

section \<open>Manifests and keys\<close>

datatype ContentType = TypeFile | OtherType string

record ContentDescriptor =
  cd_ID :: ContentID
  cd_Type :: ContentType
  cd_Size :: u64

record CryptoDescriptor =
  cy_Algorithm :: string
  cy_Version :: u16
  cy_ChunkNonceSize :: u16
  cy_KeyID :: string

record Manifest =
  mf_Version :: u16
  mf_Descriptor :: ContentDescriptor
  mf_ChunkIDs :: "ChunkID list"
  mf_MerkleRoot :: Hash
  mf_WholeHash :: Hash
  mf_Crypto :: CryptoDescriptor

type_synonym key_store = "ContentID \<rightharpoonup> bytes"

definition keys_Get :: "ContentID \<Rightarrow> key_store \<Rightarrow> bytes option" where
  "keys_Get cid ks = ks cid"

definition keys_Put :: "ContentID \<Rightarrow> bytes \<Rightarrow> key_store \<Rightarrow> key_store" where
  "keys_Put cid key ks = ks(cid \<mapsto> copy_into (length key) key)"

definition keys_Delete :: "ContentID \<Rightarrow> key_store \<Rightarrow> key_store" where
  "keys_Delete cid ks = ks(cid := None)"

text \<open>The contract of \<open>core.KeyProvider\<close>, which \<open>LocalKeyProvider\<close> meets.\<close>

locale key_provider =
  fixes kget :: "'i \<Rightarrow> 's \<Rightarrow> 'k option"
    and kput :: "'i \<Rightarrow> 'k \<Rightarrow> 's \<Rightarrow> 's"
    and kdelete :: "'i \<Rightarrow> 's \<Rightarrow> 's"
  assumes get_put: "kget i (kput j k s) = (if i = j then Some k else kget i s)"
    and get_delete: "kget i (kdelete j s) = (if i = j then None else kget i s)"
begin

lemma get_put_fold:
  "kget i (fold (\<lambda>(j, k). kput j k) kvs s) =
     (case map_of (rev kvs) i of Some k \<Rightarrow> Some k | None \<Rightarrow> kget i s)"
  by (induction kvs arbitrary: s) (auto simp: get_put map_add_def split: option.splits)

end

interpretation local_keys: key_provider keys_Get keys_Put keys_Delete
  by unfold_locales (simp_all add: keys_Get_def keys_Put_def keys_Delete_def)

section \<open>Lemmas about the chunker\<close>

text \<open>The reference: cut the data into pieces of \<open>sz\<close> bytes, the last one possibly
  shorter.\<close>

function pieces :: "nat \<Rightarrow> 'a list \<Rightarrow> 'a list list" where
  "pieces sz xs =
     (if sz = 0 \<or> xs = [] then [] else take sz xs # pieces sz (drop sz xs))"
  by pat_completeness auto
termination by (relation "measure (\<lambda>(sz, xs). length xs)") auto

declare pieces.simps [simp del]

lemma pieces_Nil [simp]: "pieces sz [] = []"
  by (simp add: pieces.simps)

lemma pieces_step: "0 < sz \<Longrightarrow> xs \<noteq> [] \<Longrightarrow> pieces sz xs = take sz xs # pieces sz (drop sz xs)"
  by (simp add: pieces.simps [of sz xs])

lemma concat_pieces: "0 < sz \<Longrightarrow> concat (pieces sz xs) = xs"
  by (induction sz xs rule: pieces.induct) (simp add: pieces.simps)

lemma pieces_length: "p \<in> set (pieces sz xs) \<Longrightarrow> p \<noteq> [] \<and> length p \<le> sz"
  by (induction sz xs rule: pieces.induct) (subst (asm) (2) pieces.simps, auto split: if_splits)

text \<open>The chunk headers of a list of pieces, with running index and offset.\<close>

fun number_chunks :: "u32 \<Rightarrow> u64 \<Rightarrow> bytes list \<Rightarrow> Chunk list" where
  "number_chunks index offset [] = []"
| "number_chunks index offset (p # ps) =
     plain_chunk index offset p # number_chunks (index + 1) (offset + of_nat (length p)) ps"

lemma map_data_number_chunks [simp]: "map ck_Data (number_chunks i off ps) = ps"
  by (induction ps arbitrary: i off) (simp_all add: plain_chunk_def)

definition stream_error :: "io_error \<Rightarrow> io_error option" where
  "stream_error e = (if e \<noteq> EOF \<and> e \<noteq> ErrUnexpectedEOF then Some e else None)"

lemma split_loop_terminates:
  assumes "0 < sz"
  shows "split_loop sz index offset r =
    Some (number_chunks index offset (pieces sz (rd_data r)), stream_error (rd_end r))"
  using assms
proof (induction "length (rd_data r)" arbitrary: r index offset rule: less_induct)
  case less
  show ?case
  proof (cases "sz \<le> length (rd_data r)")
    case True
    with less.prems have "rd_data r \<noteq> []" "take sz (rd_data r) \<noteq> []" by auto
    with True less.prems less.hyps [of "r\<lparr>rd_data := drop sz (rd_data r)\<rparr>"]
    show ?thesis
      by (subst split_loop.simps) (simp add: read_chunk_def pieces_step Let_def)
  next
    case False
    have "pieces sz (rd_data r) = (if rd_data r = [] then [] else [rd_data r])"
      using False less.prems by (simp add: pieces_step)
    with False show ?thesis
      by (subst split_loop.simps) (simp add: read_chunk_def stream_error_def Let_def)
  qed
qed

lemma split_loop_size_zero: "split_loop 0 index offset r = None"
proof -
  have "sz \<noteq> 0" if "split_loop sz index offset r = Some y" for sz y
    by (rule split_loop.raw_induct [OF _ that, where P = "\<lambda>sz _ _ _ _. sz \<noteq> 0"])
      (auto simp: read_chunk_def Let_def split: if_splits bind_splits option.splits)
  then show ?thesis by (cases "split_loop 0 index offset r") auto
qed

end
