(* ===== verification/Wire.thy ===== *)
theory Wire
  imports Content
begin

text \<open>
  What the wire protocols share: writers that may fail, the two directions of a stream, and the
  contract of a message framing. Each protocol interprets \<open>message_framing\<close> with its own encoder and
  decoder, which gives it that a sequence of messages is read back message by message.
\<close>

section \<open>Writers and streams\<close>

text \<open>An \<open>io.Writer\<close> is the bytes it accepted so far and a script of its next calls: \<open>None\<close>
  accepts everything, \<open>Some k\<close> fails after \<open>k\<close> bytes. After the script every call succeeds.\<close>

record writer =
  wr_out :: bytes
  wr_script :: "nat option list"

definition Write :: "bytes \<Rightarrow> (writer, io_error, unit) stateful" where
  "Write b w = (case wr_script w of
     [] \<Rightarrow> (Inr (), w\<lparr>wr_out := wr_out w @ b\<rparr>)
   | None # later \<Rightarrow> (Inr (), w\<lparr>wr_out := wr_out w @ b, wr_script := later\<rparr>)
   | Some k # later \<Rightarrow>
       (Inl (Transport ''write''), w\<lparr>wr_out := wr_out w @ take k b, wr_script := later\<rparr>))"

text \<open>A stream between two peers, seen from one of them: everything the other peer will send, and
  what this peer has sent. Deadlines are not modelled apart from the errors they lead to.\<close>

record stream =
  sm_in :: reader
  sm_out :: writer

definition good_writer :: "bytes \<Rightarrow> writer" where
  "good_writer b = \<lparr>wr_out = b, wr_script = []\<rparr>"

lemma Write_good [simp]: "Write b (good_writer out) = (Inr (), good_writer (out @ b))"
  by (simp add: Write_def good_writer_def)

lemma wr_out_good_writer [simp]: "wr_out (good_writer b) = b"
  by (simp add: good_writer_def)

text \<open>A stream without errors.\<close>

definition fresh_stream :: "bytes \<Rightarrow> bytes \<Rightarrow> stream" where
  "fresh_stream input output = \<lparr>sm_in = bytes_reader input, sm_out = good_writer output\<rparr>"

lemma sm_fresh [simp]:
  "sm_in (fresh_stream a b) = bytes_reader a" "sm_out (fresh_stream a b) = good_writer b"
  "(fresh_stream a b)\<lparr>sm_in := bytes_reader a'\<rparr> = fresh_stream a' b"
  "(fresh_stream a b)\<lparr>sm_out := good_writer b'\<rparr> = fresh_stream a b'"
  by (simp_all add: fresh_stream_def)

section \<open>Reads\<close>

lemma ReadFull_less:
  "ReadFull n r = (x, r') \<Longrightarrow> length (rd_data r') \<le> length (rd_data r)"
  by (auto simp: ReadFull_def split: if_splits)

lemma unat_u32_of_nat [simp]: "n < 2 ^ 32 \<Longrightarrow> unat (of_nat n :: u32) = n"
  by (simp add: unat_of_nat take_bit_eq_mod)

lemma ReadFull_bytes:
  "ReadFull n (bytes_reader b) = (if n \<le> length b then (Inr (take n b), bytes_reader (drop n b))
     else (Inl (if b = [] then EOF else ErrUnexpectedEOF), bytes_reader []))"
  by (simp add: ReadFull_def bytes_reader_def)

lemma rd_data_bytes_reader [simp]: "rd_data (bytes_reader b) = b"
  by (simp add: bytes_reader_def)

lemma put_get_u32_le: "length b = 4 \<Longrightarrow> put_u32_le (get_u32_le b) = b"
  using le_nat_bound [of b] le_bytes_le_nat [of b]
  by (simp add: put_defs get_defs unat_of_nat take_bit_eq_mod)

lemma put_get_u16_le: "length b = 2 \<Longrightarrow> put_u16_le (get_u16_le b) = b"
  using le_nat_bound [of b] le_bytes_le_nat [of b]
  by (simp add: put_defs get_defs unat_of_nat take_bit_eq_mod)

lemma length_one_hd: "length xs = 1 \<Longrightarrow> [hd xs] = xs"
  by (cases xs) auto

lemma split_at_3:
  assumes "3 \<le> length b"
  shows "hd (take 1 (drop 2 b)) # drop 3 b = drop 2 b"
proof -
  have "take 1 (drop 2 b) = [hd (take 1 (drop 2 b))]" using assms by (intro length_one_hd [symmetric]) simp
  then show ?thesis using append_take_drop_id [of 1 "drop 2 b"] by (simp add: numeral_3_eq_3)
qed

section \<open>Framings\<close>

text \<open>The contract of a framing: \<open>dec\<close> reads back what \<open>enc\<close> wrote, for the messages that fit, and
  leaves the rest of the stream untouched.\<close>

locale message_framing =
  fixes enc :: "'m \<Rightarrow> bytes"
    and dec :: "reader \<Rightarrow> ('e + 'm) \<times> reader"
    and fits :: "'m \<Rightarrow> bool"
  assumes dec_enc: "fits m \<Longrightarrow>
    dec \<lparr>rd_data = enc m @ rest, rd_end = e\<rparr> = (Inr m, \<lparr>rd_data = rest, rd_end = e\<rparr>)"
begin

fun read_many :: "nat \<Rightarrow> reader \<Rightarrow> ('e + 'm list) \<times> reader" where
  "read_many 0 r = (Inr [], r)"
| "read_many (Suc n) r = (case dec r of
     (Inl e, r') \<Rightarrow> (Inl e, r')
   | (Inr m, r') \<Rightarrow> (case read_many n r' of
        (Inl e, r'') \<Rightarrow> (Inl e, r'')
      | (Inr ms, r'') \<Rightarrow> (Inr (m # ms), r'')))"

lemma read_many_enc:
  "\<forall>m \<in> set ms. fits m \<Longrightarrow>
   read_many (length ms) \<lparr>rd_data = concat (map enc ms) @ rest, rd_end = e\<rparr>
     = (Inr ms, \<lparr>rd_data = rest, rd_end = e\<rparr>)"
  by (induction ms) (simp_all add: dec_enc)

lemma enc_prefix_free:
  assumes "fits m" and "fits m'" and "enc m @ r = enc m' @ r'"
  shows "m = m' \<and> r = r'"
proof -
  have "(Inr m, \<lparr>rd_data = r, rd_end = EOF\<rparr>) = dec \<lparr>rd_data = enc m' @ r', rd_end = EOF\<rparr>"
    unfolding assms(3) [symmetric] by (rule dec_enc [OF assms(1), symmetric])
  also have "\<dots> = (Inr m', \<lparr>rd_data = r', rd_end = EOF\<rparr>)" by (rule dec_enc [OF assms(2)])
  finally show ?thesis by simp
qed

lemma enc_concat_inject:
  assumes "\<And>m. enc m \<noteq> []"
  shows "\<forall>m \<in> set ms. fits m \<Longrightarrow> \<forall>m \<in> set ms'. fits m \<Longrightarrow>
    concat (map enc ms) = concat (map enc ms') \<Longrightarrow> ms = ms'"
proof (induction ms arbitrary: ms')
  case Nil
  then have "concat (map enc ms') = []" by simp
  then show ?case using assms by (cases ms') simp_all
next
  case (Cons m ms)
  from Cons.prems(3) assms have "ms' \<noteq> []" by auto
  then obtain m' ms'' where ms': "ms' = m' # ms''" by (cases ms') simp_all
  with Cons.prems have "fits m" "fits m'" "enc m @ concat (map enc ms) = enc m' @ concat (map enc ms'')" by simp_all
  from enc_prefix_free [OF this] have *: "m = m'" "concat (map enc ms) = concat (map enc ms'')" by simp_all
  have "ms = ms''" using Cons.prems(1,2) ms' *(2) by (intro Cons.IH) simp_all
  with * ms' show ?case by simp
qed

end

end
