(* ===== verification/ChunkMessages.thy ===== *)
theory ChunkMessages
  imports Wire
begin

text \<open>
  The messages of the chunk protocol, \<open>network/protocol/chunk\<close>: the envelope and its framing, the
  builders and parsers of every payload (\<open>messages.go\<close>), the size limits (\<open>limits.go\<close>), and the
  second, bounded decoder of frames (\<open>decoder.go\<close>).
\<close>

section \<open>Envelopes\<close>

type_synonym MessageType = u8
type_synonym ErrorCode = u8

abbreviation (input) CurrentMessageVersion :: u16 where "CurrentMessageVersion \<equiv> 1"

abbreviation (input) MsgRequestManifest :: MessageType where "MsgRequestManifest \<equiv> 1"
abbreviation (input) MsgManifest :: MessageType where "MsgManifest \<equiv> 2"
abbreviation (input) MsgRequestChunk :: MessageType where "MsgRequestChunk \<equiv> 3"
abbreviation (input) MsgChunk :: MessageType where "MsgChunk \<equiv> 4"
abbreviation (input) MsgAck :: MessageType where "MsgAck \<equiv> 5"
abbreviation (input) MsgError :: MessageType where "MsgError \<equiv> 6"
abbreviation (input) MsgTicket :: MessageType where "MsgTicket \<equiv> 7"

abbreviation (input) ErrContentNotFound :: ErrorCode where "ErrContentNotFound \<equiv> 1"
abbreviation (input) ErrChunkNotFound :: ErrorCode where "ErrChunkNotFound \<equiv> 2"
abbreviation (input) ErrInvalidManifest :: ErrorCode where "ErrInvalidManifest \<equiv> 3"
abbreviation (input) ErrPermissionDenied :: ErrorCode where "ErrPermissionDenied \<equiv> 4"
abbreviation (input) ErrInternal :: ErrorCode where "ErrInternal \<equiv> 5"
abbreviation (input) ErrIntegrityMismatch :: ErrorCode where "ErrIntegrityMismatch \<equiv> 6"
abbreviation (input) ErrBadRequest :: ErrorCode where "ErrBadRequest \<equiv> 7"
abbreviation (input) ErrUnsupportedMessage :: ErrorCode where "ErrUnsupportedMessage \<equiv> 8"

record Message =
  ms_Version :: u16
  ms_Type :: MessageType
  ms_Payload :: bytes

datatype message_error =
    ReadFailed io_error
  | FrameTooLarge
  | BadPayloadLength MessageType nat
  | BadHeader io_error
  | NilTicket
  | TicketMarshal string
  | EmptyTicket
  | TicketUnmarshal string

text \<open>The bytes of the buffer: version, type and payload.\<close>

definition envelope :: "Message \<Rightarrow> bytes" where
  "envelope msg = put_u16_le (ms_Version msg) @ [ms_Type msg] @ ms_Payload msg"

definition WriteMessage :: "Message \<Rightarrow> (writer, io_error, unit) stateful" where
  "WriteMessage msg w =
     (let buf = envelope msg;
          sz = of_nat (length buf) :: u32
      in case Write (put_u32_le sz) w of
           (Inl e, w') \<Rightarrow> (Inl e, w')
         | (Inr _, w') \<Rightarrow> Write buf w')"

definition ReadMessage :: "reader \<Rightarrow> (message_error + Message) \<times> reader" where
  "ReadMessage r =
     (case ReadFull 4 r of
        (Inl e, r') \<Rightarrow> (Inl (ReadFailed e), r')
      | (Inr szb, r') \<Rightarrow>
          let sz = get_u32_le szb in
          if 2 * 1024 * 1024 < sz then (Inl FrameTooLarge, r')
          else (case ReadFull (unat sz) r' of
            (Inl e, r'') \<Rightarrow> (Inl (ReadFailed e), r'')
          | (Inr data, r'') \<Rightarrow>
              (case ReadFull 2 (bytes_reader data) of
                 (Inl e, _) \<Rightarrow> (Inl (ReadFailed e), r'')
               | (Inr vb, buf) \<Rightarrow>
                   (case ReadFull 1 buf of
                      (Inl e, _) \<Rightarrow> (Inl (ReadFailed e), r'')
                    | (Inr tb, buf') \<Rightarrow>
                        (Inr \<lparr>ms_Version = get_u16_le vb, ms_Type = hd tb,
                              ms_Payload = rd_data buf'\<rparr>, r'')))))"

section \<open>Payloads\<close>

definition message :: "MessageType \<Rightarrow> bytes \<Rightarrow> Message" where
  "message t p = \<lparr>ms_Version = CurrentMessageVersion, ms_Type = t, ms_Payload = p\<rparr>"

definition BuildRequestManifest :: "ContentID \<Rightarrow> Message" where
  "BuildRequestManifest cid = message MsgRequestManifest cid"

definition ParseRequestManifest :: "bytes \<Rightarrow> message_error + ContentID" where
  "ParseRequestManifest payload =
     (if length payload \<noteq> 32 then Inl (BadPayloadLength MsgRequestManifest (length payload))
      else Inr (copy_into 32 payload))"

definition BuildManifest :: "ContentID \<Rightarrow> bytes \<Rightarrow> Message" where
  "BuildManifest cid content = message MsgManifest (cid @ content)"

definition ParseManifest :: "bytes \<Rightarrow> message_error + ContentID \<times> bytes" where
  "ParseManifest payload =
     (if length payload < 32 then Inl (BadPayloadLength MsgManifest (length payload))
      else Inr (copy_into 32 (take 32 payload), drop 32 payload))"

definition BuildRequestChunk :: "ChunkID \<Rightarrow> Message" where
  "BuildRequestChunk cid = message MsgRequestChunk cid"

definition ParseRequestChunk :: "bytes \<Rightarrow> message_error + ChunkID" where
  "ParseRequestChunk payload =
     (if length payload \<noteq> 32 then Inl (BadPayloadLength MsgRequestChunk (length payload))
      else Inr (copy_into 32 payload))"

text \<open>Writing a header of fixed size into a buffer does not fail.\<close>

definition BuildChunk :: "Chunk \<Rightarrow> Message" where
  "BuildChunk chunk = message MsgChunk (put_header (ck_Header chunk) @ ck_Data chunk)"

definition ParseChunk :: "bytes \<Rightarrow> message_error + Chunk" where
  "ParseChunk payload =
     (case get_header (bytes_reader payload) of
        (Inl e, _) \<Rightarrow> Inl (BadHeader e)
      | (Inr h, buf) \<Rightarrow> Inr \<lparr>ck_Header = h, ck_Data = rd_data buf\<rparr>)"

definition BuildAck :: "ChunkID \<Rightarrow> u8 \<Rightarrow> Message" where
  "BuildAck cid status = message MsgAck (cid @ [status])"

definition ParseAck :: "bytes \<Rightarrow> message_error + ChunkID \<times> u8" where
  "ParseAck payload =
     (if length payload \<noteq> 33 then Inl (BadPayloadLength MsgAck (length payload))
      else Inr (copy_into 32 (take 32 payload), payload ! 32))"

definition BuildError :: "ErrorCode \<Rightarrow> string \<Rightarrow> Message" where
  "BuildError code msg = message MsgError (code # str_bytes msg)"

definition ParseError :: "bytes \<Rightarrow> message_error + ErrorCode \<times> string" where
  "ParseError payload =
     (case payload of
        [] \<Rightarrow> Inl (BadPayloadLength MsgError 0)
      | code # msg \<Rightarrow> Inr (code, bytes_str msg))"

text \<open>Tickets travel as JSON; \<open>json.Marshal\<close> and \<open>json.Unmarshal\<close> at the type of tickets are
  arguments. A nil ticket is \<open>None\<close>.\<close>

definition BuildTicket :: "('tk \<Rightarrow> string + bytes) \<Rightarrow> 'tk option \<Rightarrow> message_error + Message" where
  "BuildTicket marshal signedTicket =
     (case signedTicket of
        None \<Rightarrow> Inl NilTicket
      | Some tk \<Rightarrow>
          (case marshal tk of
             Inl e \<Rightarrow> Inl (TicketMarshal e)
           | Inr b \<Rightarrow> Inr (message MsgTicket b)))"

definition ParseTicket :: "(bytes \<Rightarrow> string + 'tk) \<Rightarrow> bytes \<Rightarrow> message_error + 'tk" where
  "ParseTicket unmarshal payload =
     (if length payload = 0 then Inl EmptyTicket
      else case unmarshal payload of
        Inl e \<Rightarrow> Inl (TicketUnmarshal e)
      | Inr tk \<Rightarrow> Inr tk)"

section \<open>Limits\<close>

text \<open>The limits in bytes, computed as in the source.\<close>

definition StandardChunkSize :: nat where "StandardChunkSize = 32 * 1024"
definition ChaCha20NonceSize :: nat where "ChaCha20NonceSize = 12"
definition Poly1305TagSize :: nat where "Poly1305TagSize = 16"
definition EncryptionOverhead :: nat where "EncryptionOverhead = ChaCha20NonceSize + Poly1305TagSize"
definition MaxCiphertextSize :: nat where "MaxCiphertextSize = StandardChunkSize + EncryptionOverhead"
definition HashSize :: nat where "HashSize = 32"
definition ContentIDSize :: nat where "ContentIDSize = 32"
definition MaxErrorMessageSize :: nat where "MaxErrorMessageSize = 512"
definition MaxChunkRequestSize :: nat where "MaxChunkRequestSize = 512"
definition MaxFrameSize :: nat where "MaxFrameSize = 2 * 1024 * 1024"
definition MaxMessagePayloadSize :: nat where "MaxMessagePayloadSize = MaxFrameSize - 3"
definition MaxChunkResponseSize :: nat where "MaxChunkResponseSize = MaxMessagePayloadSize"
definition MaxProtocolErrorSize :: nat where "MaxProtocolErrorSize = MaxErrorMessageSize + 128"
definition MaxManifestSize :: nat where "MaxManifestSize = MaxMessagePayloadSize"
definition MaxTicketSize :: nat where "MaxTicketSize = 4096"
definition MaxSupportedChunkCount :: u64 where "MaxSupportedChunkCount = push_bit 32 1"
definition MaxSupportedChunkIndex :: u64 where "MaxSupportedChunkIndex = MaxSupportedChunkCount - 1"

lemmas limit_defs = StandardChunkSize_def ChaCha20NonceSize_def Poly1305TagSize_def
  EncryptionOverhead_def MaxCiphertextSize_def HashSize_def ContentIDSize_def MaxErrorMessageSize_def
  MaxChunkRequestSize_def MaxFrameSize_def MaxMessagePayloadSize_def MaxChunkResponseSize_def
  MaxProtocolErrorSize_def MaxManifestSize_def MaxTicketSize_def

definition MaxPayloadSizeForMessage :: "MessageType \<Rightarrow> nat" where
  "MaxPayloadSizeForMessage t =
     (if t = MsgRequestManifest then MaxChunkRequestSize
      else if t = MsgManifest then MaxManifestSize
      else if t = MsgRequestChunk then MaxChunkRequestSize
      else if t = MsgChunk then MaxChunkResponseSize
      else if t = MsgAck then HashSize + 1
      else if t = MsgTicket then MaxTicketSize
      else if t = MsgError then MaxProtocolErrorSize
      else 0)"

section \<open>The bounded decoder\<close>

record Frame =
  fm_Version :: u16
  fm_MessageType :: MessageType
  fm_Payload :: bytes

datatype frame_error =
    NilReader
  | ErrTruncatedFrame io_error
  | ErrInvalidPayloadSize u32
  | ErrInvalidProtocolVersion u16
  | ErrUnknownMessageType MessageType
  | ErrPayloadTooLarge MessageType u32
  | UnexpectedType MessageType MessageType

text \<open>A nil reader is \<open>None\<close>.\<close>

definition DecodeFrame :: "reader option \<Rightarrow> (frame_error + Frame) \<times> reader option" where
  "DecodeFrame rd =
     (case rd of
        None \<Rightarrow> (Inl NilReader, None)
      | Some r \<Rightarrow>
      (case ReadFull 7 r of
        (Inl e, r') \<Rightarrow> (Inl (ErrTruncatedFrame e), Some r')
      | (Inr header, r') \<Rightarrow>
          let frameSize = get_u32_le (take 4 header) in
          if frameSize < 3 then (Inl (ErrInvalidPayloadSize frameSize), Some r')
          else let version = get_u16_le (take 2 (drop 4 header)) in
          if version \<noteq> CurrentMessageVersion then (Inl (ErrInvalidProtocolVersion version), Some r')
          else let messageType = header ! 6;
                   maxPayloadSize = MaxPayloadSizeForMessage messageType in
          if maxPayloadSize = 0 then (Inl (ErrUnknownMessageType messageType), Some r')
          else let declaredSize = frameSize - 3 in
          if declaredSize = 0 then (Inl (ErrInvalidPayloadSize 0), Some r')
          else if maxPayloadSize < unat declaredSize
          then (Inl (ErrPayloadTooLarge messageType declaredSize), Some r')
          else (case ReadFull (unat declaredSize) r' of
            (Inl e, r'') \<Rightarrow> (Inl (ErrTruncatedFrame e), Some r'')
          | (Inr payload, r'') \<Rightarrow>
              (Inr \<lparr>fm_Version = version, fm_MessageType = messageType, fm_Payload = payload\<rparr>,
               Some r''))))"

definition DecodeExpectedFrame ::
    "reader option \<Rightarrow> MessageType \<Rightarrow> (frame_error + Frame) \<times> reader option" where
  "DecodeExpectedFrame rd expected =
     (case DecodeFrame rd of
        (Inl e, r') \<Rightarrow> (Inl e, r')
      | (Inr frame, r') \<Rightarrow>
          if fm_MessageType frame \<noteq> expected
          then (Inl (UnexpectedType (fm_MessageType frame) expected), r') else (Inr frame, r'))"

definition DecodeFrameHeader ::
    "reader option \<Rightarrow> (frame_error + u16 \<times> MessageType \<times> u32) \<times> reader option" where
  "DecodeFrameHeader rd =
     (case rd of
        None \<Rightarrow> (Inl NilReader, None)
      | Some r \<Rightarrow>
      (case ReadFull 7 r of
        (Inl e, r') \<Rightarrow> (Inl (ErrTruncatedFrame e), Some r')
      | (Inr header, r') \<Rightarrow>
          (let frameSize = get_u32_le (take 4 header);
               version = get_u16_le (take 2 (drop 4 header));
               messageType = header ! 6;
               maxPayloadSize = MaxPayloadSizeForMessage messageType;
               payloadSize = frameSize - 3
           in (if frameSize < 3 then Inl (ErrInvalidPayloadSize frameSize)
               else if version \<noteq> CurrentMessageVersion then Inl (ErrInvalidProtocolVersion version)
               else if maxPayloadSize = 0 then Inl (ErrUnknownMessageType messageType)
               else if payloadSize = 0 then Inl (ErrInvalidPayloadSize 0)
               else if maxPayloadSize < unat payloadSize then Inl (ErrPayloadTooLarge messageType payloadSize)
               else Inr (version, messageType, payloadSize)),
           Some r')))"

definition ReadFramePayload ::
    "reader option \<Rightarrow> MessageType \<Rightarrow> u32 \<Rightarrow> (frame_error + bytes) \<times> reader option" where
  "ReadFramePayload rd messageType payloadSize =
     (case rd of
        None \<Rightarrow> (Inl NilReader, None)
      | Some r \<Rightarrow>
          let maxPayloadSize = MaxPayloadSizeForMessage messageType in
          if maxPayloadSize = 0 then (Inl (ErrUnknownMessageType messageType), Some r)
          else if payloadSize = 0 then (Inl (ErrInvalidPayloadSize 0), Some r)
          else if maxPayloadSize < unat payloadSize
          then (Inl (ErrPayloadTooLarge messageType payloadSize), Some r)
          else (case ReadFull (unat payloadSize) r of
            (Inl e, r') \<Rightarrow> (Inl (ErrTruncatedFrame e), Some r')
          | (Inr payload, r') \<Rightarrow> (Inr payload, Some r')))"

section \<open>The framing\<close>

text \<open>The bytes that \<open>WriteMessage\<close> sends, and the messages that \<open>ReadMessage\<close> accepts.\<close>

definition frame :: "Message \<Rightarrow> bytes" where
  "frame m = put_u32_le (of_nat (length (envelope m))) @ envelope m"

definition frame_fits :: "Message \<Rightarrow> bool" where
  "frame_fits m \<longleftrightarrow> length (ms_Payload m) + 3 \<le> MaxFrameSize"

lemma length_envelope [simp]: "length (envelope m) = length (ms_Payload m) + 3"
  by (simp add: envelope_def)

lemma WriteMessage_good [simp]: "WriteMessage m (good_writer out) = (Inr (), good_writer (out @ frame m))"
  by (simp add: WriteMessage_def frame_def Let_def)

lemma max_frame_word:
  "n < 2 ^ 32 \<Longrightarrow> 2 * 1024 * 1024 < (of_nat n :: u32) \<longleftrightarrow> MaxFrameSize < n"
  by (simp add: word_less_nat_alt limit_defs)

lemma ReadMessage_frame:
  assumes "frame_fits m"
  shows "ReadMessage \<lparr>rd_data = frame m @ rest, rd_end = e\<rparr> = (Inr m, \<lparr>rd_data = rest, rd_end = e\<rparr>)"
proof -
  have len: "length (ms_Payload m) + 3 < 2 ^ 32" using assms by (simp add: frame_fits_def limit_defs)
  then have "\<not> 2 * 1024 * 1024 < (of_nat (length (envelope m)) :: u32)"
    using max_frame_word [of "length (envelope m)"] assms by (simp add: frame_fits_def)
  moreover have "unat (of_nat (length (envelope m)) :: u32) = length (envelope m)"
    by (rule unat_u32_of_nat) (use len in simp)
  ultimately show ?thesis
    unfolding ReadMessage_def frame_def append_assoc
    by (simp add: Let_def del: length_envelope) (simp add: ReadFull_bytes envelope_def)
qed

interpretation chunk_framing: message_framing frame ReadMessage frame_fits
  by unfold_locales (rule ReadMessage_frame)

lemma ReadMessage_ok:
  assumes "ReadMessage r = (Inr m, r')"
  shows "frame_fits m \<and> rd_data r = frame m @ rd_data r' \<and> rd_end r' = rd_end r"
proof -
  from assms obtain szb r1 b where 1: "ReadFull 4 r = (Inr szb, r1)"
      "\<not> 2 * 1024 * 1024 < get_u32_le szb" "ReadFull (unat (get_u32_le szb)) r1 = (Inr b, r')"
      and 2: "3 \<le> length b" "m = \<lparr>ms_Version = get_u16_le (take 2 b), ms_Type = hd (take 1 (drop 2 b)),
        ms_Payload = drop 3 b\<rparr>"
    by (auto simp: ReadMessage_def Let_def ReadFull_bytes numeral_3_eq_3
        split: prod.splits sum.splits if_splits)
  note f1 = ReadFull_ok [OF 1(1)] and f2 = ReadFull_ok [OF 1(3)]
  have env: "envelope m = b"
    using 2 put_get_u16_le [of "take 2 b"] split_at_3 [OF 2(1)] by (simp add: envelope_def del: One_nat_def take_Suc)
  have le: "unat (get_u32_le szb) \<le> MaxFrameSize"
    using 1(2) by (simp add: word_less_nat_alt limit_defs)
  have "of_nat (length b) = get_u32_le szb" using f2 by simp
  then have "frame m = szb @ b" using env f1 put_get_u32_le [of szb] by (simp add: frame_def del: length_envelope)
  then show ?thesis using f1 f2 le env by (simp add: frame_fits_def flip: length_envelope)
qed

lemma DecodeFrame_split:
  "DecodeFrame rd =
     (case DecodeFrameHeader rd of
        (Inl e, rd') \<Rightarrow> (Inl e, rd')
      | (Inr (v, t, n), rd') \<Rightarrow> (case ReadFramePayload rd' t n of
           (Inl e, rd'') \<Rightarrow> (Inl e, rd'')
         | (Inr p, rd'') \<Rightarrow> (Inr \<lparr>fm_Version = v, fm_MessageType = t, fm_Payload = p\<rparr>, rd'')))"
  by (auto simp: DecodeFrame_def DecodeFrameHeader_def ReadFramePayload_def Let_def
      split: option.splits prod.splits sum.splits)

text \<open>The messages that the bounded decoder accepts.\<close>

definition within_limits :: "Message \<Rightarrow> bool" where
  "within_limits m \<longleftrightarrow> ms_Version m = CurrentMessageVersion \<and> ms_Payload m \<noteq> []
     \<and> length (ms_Payload m) \<le> MaxPayloadSizeForMessage (ms_Type m)"

lemma MaxPayloadSize_bound: "MaxPayloadSizeForMessage t + 3 \<le> MaxFrameSize"
  by (simp add: MaxPayloadSizeForMessage_def limit_defs)

lemma within_limits_fits: "within_limits m \<Longrightarrow> frame_fits m"
  using MaxPayloadSize_bound [of "ms_Type m"] by (simp add: within_limits_def frame_fits_def)

definition as_frame :: "Message \<Rightarrow> Frame" where
  "as_frame m = \<lparr>fm_Version = ms_Version m, fm_MessageType = ms_Type m, fm_Payload = ms_Payload m\<rparr>"

lemma frame_header:
  "frame m = (put_u32_le (of_nat (length (ms_Payload m) + 3)) @ put_u16_le (ms_Version m) @ [ms_Type m])
     @ ms_Payload m"
  by (simp add: frame_def envelope_def)

lemma u32_size:
  assumes "length p + 3 \<le> MaxFrameSize"
  shows "\<not> (of_nat (length p + 3) :: u32) < 3" and "unat (of_nat (length p + 3) - 3 :: u32) = length p"
proof -
  have "length p + 3 < 2 ^ 32" using assms by (simp add: limit_defs)
  then have u: "unat (of_nat (length p + 3) :: u32) = length p + 3" by (rule unat_u32_of_nat)
  then show "\<not> (of_nat (length p + 3) :: u32) < 3" by (simp add: word_less_nat_alt)
  have "(of_nat (length p + 3) - 3 :: u32) = of_nat (length p)" by simp
  moreover have "length p < 2 ^ 32" using assms by (simp add: limit_defs)
  ultimately show "unat (of_nat (length p + 3) - 3 :: u32) = length p" by simp
qed

lemma DecodeFrame_frame:
  assumes "within_limits m"
  shows "DecodeFrame (Some \<lparr>rd_data = frame m @ rest, rd_end = e\<rparr>)
    = (Inr (as_frame m), Some \<lparr>rd_data = rest, rd_end = e\<rparr>)"
proof -
  let ?h = "put_u32_le (of_nat (length (ms_Payload m) + 3)) @ put_u16_le (ms_Version m) @ [ms_Type m]"
  let ?n = "of_nat (length (ms_Payload m) + 3) :: u32"
  have fits: "length (ms_Payload m) + 3 \<le> MaxFrameSize"
    using within_limits_fits [OF assms] by (simp add: frame_fits_def)
  have rd: "ReadFull 7 \<lparr>rd_data = frame m @ rest, rd_end = e\<rparr>
      = (Inr ?h, \<lparr>rd_data = ms_Payload m @ rest, rd_end = e\<rparr>)"
    unfolding frame_header append_assoc [of ?h] by (rule ReadFull_append) simp
  have h: "get_u32_le (take 4 ?h) = ?n" "get_u16_le (take 2 (drop 4 ?h)) = ms_Version m" "?h ! 6 = ms_Type m"
    by (simp_all add: nth_append)
  note u = u32_size [OF fits]
  have "?n - 3 \<noteq> 0" "MaxPayloadSizeForMessage (ms_Type m) \<noteq> 0" "ms_Payload m \<noteq> []"
    using u(2) assms by (auto simp: within_limits_def simp flip: length_greater_0_conv)
  then show ?thesis
    unfolding DecodeFrame_def option.case rd prod.case sum.case Let_def h
    using u assms by (simp add: within_limits_def as_frame_def)
qed

lemma split_header: "length h = 7 \<Longrightarrow> h = take 4 h @ take 2 (drop 4 h) @ [h ! 6]"
  by (auto simp: length_Suc_conv eval_nat_numeral)

lemma DecodeFrame_ok:
  assumes "DecodeFrame (Some r) = (Inr f, rd')"
  shows "\<exists>m r'. within_limits m \<and> f = as_frame m \<and> rd' = Some r' \<and> rd_data r = frame m @ rd_data r'
    \<and> rd_end r' = rd_end r"
proof -
  from assms obtain h r1 p r' where 1: "ReadFull 7 r = (Inr h, r1)" "\<not> get_u32_le (take 4 h) < 3"
      "ReadFull (unat (get_u32_le (take 4 h) - 3)) r1 = (Inr p, r')" "rd' = Some r'"
      and 2: "get_u16_le (take 2 (drop 4 h)) = 1" "get_u32_le (take 4 h) - 3 \<noteq> 0"
      "unat (get_u32_le (take 4 h) - 3) \<le> MaxPayloadSizeForMessage (h ! 6)"
      "f = \<lparr>fm_Version = 1, fm_MessageType = h ! 6, fm_Payload = p\<rparr>"
    by (auto simp: DecodeFrame_def Let_def not_less split: prod.splits sum.splits if_splits)
  note f1 = ReadFull_ok [OF 1(1)] and f2 = ReadFull_ok [OF 1(3)]
  let ?m = "\<lparr>ms_Version = 1, ms_Type = h ! 6, ms_Payload = p\<rparr>"
  have "of_nat (length p) = get_u32_le (take 4 h) - 3" using f2 by simp
  then have sz: "(of_nat (length p + 3) :: u32) = get_u32_le (take 4 h)" by simp
  have "h = take 4 h @ take 2 (drop 4 h) @ [h ! 6]" using f1 by (intro split_header) simp
  then have "h = put_u32_le (of_nat (length p + 3)) @ put_u16_le 1 @ [h ! 6]"
    using put_get_u32_le [of "take 4 h"] put_get_u16_le [of "take 2 (drop 4 h)"] f1 2(1) sz by simp
  then have "rd_data r = frame ?m @ rd_data r'" using f1 f2 by (simp add: frame_header)
  moreover have "within_limits ?m" using 2 f2 by (auto simp: within_limits_def unat_eq_0)
  ultimately show ?thesis using 1(4) 2(4) f1 f2 by (intro exI [of _ ?m] exI [of _ r']) (simp add: as_frame_def)
qed

section \<open>Properties\<close>

text \<open>The framing of the chunk protocol is exact: \<open>ReadMessage\<close> returns a message exactly when the
  stream begins with the bytes \<open>WriteMessage\<close> sends for it and the frame has at most 2 MiB, and it then
  consumes exactly these bytes. A sequence of messages that fit is read back in order.\<close>

lemma chunk_framing_exact:
  "(ReadMessage r = (Inr m, r') \<longleftrightarrow>
      frame_fits m \<and> rd_data r = wr_out (snd (WriteMessage m (good_writer []))) @ rd_data r' \<and> rd_end r' = rd_end r)
   \<and> (list_all frame_fits ms \<longrightarrow>
        chunk_framing.read_many (length ms) \<lparr>rd_data = concat (map frame ms) @ rest, rd_end = e\<rparr>
          = (Inr ms, \<lparr>rd_data = rest, rd_end = e\<rparr>))"
  using ReadMessage_ok [of r m r'] ReadMessage_frame [of m "rd_data r'" "rd_end r'"]
    chunk_framing.read_many_enc [of ms rest e]
  by (cases r; cases r') (auto simp: list_all_iff)

lemma chunk_framing_exact_witness:
  "chunk_framing.read_many 2 \<lparr>rd_data = frame (BuildAck (replicate 32 1) 0) @ frame (BuildError 2 ''no'') @ [9],
     rd_end = EOF\<rparr> = (Inr [BuildAck (replicate 32 1) 0, BuildError 2 ''no''], \<lparr>rd_data = [9], rd_end = EOF\<rparr>)"
  using chunk_framing_exact [of undefined undefined undefined "[BuildAck (replicate 32 1) 0, BuildError 2 ''no'']" "[9]" EOF]
  by (simp add: frame_fits_def BuildAck_def BuildError_def message_def limit_defs numeral_2_eq_2)


end
