(* ===== verification/ChunkValidation.thy ===== *)
theory ChunkValidation
  imports ChunkMessages
begin

text \<open>
  Structural validation of chunk-protocol messages, \<open>network/protocol/chunk/validation.go\<close>, and what
  it guarantees to the parsers.
\<close>

section \<open>Validators\<close>

datatype validation_error =
    ErrNilMessage
  | ErrInvalidMessageVersion u16
  | ErrInvalidMessageType MessageType
  | ErrInvalidPayloadLength nat
  | ErrInvalidContentID nat
  | ErrInvalidChunkID nat
  | ErrInvalidChunkHeader io_error
  | ErrInvalidCiphertext
  | ErrInvalidAckStatus u8
  | ErrInvalidErrorCode ErrorCode
  | ErrInvalidErrorMessage nat
  | ErrContentMismatch
  | ErrChunkMismatch
  | ErrInvalidChunkIndex u64
  | ErrInvalidManifestPayload nat
  | TicketEmpty
  | TicketTooLarge
  | BadTotalChunks u64
  | ParseFailed message_error

text \<open>A validator returns nil, here \<open>None\<close>, or an error.\<close>

definition ValidateTicketPayload :: "bytes \<Rightarrow> validation_error option" where
  "ValidateTicketPayload payload =
     (if length payload = 0 then Some TicketEmpty
      else if MaxTicketSize < length payload then Some TicketTooLarge
      else None)"

definition ValidateRequestManifestPayload :: "bytes \<Rightarrow> validation_error option" where
  "ValidateRequestManifestPayload payload =
     (if length payload \<noteq> ContentIDSize then Some (ErrInvalidContentID (length payload)) else None)"

definition ValidateManifestPayload :: "bytes \<Rightarrow> validation_error option" where
  "ValidateManifestPayload payload =
     (if length payload < ContentIDSize then Some (ErrInvalidManifestPayload (length payload)) else None)"

definition ValidateRequestChunkPayload :: "bytes \<Rightarrow> validation_error option" where
  "ValidateRequestChunkPayload payload =
     (if length payload \<noteq> HashSize then Some (ErrInvalidChunkID (length payload)) else None)"

text \<open>\<open>binary.Size\<close> of a chunk header.\<close>

definition headerSize :: nat where
  "headerSize = 2 + 32 + 4 + 8 + 4 + 4 + 12"

definition splitChunkPayload :: "bytes \<Rightarrow> validation_error + ChunkHeader \<times> bytes" where
  "splitChunkPayload payload =
     (if length payload < headerSize then Inl (ErrInvalidPayloadLength (length payload))
      else case get_header (bytes_reader (take headerSize payload)) of
        (Inl e, _) \<Rightarrow> Inl (ErrInvalidChunkHeader e)
      | (Inr h, _) \<Rightarrow> Inr (h, drop headerSize payload))"

definition ValidateChunkPayload :: "bytes \<Rightarrow> validation_error option" where
  "ValidateChunkPayload payload =
     (if length payload < headerSize then Some (ErrInvalidPayloadLength (length payload))
      else case splitChunkPayload payload of
        Inl e \<Rightarrow> Some e
      | Inr (header, ciphertext) \<Rightarrow>
          if hd_Version header \<noteq> CurrentMessageVersion
          then Some (ErrInvalidMessageVersion (hd_Version header))
          else if MaxSupportedChunkIndex < ucast (hd_Index header)
          then Some (ErrInvalidChunkIndex (ucast (hd_Index header)))
          else if hd_CipherSize header \<noteq> of_nat (length ciphertext) then Some ErrInvalidCiphertext
          else if length ciphertext = 0 then Some ErrInvalidCiphertext
          else None)"

definition ValidateAckPayload :: "bytes \<Rightarrow> validation_error option" where
  "ValidateAckPayload payload =
     (if length payload \<noteq> HashSize + 1 then Some (ErrInvalidPayloadLength (length payload))
      else if payload ! HashSize \<noteq> 0 then Some (ErrInvalidAckStatus (payload ! HashSize))
      else None)"

definition isKnownErrorCode :: "ErrorCode \<Rightarrow> bool" where
  "isKnownErrorCode code \<longleftrightarrow> code \<in> {ErrContentNotFound, ErrChunkNotFound, ErrInvalidManifest,
     ErrPermissionDenied, ErrInternal, ErrIntegrityMismatch, ErrBadRequest, ErrUnsupportedMessage}"

definition ValidateErrorPayload :: "bytes \<Rightarrow> validation_error option" where
  "ValidateErrorPayload payload =
     (case payload of
        [] \<Rightarrow> Some (ErrInvalidPayloadLength 0)
      | code # msg \<Rightarrow>
          if \<not> isKnownErrorCode code then Some (ErrInvalidErrorCode code)
          else if MaxErrorMessageSize < length msg then Some (ErrInvalidErrorMessage (length msg))
          else None)"

definition ValidateMessagePayload :: "MessageType \<Rightarrow> bytes \<Rightarrow> validation_error option" where
  "ValidateMessagePayload messageType payload =
     (let maxPayloadSize = MaxPayloadSizeForMessage messageType in
      if maxPayloadSize = 0 then Some (ErrInvalidMessageType messageType)
      else if maxPayloadSize < length payload then Some (ErrInvalidPayloadLength (length payload))
      else if messageType = MsgRequestManifest then ValidateRequestManifestPayload payload
      else if messageType = MsgManifest then ValidateManifestPayload payload
      else if messageType = MsgRequestChunk then ValidateRequestChunkPayload payload
      else if messageType = MsgChunk then ValidateChunkPayload payload
      else if messageType = MsgAck then ValidateAckPayload payload
      else if messageType = MsgTicket then ValidateTicketPayload payload
      else if messageType = MsgError then ValidateErrorPayload payload
      else Some (ErrInvalidMessageType messageType))"

definition ValidateMessage :: "Message option \<Rightarrow> validation_error option" where
  "ValidateMessage msg =
     (case msg of
        None \<Rightarrow> Some ErrNilMessage
      | Some m \<Rightarrow>
          if ms_Version m \<noteq> CurrentMessageVersion then Some (ErrInvalidMessageVersion (ms_Version m))
          else ValidateMessagePayload (ms_Type m) (ms_Payload m))"

definition ValidateManifestForRequest :: "ContentID \<Rightarrow> bytes \<Rightarrow> validation_error option" where
  "ValidateManifestForRequest requested payload =
     (case ValidateManifestPayload payload of
        Some e \<Rightarrow> Some e
      | None \<Rightarrow>
          (case ParseManifest payload of
             Inl e \<Rightarrow> Some (ParseFailed e)
           | Inr (received, _) \<Rightarrow> if received \<noteq> requested then Some ErrContentMismatch else None))"

definition ValidateChunkForRequest :: "ChunkID \<Rightarrow> bytes \<Rightarrow> validation_error option" where
  "ValidateChunkForRequest requested payload =
     (case ValidateChunkPayload payload of
        Some e \<Rightarrow> Some e
      | None \<Rightarrow>
          (case splitChunkPayload payload of
             Inl e \<Rightarrow> Some e
           | Inr (header, _) \<Rightarrow> if hd_ID header \<noteq> requested then Some ErrChunkMismatch else None))"

record ContentInfo =
  ci_ContentID :: ContentID
  ci_TotalChunks :: u64

definition ValidateChunkRequestForContent :: "u64 \<Rightarrow> ContentInfo \<Rightarrow> validation_error option" where
  "ValidateChunkRequestForContent chunkIndex info =
     (if ci_TotalChunks info = 0 \<or> MaxSupportedChunkCount < ci_TotalChunks info
      then Some (BadTotalChunks (ci_TotalChunks info))
      else if ci_TotalChunks info \<le> chunkIndex then Some (ErrInvalidChunkIndex chunkIndex)
      else None)"

section \<open>Validation and parsing\<close>

lemma header_size_value [simp]: "headerSize = 66"
  by (simp add: headerSize_def)

lemma get_header_bytes:
  "get_header (bytes_reader b) = (if 66 \<le> length b then (Inr (header_of b), bytes_reader (drop 66 b))
     else (Inl (if b = [] then EOF else ErrUnexpectedEOF), bytes_reader []))"
  by (simp add: get_header_def ReadFull_bytes header_of_def drop_take)

lemma put_get_u64_le: "length b = 8 \<Longrightarrow> put_u64_le (get_u64_le b) = b"
  using le_nat_bound [of b] le_bytes_le_nat [of b]
  by (simp add: put_defs get_defs unat_of_nat take_bit_eq_mod)

lemma take_drop_join: "take n (drop m b) @ drop (n + m) b = drop m b"
  by (metis append_take_drop_id drop_drop)

lemma put_header_header_of:
  assumes "length b = 66"
  shows "header_wf (header_of b)" and "put_header (header_of b) = b"
proof -
  show "header_wf (header_of b)" using assms by (simp add: header_wf_def header_of_def)
  have "put_header (header_of b) = take 2 b @ take 32 (drop 2 b) @ take 4 (drop 34 b) @ take 8 (drop 38 b)
      @ take 4 (drop 46 b) @ take 4 (drop 50 b) @ take 12 (drop 54 b)"
    using assms
    by (simp add: put_header_def header_of_def put_get_u16_le put_get_u32_le put_get_u64_le)
  also have "take 12 (drop 54 b) = drop 54 b" using assms by simp
  also have "take 4 (drop 50 b) @ drop 54 b = drop 50 b" using take_drop_join [of 4 50 b] by simp
  also have "take 4 (drop 46 b) @ drop 50 b = drop 46 b" using take_drop_join [of 4 46 b] by simp
  also have "take 8 (drop 38 b) @ drop 46 b = drop 38 b" using take_drop_join [of 8 38 b] by simp
  also have "take 4 (drop 34 b) @ drop 38 b = drop 34 b" using take_drop_join [of 4 34 b] by simp
  also have "take 32 (drop 2 b) @ drop 34 b = drop 2 b" using take_drop_join [of 32 2 b] by simp
  finally show "put_header (header_of b) = b" by simp
qed

lemma header_of_append: "header_wf h \<Longrightarrow> header_of (put_header h @ d) = h"
  using get_header_put_header [of h d EOF] get_header_bytes [of "put_header h @ d"]
  by (simp add: bytes_reader_def)

lemma of_char_byte: "of_char (char_of (unat b) :: char) = (b :: byte)"
proof -
  have "(of_char (char_of (unat b) :: char) :: byte) = of_nat (of_char (char_of (unat b) :: char))"
    by (simp only: of_nat_of_char)
  also have "\<dots> = of_nat (unat b mod 256)" by (simp only: of_char_of)
  finally show ?thesis using unsigned_less [of b, where ?'a = nat] by simp
qed

lemma bytes_str_bytes [simp]: "str_bytes (bytes_str b) = b"
  by (induction b) (simp_all add: str_bytes_def bytes_str_def of_char_byte)

lemma length_bytes_str [simp]: "length (bytes_str b) = length b"
  by (simp add: bytes_str_def)

lemma chunk_index_in_range: "\<not> MaxSupportedChunkIndex < ucast (i :: u32)"
proof -
  have i: "unat i < 2 ^ 32" using unsigned_less [of i, where ?'a = nat] by simp
  then have "unat (ucast i :: u64) = unat i"
    by (simp add: unsigned_ucast_eq unsigned_take_bit_eq take_bit_nat_eq_self_iff)
  with i show ?thesis
    by (simp add: MaxSupportedChunkIndex_def MaxSupportedChunkCount_def word_less_nat_alt)
qed

definition sound_chunk :: "Chunk \<Rightarrow> bool" where
  "sound_chunk c \<longleftrightarrow> header_wf (ck_Header c) \<and> hd_Version (ck_Header c) = CurrentMessageVersion
     \<and> hd_CipherSize (ck_Header c) = of_nat (length (ck_Data c)) \<and> ck_Data c \<noteq> []"

lemma ValidateChunkPayload_iff:
  "ValidateChunkPayload p = None \<longleftrightarrow>
     (\<exists>c. sound_chunk c \<and> p = put_header (ck_Header c) @ ck_Data c)"
proof
  assume v: "ValidateChunkPayload p = None"
  then have len: "66 \<le> length p" by (auto simp: ValidateChunkPayload_def split: if_splits)
  let ?h = "header_of (take 66 p)"
  from v len have "hd_Version ?h = 1" "hd_CipherSize ?h = of_nat (length (drop 66 p))" "drop 66 p \<noteq> []"
    by (auto simp: ValidateChunkPayload_def splitChunkPayload_def get_header_bytes split: if_splits)
  moreover note put_header_header_of [of "take 66 p"]
  ultimately show "\<exists>c. sound_chunk c \<and> p = put_header (ck_Header c) @ ck_Data c"
    using len by (intro exI [of _ "\<lparr>ck_Header = ?h, ck_Data = drop 66 p\<rparr>"]) (simp add: sound_chunk_def)
next
  assume "\<exists>c. sound_chunk c \<and> p = put_header (ck_Header c) @ ck_Data c"
  then show "ValidateChunkPayload p = None"
    by (auto simp: ValidateChunkPayload_def splitChunkPayload_def get_header_bytes sound_chunk_def
        chunk_index_in_range)
qed

lemma built_validates:
  "length cid = 32 \<Longrightarrow> ValidateMessage (Some (BuildRequestManifest cid)) = None"
  "length cid = 32 \<Longrightarrow> length d + 35 \<le> MaxFrameSize \<Longrightarrow> ValidateMessage (Some (BuildManifest cid d)) = None"
  "length cid = 32 \<Longrightarrow> ValidateMessage (Some (BuildRequestChunk cid)) = None"
  "sound_chunk c \<Longrightarrow> length (ck_Data c) + 69 \<le> MaxFrameSize \<Longrightarrow> ValidateMessage (Some (BuildChunk c)) = None"
  "length cid = 32 \<Longrightarrow> ValidateMessage (Some (BuildAck cid 0)) = None"
  "0 < length b \<Longrightarrow> length b \<le> MaxTicketSize \<Longrightarrow> ValidateMessage (Some (message MsgTicket b)) = None"
  "isKnownErrorCode code \<Longrightarrow> length msg \<le> MaxErrorMessageSize \<Longrightarrow>
     ValidateMessage (Some (BuildError code msg)) = None"
proof -
  assume c: "sound_chunk c" "length (ck_Data c) + 69 \<le> MaxFrameSize"
  then have "ValidateChunkPayload (put_header (ck_Header c) @ ck_Data c) = None"
    using ValidateChunkPayload_iff by blast
  with c show "ValidateMessage (Some (BuildChunk c)) = None"
    by (simp add: ValidateMessage_def ValidateMessagePayload_def MaxPayloadSizeForMessage_def BuildChunk_def
        message_def limit_defs sound_chunk_def)
qed (simp_all add: ValidateMessage_def ValidateMessagePayload_def MaxPayloadSizeForMessage_def
    BuildRequestManifest_def BuildManifest_def BuildRequestChunk_def BuildAck_def BuildError_def message_def
    ValidateRequestManifestPayload_def ValidateManifestPayload_def ValidateRequestChunkPayload_def
    ValidateAckPayload_def ValidateTicketPayload_def ValidateErrorPayload_def limit_defs nth_append)

lemma message_eqI: "ms_Version m = CurrentMessageVersion \<Longrightarrow> ms_Payload m = p \<Longrightarrow> ms_Type m = t \<Longrightarrow> m = message t p"
  by (simp add: message_def)

lemma last_split: "length p = 33 \<Longrightarrow> p = take 32 p @ [p ! 32]"
  using take_Suc_conv_app_nth [of 32 p] by simp

lemma validated_payload:
  assumes "ms_Version m = CurrentMessageVersion" and "ValidateMessagePayload (ms_Type m) p = None" and "ms_Payload m = p"
  shows "(length p = 32 \<and> m = BuildRequestManifest p)
   \<or> (32 \<le> length p \<and> length p + 3 \<le> MaxFrameSize \<and> m = BuildManifest (take 32 p) (drop 32 p))
   \<or> (length p = 32 \<and> m = BuildRequestChunk p)
   \<or> (ValidateChunkPayload p = None \<and> length p + 3 \<le> MaxFrameSize \<and> m = message MsgChunk p)
   \<or> (length p = 33 \<and> m = BuildAck (take 32 p) 0)
   \<or> (0 < length p \<and> length p \<le> MaxTicketSize \<and> m = message MsgTicket p)
   \<or> (\<exists>code msg. p = code # msg \<and> isKnownErrorCode code \<and> length msg \<le> MaxErrorMessageSize
        \<and> m = message MsgError p)"
proof -
  consider "ms_Type m = MsgRequestManifest" | "ms_Type m = MsgManifest" | "ms_Type m = MsgRequestChunk"
    | "ms_Type m = MsgChunk" | "ms_Type m = MsgAck" | "ms_Type m = MsgTicket" | "ms_Type m = MsgError"
    using assms(2) by (auto simp: ValidateMessagePayload_def Let_def split: if_splits)
  then show ?thesis
  proof cases
    case 5
    with assms(2) have "length p = 33" "p ! 32 = 0"
      by (auto simp: ValidateMessagePayload_def MaxPayloadSizeForMessage_def ValidateAckPayload_def limit_defs
          split: if_splits)
    with last_split [of p] 5 assms(1,3) have "m = BuildAck (take 32 p) 0"
      unfolding BuildAck_def by (intro message_eqI) simp_all
    with \<open>length p = 33\<close> show ?thesis by blast
  next
    case 7
    with assms(2) show ?thesis
      using message_eqI [OF assms(1,3) 7]
      by (auto simp: ValidateMessagePayload_def MaxPayloadSizeForMessage_def ValidateErrorPayload_def limit_defs
          split: if_splits list.splits)
  qed (use assms message_eqI [OF assms(1,3)] in
      \<open>auto simp: ValidateMessagePayload_def MaxPayloadSizeForMessage_def BuildRequestManifest_def
        BuildManifest_def BuildRequestChunk_def ValidateRequestManifestPayload_def ValidateManifestPayload_def
        ValidateRequestChunkPayload_def ValidateTicketPayload_def limit_defs split: if_splits\<close>)
qed

section \<open>Properties\<close>

text \<open>Validation is exact: a message passes \<open>ValidateMessage\<close> if and only if it is one that the builders
  produce within the limits: a request for a 32-byte identifier, a manifest or a chunk that fits the
  frame (the chunk with the current version, the right ciphertext size and data), a positive
  acknowledgement, a ticket of at most 4096 bytes, or a known error with at most 512 bytes of text.\<close>

lemma validation_exact:
  "ValidateMessage (Some m) = None \<longleftrightarrow>
     (\<exists>cid. length cid = 32 \<and> m = BuildRequestManifest cid)
   \<or> (\<exists>cid d. length cid = 32 \<and> length d + 35 \<le> MaxFrameSize \<and> m = BuildManifest cid d)
   \<or> (\<exists>cid. length cid = 32 \<and> m = BuildRequestChunk cid)
   \<or> (\<exists>c. sound_chunk c \<and> length (ck_Data c) + 69 \<le> MaxFrameSize \<and> m = BuildChunk c)
   \<or> (\<exists>cid. length cid = 32 \<and> m = BuildAck cid 0)
   \<or> (\<exists>b. 0 < length b \<and> length b \<le> MaxTicketSize \<and> m = message MsgTicket b)
   \<or> (\<exists>code msg. isKnownErrorCode code \<and> length msg \<le> MaxErrorMessageSize \<and> m = BuildError code msg)"
  (is "?v \<longleftrightarrow> ?b")
proof
  assume v: ?v
  let ?p = "ms_Payload m"
  from v have "ms_Version m = CurrentMessageVersion" "ValidateMessagePayload (ms_Type m) ?p = None"
    by (auto simp: ValidateMessage_def split: if_splits)
  from validated_payload [OF this refl] show ?b
  proof (elim disjE conjE exE)
    assume c: "ValidateChunkPayload ?p = None" "length ?p + 3 \<le> MaxFrameSize" "m = message MsgChunk ?p"
    from c(1) obtain c where "sound_chunk c" "?p = put_header (ck_Header c) @ ck_Data c"
      by (auto simp: ValidateChunkPayload_iff)
    with c(2,3) have "sound_chunk c" "length (ck_Data c) + 69 \<le> MaxFrameSize" "m = BuildChunk c"
      by (simp_all add: BuildChunk_def sound_chunk_def)
    then show ?b by blast
  next
    fix code msg
    assume "?p = code # msg" "isKnownErrorCode code" "length msg \<le> MaxErrorMessageSize" "m = message MsgError ?p"
    then have "length (bytes_str msg) \<le> MaxErrorMessageSize" "m = BuildError code (bytes_str msg)"
      by (simp_all add: BuildError_def)
    then show ?b using \<open>isKnownErrorCode code\<close> by blast
  next
    assume "length ?p = 33" "m = BuildAck (take 32 ?p) 0"
    then have "length (take 32 ?p) = 32 \<and> m = BuildAck (take 32 ?p) 0" by simp
    then show ?b by blast
  next
    assume "32 \<le> length ?p" "length ?p + 3 \<le> MaxFrameSize" "m = BuildManifest (take 32 ?p) (drop 32 ?p)"
    then have "length (take 32 ?p) = 32 \<and> length (drop 32 ?p) + 35 \<le> MaxFrameSize
      \<and> m = BuildManifest (take 32 ?p) (drop 32 ?p)" by simp
    then show ?b by blast
  qed blast+
next
  assume ?b
  then show ?v by (elim disjE exE conjE) (simp_all add: built_validates)
qed

end
