(* ===== verification/Storage.thy ===== *)
theory Storage
  imports Content
begin

text \<open>
  The chunk and manifest store of \<open>network/content/storage/fs.go\<close>. The file system is a map from
  paths to contents together with a script of faults: each operation takes the head of the script,
  which says at which of its system calls, counted from 0, it fails. An empty script is a file
  system that never fails.
\<close>

datatype fault = NoFault | FailAt nat

record FSStorage =
  fs_baseDir :: string
  fs_pid :: int
  fs_files :: "string \<rightharpoonup> bytes"
  fs_faults :: "fault list"

datatype storage_error =
    CreateShardDir
  | CreateTemp
  | WriteHeader
  | WriteData
  | Fsync
  | RenameTemp
  | StatFailed
  | OpenFailed
  | ReadHeader io_error
  | ReadData
  | ManifestNotFound
  | CreateManifestDir
  | WriteManifest
  | ReadManifestDir

definition next_fault :: "FSStorage \<Rightarrow> fault \<times> FSStorage" where
  "next_fault s = (case fs_faults s of
     [] \<Rightarrow> (NoFault, s)
   | f # fs \<Rightarrow> (f, s\<lparr>fs_faults := fs\<rparr>))"

section \<open>Paths\<close>

text \<open>\<open>filepath.Join\<close> of non-empty, clean elements.\<close>

definition join2 :: "string \<Rightarrow> string \<Rightarrow> string" where
  "join2 a b = a @ ''/'' @ b"

definition pathForChunk :: "FSStorage \<Rightarrow> ChunkID \<Rightarrow> string" where
  "pathForChunk s cid =
     (let encoded = hex_encode cid in
      if 4 \<le> length encoded
      then join2 (join2 (join2 (fs_baseDir s) (take 2 encoded)) (take 2 (drop 2 encoded))) encoded
      else join2 (fs_baseDir s) encoded)"

definition manifestPath :: "FSStorage \<Rightarrow> ContentID \<Rightarrow> string" where
  "manifestPath s cid = join2 (join2 (fs_baseDir s) ''manifests'') (hex_encode cid @ ''.json'')"

definition tmp_path :: "FSStorage \<Rightarrow> ChunkID \<Rightarrow> string" where
  "tmp_path s cid = pathForChunk s cid @ ''.'' @ format_int (fs_pid s) @ ''.tmp''"

section \<open>Chunks\<close>

definition HasChunk :: "ChunkID \<Rightarrow> FSStorage \<Rightarrow> (storage_error + bool) \<times> FSStorage" where
  "HasChunk cid s = (case next_fault s of (f, s') \<Rightarrow>
     case f of
       FailAt _ \<Rightarrow> (Inl StatFailed, s')
     | NoFault \<Rightarrow> (Inr (fs_files s' (pathForChunk s' cid) \<noteq> None), s'))"

text \<open>System calls of \<open>PutChunk\<close>: 0 creates the directory, 1 the temporary file, 2 writes the
  header, 3 the data, 4 syncs, 5 renames. After a failed write or sync the temporary file is
  removed; after a failed rename it stays.\<close>

definition PutChunk :: "Chunk \<Rightarrow> FSStorage \<Rightarrow> (storage_error + unit) \<times> FSStorage" where
  "PutChunk chunk s = (case next_fault s of (f, s') \<Rightarrow>
     let path = pathForChunk s' (hd_ID (ck_Header chunk));
         tmpPath = tmp_path s' (hd_ID (ck_Header chunk));
         content = put_header (ck_Header chunk) @ ck_Data chunk;
         removed = s'\<lparr>fs_files := (fs_files s')(tmpPath := None)\<rparr>
     in case f of
          NoFault \<Rightarrow> (Inr (), s'\<lparr>fs_files := (fs_files s')(tmpPath := None, path \<mapsto> content)\<rparr>)
        | FailAt n \<Rightarrow>
            if n = 0 then (Inl CreateShardDir, s')
            else if n = 1 then (Inl CreateTemp, s')
            else if n = 2 then (Inl WriteHeader, removed)
            else if n = 3 then (Inl WriteData, removed)
            else if n = 4 then (Inl Fsync, removed)
            else (Inl RenameTemp, s'\<lparr>fs_files := (fs_files s')(tmpPath \<mapsto> content)\<rparr>))"

definition GetChunk :: "ChunkID \<Rightarrow> FSStorage \<Rightarrow> (storage_error + Chunk) \<times> FSStorage" where
  "GetChunk cid s = (case next_fault s of (f, s') \<Rightarrow>
     case fs_files s' (pathForChunk s' cid) of
       None \<Rightarrow> (Inl OpenFailed, s')
     | Some content \<Rightarrow>
         if f = FailAt 0 then (Inl OpenFailed, s')
         else if f = FailAt 1 then (Inl (ReadHeader (Transport ''read'')), s')
         else case get_header (bytes_reader content) of
           (Inl e, _) \<Rightarrow> (Inl (ReadHeader e), s')
         | (Inr h, r) \<Rightarrow>
             if f \<noteq> NoFault then (Inl ReadData, s')
             else (Inr \<lparr>ck_Header = h, ck_Data = rd_data r\<rparr>, s'))"

section \<open>Manifests\<close>

definition GetManifestBytes :: "ContentID \<Rightarrow> FSStorage \<Rightarrow> (storage_error + bytes) \<times> FSStorage" where
  "GetManifestBytes cid s = (case next_fault s of (f, s') \<Rightarrow>
     case f of
       FailAt _ \<Rightarrow> (Inl ManifestNotFound, s')
     | NoFault \<Rightarrow> (case fs_files s' (manifestPath s' cid) of
           None \<Rightarrow> (Inl ManifestNotFound, s')
         | Some content \<Rightarrow> (Inr content, s')))"

text \<open>\<open>os.WriteFile\<close> truncates the file and writes it in place: failing at call \<open>n + 1\<close> stands
  for a failure after \<open>n\<close> bytes.\<close>

definition PutManifestBytes :: "ContentID \<Rightarrow> bytes \<Rightarrow> FSStorage \<Rightarrow> (storage_error + unit) \<times> FSStorage" where
  "PutManifestBytes cid content s = (case next_fault s of (f, s') \<Rightarrow>
     let path = manifestPath s' cid in
     case f of
       NoFault \<Rightarrow> (Inr (), s'\<lparr>fs_files := (fs_files s')(path \<mapsto> content)\<rparr>)
     | FailAt 0 \<Rightarrow> (Inl CreateManifestDir, s')
     | FailAt (Suc n) \<Rightarrow>
         (Inl WriteManifest, s'\<lparr>fs_files := (fs_files s')(path \<mapsto> take n content)\<rparr>))"

text \<open>The result of \<open>os.ReadDir\<close> is an argument: a missing directory, another failure, or the
  entries with a flag for directories. \<open>filepath.Ext\<close> is the suffix from the last dot.\<close>

datatype dir_listing = DirMissing | DirFailed | DirEntries "(string \<times> bool) list"

definition file_ext :: "string \<Rightarrow> string" where
  "file_ext name = (let t = rev (takeWhile (\<lambda>c. c \<noteq> CHR ''.'') (rev name))
     in if length t = length name then [] else CHR ''.'' # t)"

definition manifest_id_of_name :: "string \<times> bool \<Rightarrow> ContentID option" where
  "manifest_id_of_name entry = (case entry of (name, isDir) \<Rightarrow>
     if isDir \<or> file_ext name \<noteq> ''.json'' then None
     else case hex_decode (take (length name - 5) name) of
       None \<Rightarrow> None
     | Some idBytes \<Rightarrow> if length idBytes \<noteq> 32 then None else Some (copy_into 32 idBytes))"

definition ListManifests :: "dir_listing \<Rightarrow> storage_error + ContentID list" where
  "ListManifests listing = (case listing of
     DirMissing \<Rightarrow> Inr []
   | DirFailed \<Rightarrow> Inl ReadManifestDir
   | DirEntries entries \<Rightarrow> Inr (List.map_filter manifest_id_of_name entries))"

section \<open>The contract of a chunk store\<close>

text \<open>What the content engine relies on of \<open>core.ChunkSource\<close> and \<open>core.ChunkSink\<close>: a stored
  chunk is returned by its ID, and other chunks are not affected. \<open>usable\<close> are the stores that do
  not fail.\<close>

locale chunk_store =
  fixes get :: "ChunkID \<Rightarrow> 's \<Rightarrow> ('e + Chunk) \<times> 's"
    and put :: "Chunk \<Rightarrow> 's \<Rightarrow> ('e + unit) \<times> 's"
    and usable :: "'s \<Rightarrow> bool"
  assumes put_ok: "usable s \<Longrightarrow> header_wf (ck_Header c) \<Longrightarrow>
      \<exists>t. put c s = (Inr (), t) \<and> usable t \<and> get (hd_ID (ck_Header c)) t = (Inr c, t)"
    and put_other: "usable s \<Longrightarrow> header_wf (ck_Header c) \<Longrightarrow> put c s = (Inr (), t) \<Longrightarrow>
      length cid = 32 \<Longrightarrow> cid \<noteq> hd_ID (ck_Header c) \<Longrightarrow> get cid s = (Inr c', s) \<Longrightarrow>
      get cid t = (Inr c', t)"

definition fs_usable :: "FSStorage \<Rightarrow> bool" where
  "fs_usable s \<longleftrightarrow> fs_faults s = []"

lemma next_fault_usable [simp]: "fs_usable s \<Longrightarrow> next_fault s = (NoFault, s)"
  by (simp add: next_fault_def fs_usable_def)

lemma length_pathForChunk [simp]:
  "length cid = 32 \<Longrightarrow> length (pathForChunk s cid) = length (fs_baseDir s) + 71"
  by (simp add: pathForChunk_def join2_def Let_def)

lemma pathForChunk_inject:
  assumes "length a = 32" and "length b = 32"
  shows "pathForChunk s a = pathForChunk s b \<longleftrightarrow> a = b"
  using assms by (auto simp: pathForChunk_def join2_def Let_def append_eq_append_conv)

lemma tmp_path_neq [simp]: "length a = 32 \<Longrightarrow> length b = 32 \<Longrightarrow> tmp_path s a \<noteq> pathForChunk s b"
  using length_pathForChunk [of a s] length_pathForChunk [of b s]
  by (auto simp: tmp_path_def dest!: arg_cong [of _ _ length])

lemma pathForChunk_files [simp]:
  "pathForChunk (s\<lparr>fs_files := m\<rparr>) cid = pathForChunk s cid"
  "pathForChunk (s\<lparr>fs_faults := fs\<rparr>) cid = pathForChunk s cid"
  "tmp_path (s\<lparr>fs_files := m\<rparr>) cid = tmp_path s cid"
  "tmp_path (s\<lparr>fs_faults := fs\<rparr>) cid = tmp_path s cid"
  by (simp_all add: pathForChunk_def tmp_path_def Let_def)

interpretation fs_store: chunk_store GetChunk PutChunk fs_usable
proof unfold_locales
  fix s :: FSStorage and c :: Chunk
  assume s: "fs_usable s" and c: "header_wf (ck_Header c)"
  show "\<exists>t. PutChunk c s = (Inr (), t) \<and> fs_usable t \<and> GetChunk (hd_ID (ck_Header c)) t = (Inr c, t)"
    using s c
    by (auto simp: PutChunk_def GetChunk_def fs_usable_def next_fault_def bytes_reader_def
        get_header_put_header header_wf_def Let_def)
next
  fix s t :: FSStorage and c c' :: Chunk and cid
  assume s: "fs_usable s" and c: "header_wf (ck_Header c)" and put: "PutChunk c s = (Inr (), t)"
    and cid: "length cid = 32" "cid \<noteq> hd_ID (ck_Header c)" and get: "GetChunk cid s = (Inr c', s)"
  let ?i = "hd_ID (ck_Header c)"
  have t: "t = s\<lparr>fs_files := (fs_files s)(tmp_path s ?i := None,
      pathForChunk s ?i \<mapsto> put_header (ck_Header c) @ ck_Data c)\<rparr>"
    using s put by (simp add: PutChunk_def Let_def)
  have "length ?i = 32" using c by (simp add: header_wf_def)
  then have "fs_files t (pathForChunk t cid) = fs_files s (pathForChunk s cid)"
    using cid by (simp add: t pathForChunk_inject tmp_path_neq [symmetric])
  moreover have "fs_usable t" using s by (simp add: t fs_usable_def)
  ultimately show "GetChunk cid t = (Inr c', t)"
    using get s by (auto simp: GetChunk_def split: option.splits sum.splits prod.splits)
qed

section \<open>Properties\<close>

text \<open>Storing a chunk is atomic: whichever system call fails, a failed \<open>PutChunk\<close> leaves
  every chunk path of the store with the content it had, so every chunk stored before is still
  readable, byte for byte.\<close>

lemma failed_put_keeps_chunks:
  assumes "PutChunk c s = (Inl e, t)" and "length (hd_ID (ck_Header c)) = 32" and "length cid = 32"
  shows "fs_files t (pathForChunk t cid) = fs_files s (pathForChunk s cid)"
proof -
  have "tmp_path s (hd_ID (ck_Header c)) \<noteq> pathForChunk s cid"
    using assms(2,3) by (rule tmp_path_neq)
  with assms(1) show ?thesis
    by (auto simp: PutChunk_def next_fault_def Let_def split: list.splits fault.splits if_splits)
qed

lemma failed_put_keeps_chunks_witness:
  "let c = \<lparr>ck_Header = \<lparr>hd_Version = 1, hd_ID = replicate 32 7, hd_Index = 0, hd_Offset = 0,
         hd_PlainSize = 1, hd_CipherSize = 0, hd_Nonce = replicate 12 0\<rparr>, ck_Data = [9]\<rparr>;
       s = \<lparr>fs_baseDir = ''b'', fs_pid = 1, fs_files = Map.empty, fs_faults = [FailAt 5]\<rparr>;
       t = snd (PutChunk c s)
   in fst (PutChunk c s) = Inl RenameTemp \<and>
      fs_files t (pathForChunk t (replicate 32 7)) = fs_files s (pathForChunk s (replicate 32 7))"
proof -
  let ?c = "\<lparr>ck_Header = \<lparr>hd_Version = 1, hd_ID = replicate 32 7, hd_Index = 0, hd_Offset = 0,
         hd_PlainSize = 1, hd_CipherSize = 0, hd_Nonce = replicate 12 0\<rparr>, ck_Data = [9]\<rparr>"
  let ?s = "\<lparr>fs_baseDir = ''b'', fs_pid = 1, fs_files = Map.empty, fs_faults = [FailAt 5]\<rparr>"
  have r: "fst (PutChunk ?c ?s) = Inl RenameTemp"
    by (simp add: PutChunk_def next_fault_def Let_def del: replicate.simps)
  then have "PutChunk ?c ?s = (Inl RenameTemp, snd (PutChunk ?c ?s))" by (metis prod.collapse)
  from failed_put_keeps_chunks [OF this, of "replicate 32 7"] r show ?thesis by (simp add: Let_def)
qed

end
