(* ===== verification/ContentAddressed.thy ===== *)
theory ContentAddressed
  imports Storage
begin

text \<open>
  Content addressing: every chunk in the store has the SHA-256 digest of its data as its ID. The
  locale states what a client of the store needs to keep this; the file store satisfies it under
  every sequence of faults.
\<close>

locale addressed_store =
  fixes get :: "ChunkID \<Rightarrow> 's \<Rightarrow> ('e + Chunk) \<times> 's"
    and put :: "Chunk \<Rightarrow> 's \<Rightarrow> ('e + unit) \<times> 's"
    and good :: "'s \<Rightarrow> bool"
  assumes put_good: "good s \<Longrightarrow> header_wf (ck_Header c) \<Longrightarrow> sha256 (ck_Data c) = hd_ID (ck_Header c) \<Longrightarrow>
      put c s = (r, t) \<Longrightarrow> good t"
    and get_good: "good s \<Longrightarrow> length cid = 32 \<Longrightarrow> get cid s = (q, t) \<Longrightarrow> good t"
    and get_addressed: "good s \<Longrightarrow> length cid = 32 \<Longrightarrow> get cid s = (Inr c, t) \<Longrightarrow> sha256 (ck_Data c) = cid"

definition cas_files :: "FSStorage \<Rightarrow> bool" where
  "cas_files s \<longleftrightarrow> (\<forall>cid content. length cid = 32 \<longrightarrow> fs_files s (pathForChunk s cid) = Some content \<longrightarrow>
     66 \<le> length content \<longrightarrow> sha256 (drop 66 content) = cid)"

lemma next_fault_files:
  "next_fault s = (f, t) \<Longrightarrow> fs_files t = fs_files s \<and> fs_baseDir t = fs_baseDir s \<and> fs_pid t = fs_pid s"
  by (auto simp: next_fault_def split: list.splits)

lemma path_base: "fs_baseDir t = fs_baseDir s \<Longrightarrow> pathForChunk t cid = pathForChunk s cid"
  by (simp add: pathForChunk_def Let_def)

lemma GetChunk_files:
  assumes "GetChunk cid s = (r, t)"
  shows "fs_files t = fs_files s \<and> fs_baseDir t = fs_baseDir s \<and> fs_pid t = fs_pid s"
  using assms next_fault_files [of s]
  by (auto simp: GetChunk_def split: prod.splits option.splits if_splits sum.splits)

text \<open>A \<open>PutChunk\<close> changes at most the path of its own chunk, to the bytes of this chunk.\<close>

lemma PutChunk_files:
  assumes "PutChunk c s = (r, t)" and "length (hd_ID (ck_Header c)) = 32" and "length cid = 32"
  shows "fs_files t (pathForChunk t cid) = fs_files s (pathForChunk s cid)
    \<or> (cid = hd_ID (ck_Header c) \<and> fs_files t (pathForChunk t cid) = Some (put_header (ck_Header c) @ ck_Data c))"
proof -
  let ?i = "hd_ID (ck_Header c)" and ?b = "put_header (ck_Header c) @ ck_Data c"
  have n: "tmp_path s ?i \<noteq> pathForChunk s cid" using assms(2,3) by (rule tmp_path_neq)
  obtain f s' where f: "next_fault s = (f, s')" by fastforce
  note ff = next_fault_files [OF f]
  have p: "pathForChunk s' ?i = pathForChunk s ?i" "tmp_path s' ?i = tmp_path s ?i"
    using ff path_base [of s' s ?i] by (simp_all add: tmp_path_def)
  have t: "fs_baseDir t = fs_baseDir s" "fs_files t = fs_files s \<or> fs_files t = (fs_files s)(tmp_path s ?i := None)
      \<or> fs_files t = (fs_files s)(tmp_path s ?i \<mapsto> ?b)
      \<or> fs_files t = (fs_files s)(tmp_path s ?i := None, pathForChunk s ?i \<mapsto> ?b)"
    using assms(1) f ff by (auto simp: PutChunk_def Let_def p split: fault.splits if_splits)
  show ?thesis
    using t(2) n pathForChunk_inject [OF assms(3,2), of s]
    unfolding path_base [OF t(1)] by (elim disjE) simp_all
qed

lemma cas_files_put:
  assumes "cas_files s" and "header_wf (ck_Header c)" and "sha256 (ck_Data c) = hd_ID (ck_Header c)"
    and "PutChunk c s = (r, t)"
  shows "cas_files t"
  unfolding cas_files_def
proof (intro allI impI)
  fix cid content
  assume cid: "length cid = 32" "fs_files t (pathForChunk t cid) = Some content" "66 \<le> length content"
  have "length (hd_ID (ck_Header c)) = 32" using assms(2) by (simp add: header_wf_def)
  from PutChunk_files [OF assms(4) this cid(1)] show "sha256 (drop 66 content) = cid"
    using cid assms(1-3) by (auto simp: cas_files_def)
qed

lemma cas_files_same:
  "cas_files s \<Longrightarrow> fs_files t = fs_files s \<Longrightarrow> fs_baseDir t = fs_baseDir s \<Longrightarrow> cas_files t"
  by (simp add: cas_files_def path_base [of t s])

interpretation fs_addressed: addressed_store GetChunk PutChunk cas_files
proof unfold_locales
  fix s t :: FSStorage and c r
  assume "cas_files s" "header_wf (ck_Header c)" "sha256 (ck_Data c) = hd_ID (ck_Header c)" "PutChunk c s = (r, t)"
  then show "cas_files t" by (rule cas_files_put)
next
  fix s t :: FSStorage and cid r
  assume "cas_files s" "GetChunk cid s = (r, t)"
  then show "cas_files t" using GetChunk_files cas_files_same by blast
next
  fix s t :: FSStorage and cid c
  assume s: "cas_files s" "length cid = 32" "GetChunk cid s = (Inr c, t)"
  obtain f s' where f: "next_fault s = (f, s')" by fastforce
  note ff = next_fault_files [OF f]
  from s(3) f ff obtain content where c: "fs_files s (pathForChunk s cid) = Some content"
      "66 \<le> length content" "ck_Data c = drop 66 content"
    by (auto simp: GetChunk_def get_header_def ReadFull_def bytes_reader_def path_base [of s' s]
        split: prod.splits option.splits if_splits sum.splits)
  then show "sha256 (ck_Data c) = cid" using s(1,2) by (simp add: cas_files_def)
qed

section \<open>Chunks in the file store\<close>

text \<open>The store holds a whole chunk of this ID.\<close>

definition holds_chunk :: "FSStorage \<Rightarrow> ChunkID \<Rightarrow> bool" where
  "holds_chunk s i \<longleftrightarrow> (\<exists>h d. fs_files s (pathForChunk s i) = Some (put_header h @ d) \<and> header_wf h
     \<and> hd_ID h = i \<and> sha256 d = i)"

lemma PutChunk_ok_files:
  assumes "PutChunk c s = (Inr u, t)" and "length (hd_ID (ck_Header c)) = 32"
  shows "fs_files t (pathForChunk t (hd_ID (ck_Header c))) = Some (put_header (ck_Header c) @ ck_Data c)"
proof -
  obtain f s' where f: "next_fault s = (f, s')" by fastforce
  with assms(1) next_fault_files [OF f] have "t = s'\<lparr>fs_files := (fs_files s')(tmp_path s' (hd_ID (ck_Header c)) := None,
      pathForChunk s' (hd_ID (ck_Header c)) \<mapsto> put_header (ck_Header c) @ ck_Data c)\<rparr>"
    by (auto simp: PutChunk_def Let_def split: fault.splits if_splits)
  then show ?thesis using path_base [of t s'] by simp
qed

lemma holds_chunk_put:
  assumes "PutChunk c s = (r, t)" and "header_wf (ck_Header c)" and "sha256 (ck_Data c) = hd_ID (ck_Header c)"
  shows "holds_chunk s i \<Longrightarrow> holds_chunk t i" and "r = Inr u \<Longrightarrow> holds_chunk t (hd_ID (ck_Header c))"
proof -
  have len: "length (hd_ID (ck_Header c)) = 32" using assms(2) by (simp add: header_wf_def)
  show "holds_chunk t i" if h: "holds_chunk s i"
  proof -
    have "length i = 32" using h by (auto simp: holds_chunk_def header_wf_def)
    from PutChunk_files [OF assms(1) len this] show ?thesis
    proof
      assume "fs_files t (pathForChunk t i) = fs_files s (pathForChunk s i)"
      with h show ?thesis by (simp add: holds_chunk_def)
    next
      assume "i = hd_ID (ck_Header c) \<and> fs_files t (pathForChunk t i) = Some (put_header (ck_Header c) @ ck_Data c)"
      with assms(2,3) show ?thesis unfolding holds_chunk_def by blast
    qed
  qed
  show "r = Inr u \<Longrightarrow> holds_chunk t (hd_ID (ck_Header c))"
    using PutChunk_ok_files [of c s u t] assms len unfolding holds_chunk_def by blast
qed

text \<open>Every file at the path of a chunk is a whole chunk.\<close>

definition chunk_files :: "FSStorage \<Rightarrow> bool" where
  "chunk_files s \<longleftrightarrow> (\<forall>i content. length i = 32 \<longrightarrow> fs_files s (pathForChunk s i) = Some content \<longrightarrow> holds_chunk s i)"

lemma chunk_files_same:
  assumes "\<And>i. length i = 32 \<Longrightarrow> fs_files t (pathForChunk t i) = fs_files s (pathForChunk s i)"
  shows "holds_chunk s i \<Longrightarrow> holds_chunk t i" and "chunk_files s \<Longrightarrow> chunk_files t"
proof -
  have *: "holds_chunk s j \<Longrightarrow> holds_chunk t j" for j
  proof -
    assume h: "holds_chunk s j"
    then have "length j = 32" by (auto simp: holds_chunk_def header_wf_def)
    with h assms show "holds_chunk t j" by (simp add: holds_chunk_def)
  qed
  then show "holds_chunk s i \<Longrightarrow> holds_chunk t i" .
  show "chunk_files s \<Longrightarrow> chunk_files t" using * assms by (auto simp: chunk_files_def)
qed

lemma chunk_files_put:
  assumes "chunk_files s" and "PutChunk c s = (r, t)" and "header_wf (ck_Header c)"
    and "sha256 (ck_Data c) = hd_ID (ck_Header c)"
  shows "chunk_files t"
  unfolding chunk_files_def
proof (intro allI impI)
  fix i content
  assume i: "length i = 32" "fs_files t (pathForChunk t i) = Some content"
  have len: "length (hd_ID (ck_Header c)) = 32" using assms(3) by (simp add: header_wf_def)
  from PutChunk_files [OF assms(2) len i(1)] show "holds_chunk t i"
  proof
    assume "fs_files t (pathForChunk t i) = fs_files s (pathForChunk s i)"
    with i assms(1) have "holds_chunk s i" by (simp add: chunk_files_def)
    with holds_chunk_put(1) [OF assms(2-4)] show ?thesis by blast
  next
    assume "i = hd_ID (ck_Header c) \<and> fs_files t (pathForChunk t i) = Some (put_header (ck_Header c) @ ck_Data c)"
    with assms(3,4) show ?thesis unfolding holds_chunk_def by blast
  qed
qed

lemma HasChunk_files:
  assumes "HasChunk i s = (r, t)"
  shows "fs_files t = fs_files s" and "fs_baseDir t = fs_baseDir s"
    and "r = Inr b \<Longrightarrow> b \<longleftrightarrow> fs_files s (pathForChunk s i) \<noteq> None"
proof -
  obtain f s' where f: "next_fault s = (f, s')" by fastforce
  note ff = next_fault_files [OF f]
  show "fs_files t = fs_files s" "fs_baseDir t = fs_baseDir s"
    using assms f ff by (auto simp: HasChunk_def split: fault.splits)
  show "r = Inr b \<Longrightarrow> b \<longleftrightarrow> fs_files s (pathForChunk s i) \<noteq> None"
    using assms f ff path_base [of s' s i] by (auto simp: HasChunk_def split: fault.splits)
qed

lemma manifestPath_neq: "length i = 32 \<Longrightarrow> length cid = 32 \<Longrightarrow> manifestPath s cid \<noteq> pathForChunk s i"
  using length_pathForChunk [of i s]
  by (auto simp: manifestPath_def join2_def dest!: arg_cong [of _ _ length])

lemma PutManifestBytes_chunks:
  assumes "PutManifestBytes cid b s = (r, t)" and "length cid = 32" and "length i = 32"
  shows "fs_files t (pathForChunk t i) = fs_files s (pathForChunk s i)"
proof -
  obtain f s' where f: "next_fault s = (f, s')" by fastforce
  note ff = next_fault_files [OF f]
  have p: "manifestPath s' cid = manifestPath s cid" using ff by (simp add: manifestPath_def)
  have t: "fs_baseDir t = fs_baseDir s"
      "fs_files t = fs_files s \<or> (\<exists>x. fs_files t = (fs_files s)(manifestPath s cid \<mapsto> x))"
    using assms(1) f ff p by (auto simp: PutManifestBytes_def Let_def split: fault.splits nat.splits)
  then show ?thesis using manifestPath_neq [OF assms(3,2), of s] path_base [OF t(1)] by auto
qed

lemma PutManifestBytes_ok:
  assumes "PutManifestBytes cid b s = (Inr u, t)"
  shows "fs_files t (manifestPath t cid) = Some b"
proof -
  obtain f s' where f: "next_fault s = (f, s')" by fastforce
  note ff = next_fault_files [OF f]
  with assms f show ?thesis
    by (auto simp: PutManifestBytes_def Let_def manifestPath_def split: fault.splits nat.splits)
qed

text \<open>An empty store that never fails and a chunk, for examples.\<close>

definition example_chunk :: Chunk where
  "example_chunk = \<lparr>ck_Header = \<lparr>hd_Version = 1, hd_ID = sha256 [1, 2], hd_Index = 0, hd_Offset = 0,
     hd_PlainSize = 2, hd_CipherSize = 2, hd_Nonce = replicate 12 0\<rparr>, ck_Data = [1, 2]\<rparr>"

definition empty_fs :: FSStorage where
  "empty_fs = \<lparr>fs_baseDir = ''b'', fs_pid = 1, fs_files = Map.empty, fs_faults = []\<rparr>"

lemma empty_fs_usable [simp]: "fs_usable empty_fs"
  by (simp add: empty_fs_def fs_usable_def)

end
