(* ===== verification/ChunkProtocol.thy ===== *)
theory ChunkProtocol
  imports ChunkValidation ContentAddressed
begin

text \<open>
  The two ends of the chunk protocol: the stream handler of a provider
  (\<open>network/protocol/chunk/handler.go\<close>) and the client of a consumer (\<open>client.go\<close>). Both work on
  a stream, which holds everything the other end sends; the engine, the ticket callbacks and the JSON
  coding of tickets are arguments.
\<close>

section \<open>The handler\<close>

text \<open>The state a handler works on: the engine's store, the state behind the ticket callback, the
  outcomes of the random draws for the test corruption of chunks (\<open>TestCorruptProb\<close>; no more draws
  means no corruption), and the stream.\<close>

record ('s, 'p) StreamHandler =
  sh_engine :: 's
  sh_tickets :: 'p
  sh_draws :: "bool list"
  sh_stream :: stream

definition sh_send :: "Message \<Rightarrow> (('s, 'p) StreamHandler, io_error, unit) stateful" where
  "sh_send msg h = (case WriteMessage msg (sm_out (sh_stream h)) of
     (r, w) \<Rightarrow> (r, h\<lparr>sh_stream := (sh_stream h)\<lparr>sm_out := w\<rparr>\<rparr>))"

definition sh_recv :: "(('s, 'p) StreamHandler, message_error, Message) stateful" where
  "sh_recv h = (case ReadMessage (sm_in (sh_stream h)) of
     (r, rd) \<Rightarrow> (r, h\<lparr>sh_stream := (sh_stream h)\<lparr>sm_in := rd\<rparr>\<rparr>))"

definition sh_draw :: "('s, 'p) StreamHandler \<Rightarrow> bool \<times> ('s, 'p) StreamHandler" where
  "sh_draw h = (case sh_draws h of
     [] \<Rightarrow> (False, h)
   | b # bs \<Rightarrow> (b, h\<lparr>sh_draws := bs\<rparr>))"

text \<open>The handlers of single messages ignore errors of writing, as the source does.\<close>

definition handleRequestManifest ::
    "(ContentID \<Rightarrow> 's \<Rightarrow> ('e + bytes) \<times> 's) \<Rightarrow> Message \<Rightarrow> ('s, 'p) StreamHandler \<Rightarrow> ('s, 'p) StreamHandler" where
  "handleRequestManifest get_manifest msg h =
     (case ParseRequestManifest (ms_Payload msg) of
        Inl _ \<Rightarrow> snd (sh_send (BuildError ErrBadRequest ''invalid payload for REQUEST_MANIFEST'') h)
      | Inr contentID \<Rightarrow>
          (case get_manifest contentID (sh_engine h) of
             (Inl _, s) \<Rightarrow>
               snd (sh_send (BuildError ErrContentNotFound ''manifest not found'') (h\<lparr>sh_engine := s\<rparr>))
           | (Inr manifestData, s) \<Rightarrow>
               snd (sh_send (BuildManifest contentID manifestData) (h\<lparr>sh_engine := s\<rparr>))))"

text \<open>The wait for the acknowledgement or ticket that ends a chunk transfer.\<close>

definition await_ack ::
    "(bytes \<Rightarrow> string + 'tk) \<Rightarrow> ('tk \<Rightarrow> 'p \<Rightarrow> (string + unit) \<times> 'p) option
     \<Rightarrow> ('s, 'p) StreamHandler \<Rightarrow> ('s, 'p) StreamHandler" where
  "await_ack unmarshal ticketHandler h =
     (case sh_recv h of
        (Inl _, h') \<Rightarrow> h'
      | (Inr ackMsg, h') \<Rightarrow>
          if ms_Type ackMsg = MsgError then h'
          else if ms_Type ackMsg = MsgTicket then
            (case ParseTicket unmarshal (ms_Payload ackMsg) of
               Inl _ \<Rightarrow> h'
             | Inr signedTicket \<Rightarrow>
                 (case ticketHandler of
                    None \<Rightarrow> h'
                  | Some accept \<Rightarrow>
                      (case accept signedTicket (sh_tickets h') of
                         (Inl err, p) \<Rightarrow>
                           snd (sh_send (BuildError ErrPermissionDenied (''invalid ticket: '' @ err))
                             (h'\<lparr>sh_tickets := p\<rparr>))
                       | (Inr _, p) \<Rightarrow> h'\<lparr>sh_tickets := p\<rparr>)))
          else h')"

definition handleRequestChunk ::
    "(ChunkID \<Rightarrow> 's \<Rightarrow> ('e + Chunk) \<times> 's) \<Rightarrow> (bytes \<Rightarrow> string + 'tk)
     \<Rightarrow> ('tk \<Rightarrow> 'p \<Rightarrow> (string + unit) \<times> 'p) option \<Rightarrow> Message
     \<Rightarrow> ('s, 'p) StreamHandler \<Rightarrow> ('s, 'p) StreamHandler" where
  "handleRequestChunk get unmarshal ticketHandler msg h =
     (case ParseRequestChunk (ms_Payload msg) of
        Inl _ \<Rightarrow> snd (sh_send (BuildError ErrBadRequest ''invalid payload for REQUEST_CHUNK'') h)
      | Inr chunkID \<Rightarrow>
          (case get chunkID (sh_engine h) of
             (Inl _, s) \<Rightarrow> snd (sh_send (BuildError ErrChunkNotFound ''chunk not found'') (h\<lparr>sh_engine := s\<rparr>))
           | (Inr chunkData, s) \<Rightarrow>
               (case sh_draw (h\<lparr>sh_engine := s\<rparr>) of
                  (corrupt, h1) \<Rightarrow>
                    let chunk = (if corrupt \<and> ck_Data chunkData \<noteq> []
                                 then chunkData\<lparr>ck_Data := flip_first (ck_Data chunkData)\<rparr> else chunkData)
                    in (case sh_send (BuildChunk chunk) h1 of
                         (Inl _, h2) \<Rightarrow> h2
                       | (Inr _, h2) \<Rightarrow> await_ack unmarshal ticketHandler h2))))"

text \<open>The input that is left never grows, and every message takes some of it, so the loop of the
  handler ends.\<close>

definition pending :: "('s, 'p) StreamHandler \<Rightarrow> nat" where
  "pending h = length (rd_data (sm_in (sh_stream h)))"

lemma ReadMessage_less: "ReadMessage r = (x, r') \<Longrightarrow> length (rd_data r') \<le> length (rd_data r)"
  by (auto simp: ReadMessage_def Let_def dest!: ReadFull_less split: prod.splits sum.splits if_splits)

lemma pending_simps [simp]:
  "pending (h\<lparr>sh_engine := s\<rparr>) = pending h" "pending (h\<lparr>sh_tickets := p\<rparr>) = pending h"
  "pending (h\<lparr>sh_draws := d\<rparr>) = pending h"
  by (simp_all add: pending_def)

lemma sh_send_pending: "sh_send m h = (x, h') \<Longrightarrow> pending h' = pending h"
  by (auto simp: sh_send_def pending_def split: prod.splits)

lemma snd_sh_send_pending [simp]: "pending (snd (sh_send m h)) = pending h"
  using sh_send_pending [of m h] by (cases "sh_send m h") simp

lemma sh_recv_pending: "sh_recv h = (x, h') \<Longrightarrow> pending h' \<le> pending h"
  by (auto simp: sh_recv_def pending_def dest: ReadMessage_less split: prod.splits)

lemma length_frame [simp]: "length (frame m) = length (ms_Payload m) + 7"
  by (simp add: frame_header)

lemma sh_recv_ok_pending: "sh_recv h = (Inr m, h') \<Longrightarrow> pending h' < pending h"
  by (auto simp: sh_recv_def pending_def dest: ReadMessage_ok split: prod.splits)

lemma sh_draw_pending: "sh_draw h = (b, h') \<Longrightarrow> pending h' = pending h"
  by (auto simp: sh_draw_def split: list.splits)

lemma await_ack_pending: "pending (await_ack um th h) \<le> pending h"
  by (auto simp: await_ack_def dest!: sh_recv_pending split: prod.splits sum.splits option.splits)

lemma handleRequestManifest_pending [simp]: "pending (handleRequestManifest gm msg h) = pending h"
  by (auto simp: handleRequestManifest_def split: prod.splits sum.splits)

lemma handleRequestChunk_pending: "pending (handleRequestChunk get um th msg h) \<le> pending h"
  by (auto simp: handleRequestChunk_def Let_def dest!: sh_draw_pending sh_send_pending
      intro!: order_trans [OF await_ack_pending] split: prod.splits sum.splits)

function handleStream ::
    "(ContentID \<Rightarrow> 's \<Rightarrow> ('e + bytes) \<times> 's) \<Rightarrow> (ChunkID \<Rightarrow> 's \<Rightarrow> ('e + Chunk) \<times> 's)
     \<Rightarrow> (bytes \<Rightarrow> string + 'tk) \<Rightarrow> ('tk \<Rightarrow> 'p \<Rightarrow> (string + unit) \<times> 'p) option
     \<Rightarrow> ('s, 'p) StreamHandler \<Rightarrow> ('s, 'p) StreamHandler" where
  "handleStream get_manifest get unmarshal ticketHandler h =
     (case sh_recv h of
        (Inl _, h') \<Rightarrow> h'
      | (Inr msg, h') \<Rightarrow>
          if ms_Version msg \<noteq> CurrentMessageVersion
          then snd (sh_send (BuildError ErrUnsupportedMessage ''unsupported message version'') h')
          else handleStream get_manifest get unmarshal ticketHandler
            (if ms_Type msg = MsgRequestManifest then handleRequestManifest get_manifest msg h'
             else if ms_Type msg = MsgRequestChunk
             then handleRequestChunk get unmarshal ticketHandler msg h'
             else snd (sh_send (BuildError ErrUnsupportedMessage ''unsupported message type'') h')))"
  by pat_completeness auto
termination
  by (relation "measure (\<lambda>(_, _, _, _, h). pending h)")
    (auto dest!: sh_recv_ok_pending [OF sym] intro: order.strict_trans1 [OF handleRequestChunk_pending])

declare handleStream.simps [simp del]

section \<open>The client\<close>

record ('s, 'g) Client =
  cl_engine :: 's
  cl_tickets :: 'g
  cl_stream :: stream

datatype 'e client_error =
    SendFailed io_error
  | ReceiveFailed message_error
  | RemoteError ErrorCode string
  | ErrRemoteChunkNotFound
  | UnexpectedMessage MessageType
  | BadResponse message_error
  | ContentIDMismatch
  | ReceivedCorruptedChunk ChunkID
  | TicketGeneration string
  | TicketMessage message_error
  | TicketSend io_error
  | ChunkStore ChunkID 'e

definition cl_send :: "Message \<Rightarrow> (('s, 'g) Client, io_error, unit) stateful" where
  "cl_send msg c = (case WriteMessage msg (sm_out (cl_stream c)) of
     (r, w) \<Rightarrow> (r, c\<lparr>cl_stream := (cl_stream c)\<lparr>sm_out := w\<rparr>\<rparr>))"

definition cl_recv :: "(('s, 'g) Client, message_error, Message) stateful" where
  "cl_recv c = (case ReadMessage (sm_in (cl_stream c)) of
     (r, rd) \<Rightarrow> (r, c\<lparr>cl_stream := (cl_stream c)\<lparr>sm_in := rd\<rparr>\<rparr>))"

text \<open>The source ignores the error of \<open>ParseError\<close>, so that an empty payload gives code 0.\<close>

definition remote_error :: "bytes \<Rightarrow> ErrorCode \<times> string" where
  "remote_error payload = (case ParseError payload of Inl _ \<Rightarrow> (0, []) | Inr e \<Rightarrow> e)"

definition Resolve :: "ContentID \<Rightarrow> (('s, 'g) Client, 'e client_error, bytes) stateful" where
  "Resolve cid c =
     (case cl_send (BuildRequestManifest cid) c of
        (Inl e, c1) \<Rightarrow> (Inl (SendFailed e), c1)
      | (Inr _, c1) \<Rightarrow>
      (case cl_recv c1 of
        (Inl e, c2) \<Rightarrow> (Inl (ReceiveFailed e), c2)
      | (Inr resp, c2) \<Rightarrow>
          if ms_Type resp = MsgError
          then (case remote_error (ms_Payload resp) of (code, msg) \<Rightarrow> (Inl (RemoteError code msg), c2))
          else if ms_Type resp \<noteq> MsgManifest then (Inl (UnexpectedMessage (ms_Type resp)), c2)
          else (case ParseManifest (ms_Payload resp) of
                  Inl e \<Rightarrow> (Inl (BadResponse e), c2)
                | Inr (respID, content) \<Rightarrow>
                    if respID \<noteq> cid then (Inl ContentIDMismatch, c2) else (Inr content, c2))))"

text \<open>The receipt for a verified chunk: a ticket if a generator is configured, otherwise an
  acknowledgement, whose failure is only logged.\<close>

definition send_receipt ::
    "('tk \<Rightarrow> string + bytes) \<Rightarrow> (ChunkID \<Rightarrow> 'g \<Rightarrow> (string + 'tk option) \<times> 'g) option \<Rightarrow> ChunkID
     \<Rightarrow> (('s, 'g) Client, 'e client_error, unit) stateful" where
  "send_receipt marshal ticketGenerator chunkID c =
     (case ticketGenerator of
        None \<Rightarrow> (Inr (), snd (cl_send (BuildAck chunkID 0) c))
      | Some generate \<Rightarrow>
          (case generate chunkID (cl_tickets c) of
             (Inl e, g) \<Rightarrow> (Inl (TicketGeneration e), c\<lparr>cl_tickets := g\<rparr>)
           | (Inr signedTicket, g) \<Rightarrow>
               (case BuildTicket marshal signedTicket of
                  Inl e \<Rightarrow> (Inl (TicketMessage e), c\<lparr>cl_tickets := g\<rparr>)
                | Inr ticketMsg \<Rightarrow>
                    (case cl_send ticketMsg (c\<lparr>cl_tickets := g\<rparr>) of
                       (Inl e, c') \<Rightarrow> (Inl (TicketSend e), c')
                     | (Inr _, c') \<Rightarrow> (Inr (), c')))))"

definition FetchChunk ::
    "('tk \<Rightarrow> string + bytes) \<Rightarrow> (ChunkID \<Rightarrow> 'g \<Rightarrow> (string + 'tk option) \<times> 'g) option \<Rightarrow> ChunkID
     \<Rightarrow> (('s, 'g) Client, 'e client_error, Chunk) stateful" where
  "FetchChunk marshal ticketGenerator chunkID c =
     (case cl_send (BuildRequestChunk chunkID) c of
        (Inl e, c1) \<Rightarrow> (Inl (SendFailed e), c1)
      | (Inr _, c1) \<Rightarrow>
      (case cl_recv c1 of
        (Inl e, c2) \<Rightarrow> (Inl (ReceiveFailed e), c2)
      | (Inr resp, c2) \<Rightarrow>
          if ms_Type resp = MsgError
          then (case remote_error (ms_Payload resp) of (code, msg) \<Rightarrow>
                  (Inl (if code = ErrChunkNotFound then ErrRemoteChunkNotFound else RemoteError code msg), c2))
          else if ms_Type resp \<noteq> MsgChunk then (Inl (UnexpectedMessage (ms_Type resp)), c2)
          else (case ParseChunk (ms_Payload resp) of
                  Inl e \<Rightarrow> (Inl (BadResponse e), c2)
                | Inr chunk \<Rightarrow>
                    if Sum (ck_Data chunk) \<noteq> chunkID
                    then (Inl (ReceivedCorruptedChunk chunkID),
                          snd (cl_send (BuildError ErrIntegrityMismatch ''chunk hash mismatch'') c2))
                    else (case send_receipt marshal ticketGenerator chunkID c2 of
                            (Inl e, c3) \<Rightarrow> (Inl e, c3)
                          | (Inr _, c3) \<Rightarrow>
                              (Inr (chunk\<lparr>ck_Header := (ck_Header chunk)\<lparr>hd_ID := chunkID\<rparr>\<rparr>), c3)))))"

fun Download ::
    "(Chunk \<Rightarrow> 's \<Rightarrow> ('e + unit) \<times> 's) \<Rightarrow> ('tk \<Rightarrow> string + bytes)
     \<Rightarrow> (ChunkID \<Rightarrow> 'g \<Rightarrow> (string + 'tk option) \<times> 'g) option \<Rightarrow> ChunkID list
     \<Rightarrow> (('s, 'g) Client, 'e client_error, unit) stateful" where
  "Download put marshal ticketGenerator [] c = (Inr (), c)"
| "Download put marshal ticketGenerator (chunkID # ids) c =
     (case FetchChunk marshal ticketGenerator chunkID c of
        (Inl e, c') \<Rightarrow> (Inl e, c')
      | (Inr chunk, c') \<Rightarrow>
          (case put chunk (cl_engine c') of
             (Inl e, s) \<Rightarrow> (Inl (ChunkStore chunkID e), c'\<lparr>cl_engine := s\<rparr>)
           | (Inr _, s) \<Rightarrow> Download put marshal ticketGenerator ids (c'\<lparr>cl_engine := s\<rparr>)))"

end
