(* ===== verification/ChunkExchange.thy ===== *)
theory ChunkExchange
  imports ChunkProtocol
begin

text \<open>
  What the chunk protocol achieves: a client stores only chunks whose data hashes to the requested ID,
  whatever the other end sends; a client and a handler that follow the protocol complete a download; and
  what happens after a rejected ticket.
\<close>

section \<open>The client against an arbitrary peer\<close>

lemma cl_send_engine: "cl_send m c = (x, c') \<Longrightarrow> cl_engine c' = cl_engine c"
  by (auto simp: cl_send_def split: prod.splits)

lemma cl_recv_engine: "cl_recv c = (x, c') \<Longrightarrow> cl_engine c' = cl_engine c"
  by (auto simp: cl_recv_def split: prod.splits)

lemma snd_cl_send_engine [simp]: "cl_engine (snd (cl_send m c)) = cl_engine c"
  using cl_send_engine [of m c] by (cases "cl_send m c") simp

lemma send_receipt_engine: "send_receipt ma gen i c = (x, c') \<Longrightarrow> cl_engine c' = cl_engine c"
  by (auto simp: send_receipt_def dest!: cl_send_engine split: prod.splits option.splits sum.splits)

lemma FetchChunk_engine:
  "FetchChunk ma gen i c = (x, c') \<Longrightarrow> cl_engine c' = cl_engine c"
  by (auto simp: FetchChunk_def dest!: cl_send_engine cl_recv_engine send_receipt_engine
      split: prod.splits sum.splits if_splits)

lemma ParseChunk_ok:
  "ParseChunk p = Inr ch \<longleftrightarrow> 66 \<le> length p \<and> ch = \<lparr>ck_Header = header_of p, ck_Data = drop 66 p\<rparr>"
  by (auto simp: ParseChunk_def get_header_bytes)

lemma FetchChunk_ok:
  assumes "FetchChunk ma gen i c = (Inr ch, c')"
  shows "sha256 (ck_Data ch) = i \<and> hd_ID (ck_Header ch) = i \<and> header_wf (ck_Header ch)"
  using assms
  by (auto simp: FetchChunk_def ParseChunk_ok header_of_def Sum_def header_wf_def
      split: prod.splits sum.splits if_splits)

context addressed_store
begin

lemma Download_good:
  "good (cl_engine c) \<Longrightarrow> Download put ma gen ids c = (r, c') \<Longrightarrow> good (cl_engine c')"
proof (induction ids arbitrary: c)
  case (Cons i ids)
  obtain x :: "'e client_error + Chunk" and c1 where f: "FetchChunk ma gen i c = (x, c1)" by fastforce
  note e = FetchChunk_engine [OF f]
  show ?case
  proof (cases x)
    case (Inl err)
    with Cons.prems f e show ?thesis by simp
  next
    case (Inr ch)
    note ch = FetchChunk_ok [OF f [unfolded Inr]]
    obtain y s where p: "put ch (cl_engine c1) = (y, s)" by fastforce
    then have "good s" using put_good [of "cl_engine c1" ch y s] Cons.prems(1) e ch by simp
    then show ?thesis using Cons.prems(2) Cons.IH [of "c1\<lparr>cl_engine := s\<rparr>"] f Inr p
      by (auto split: sum.splits)
  qed
qed simp

end

lemma Download_holds:
  "Download PutChunk ma gen ids c = (r, c') \<Longrightarrow>
   (\<forall>i. holds_chunk (cl_engine c) i \<longrightarrow> holds_chunk (cl_engine c') i)
   \<and> (r = Inr () \<longrightarrow> (\<forall>i \<in> set ids. holds_chunk (cl_engine c') i))"
proof (induction ids arbitrary: c)
  case (Cons i ids)
  obtain x :: "storage_error client_error + Chunk" and c1 where f: "FetchChunk ma gen i c = (x, c1)" by fastforce
  note e = FetchChunk_engine [OF f]
  show ?case
  proof (cases x)
    case (Inl err)
    with Cons.prems f e show ?thesis by auto
  next
    case (Inr ch)
    note ch = FetchChunk_ok [OF f [unfolded Inr]]
    obtain y s where p: "PutChunk ch (cl_engine c1) = (y, s)" by fastforce
    note h = holds_chunk_put [OF p]
    show ?thesis
    proof (cases y)
      case (Inl err)
      with Cons.prems f Inr p e ch h show ?thesis by auto
    next
      case (Inr u)
      with Cons.prems f \<open>x = Inr ch\<close> p have "Download PutChunk ma gen ids (c1\<lparr>cl_engine := s\<rparr>) = (r, c')" by simp
      from Cons.IH [OF this] h Inr ch e show ?thesis by auto
    qed
  qed
qed simp

section \<open>A client and a handler\<close>

lemma ReadMessage_bytes [simp]:
  "frame_fits m \<Longrightarrow> ReadMessage (bytes_reader (frame m @ rest)) = (Inr m, bytes_reader rest)"
  unfolding bytes_reader_def by (rule ReadMessage_frame)

lemma ReadMessage_end [simp]: "ReadMessage (bytes_reader []) = (Inl (ReadFailed EOF), bytes_reader [])"
  by (simp add: ReadMessage_def ReadFull_bytes)

lemma sh_simps:
  "sh_stream h = fresh_stream a b \<Longrightarrow> sh_send m h = (Inr (), h\<lparr>sh_stream := fresh_stream a (b @ frame m)\<rparr>)"
  "sh_stream h = fresh_stream (frame m @ a) b \<Longrightarrow> frame_fits m \<Longrightarrow>
     sh_recv h = (Inr m, h\<lparr>sh_stream := fresh_stream a b\<rparr>)"
  "sh_stream h = fresh_stream [] b \<Longrightarrow> sh_recv h = (Inl (ReadFailed EOF), h)"
  by (simp_all add: sh_send_def sh_recv_def)

lemma cl_simps:
  "cl_stream c = fresh_stream a b \<Longrightarrow> cl_send m c = (Inr (), c\<lparr>cl_stream := fresh_stream a (b @ frame m)\<rparr>)"
  "cl_stream c = fresh_stream (frame m @ a) b \<Longrightarrow> frame_fits m \<Longrightarrow>
     cl_recv c = (Inr m, c\<lparr>cl_stream := fresh_stream a b\<rparr>)"
  by (simp_all add: cl_send_def cl_recv_def)

lemma small_fits [simp]:
  "length i = 32 \<Longrightarrow> frame_fits (BuildRequestChunk i)" "length i = 32 \<Longrightarrow> frame_fits (BuildAck i s)"
  by (simp_all add: frame_fits_def BuildRequestChunk_def BuildAck_def message_def limit_defs)

lemma message_fields [simp]:
  "ms_Version (message t p) = CurrentMessageVersion" "ms_Type (message t p) = t" "ms_Payload (message t p) = p"
  by (simp_all add: message_def)

lemma build_fields [simp]:
  "ms_Version (BuildRequestChunk i) = CurrentMessageVersion" "ms_Type (BuildRequestChunk i) = MsgRequestChunk"
  "ms_Payload (BuildRequestChunk i) = i" "ms_Type (BuildAck i s) = MsgAck" "ms_Type (BuildChunk ch) = MsgChunk"
  "ms_Payload (BuildChunk ch) = put_header (ck_Header ch) @ ck_Data ch"
  by (simp_all add: BuildRequestChunk_def BuildAck_def BuildChunk_def)

text \<open>A chunk that a provider can send: it is well-formed, its data hash to the ID, and it fits a frame.\<close>

definition servable :: "ChunkID \<Rightarrow> Chunk \<Rightarrow> bool" where
  "servable i ch \<longleftrightarrow> header_wf (ck_Header ch) \<and> hd_ID (ck_Header ch) = i \<and> sha256 (ck_Data ch) = i
     \<and> length (ck_Data ch) + 69 \<le> MaxFrameSize"

lemma servable_facts:
  assumes "servable i ch"
  shows "length i = 32" and "frame_fits (BuildChunk ch)"
    and "ParseChunk (put_header (ck_Header ch) @ ck_Data ch) = Inr ch"
    and "Sum (ck_Data ch) = i" and "ch\<lparr>ck_Header := (ck_Header ch)\<lparr>hd_ID := i\<rparr>\<rparr> = ch"
  using assms
  by (auto simp: servable_def header_wf_def frame_fits_def BuildChunk_def ParseChunk_ok header_of_append Sum_def)

lemma ParseRequestChunk_ok [simp]: "length i = 32 \<Longrightarrow> ParseRequestChunk i = Inr i"
  by (simp add: ParseRequestChunk_def)

definition request_and_ack :: "ChunkID \<Rightarrow> bytes" where
  "request_and_ack i = frame (BuildRequestChunk i) @ frame (BuildAck i 0)"

lemma FetchChunk_served:
  assumes "servable i ch" and "cl_stream c = fresh_stream (frame (BuildChunk ch) @ rest) out"
  shows "FetchChunk ma None i c = (Inr ch, c\<lparr>cl_stream := fresh_stream rest (out @ request_and_ack i)\<rparr>)"
  using assms servable_facts [OF assms(1)]
  by (simp add: FetchChunk_def cl_simps send_receipt_def request_and_ack_def)

lemma handle_served:
  assumes "servable i ch" and "get i (sh_engine h) = (Inr ch, sh_engine h)" and "sh_draws h = []"
    and "sh_stream h = fresh_stream (request_and_ack i @ rest) out"
  shows "handleStream gm get um th h
    = handleStream gm get um th (h\<lparr>sh_stream := fresh_stream rest (out @ frame (BuildChunk ch))\<rparr>)"
  using assms servable_facts [OF assms(1)]
  by (subst handleStream.simps)
    (simp add: request_and_ack_def sh_simps handleRequestChunk_def sh_draw_def await_ack_def)

definition served :: "(ChunkID \<Rightarrow> Chunk) \<Rightarrow> ChunkID list \<Rightarrow> bytes" where
  "served held ids = concat (map (\<lambda>i. frame (BuildChunk (held i))) ids)"

definition requests :: "ChunkID list \<Rightarrow> bytes" where
  "requests ids = concat (map request_and_ack ids)"

lemma transcript_simps [simp]:
  "served held [] = []" "served held (i # ids) = frame (BuildChunk (held i)) @ served held ids"
  "requests [] = []" "requests (i # ids) = request_and_ack i @ requests ids"
  by (simp_all add: served_def requests_def)

lemma handle_run:
  "\<forall>i \<in> set ids. servable i (held i) \<and> get i (sh_engine h) = (Inr (held i), sh_engine h) \<Longrightarrow>
   sh_draws h = [] \<Longrightarrow> sh_stream h = fresh_stream (requests ids) out \<Longrightarrow>
   handleStream gm get um th h = h\<lparr>sh_stream := fresh_stream [] (out @ served held ids)\<rparr>"
proof (induction ids arbitrary: h out)
  case Nil
  then show ?case by (subst handleStream.simps) (simp add: sh_simps)
next
  case (Cons i ids)
  let ?h = "h\<lparr>sh_stream := fresh_stream (requests ids) (out @ frame (BuildChunk (held i)))\<rparr>"
  have "handleStream gm get um th h = handleStream gm get um th ?h"
    using Cons.prems by (intro handle_served) simp_all
  also have "\<dots> = ?h\<lparr>sh_stream := fresh_stream [] ((out @ frame (BuildChunk (held i))) @ served held ids)\<rparr>"
    using Cons.prems by (intro Cons.IH) simp_all
  finally show ?case by simp
qed

context chunk_store
begin

lemma Download_served:
  "usable (cl_engine c) \<Longrightarrow> \<forall>i \<in> D. servable i (held i) \<and> get i (cl_engine c) = (Inr (held i), cl_engine c) \<Longrightarrow>
   \<forall>i \<in> set ids. servable i (held i) \<Longrightarrow> cl_stream c = fresh_stream (served held ids) out \<Longrightarrow>
   \<exists>t. Download put ma None ids c = (Inr (), c\<lparr>cl_engine := t, cl_stream := fresh_stream [] (out @ requests ids)\<rparr>)
     \<and> usable t \<and> (\<forall>i \<in> D \<union> set ids. get i t = (Inr (held i), t))"
proof (induction ids arbitrary: c D out)
  case Nil
  then show ?case by (intro exI [of _ "cl_engine c"]) simp
next
  case (Cons i ids)
  let ?c = "c\<lparr>cl_stream := fresh_stream (served held ids) (out @ request_and_ack i)\<rparr>"
  have ch: "servable i (held i)" using Cons.prems(3) by simp
  have f: "FetchChunk ma None i c = (Inr (held i) :: 'e client_error + Chunk, ?c)"
    using Cons.prems(4) by (intro FetchChunk_served ch) simp
  have wf: "header_wf (ck_Header (held i))" "hd_ID (ck_Header (held i)) = i" using ch by (simp_all add: servable_def)
  from put_ok [OF Cons.prems(1) wf(1)] obtain t where
    t: "put (held i) (cl_engine c) = (Inr (), t)" "usable t" "get i t = (Inr (held i), t)" unfolding wf(2) by blast
  let ?d = "?c\<lparr>cl_engine := t\<rparr>"
  have "get j t = (Inr (held j), t)" if "j \<in> D" "j \<noteq> i" for j
    using put_other [OF Cons.prems(1) wf(1) t(1), of j] that Cons.prems(2) wf(2) servable_facts(1) by metis
  then have D: "\<forall>j \<in> insert i D. servable j (held j) \<and> get j (cl_engine ?d) = (Inr (held j), cl_engine ?d)"
    using Cons.prems(2) ch t(3) by auto
  have "Download put ma None (i # ids) c = Download put ma None ids ?d" using f t(1) by simp
  with Cons.IH [OF _ D, of "out @ request_and_ack i"] Cons.prems(3) t(2) show ?case by auto
qed

end

section \<open>Properties\<close>

text \<open>C16. A download never stores anything but what was asked for, whatever the peer sends and
  however the disk fails: in a store in which every chunk has the digest of its data as ID, this stays
  so, chunks stored before are kept, and after a successful download every requested chunk is there.\<close>

theorem download_stores_only_verified_chunks:
  assumes "cas_files (cl_engine c)" and "Download PutChunk marshal gen ids c = (r, c')"
  shows "cas_files (cl_engine c')
    \<and> (\<forall>i. holds_chunk (cl_engine c) i \<longrightarrow> holds_chunk (cl_engine c') i)
    \<and> (r = Inr () \<longrightarrow> (\<forall>i \<in> set ids. holds_chunk (cl_engine c') i))"
  using fs_addressed.Download_good [OF assms] Download_holds [OF assms(2)] by simp

theorem download_stores_only_verified_chunks_witness:
  "let s = \<lparr>fs_baseDir = ''b'', fs_pid = 1, fs_files = Map.empty, fs_faults = [FailAt 3]\<rparr>;
       c = \<lparr>cl_engine = s, cl_tickets = (), cl_stream = fresh_stream [1, 2, 3] []\<rparr>;
       c' = snd (Download PutChunk (\<lambda>_ :: nat. Inr []) None [replicate 32 7] c)
   in cas_files (cl_engine c')"
proof -
  let ?s = "\<lparr>fs_baseDir = ''b'', fs_pid = 1, fs_files = Map.empty, fs_faults = [FailAt 3]\<rparr>"
  let ?c = "\<lparr>cl_engine = ?s, cl_tickets = (), cl_stream = fresh_stream [1, 2, 3] []\<rparr>"
  have "cas_files (cl_engine ?c)" by (simp add: cas_files_def)
  from download_stores_only_verified_chunks [OF this surjective_pairing, of "\<lambda>_ :: nat. Inr []" None "[replicate 32 7]"]
  show ?thesis by (simp add: Let_def del: Download.simps)
qed

text \<open>C15. A client and a provider that follow the protocol complete a download: there is a
  transcript in which the provider, reading what the client sends, sends what the client reads; the
  client's download succeeds and leaves exactly the provider's chunks in its store.\<close>

theorem honest_download_completes:
  assumes "fs_usable (cl_engine c)" and "cl_stream c = fresh_stream (served held ids) []"
    and "sh_draws h = []" and "sh_stream h = fresh_stream (requests ids) []"
    and "list_all (\<lambda>i. servable i (held i) \<and> GetChunk i (sh_engine h) = (Inr (held i), sh_engine h)) ids"
  shows "wr_out (sm_out (sh_stream (handleStream GetManifestBytes GetChunk unmarshal ticketHandler h))) = served held ids
    \<and> (\<exists>c'. Download PutChunk marshal None ids c = (Inr (), c') \<and> wr_out (sm_out (cl_stream c')) = requests ids
         \<and> (\<forall>i \<in> set ids. GetChunk i (cl_engine c') = (Inr (held i), cl_engine c')))"
proof -
  have "\<forall>i \<in> set ids. servable i (held i) \<and> GetChunk i (sh_engine h) = (Inr (held i), sh_engine h)"
    using assms(5) by (simp add: list_all_iff)
  from handle_run [where get = GetChunk and held = held and gm = GetManifestBytes and um = unmarshal
      and th = ticketHandler, OF this assms(3,4)] fs_store.Download_served [of c "{}" held ids "[]" marshal] assms(1,2) this
  show ?thesis by auto
qed

lemma example_chunk_servable: "servable (sha256 [1, 2]) example_chunk"
  by (simp add: servable_def example_chunk_def header_wf_def limit_defs)

lemma example_store:
  obtains s where "GetChunk (sha256 [1, 2]) s = (Inr example_chunk, s)"
proof -
  have c: "header_wf (ck_Header example_chunk)" "hd_ID (ck_Header example_chunk) = sha256 [1, 2]"
    by (simp_all add: example_chunk_def header_wf_def)
  from fs_store.put_ok [OF empty_fs_usable c(1)] that show thesis unfolding c(2) by blast
qed

theorem honest_download_completes_witness:
  "\<exists>s c'. GetChunk (sha256 [1, 2]) s = (Inr example_chunk, s)
     \<and> Download PutChunk (\<lambda>_ :: nat. Inr []) None [sha256 [1, 2]]
         \<lparr>cl_engine = empty_fs, cl_tickets = (), cl_stream = fresh_stream (served (\<lambda>_. example_chunk) [sha256 [1, 2]]) []\<rparr>
       = (Inr (), c') \<and> GetChunk (sha256 [1, 2]) (cl_engine c') = (Inr example_chunk, cl_engine c')"
proof (rule example_store)
  fix s
  assume s: "GetChunk (sha256 [1, 2]) s = (Inr example_chunk, s)"
  let ?c = "\<lparr>cl_engine = empty_fs, cl_tickets = (),
    cl_stream = fresh_stream (served (\<lambda>_. example_chunk) [sha256 [1, 2]]) []\<rparr>"
  let ?h = "\<lparr>sh_engine = s, sh_tickets = (), sh_draws = [], sh_stream = fresh_stream (requests [sha256 [1, 2]]) []\<rparr>"
  from honest_download_completes [of ?c "\<lambda>_. example_chunk" "[sha256 [1, 2]]" ?h "\<lambda>_. Inl []" None "\<lambda>_. Inr []"]
    s example_chunk_servable show ?thesis by auto
qed

text \<open>A rejected ticket is reported in the place of the answer to the next request: the provider
  sends the chunk and then the rejection, the client has already accepted the chunk, and whatever chunk it asks
  for next, it reads the rejection as the answer and fails, with the rest of the stream unread.\<close>

lemma rejected_ticket_answers_next_request:
  assumes "servable i ch" and "get i (sh_engine h) = (Inr ch, sh_engine h)" and "sh_draws h = []"
    and "marshal tk = Inr b" and "unmarshal b = Inr tk" and "0 < length b" and "length b \<le> MaxTicketSize"
    and "accept tk (sh_tickets h) = (Inl err, p)" and "length err \<le> MaxErrorMessageSize"
    and "sh_stream h = fresh_stream (frame (message MsgTicket b)) []"
    and "generate i (cl_tickets c) = (Inr (Some tk), g)"
    and "cl_stream c = fresh_stream (frame (BuildChunk ch)
      @ frame (BuildError ErrPermissionDenied (''invalid ticket: '' @ err)) @ rest) []"
  shows "wr_out (sm_out (sh_stream (handleRequestChunk get unmarshal (Some accept) (BuildRequestChunk i) h)))
      = frame (BuildChunk ch) @ frame (BuildError ErrPermissionDenied (''invalid ticket: '' @ err))
    \<and> (\<exists>c1. FetchChunk marshal (Some generate) i c = (Inr ch :: storage_error client_error + Chunk, c1)
         \<and> (\<exists>c2. FetchChunk marshal (Some generate) j c1 = (Inl (RemoteError ErrPermissionDenied (''invalid ticket: '' @ err))
                 :: storage_error client_error + Chunk, c2)
              \<and> sm_in (cl_stream c2) = bytes_reader rest))"
proof -
  let ?e = "BuildError ErrPermissionDenied (''invalid ticket: '' @ err)"
  note ch = servable_facts [OF assms(1)]
  have fits: "frame_fits (message MsgTicket b)" "frame_fits ?e"
    using assms(7,9) by (simp_all add: frame_fits_def BuildError_def limit_defs)
  have e: "ms_Type ?e = MsgError" "remote_error (ms_Payload ?e) = (ErrPermissionDenied, ''invalid ticket: '' @ err)"
    by (simp_all add: BuildError_def remote_error_def ParseError_def)
  have ticket: "ParseTicket unmarshal b = Inr tk" "BuildTicket marshal (Some tk) = Inr (message MsgTicket b)"
    using assms(4-6) by (auto simp: ParseTicket_def BuildTicket_def)
  have "sh_recv (h\<lparr>sh_stream := fresh_stream (frame (message MsgTicket b)) x\<rparr>)
      = (Inr (message MsgTicket b), h\<lparr>sh_stream := fresh_stream [] x\<rparr>)" for x
    using sh_simps(2) [of "h\<lparr>sh_stream := fresh_stream (frame (message MsgTicket b)) x\<rparr>" "message MsgTicket b" "[]" x]
      fits(1) by simp
  then have "wr_out (sm_out (sh_stream (handleRequestChunk get unmarshal (Some accept) (BuildRequestChunk i) h)))
      = frame (BuildChunk ch) @ frame ?e"
    using assms(2,3,8,10) ch ticket
    by (simp add: handleRequestChunk_def sh_draw_def sh_simps await_ack_def)
  moreover have "FetchChunk marshal (Some generate) i c
      = (Inr ch :: storage_error client_error + Chunk, c\<lparr>cl_stream := fresh_stream (frame ?e @ rest) (frame (BuildRequestChunk i) @ frame (message MsgTicket b)),
           cl_tickets := g\<rparr>)"
    using assms(11,12) ch ticket by (simp add: FetchChunk_def cl_simps send_receipt_def)
  moreover have "FetchChunk marshal (Some generate) j (c\<lparr>cl_stream := fresh_stream (frame ?e @ rest) x, cl_tickets := g\<rparr>)
      = (Inl (RemoteError ErrPermissionDenied (''invalid ticket: '' @ err)) :: storage_error client_error + Chunk,
         c\<lparr>cl_stream := fresh_stream rest (x @ frame (BuildRequestChunk j)), cl_tickets := g\<rparr>)" for x
    using fits(2) e by (simp add: FetchChunk_def cl_simps)
  ultimately show ?thesis by simp
qed

lemma rejected_ticket_answers_next_request_witness:
  "\<exists>s c2. GetChunk (sha256 [1, 2]) s = (Inr example_chunk, s) \<and>
     FetchChunk (\<lambda>_ :: nat. Inr [1]) (Some (\<lambda>_ g. (Inr (Some 0), g))) [9] (snd (FetchChunk (\<lambda>_ :: nat. Inr [1])
         (Some (\<lambda>_ g. (Inr (Some 0), g))) (sha256 [1, 2])
         \<lparr>cl_engine = (), cl_tickets = (), cl_stream = fresh_stream (frame (BuildChunk example_chunk)
            @ frame (BuildError ErrPermissionDenied (''invalid ticket: '' @ ''bad'')) @ []) []\<rparr>
         :: (storage_error client_error + Chunk) \<times> _))
       = (Inl (RemoteError ErrPermissionDenied (''invalid ticket: '' @ ''bad'')) :: storage_error client_error + Chunk, c2)"
proof (rule example_store)
  fix s
  assume s: "GetChunk (sha256 [1, 2]) s = (Inr example_chunk, s)"
  let ?h = "\<lparr>sh_engine = s, sh_tickets = (), sh_draws = [], sh_stream = fresh_stream (frame (message MsgTicket [1])) []\<rparr>"
  let ?c = "\<lparr>cl_engine = (), cl_tickets = (), cl_stream = fresh_stream (frame (BuildChunk example_chunk)
            @ frame (BuildError ErrPermissionDenied (''invalid ticket: '' @ ''bad'')) @ []) []\<rparr>"
  from rejected_ticket_answers_next_request [of "sha256 [1, 2]" example_chunk GetChunk ?h "\<lambda>_ :: nat. Inr [1]" 0 "[1]"
      "\<lambda>_. Inr 0" "\<lambda>_ p. (Inl ''bad'', p)" "''bad''" "()" "\<lambda>_ g. (Inr (Some 0), g)" ?c "()" "[]" "[9]"] s example_chunk_servable
  show ?thesis by (auto simp: limit_defs)
qed

end
