(* ===== verification/PushMessages.thy ===== *)
theory PushMessages
  imports Wire
begin

text \<open>
  The messages of the push protocol, \<open>network/protocol/push/messages.go\<close>: envelope, framing, and the
  builder and parser of every payload.
\<close>

section \<open>Envelopes\<close>

type_synonym PushMessageType = u8

abbreviation (input) CurrentPushVersion :: u16 where "CurrentPushVersion \<equiv> 1"

definition MaxMessageSize :: u32 where "MaxMessageSize = 4 * 1024 * 1024"

abbreviation (input) MsgPushManifest :: PushMessageType where "MsgPushManifest \<equiv> 0x10"
abbreviation (input) MsgPushManifestAck :: PushMessageType where "MsgPushManifestAck \<equiv> 0x11"
abbreviation (input) MsgPushChunk :: PushMessageType where "MsgPushChunk \<equiv> 0x12"
abbreviation (input) MsgPushChunkAck :: PushMessageType where "MsgPushChunkAck \<equiv> 0x13"
abbreviation (input) MsgPushBatchComplete :: PushMessageType where "MsgPushBatchComplete \<equiv> 0x14"
abbreviation (input) MsgPushBatchCompleteAck :: PushMessageType where "MsgPushBatchCompleteAck \<equiv> 0x15"
abbreviation (input) MsgPushError :: PushMessageType where "MsgPushError \<equiv> 0x16"

abbreviation (input) PushStatusOK :: byte where "PushStatusOK \<equiv> 0x00"
abbreviation (input) PushStatusUnauthorized :: byte where "PushStatusUnauthorized \<equiv> 0x01"
abbreviation (input) PushStatusDiskFull :: byte where "PushStatusDiskFull \<equiv> 0x02"
abbreviation (input) PushStatusMalformed :: byte where "PushStatusMalformed \<equiv> 0x03"
abbreviation (input) PushStatusIncomplete :: byte where "PushStatusIncomplete \<equiv> 0x04"
abbreviation (input) PushStatusHashMismatch :: byte where "PushStatusHashMismatch \<equiv> 0x05"
abbreviation (input) PushStatusNotInAssignedSet :: byte where "PushStatusNotInAssignedSet \<equiv> 0x06"
abbreviation (input) PushStatusIOError :: byte where "PushStatusIOError \<equiv> 0x07"

record PushMessage =
  pm_Version :: u16
  pm_Type :: PushMessageType
  pm_Payload :: bytes

datatype push_message_error =
    PushReadFailed io_error
  | PushWriteFailed io_error
  | PushTooLarge u32
  | PushTooShort
  | PushPayloadLength PushMessageType nat
  | PushTooFewChunkIDs nat u32
  | PushBadHeader io_error

definition push_envelope :: "PushMessage \<Rightarrow> bytes" where
  "push_envelope msg = put_u16_le (pm_Version msg) @ [pm_Type msg] @ pm_Payload msg"

definition WritePushMessage :: "PushMessage \<Rightarrow> (writer, push_message_error, unit) stateful" where
  "WritePushMessage msg w =
     (let buf = push_envelope msg;
          sz = of_nat (length buf) :: u32
      in if MaxMessageSize < sz then (Inl (PushTooLarge sz), w)
         else (case Write (put_u32_le sz) w of
                 (Inl e, w') \<Rightarrow> (Inl (PushWriteFailed e), w')
               | (Inr _, w') \<Rightarrow>
                   (case Write buf w' of
                      (Inl e, w'') \<Rightarrow> (Inl (PushWriteFailed e), w'')
                    | (Inr _, w'') \<Rightarrow> (Inr (), w''))))"

definition ReadPushMessage :: "reader \<Rightarrow> (push_message_error + PushMessage) \<times> reader" where
  "ReadPushMessage r =
     (case ReadFull 4 r of
        (Inl e, r') \<Rightarrow> (Inl (PushReadFailed e), r')
      | (Inr szb, r') \<Rightarrow>
          let sz = get_u32_le szb in
          if MaxMessageSize < sz then (Inl (PushTooLarge sz), r')
          else if sz < 3 then (Inl PushTooShort, r')
          else (case ReadFull (unat sz) r' of
                  (Inl e, r'') \<Rightarrow> (Inl (PushReadFailed e), r'')
                | (Inr data, r'') \<Rightarrow>
                    (case ReadFull 2 (bytes_reader data) of
                       (Inl e, _) \<Rightarrow> (Inl (PushReadFailed e), r'')
                     | (Inr vb, buf) \<Rightarrow>
                         (case ReadFull 1 buf of
                            (Inl e, _) \<Rightarrow> (Inl (PushReadFailed e), r'')
                          | (Inr tb, buf') \<Rightarrow>
                              (Inr \<lparr>pm_Version = get_u16_le vb, pm_Type = hd tb,
                                    pm_Payload = rd_data buf'\<rparr>, r'')))))"

section \<open>Payloads\<close>

definition push_message :: "PushMessageType \<Rightarrow> bytes \<Rightarrow> PushMessage" where
  "push_message t p = \<lparr>pm_Version = CurrentPushVersion, pm_Type = t, pm_Payload = p\<rparr>"

definition BuildPushManifest :: "ContentID \<Rightarrow> ChunkID list \<Rightarrow> bytes \<Rightarrow> PushMessage" where
  "BuildPushManifest contentID assignedChunkIDs manifestData =
     push_message MsgPushManifest (contentID @ put_u32_le (of_nat (length assignedChunkIDs))
       @ concat assignedChunkIDs @ manifestData)"

text \<open>The identifiers that follow the count, 32 bytes each.\<close>

definition read_ids :: "nat \<Rightarrow> bytes \<Rightarrow> ChunkID list" where
  "read_ids n payload = map (\<lambda>i. copy_into 32 (take 32 (drop (36 + i * 32) payload))) [0..<n]"

definition ParsePushManifest :: "bytes \<Rightarrow> push_message_error + ContentID \<times> ChunkID list \<times> bytes" where
  "ParsePushManifest payload =
     (if length payload < 36 then Inl (PushPayloadLength MsgPushManifest (length payload))
      else
        let contentID = copy_into 32 (take 32 payload);
            count = get_u32_le (take 4 (drop 32 payload));
            expectedOffset = 36 + unat count * 32
        in if length payload < expectedOffset then Inl (PushTooFewChunkIDs (length payload) count)
           else Inr (contentID, read_ids (unat count) payload, drop expectedOffset payload))"

definition BuildPushManifestAck :: "ContentID \<Rightarrow> byte \<Rightarrow> PushMessage" where
  "BuildPushManifestAck contentID status = push_message MsgPushManifestAck (contentID @ [status])"

text \<open>The parsers of the three acknowledgements do the same with another name in their error.\<close>

definition parse_ack :: "PushMessageType \<Rightarrow> bytes \<Rightarrow> push_message_error + bytes \<times> byte" where
  "parse_ack t payload =
     (if length payload \<noteq> 33 then Inl (PushPayloadLength t (length payload))
      else Inr (copy_into 32 (take 32 payload), payload ! 32))"

definition ParsePushManifestAck :: "bytes \<Rightarrow> push_message_error + ContentID \<times> byte" where
  "ParsePushManifestAck payload = parse_ack MsgPushManifestAck payload"

definition BuildPushChunk :: "ContentID \<Rightarrow> Chunk \<Rightarrow> PushMessage" where
  "BuildPushChunk contentID chunk =
     push_message MsgPushChunk (contentID @ put_header (ck_Header chunk) @ ck_Data chunk)"

definition ParsePushChunk :: "bytes \<Rightarrow> push_message_error + ContentID \<times> Chunk" where
  "ParsePushChunk payload =
     (if length payload < 32 + 66 then Inl (PushPayloadLength MsgPushChunk (length payload))
      else case get_header (bytes_reader (drop 32 payload)) of
        (Inl e, _) \<Rightarrow> Inl (PushBadHeader e)
      | (Inr h, buf) \<Rightarrow> Inr (copy_into 32 (take 32 payload), \<lparr>ck_Header = h, ck_Data = rd_data buf\<rparr>))"

definition BuildPushChunkAck :: "ChunkID \<Rightarrow> byte \<Rightarrow> PushMessage" where
  "BuildPushChunkAck chunkID status = push_message MsgPushChunkAck (chunkID @ [status])"

definition ParsePushChunkAck :: "bytes \<Rightarrow> push_message_error + ChunkID \<times> byte" where
  "ParsePushChunkAck payload = parse_ack MsgPushChunkAck payload"

definition BuildPushBatchComplete :: "ContentID \<Rightarrow> PushMessage" where
  "BuildPushBatchComplete contentID = push_message MsgPushBatchComplete contentID"

definition ParsePushBatchComplete :: "bytes \<Rightarrow> push_message_error + ContentID" where
  "ParsePushBatchComplete payload =
     (if length payload \<noteq> 32 then Inl (PushPayloadLength MsgPushBatchComplete (length payload))
      else Inr (copy_into 32 payload))"

definition BuildPushBatchCompleteAck :: "ContentID \<Rightarrow> byte \<Rightarrow> PushMessage" where
  "BuildPushBatchCompleteAck contentID status =
     push_message MsgPushBatchCompleteAck (contentID @ [status])"

definition ParsePushBatchCompleteAck :: "bytes \<Rightarrow> push_message_error + ContentID \<times> byte" where
  "ParsePushBatchCompleteAck payload = parse_ack MsgPushBatchCompleteAck payload"

definition BuildPushError :: "byte \<Rightarrow> string \<Rightarrow> PushMessage" where
  "BuildPushError code msg = push_message MsgPushError (code # str_bytes msg)"

definition ParsePushError :: "bytes \<Rightarrow> push_message_error + byte \<times> string" where
  "ParsePushError payload = (case payload of
     [] \<Rightarrow> Inl (PushPayloadLength MsgPushError 0)
   | code # msg \<Rightarrow> Inr (code, bytes_str msg))"

section \<open>The framing\<close>

definition push_frame :: "PushMessage \<Rightarrow> bytes" where
  "push_frame m = put_u32_le (of_nat (length (push_envelope m))) @ push_envelope m"

definition push_fits :: "PushMessage \<Rightarrow> bool" where
  "push_fits m \<longleftrightarrow> length (pm_Payload m) + 3 \<le> 4 * 1024 * 1024"

lemma length_push_envelope [simp]: "length (push_envelope m) = length (pm_Payload m) + 3"
  by (simp add: push_envelope_def)

lemma push_fits_word:
  assumes "push_fits m"
  shows "unat (of_nat (length (push_envelope m)) :: u32) = length (push_envelope m)"
    and "\<not> MaxMessageSize < of_nat (length (push_envelope m))"
    and "\<not> (of_nat (length (push_envelope m)) :: u32) < 3"
proof -
  show u: "unat (of_nat (length (push_envelope m)) :: u32) = length (push_envelope m)"
    by (rule unat_u32_of_nat) (use assms in \<open>simp add: push_fits_def\<close>)
  show "\<not> MaxMessageSize < of_nat (length (push_envelope m))"
    "\<not> (of_nat (length (push_envelope m)) :: u32) < 3"
    unfolding word_less_nat_alt u using assms by (simp_all add: push_fits_def MaxMessageSize_def)
qed

lemma WritePushMessage_good [simp]:
  "push_fits m \<Longrightarrow> WritePushMessage m (good_writer out) = (Inr (), good_writer (out @ push_frame m))"
  using push_fits_word [of m]
  by (simp add: WritePushMessage_def push_frame_def Let_def del: length_push_envelope)

lemma ReadPushMessage_frame:
  assumes "push_fits m"
  shows "ReadPushMessage \<lparr>rd_data = push_frame m @ rest, rd_end = e\<rparr> = (Inr m, \<lparr>rd_data = rest, rd_end = e\<rparr>)"
proof -
  have "ReadFull 2 (bytes_reader (push_envelope m)) = (Inr (put_u16_le (pm_Version m)), bytes_reader (pm_Type m # pm_Payload m))"
    "ReadFull 1 (bytes_reader (pm_Type m # pm_Payload m)) = (Inr [pm_Type m], bytes_reader (pm_Payload m))"
    by (simp_all add: ReadFull_def bytes_reader_def push_envelope_def)
  then show ?thesis
    using push_fits_word [OF assms] unfolding ReadPushMessage_def push_frame_def append_assoc
    by (simp add: Let_def del: length_push_envelope)
qed

interpretation push_framing: message_framing push_frame ReadPushMessage push_fits
  by unfold_locales (rule ReadPushMessage_frame)

lemma ReadPushMessage_less:
  "ReadPushMessage r = (x, r') \<Longrightarrow> length (rd_data r') \<le> length (rd_data r)"
  by (auto simp: ReadPushMessage_def Let_def dest!: ReadFull_less split: prod.splits sum.splits if_splits)

lemma ReadPushMessage_ok_less:
  "ReadPushMessage r = (Inr m, r') \<Longrightarrow> length (rd_data r') < length (rd_data r)"
  by (auto simp: ReadPushMessage_def Let_def dest!: ReadFull_ok split: prod.splits sum.splits if_splits)

lemma ReadPushMessage_ok:
  assumes "ReadPushMessage r = (Inr m, r')"
  shows "push_fits m \<and> rd_data r = push_frame m @ rd_data r' \<and> rd_end r' = rd_end r"
proof -
  from assms obtain szb r1 b where 1: "ReadFull 4 r = (Inr szb, r1)"
      "\<not> MaxMessageSize < get_u32_le szb" "ReadFull (unat (get_u32_le szb)) r1 = (Inr b, r')"
      and 2: "3 \<le> length b" "m = \<lparr>pm_Version = get_u16_le (take 2 b), pm_Type = hd (take 1 (drop 2 b)),
        pm_Payload = drop 3 b\<rparr>"
    by (auto simp: ReadPushMessage_def Let_def ReadFull_bytes numeral_3_eq_3
        split: prod.splits sum.splits if_splits)
  note f1 = ReadFull_ok [OF 1(1)] and f2 = ReadFull_ok [OF 1(3)]
  have env: "push_envelope m = b"
    using 2 put_get_u16_le [of "take 2 b"] split_at_3 [OF 2(1)] by (simp add: push_envelope_def del: One_nat_def take_Suc)
  have le: "unat (get_u32_le szb) \<le> 4 * 1024 * 1024"
    using 1(2) by (simp add: word_less_nat_alt MaxMessageSize_def)
  have "of_nat (length b) = get_u32_le szb" using f2 by simp
  then have "push_frame m = szb @ b" using env f1 put_get_u32_le [of szb] by (simp add: push_frame_def del: length_push_envelope)
  then show ?thesis using f1 f2 le env by (simp add: push_fits_def flip: length_push_envelope)
qed

section \<open>Parsing what was built\<close>

lemma concat_ids: "list_all (\<lambda>i. length i = 32) ids \<Longrightarrow> length (concat ids) = 32 * length ids"
  by (induction ids) simp_all

lemma nth_ids:
  "list_all (\<lambda>i. length i = 32) ids \<Longrightarrow> n < length ids \<Longrightarrow> take 32 (drop (n * 32) (concat ids @ rest)) = ids ! n"
proof (induction ids arbitrary: n)
  case (Cons i ids)
  then show ?case by (cases n) (simp_all add: add.commute)
qed simp

lemma read_ids_concat:
  assumes "length pre = 36" and "list_all (\<lambda>i. length i = 32) ids"
  shows "read_ids (length ids) (pre @ concat ids @ rest) = ids"
proof (rule nth_equalityI)
  fix n
  assume "n < length (read_ids (length ids) (pre @ concat ids @ rest))"
  then have n: "n < length ids" by (simp add: read_ids_def)
  have d: "drop (36 + n * 32) (pre @ concat ids @ rest) = drop (n * 32) (concat ids @ rest)"
    using assms(1) by simp
  have "read_ids (length ids) (pre @ concat ids @ rest) ! n = copy_into 32 (take 32 (drop (36 + n * 32) (pre @ concat ids @ rest)))"
    using n by (simp add: read_ids_def)
  also have "\<dots> = copy_into 32 (ids ! n)" unfolding d nth_ids [OF assms(2) n] ..
  also have "\<dots> = ids ! n" using assms(2) n by (simp add: list_all_length)
  finally show "read_ids (length ids) (pre @ concat ids @ rest) ! n = ids ! n" .
qed (simp add: read_ids_def)

lemma ParsePushManifest_built:
  assumes "length cid = 32" and "list_all (\<lambda>i. length i = 32) ids" and "length ids < 2 ^ 32"
  shows "ParsePushManifest (pm_Payload (BuildPushManifest cid ids d)) = Inr (cid, ids, d)"
proof -
  let ?pre = "cid @ put_u32_le (of_nat (length ids))"
  have "pm_Payload (BuildPushManifest cid ids d) = ?pre @ concat ids @ d"
    by (simp add: BuildPushManifest_def push_message_def)
  moreover have "length ?pre = 36" using assms(1) by simp
  moreover note read_ids_concat [OF this assms(2), of d] concat_ids [OF assms(2)]
  ultimately show ?thesis
    using assms(1,3) by (simp add: ParsePushManifest_def Let_def)
qed

lemma push_header_of_append: "header_wf h \<Longrightarrow> get_header (bytes_reader (put_header h @ d)) = (Inr h, bytes_reader d)"
  using get_header_put_header [of h d EOF] by (simp add: bytes_reader_def)

lemma ParsePushChunk_built:
  assumes "length cid = 32" and "header_wf (ck_Header c)"
  shows "ParsePushChunk (pm_Payload (BuildPushChunk cid c)) = Inr (cid, c)"
  using assms push_header_of_append [OF assms(2), of "ck_Data c"]
  by (simp add: ParsePushChunk_def BuildPushChunk_def push_message_def bytes_reader_def)

lemma parse_ack_built: "length i = 32 \<Longrightarrow> parse_ack t (i @ [s]) = Inr (i, s)"
  by (simp add: parse_ack_def nth_append)

lemma ParsePushBatchComplete_built: "length cid = 32 \<Longrightarrow> ParsePushBatchComplete cid = Inr cid"
  by (simp add: ParsePushBatchComplete_def)

end
