(* ===== verification/PushHandler.thy ===== *)
theory PushHandler
  imports PushMessages ContentAddressed
begin

text \<open>
  The provider's end of the push protocol, \<open>network/protocol/push/handler.go\<close>: authorisation, the pending
  sessions, and the handlers of the three messages that change them. The JSON decoder of manifests is an
  argument.
\<close>

section \<open>State\<close>

type_synonym peerID = string

datatype AuthPolicy = AuthPolicyOpen | AuthPolicyAllowlist | OtherPolicy string

text \<open>\<open>CommittedChunks\<close> only ever maps to true, so it is a set.\<close>

record PendingSession =
  pn_ContentID :: ContentID
  pn_Manifest :: Manifest
  pn_ManifestBytes :: bytes
  pn_ExpectedChunks :: "ChunkID set"
  pn_CommittedChunks :: "ChunkID set"
  pn_StartedAt :: gotime
  pn_UpdatedAt :: gotime

text \<open>\<open>ph_clock\<close> are the next readings of the clock; \<open>ph_dht\<close> says whether a DHT is configured and
  \<open>ph_announced\<close> lists the content handed to it.\<close>

record PushHandler =
  ph_engine :: FSStorage
  ph_dht :: bool
  ph_allowPush :: bool
  ph_authPolicy :: AuthPolicy
  ph_allowedPublishers :: "peerID set"
  ph_sessions :: "ContentID \<rightharpoonup> PendingSession"
  ph_announced :: "ContentID list"
  ph_clock :: "gotime list"
  ph_stream :: stream

definition NewStreamHandler ::
    "FSStorage \<Rightarrow> bool \<Rightarrow> bool \<Rightarrow> AuthPolicy \<Rightarrow> peerID list \<Rightarrow> gotime list \<Rightarrow> stream \<Rightarrow> PushHandler" where
  "NewStreamHandler eng kdht allowPush authPolicy allowedPublishers clock st =
     \<lparr>ph_engine = eng, ph_dht = kdht, ph_allowPush = allowPush, ph_authPolicy = authPolicy,
      ph_allowedPublishers = set allowedPublishers, ph_sessions = Map.empty, ph_announced = [],
      ph_clock = clock, ph_stream = st\<rparr>"

definition ph_now :: "PushHandler \<Rightarrow> gotime \<times> PushHandler" where
  "ph_now h = (case ph_clock h of [] \<Rightarrow> (0, h) | t # ts \<Rightarrow> (t, h\<lparr>ph_clock := ts\<rparr>))"

text \<open>A reply; errors of writing are ignored or only logged by every caller.\<close>

definition reply :: "PushMessage \<Rightarrow> PushHandler \<Rightarrow> PushHandler" where
  "reply msg h = h\<lparr>ph_stream := (ph_stream h)\<lparr>sm_out := snd (WritePushMessage msg (sm_out (ph_stream h)))\<rparr>\<rparr>"

section \<open>Messages\<close>

definition handlePushManifest :: "(bytes \<Rightarrow> Manifest option) \<Rightarrow> PushMessage \<Rightarrow> PushHandler \<Rightarrow> PushHandler" where
  "handlePushManifest deserialize msg h =
     (case ParsePushManifest (pm_Payload msg) of
        Inl _ \<Rightarrow> reply (BuildPushError PushStatusMalformed ''malformed manifest payload'') h
      | Inr (contentID, assignedChunkIDs, manifestData) \<Rightarrow>
          (case deserialize manifestData of
             None \<Rightarrow> reply (BuildPushError PushStatusMalformed ''invalid manifest JSON'') h
           | Some m \<Rightarrow>
               if cd_ID (mf_Descriptor m) \<noteq> contentID
               then reply (BuildPushError PushStatusMalformed ''contentID mismatch'') h
               else
                 let (t1, h1) = ph_now h;
                     (t2, h2) = ph_now h1
                 in reply (BuildPushManifestAck contentID PushStatusOK)
                      (h2\<lparr>ph_sessions := (ph_sessions h2)(contentID \<mapsto>
                         \<lparr>pn_ContentID = contentID, pn_Manifest = m, pn_ManifestBytes = manifestData,
                          pn_ExpectedChunks = set assignedChunkIDs, pn_CommittedChunks = {},
                          pn_StartedAt = t1, pn_UpdatedAt = t2\<rparr>)\<rparr>)))"

text \<open>The store step: a chunk that is already there is not written again. An error of \<open>HasChunk\<close>
  counts as absent.\<close>

definition commit_chunk :: "Chunk \<Rightarrow> FSStorage \<Rightarrow> (storage_error + unit) \<times> FSStorage" where
  "commit_chunk chunk s =
     (case HasChunk (hd_ID (ck_Header chunk)) s of
        (Inr True, s') \<Rightarrow> (Inr (), s')
      | (_, s') \<Rightarrow> PutChunk chunk s')"

definition handlePushChunk :: "PushMessage \<Rightarrow> PushHandler \<Rightarrow> PushHandler" where
  "handlePushChunk msg h =
     (case ParsePushChunk (pm_Payload msg) of
        Inl _ \<Rightarrow> reply (BuildPushError PushStatusMalformed ''malformed chunk payload'') h
      | Inr (contentID, chunk) \<Rightarrow>
          let chunkID = hd_ID (ck_Header chunk) in
          (case ph_sessions h contentID of
             None \<Rightarrow> reply (BuildPushChunkAck chunkID PushStatusNotInAssignedSet) h
           | Some session \<Rightarrow>
               if chunkID \<notin> pn_ExpectedChunks session
               then reply (BuildPushChunkAck chunkID PushStatusNotInAssignedSet) h
               else if chunkID \<notin> set (mf_ChunkIDs (pn_Manifest session))
               then reply (BuildPushChunkAck chunkID PushStatusMalformed) h
               else if Sum (ck_Data chunk) \<noteq> chunkID
               then reply (BuildPushChunkAck chunkID PushStatusHashMismatch) h
               else (case commit_chunk chunk (ph_engine h) of
                       (Inl _, s) \<Rightarrow> reply (BuildPushChunkAck chunkID PushStatusIOError) (h\<lparr>ph_engine := s\<rparr>)
                     | (Inr _, s) \<Rightarrow>
                         let (t, h1) = ph_now (h\<lparr>ph_engine := s\<rparr>)
                         in reply (BuildPushChunkAck chunkID PushStatusOK)
                              (h1\<lparr>ph_sessions := (ph_sessions h1)(contentID \<mapsto>
                                 session\<lparr>pn_CommittedChunks := insert chunkID (pn_CommittedChunks session),
                                   pn_UpdatedAt := t\<rparr>)\<rparr>))))"

definition all_committed :: "PendingSession \<Rightarrow> bool" where
  "all_committed session \<longleftrightarrow> pn_ExpectedChunks session \<subseteq> pn_CommittedChunks session
     \<and> card (pn_ExpectedChunks session) \<le> card (pn_CommittedChunks session)"

definition handlePushBatchComplete :: "PushMessage \<Rightarrow> PushHandler \<Rightarrow> PushHandler" where
  "handlePushBatchComplete msg h =
     (case ParsePushBatchComplete (pm_Payload msg) of
        Inl _ \<Rightarrow> reply (BuildPushError PushStatusMalformed ''malformed batch complete payload'') h
      | Inr contentID \<Rightarrow>
          (case ph_sessions h contentID of
             None \<Rightarrow> reply (BuildPushBatchCompleteAck contentID PushStatusIncomplete) h
           | Some session \<Rightarrow>
               if \<not> all_committed session
               then reply (BuildPushBatchCompleteAck contentID PushStatusIncomplete) h
               else (case PutManifestBytes contentID (pn_ManifestBytes session) (ph_engine h) of
                       (Inl _, s) \<Rightarrow>
                         reply (BuildPushBatchCompleteAck contentID PushStatusIOError) (h\<lparr>ph_engine := s\<rparr>)
                     | (Inr _, s) \<Rightarrow>
                         reply (BuildPushBatchCompleteAck contentID PushStatusOK)
                           (h\<lparr>ph_engine := s, ph_sessions := (ph_sessions h)(contentID := None),
                              ph_announced := ph_announced h @ (if ph_dht h then [contentID] else [])\<rparr>))))"

section \<open>Streams\<close>

definition ph_recv :: "(PushHandler, push_message_error, PushMessage) stateful" where
  "ph_recv h = (case ReadPushMessage (sm_in (ph_stream h)) of
     (r, rd) \<Rightarrow> (r, h\<lparr>ph_stream := (ph_stream h)\<lparr>sm_in := rd\<rparr>\<rparr>))"

definition ph_pending :: "PushHandler \<Rightarrow> nat" where
  "ph_pending h = length (rd_data (sm_in (ph_stream h)))"

lemma ph_recv_less: "ph_recv h = (Inr m, h') \<Longrightarrow> ph_pending h' < ph_pending h"
  by (auto simp: ph_recv_def ph_pending_def dest: ReadPushMessage_ok_less split: prod.splits)

lemma ph_pending_simps [simp]:
  "ph_pending (reply m h) = ph_pending h" "ph_pending (h\<lparr>ph_engine := s\<rparr>) = ph_pending h"
  "ph_pending (h\<lparr>ph_sessions := ss\<rparr>) = ph_pending h" "ph_pending (h\<lparr>ph_announced := a\<rparr>) = ph_pending h"
  "ph_pending (h\<lparr>ph_clock := c\<rparr>) = ph_pending h"
  by (simp_all add: ph_pending_def reply_def)

lemma ph_now_pending: "ph_now h = (t, h') \<Longrightarrow> ph_pending h' = ph_pending h"
  by (auto simp: ph_now_def split: list.splits)

lemma handlers_pending [simp]:
  "ph_pending (handlePushManifest d m h) = ph_pending h" "ph_pending (handlePushChunk m h) = ph_pending h"
  "ph_pending (handlePushBatchComplete m h) = ph_pending h"
  by (auto simp: handlePushManifest_def handlePushChunk_def handlePushBatchComplete_def Let_def
      dest!: ph_now_pending split: sum.splits option.splits prod.splits)

function push_loop :: "(bytes \<Rightarrow> Manifest option) \<Rightarrow> PushHandler \<Rightarrow> PushHandler" where
  "push_loop deserialize h =
     (case ph_recv h of
        (Inl _, h') \<Rightarrow> h'
      | (Inr msg, h') \<Rightarrow>
          if pm_Version msg \<noteq> CurrentPushVersion
          then reply (BuildPushError PushStatusMalformed ''unsupported version'') h'
          else if pm_Type msg = MsgPushManifest then push_loop deserialize (handlePushManifest deserialize msg h')
          else if pm_Type msg = MsgPushChunk then push_loop deserialize (handlePushChunk msg h')
          else if pm_Type msg = MsgPushBatchComplete
          then push_loop deserialize (handlePushBatchComplete msg h')
          else reply (BuildPushError PushStatusMalformed ''unknown message type'') h')"
  by pat_completeness auto
termination
  by (relation "measure (\<lambda>(_, h). ph_pending h)") (auto dest!: ph_recv_less [OF sym])

declare push_loop.simps [simp del]

definition push_handleStream :: "(bytes \<Rightarrow> Manifest option) \<Rightarrow> peerID \<Rightarrow> PushHandler \<Rightarrow> PushHandler" where
  "push_handleStream deserialize remotePeer h =
     (if \<not> ph_allowPush h then reply (BuildPushError PushStatusUnauthorized ''provider push disabled'') h
      else if ph_authPolicy h = AuthPolicyAllowlist \<and> remotePeer \<notin> ph_allowedPublishers h
      then reply (BuildPushError PushStatusUnauthorized ''publisher not in allowlist'') h
      else push_loop deserialize h)"

section \<open>What one message does\<close>

lemma reply_simps [simp]:
  "ph_engine (reply m h) = ph_engine h" "ph_sessions (reply m h) = ph_sessions h"
  "ph_announced (reply m h) = ph_announced h" "ph_dht (reply m h) = ph_dht h"
  "ph_allowPush (reply m h) = ph_allowPush h" "ph_authPolicy (reply m h) = ph_authPolicy h"
  "ph_allowedPublishers (reply m h) = ph_allowedPublishers h"
  by (simp_all add: reply_def)

lemma ph_now_simps:
  assumes "ph_now h = (t, h')"
  shows "ph_engine h' = ph_engine h" and "ph_sessions h' = ph_sessions h" and "ph_stream h' = ph_stream h"
    and "ph_announced h' = ph_announced h" and "ph_dht h' = ph_dht h"
  using assms by (auto simp: ph_now_def split: list.splits)

lemma ph_recv_simps:
  assumes "ph_recv h = (x, h')"
  shows "ph_engine h' = ph_engine h" and "ph_sessions h' = ph_sessions h"
  using assms by (auto simp: ph_recv_def split: prod.splits)

end
