(* ===== verification/PushRuns.thy ===== *)
theory PushRuns
  imports PushHandler
begin

text \<open>
  The push handler over its lifetime: the invariant of its sessions and its store, what an accepted batch
  means, and what a peer can do.
\<close>

section \<open>The invariant\<close>

definition session_ok :: "(bytes \<Rightarrow> Manifest option) \<Rightarrow> FSStorage \<Rightarrow> ContentID \<Rightarrow> PendingSession \<Rightarrow> bool" where
  "session_ok d s cid p \<longleftrightarrow> length cid = 32 \<and> pn_ContentID p = cid \<and> d (pn_ManifestBytes p) = Some (pn_Manifest p)
     \<and> cd_ID (mf_Descriptor (pn_Manifest p)) = cid
     \<and> pn_CommittedChunks p \<subseteq> pn_ExpectedChunks p \<inter> set (mf_ChunkIDs (pn_Manifest p))
     \<and> (\<forall>i \<in> pn_CommittedChunks p. holds_chunk s i)"

definition push_inv :: "(bytes \<Rightarrow> Manifest option) \<Rightarrow> PushHandler \<Rightarrow> bool" where
  "push_inv d h \<longleftrightarrow> chunk_files (ph_engine h)
     \<and> (\<forall>cid p. ph_sessions h cid = Some p \<longrightarrow> session_ok d (ph_engine h) cid p)"

lemma push_inv_stream [simp]: "push_inv d (h\<lparr>ph_stream := st\<rparr>) = push_inv d h"
  by (simp add: push_inv_def)

lemma push_inv_reply [simp]: "push_inv d (reply m h) = push_inv d h"
  by (simp add: push_inv_def)

lemma session_ok_mono:
  "session_ok d s cid p \<Longrightarrow> (\<And>i. holds_chunk s i \<Longrightarrow> holds_chunk t i) \<Longrightarrow> session_ok d t cid p"
  by (auto simp: session_ok_def)

lemma push_inv_engine:
  assumes "push_inv d h" and "chunk_files s" and "\<And>i. holds_chunk (ph_engine h) i \<Longrightarrow> holds_chunk s i"
  shows "push_inv d (h\<lparr>ph_engine := s\<rparr>)"
  using assms session_ok_mono [of d "ph_engine h" _ _ s] by (auto simp: push_inv_def)

lemma ParsePushManifest_ok:
  "ParsePushManifest b = Inr (cid, ids, d) \<Longrightarrow> length cid = 32"
  by (auto simp: ParsePushManifest_def Let_def split: if_splits)

lemma handlePushManifest_inv:
  assumes "push_inv d h"
  shows "push_inv d (handlePushManifest d m h)"
proof -
  obtain t1 h1 t2 h2 where t: "ph_now h = (t1, h1)" "ph_now h1 = (t2, h2)" by fastforce
  have "ph_engine h2 = ph_engine h" "ph_sessions h2 = ph_sessions h"
    using ph_now_simps [OF t(1)] ph_now_simps [OF t(2)] by simp_all
  with assms t show ?thesis
    by (auto simp: handlePushManifest_def push_inv_def session_ok_def dest: ParsePushManifest_ok
        split: sum.splits option.splits)
qed

lemma ParsePushChunk_ok:
  assumes "ParsePushChunk b = Inr (cid, c)"
  shows "length cid = 32 \<and> header_wf (ck_Header c)"
  using assms
  by (auto simp: ParsePushChunk_def get_header_def ReadFull_def bytes_reader_def header_of_def header_wf_def
      split: if_splits)

lemma commit_chunk_holds:
  assumes "commit_chunk c s = (r, t)" and "chunk_files s" and "header_wf (ck_Header c)"
    and "sha256 (ck_Data c) = hd_ID (ck_Header c)"
  shows "chunk_files t" and "holds_chunk s i \<Longrightarrow> holds_chunk t i" and "r = Inr u \<Longrightarrow> holds_chunk t (hd_ID (ck_Header c))"
proof -
  let ?i = "hd_ID (ck_Header c)"
  have len: "length ?i = 32" using assms(3) by (simp add: header_wf_def)
  obtain x s1 where h: "HasChunk ?i s = (x, s1)" by fastforce
  note hf = HasChunk_files [OF h]
  have same: "fs_files s1 (pathForChunk s1 j) = fs_files s (pathForChunk s j)" for j
    using hf(1,2) path_base [of s1 s j] by simp
  have s1: "chunk_files s1" "holds_chunk s j \<Longrightarrow> holds_chunk s1 j" for j
    using chunk_files_same [of s1 s] same assms(2) by blast+
  have "chunk_files t \<and> (holds_chunk s i \<longrightarrow> holds_chunk t i) \<and> (r = Inr u \<longrightarrow> holds_chunk t ?i)"
  proof (cases "x = Inr True")
    case True
    with assms(1) h have t: "t = s1" by (simp add: commit_chunk_def)
    have "fs_files s (pathForChunk s ?i) \<noteq> None" using hf(3) [OF True] by simp
    then have "holds_chunk s ?i" using assms(2) len by (auto simp: chunk_files_def)
    with s1 t show ?thesis by blast
  next
    case False
    then have "commit_chunk c s = PutChunk c s1" using h by (auto simp: commit_chunk_def split: sum.splits bool.splits)
    then have p: "PutChunk c s1 = (r, t)" using assms(1) by simp
    show ?thesis
      using chunk_files_put [OF s1(1) p assms(3,4)] holds_chunk_put [OF p assms(3,4)] s1(2) by blast
  qed
  then show "chunk_files t" "holds_chunk s i \<Longrightarrow> holds_chunk t i" "r = Inr u \<Longrightarrow> holds_chunk t ?i" by blast+
qed

lemma handlePushChunk_inv:
  assumes "push_inv d h"
  shows "push_inv d (handlePushChunk m h)"
proof (cases "ParsePushChunk (pm_Payload m)")
  case (Inl err)
  with assms show ?thesis by (simp add: handlePushChunk_def)
next
  case (Inr x)
  obtain cid c where x: "x = (cid, c)" by fastforce
  let ?i = "hd_ID (ck_Header c)"
  show ?thesis
  proof (cases "\<exists>p. ph_sessions h cid = Some p \<and> ?i \<in> pn_ExpectedChunks p
      \<and> ?i \<in> set (mf_ChunkIDs (pn_Manifest p)) \<and> Sum (ck_Data c) = ?i")
    case False
    with assms Inr x show ?thesis
      by (auto simp: handlePushChunk_def Let_def split: option.splits)
  next
    case True
    then obtain p where p: "ph_sessions h cid = Some p" "?i \<in> pn_ExpectedChunks p"
        "?i \<in> set (mf_ChunkIDs (pn_Manifest p))" "sha256 (ck_Data c) = ?i" by (auto simp: Sum_def)
    obtain r t where ct: "commit_chunk c (ph_engine h) = (r, t)" by fastforce
    have wf: "header_wf (ck_Header c)" using ParsePushChunk_ok Inr x by blast
    have files: "chunk_files (ph_engine h)" using assms by (simp add: push_inv_def)
    note cc = commit_chunk_holds [OF ct files wf p(4)]
    have inv1: "push_inv d (h\<lparr>ph_engine := t\<rparr>)" using push_inv_engine [OF assms cc(1) cc(2)] by blast
    obtain now h1 where n: "ph_now (h\<lparr>ph_engine := t\<rparr>) = (now, h1)" by fastforce
    have h1: "ph_engine h1 = t" "ph_sessions h1 = ph_sessions h" using ph_now_simps [OF n] by simp_all
    let ?q = "p\<lparr>pn_CommittedChunks := insert ?i (pn_CommittedChunks p), pn_UpdatedAt := now\<rparr>"
    have "session_ok d t cid p" using inv1 p(1) by (simp add: push_inv_def)
    then have q: "r = Inr u \<Longrightarrow> session_ok d t cid ?q" for u using cc(3) p(2,3) by (auto simp: session_ok_def)
    show ?thesis
    proof (cases r)
      case (Inl err)
      with Inr x p ct inv1 show ?thesis by (simp add: handlePushChunk_def Sum_def)
    next
      case (Inr u)
      have "push_inv d (h1\<lparr>ph_sessions := (ph_sessions h1)(cid \<mapsto> ?q)\<rparr>)"
        using inv1 q [OF Inr] h1 by (auto simp: push_inv_def)
      with \<open>ParsePushChunk (pm_Payload m) = Inr x\<close> x p ct n Inr show ?thesis
        by (simp add: handlePushChunk_def Sum_def Let_def)
    qed
  qed
qed

lemma handlePushBatchComplete_inv:
  assumes "push_inv d h"
  shows "push_inv d (handlePushBatchComplete m h)"
proof (cases "\<exists>cid p. ParsePushBatchComplete (pm_Payload m) = Inr cid \<and> ph_sessions h cid = Some p \<and> all_committed p")
  case False
  with assms show ?thesis
    by (auto simp: handlePushBatchComplete_def split: sum.splits option.splits)
next
  case True
  then obtain cid p where p: "ParsePushBatchComplete (pm_Payload m) = Inr cid" "ph_sessions h cid = Some p" "all_committed p"
    by blast
  obtain r t where t: "PutManifestBytes cid (pn_ManifestBytes p) (ph_engine h) = (r, t)" by fastforce
  have len: "length cid = 32" using assms p(2) by (auto simp: push_inv_def session_ok_def)
  note same = chunk_files_same [OF PutManifestBytes_chunks [OF t len]]
  have "push_inv d (h\<lparr>ph_engine := t\<rparr>)"
    using assms same by (intro push_inv_engine) (auto simp: push_inv_def)
  with p t show ?thesis
    by (auto simp: handlePushBatchComplete_def push_inv_def split: sum.splits if_splits)
qed

lemma ph_recv_inv: "ph_recv h = (x, h') \<Longrightarrow> push_inv d h' = push_inv d h"
  using ph_recv_simps [of h x h'] by (simp add: push_inv_def)

lemma push_loop_inv: "push_inv d h \<Longrightarrow> push_inv d (push_loop d h)"
proof (induction d h rule: push_loop.induct)
  case (1 d h)
  obtain x h' where x: "ph_recv h = (x, h')" by fastforce
  have inv: "push_inv d h'" using ph_recv_inv [OF x] "1.prems" by simp
  show ?case
  proof (cases x)
    case (Inl err)
    with x inv show ?thesis by (subst push_loop.simps) simp
  next
    case (Inr m)
    note IH = "1.IH" [OF x [symmetric, unfolded Inr]]
    show ?thesis
      using IH inv handlePushManifest_inv [OF inv] handlePushChunk_inv [OF inv] handlePushBatchComplete_inv [OF inv] x Inr
      by (subst push_loop.simps) simp
  qed
qed

lemma push_handleStream_inv: "push_inv d h \<Longrightarrow> push_inv d (push_handleStream d peer h)"
  by (simp add: push_handleStream_def push_loop_inv)

text \<open>One step of the provider: a peer opens a stream, which is handled to its end.\<close>

inductive push_step :: "(bytes \<Rightarrow> Manifest option) \<Rightarrow> PushHandler \<Rightarrow> PushHandler \<Rightarrow> bool"
  for d :: "bytes \<Rightarrow> Manifest option" where
  push_stream: "push_step d h (push_handleStream d peer (h\<lparr>ph_stream := st\<rparr>))"

definition push_init :: "PushHandler \<Rightarrow> bool" where
  "push_init h \<longleftrightarrow> (\<exists>s kdht allow pol pubs clock st. chunk_files s \<and> h = NewStreamHandler s kdht allow pol pubs clock st)"

interpretation push_sys: invariant_system push_init "push_step d" "push_inv d"
proof unfold_locales
  fix h
  assume "push_init h"
  then show "push_inv d h" by (auto simp: push_init_def push_inv_def NewStreamHandler_def)
next
  fix h h'
  assume "push_inv d h" "push_step d h h'"
  then show "push_inv d h'" by (auto elim!: push_step.cases intro: push_handleStream_inv)
qed

section \<open>Properties\<close>


end
