(* ===== verification/PushClient.thy ===== *)
theory PushClient
  imports PushRuns
begin

text \<open>
  The publisher's end of the push protocol, \<open>network/protocol/push/client.go\<close>, and a push from a client to a
  handler.
\<close>

section \<open>The client\<close>

record PushClient =
  pcl_stream :: stream
  pcl_peerID :: peerID

datatype push_client_error =
    PushSend push_message_error
  | PushReceive push_message_error
  | PushRemoteError byte string
  | PushUnexpected PushMessageType
  | PushBadAck push_message_error
  | PushIDMismatch
  | PushRejected byte

text \<open>The common course of the three calls: send the request, read the answer, report a remote error or an
  answer of another type, and check the ID and the status of the acknowledgement. Deadlines are not
  modelled.\<close>

definition push_call ::
    "PushMessage \<Rightarrow> PushMessageType \<Rightarrow> (bytes \<Rightarrow> push_message_error + bytes \<times> byte) \<Rightarrow> bytes
     \<Rightarrow> (PushClient, push_client_error, unit) stateful" where
  "push_call req ackType parse expectedID c =
     (case WritePushMessage req (sm_out (pcl_stream c)) of
        (Inl e, w) \<Rightarrow> (Inl (PushSend e), c\<lparr>pcl_stream := (pcl_stream c)\<lparr>sm_out := w\<rparr>\<rparr>)
      | (Inr _, w) \<Rightarrow>
          (case ReadPushMessage (sm_in (pcl_stream c)) of
             (r, rd) \<Rightarrow>
               ((case r of
                   Inl e \<Rightarrow> Inl (PushReceive e)
                 | Inr resp \<Rightarrow>
                     if pm_Type resp = MsgPushError
                     then (case ParsePushError (pm_Payload resp) of
                             Inl _ \<Rightarrow> Inl (PushRemoteError 0 [])
                           | Inr (code, msg) \<Rightarrow> Inl (PushRemoteError code msg))
                     else if pm_Type resp \<noteq> ackType then Inl (PushUnexpected (pm_Type resp))
                     else (case parse (pm_Payload resp) of
                             Inl e \<Rightarrow> Inl (PushBadAck e)
                           | Inr (respID, status) \<Rightarrow>
                               if respID \<noteq> expectedID then Inl PushIDMismatch
                               else if status \<noteq> PushStatusOK then Inl (PushRejected status)
                               else Inr ())),
                c\<lparr>pcl_stream := \<lparr>sm_in = rd, sm_out = w\<rparr>\<rparr>)))"

definition SendManifest ::
    "ContentID \<Rightarrow> ChunkID list \<Rightarrow> bytes \<Rightarrow> (PushClient, push_client_error, unit) stateful" where
  "SendManifest contentID assignedChunkIDs manifestData =
     push_call (BuildPushManifest contentID assignedChunkIDs manifestData) MsgPushManifestAck
       ParsePushManifestAck contentID"

definition SendChunk :: "ContentID \<Rightarrow> Chunk \<Rightarrow> (PushClient, push_client_error, unit) stateful" where
  "SendChunk contentID chunk =
     push_call (BuildPushChunk contentID chunk) MsgPushChunkAck ParsePushChunkAck (hd_ID (ck_Header chunk))"

definition SendBatchComplete :: "ContentID \<Rightarrow> (PushClient, push_client_error, unit) stateful" where
  "SendBatchComplete contentID =
     push_call (BuildPushBatchComplete contentID) MsgPushBatchCompleteAck ParsePushBatchCompleteAck contentID"

section \<open>One exchange\<close>

lemma ReadPushMessage_bytes [simp]:
  "push_fits m \<Longrightarrow> ReadPushMessage (bytes_reader (push_frame m @ rest)) = (Inr m, bytes_reader rest)"
  unfolding bytes_reader_def by (rule ReadPushMessage_frame)

lemma ReadPushMessage_end [simp]:
  "ReadPushMessage (bytes_reader []) = (Inl (PushReadFailed EOF), bytes_reader [])"
  by (simp add: ReadPushMessage_def ReadFull_def bytes_reader_def)

lemma ph_fresh:
  "ph_stream h = fresh_stream (push_frame m @ a) b \<Longrightarrow> push_fits m \<Longrightarrow>
     ph_recv h = (Inr m, h\<lparr>ph_stream := fresh_stream a b\<rparr>)"
  "ph_stream h = fresh_stream [] b \<Longrightarrow> ph_recv h = (Inl (PushReadFailed EOF), h)"
  "ph_stream h = fresh_stream a b \<Longrightarrow> push_fits m \<Longrightarrow> reply m h = h\<lparr>ph_stream := fresh_stream a (b @ push_frame m)\<rparr>"
  by (simp_all add: ph_recv_def reply_def)

lemma push_fields [simp]:
  "pm_Version (push_message t p) = CurrentPushVersion" "pm_Type (push_message t p) = t"
  "pm_Payload (push_message t p) = p"
  by (simp_all add: push_message_def)

lemma built_push_fields [simp]:
  "pm_Version (BuildPushManifest cid ids b) = CurrentPushVersion" "pm_Type (BuildPushManifest cid ids b) = MsgPushManifest"
  "pm_Version (BuildPushChunk cid c) = CurrentPushVersion" "pm_Type (BuildPushChunk cid c) = MsgPushChunk"
  "pm_Version (BuildPushBatchComplete cid) = CurrentPushVersion" "pm_Type (BuildPushBatchComplete cid) = MsgPushBatchComplete"
  "pm_Payload (BuildPushBatchComplete cid) = cid"
  by (simp_all add: BuildPushManifest_def BuildPushChunk_def BuildPushBatchComplete_def)

lemma push_ack_fits [simp]:
  "length i = 32 \<Longrightarrow> push_fits (BuildPushManifestAck i s)" "length i = 32 \<Longrightarrow> push_fits (BuildPushChunkAck i s)"
  "length i = 32 \<Longrightarrow> push_fits (BuildPushBatchCompleteAck i s)" "length i = 32 \<Longrightarrow> push_fits (BuildPushBatchComplete i)"
  by (simp_all add: push_fits_def BuildPushManifestAck_def BuildPushChunkAck_def BuildPushBatchCompleteAck_def
      BuildPushBatchComplete_def)

lemma push_call_acked:
  assumes "push_fits req" and "push_fits ack" and "pm_Type ack = t" and "t \<noteq> MsgPushError"
    and "parse (pm_Payload ack) = Inr (i, PushStatusOK)"
    and "pcl_stream c = fresh_stream (push_frame ack @ a) b"
  shows "push_call req t parse i c = (Inr (), c\<lparr>pcl_stream := fresh_stream a (b @ push_frame req)\<rparr>)"
  using assms by (simp add: push_call_def fresh_stream_def)

lemmas push_ack_defs = BuildPushManifestAck_def BuildPushChunkAck_def BuildPushBatchCompleteAck_def
  ParsePushManifestAck_def ParsePushChunkAck_def ParsePushBatchCompleteAck_def parse_ack_built

lemma SendManifest_acked:
  assumes "length cid = 32" and "push_fits (BuildPushManifest cid ids d)"
    and "pcl_stream c = fresh_stream (push_frame (BuildPushManifestAck cid PushStatusOK) @ a) b"
  shows "SendManifest cid ids d c
    = (Inr (), c\<lparr>pcl_stream := fresh_stream a (b @ push_frame (BuildPushManifest cid ids d))\<rparr>)"
  unfolding SendManifest_def
  by (rule push_call_acked [where ack = "BuildPushManifestAck cid PushStatusOK"])
    (use assms in \<open>simp_all add: push_ack_defs push_fits_def\<close>)

lemma SendChunk_acked:
  assumes "length (hd_ID (ck_Header ch)) = 32" and "push_fits (BuildPushChunk cid ch)"
    and "pcl_stream c = fresh_stream (push_frame (BuildPushChunkAck (hd_ID (ck_Header ch)) PushStatusOK) @ a) b"
  shows "SendChunk cid ch c = (Inr (), c\<lparr>pcl_stream := fresh_stream a (b @ push_frame (BuildPushChunk cid ch))\<rparr>)"
  unfolding SendChunk_def
  by (rule push_call_acked [where ack = "BuildPushChunkAck (hd_ID (ck_Header ch)) PushStatusOK"])
    (use assms in \<open>simp_all add: push_ack_defs push_fits_def\<close>)

lemma SendBatchComplete_acked:
  assumes "length cid = 32"
    and "pcl_stream c = fresh_stream (push_frame (BuildPushBatchCompleteAck cid PushStatusOK) @ a) b"
  shows "SendBatchComplete cid c
    = (Inr (), c\<lparr>pcl_stream := fresh_stream a (b @ push_frame (BuildPushBatchComplete cid))\<rparr>)"
  unfolding SendBatchComplete_def
  by (rule push_call_acked [where ack = "BuildPushBatchCompleteAck cid PushStatusOK"])
    (use assms in \<open>simp_all add: push_ack_defs push_fits_def BuildPushBatchComplete_def\<close>)

section \<open>The handler on a stream without errors\<close>

lemma push_loop_end: "ph_stream h = fresh_stream [] b \<Longrightarrow> push_loop d h = h"
  by (subst push_loop.simps) (simp add: ph_fresh)

lemma push_loop_step:
  assumes "ph_stream h = fresh_stream (push_frame m @ a) b" and "push_fits m" and "pm_Version m = CurrentPushVersion"
    and "h' = h\<lparr>ph_stream := fresh_stream a b\<rparr>"
  shows "pm_Type m = MsgPushManifest \<Longrightarrow> push_loop d h = push_loop d (handlePushManifest d m h')"
    and "pm_Type m = MsgPushChunk \<Longrightarrow> push_loop d h = push_loop d (handlePushChunk m h')"
    and "pm_Type m = MsgPushBatchComplete \<Longrightarrow> push_loop d h = push_loop d (handlePushBatchComplete m h')"
  using assms by (subst push_loop.simps, simp add: ph_fresh)+

lemma fs_usable_files [simp]: "fs_usable (s\<lparr>fs_files := m\<rparr>) = fs_usable s"
  by (simp add: fs_usable_def)

lemma usable_puts:
  assumes "fs_usable s"
  shows "\<exists>t. PutManifestBytes cid b s = (Inr (), t) \<and> fs_usable t"
    and "\<exists>t. commit_chunk c s = (Inr (), t) \<and> fs_usable t"
  using assms by (auto simp: PutManifestBytes_def commit_chunk_def HasChunk_def PutChunk_def Let_def split: bool.splits)

text \<open>The session that a manifest opens, and the state after each message that is accepted.\<close>

lemma manifest_accepted:
  assumes "ph_stream h = fresh_stream (push_frame (BuildPushManifest cid ids b) @ a) out"
    and "length cid = 32" and "list_all (\<lambda>i. length i = 32) ids" and "push_fits (BuildPushManifest cid ids b)"
    and "d b = Some m" and "cd_ID (mf_Descriptor m) = cid"
  obtains h' p where "push_loop d h = push_loop d h'" and "ph_engine h' = ph_engine h"
    and "ph_sessions h' cid = Some p" and "pn_Manifest p = m" and "pn_ManifestBytes p = b"
    and "pn_ExpectedChunks p = set ids" and "pn_CommittedChunks p = {}"
    and "ph_stream h' = fresh_stream a (out @ push_frame (BuildPushManifestAck cid PushStatusOK))"
    and "ph_announced h' = ph_announced h" and "ph_dht h' = ph_dht h" and "push_inv d h \<Longrightarrow> push_inv d h'"
proof -
  let ?h = "h\<lparr>ph_stream := fresh_stream a out\<rparr>" and ?m = "BuildPushManifest cid ids b"
  obtain t1 h1 t2 h2 where t: "ph_now ?h = (t1, h1)" "ph_now h1 = (t2, h2)" by fastforce
  note now = ph_now_simps [OF t(1)] ph_now_simps [OF t(2)]
  have "32 * length ids \<le> length (pm_Payload ?m)"
    using concat_ids [OF assms(3)] by (simp add: BuildPushManifest_def)
  then have "length ids < 2 ^ 32" using assms(4) by (simp add: push_fits_def)
  note parse = ParsePushManifest_built [OF assms(2,3) this, of b]
  have l: "push_loop d h = push_loop d (handlePushManifest d ?m ?h)"
    by (rule push_loop_step(1)) (use assms in simp_all)
  have inv: "push_inv d h \<Longrightarrow> push_inv d (handlePushManifest d ?m ?h)"
    by (rule handlePushManifest_inv) simp
  have st: "ph_stream (h2\<lparr>ph_sessions := q\<rparr>) = fresh_stream a out" for q using now by simp
  show thesis
    by (rule that [OF l, of "\<lparr>pn_ContentID = cid, pn_Manifest = m, pn_ManifestBytes = b, pn_ExpectedChunks = set ids,
          pn_CommittedChunks = {}, pn_StartedAt = t1, pn_UpdatedAt = t2\<rparr>"])
      (use inv parse assms(2,5,6) t now ph_fresh(3) [OF st] in \<open>simp_all add: handlePushManifest_def\<close>)
qed

lemma chunk_accepted:
  assumes "ph_stream h = fresh_stream (push_frame (BuildPushChunk cid c) @ a) out"
    and "length cid = 32" and "header_wf (ck_Header c)" and "push_fits (BuildPushChunk cid c)"
    and "hd_ID (ck_Header c) = i" and "sha256 (ck_Data c) = i"
    and "ph_sessions h cid = Some p" and "i \<in> pn_ExpectedChunks p" and "i \<in> set (mf_ChunkIDs (pn_Manifest p))"
    and "fs_usable (ph_engine h)"
  obtains h' p' where "push_loop d h = push_loop d h'" and "fs_usable (ph_engine h')"
    and "ph_sessions h' cid = Some p'" and "pn_Manifest p' = pn_Manifest p"
    and "pn_ManifestBytes p' = pn_ManifestBytes p"
    and "pn_ExpectedChunks p' = pn_ExpectedChunks p" and "pn_CommittedChunks p' = insert i (pn_CommittedChunks p)"
    and "ph_stream h' = fresh_stream a (out @ push_frame (BuildPushChunkAck i PushStatusOK))"
    and "ph_announced h' = ph_announced h" and "ph_dht h' = ph_dht h" and "push_inv d h \<Longrightarrow> push_inv d h'"
proof -
  let ?h = "h\<lparr>ph_stream := fresh_stream a out\<rparr>" and ?m = "BuildPushChunk cid c"
  obtain s where s: "commit_chunk c (ph_engine h) = (Inr (), s)" "fs_usable s"
    using usable_puts(2) [OF assms(10)] by blast
  obtain t h1 where t: "ph_now (?h\<lparr>ph_engine := s\<rparr>) = (t, h1)" by fastforce
  note now = ph_now_simps [OF t]
  have i: "length i = 32" using assms(3,5) by (auto simp: header_wf_def)
  note parse = ParsePushChunk_built [OF assms(2,3)]
  have l: "push_loop d h = push_loop d (handlePushChunk ?m ?h)"
    by (rule push_loop_step(2)) (use assms in simp_all)
  have inv: "push_inv d h \<Longrightarrow> push_inv d (handlePushChunk ?m ?h)"
    by (rule handlePushChunk_inv) simp
  have st: "ph_stream (h1\<lparr>ph_sessions := q\<rparr>) = fresh_stream a out" for q using now by simp
  show thesis
    by (rule that [OF l, of "p\<lparr>pn_CommittedChunks := insert i (pn_CommittedChunks p), pn_UpdatedAt := t\<rparr>"])
      (use inv parse assms(5-9) t now s i ph_fresh(3) [OF st] in \<open>simp_all add: handlePushChunk_def Let_def Sum_def\<close>)
qed

lemma batch_accepted:
  assumes "ph_stream h = fresh_stream (push_frame (BuildPushBatchComplete cid) @ a) out"
    and "length cid = 32" and "ph_sessions h cid = Some p" and "all_committed p" and "fs_usable (ph_engine h)"
  obtains h' where "push_loop d h = push_loop d h'"
    and "ph_sessions h' cid = None" and "fs_usable (ph_engine h')"
    and "fs_files (ph_engine h') (manifestPath (ph_engine h') cid) = Some (pn_ManifestBytes p)"
    and "ph_stream h' = fresh_stream a (out @ push_frame (BuildPushBatchCompleteAck cid PushStatusOK))"
    and "ph_announced h' = ph_announced h @ (if ph_dht h then [cid] else [])"
    and "\<And>i. holds_chunk (ph_engine h) i \<Longrightarrow> holds_chunk (ph_engine h') i"
proof -
  let ?h = "h\<lparr>ph_stream := fresh_stream a out\<rparr>" and ?m = "BuildPushBatchComplete cid"
  obtain s where s: "PutManifestBytes cid (pn_ManifestBytes p) (ph_engine h) = (Inr (), s)" "fs_usable s"
    using usable_puts(1) [OF assms(5)] by blast
  have l: "push_loop d h = push_loop d (handlePushBatchComplete ?m ?h)"
    by (rule push_loop_step(3)) (use assms in simp_all)
  have st: "ph_stream (?h\<lparr>ph_engine := s, ph_sessions := q, ph_announced := x\<rparr>) = fresh_stream a out" for q x by simp
  show thesis
    by (rule that [OF l])
      (use assms(2-4) s PutManifestBytes_ok [OF s(1)] chunk_files_same(1) [OF PutManifestBytes_chunks [OF s(1) assms(2)]] ph_fresh(3) [OF st] ParsePushBatchComplete_built
        in \<open>simp_all add: handlePushBatchComplete_def\<close>)
qed

section \<open>A whole push\<close>

definition push_requests :: "ContentID \<Rightarrow> ChunkID list \<Rightarrow> bytes \<Rightarrow> (ChunkID \<Rightarrow> Chunk) \<Rightarrow> bytes" where
  "push_requests cid ids b held = push_frame (BuildPushManifest cid ids b)
     @ concat (map (\<lambda>i. push_frame (BuildPushChunk cid (held i))) ids) @ push_frame (BuildPushBatchComplete cid)"

definition push_replies :: "ContentID \<Rightarrow> ChunkID list \<Rightarrow> bytes" where
  "push_replies cid ids = push_frame (BuildPushManifestAck cid PushStatusOK)
     @ concat (map (\<lambda>i. push_frame (BuildPushChunkAck i PushStatusOK)) ids)
     @ push_frame (BuildPushBatchCompleteAck cid PushStatusOK)"

definition pushable :: "ContentID \<Rightarrow> ChunkID \<Rightarrow> Chunk \<Rightarrow> bool" where
  "pushable cid i c \<longleftrightarrow> header_wf (ck_Header c) \<and> hd_ID (ck_Header c) = i \<and> sha256 (ck_Data c) = i
     \<and> push_fits (BuildPushChunk cid c)"

lemma pushable_length: "pushable cid i c \<Longrightarrow> length i = 32"
  by (auto simp: pushable_def header_wf_def)

lemma chunks_accepted:
  assumes "length cid = 32"
  shows "ph_stream h = fresh_stream (concat (map (\<lambda>i. push_frame (BuildPushChunk cid (held i))) ids) @ a) out \<Longrightarrow>
    \<forall>i \<in> set ids. pushable cid i (held i) \<Longrightarrow> ph_sessions h cid = Some p \<Longrightarrow>
    set ids \<subseteq> pn_ExpectedChunks p \<inter> set (mf_ChunkIDs (pn_Manifest p)) \<Longrightarrow> fs_usable (ph_engine h) \<Longrightarrow>
    \<exists>h' p'. push_loop d h = push_loop d h' \<and> fs_usable (ph_engine h') \<and> ph_sessions h' cid = Some p'
      \<and> pn_ManifestBytes p' = pn_ManifestBytes p \<and> pn_ExpectedChunks p' = pn_ExpectedChunks p
      \<and> pn_CommittedChunks p' = pn_CommittedChunks p \<union> set ids
      \<and> ph_stream h' = fresh_stream a (out @ concat (map (\<lambda>i. push_frame (BuildPushChunkAck i PushStatusOK)) ids))
      \<and> ph_announced h' = ph_announced h \<and> ph_dht h' = ph_dht h \<and> (push_inv d h \<longrightarrow> push_inv d h')"
proof (induction ids arbitrary: h p out)
  case Nil
  then show ?case by auto
next
  case (Cons i ids)
  from Cons.prems have st: "ph_stream h = fresh_stream (push_frame (BuildPushChunk cid (held i))
      @ concat (map (\<lambda>i. push_frame (BuildPushChunk cid (held i))) ids) @ a) out"
    and i: "header_wf (ck_Header (held i))" "push_fits (BuildPushChunk cid (held i))" "hd_ID (ck_Header (held i)) = i"
      "sha256 (ck_Data (held i)) = i" "i \<in> pn_ExpectedChunks p" "i \<in> set (mf_ChunkIDs (pn_Manifest p))"
    by (simp_all add: pushable_def)
  from chunk_accepted [OF st assms i(1-4) Cons.prems(3) i(5,6) Cons.prems(5), of d]
  obtain h1 p1 where h1: "push_loop d h = push_loop d h1" "fs_usable (ph_engine h1)" "ph_sessions h1 cid = Some p1"
      "pn_Manifest p1 = pn_Manifest p" "pn_ManifestBytes p1 = pn_ManifestBytes p"
      "pn_ExpectedChunks p1 = pn_ExpectedChunks p" "pn_CommittedChunks p1 = insert i (pn_CommittedChunks p)"
      "ph_stream h1 = fresh_stream (concat (map (\<lambda>i. push_frame (BuildPushChunk cid (held i))) ids) @ a)
         (out @ push_frame (BuildPushChunkAck i PushStatusOK))"
      "ph_announced h1 = ph_announced h" "ph_dht h1 = ph_dht h" "push_inv d h \<Longrightarrow> push_inv d h1" by blast
  from Cons.IH [OF h1(8) _ h1(3) _ h1(2)] Cons.prems(2,4) h1(1,4-7,9-11) show ?case by auto
qed

lemma push_handled:
  assumes "ph_allowPush h" and "ph_authPolicy h = AuthPolicyAllowlist \<longrightarrow> peer \<in> ph_allowedPublishers h"
    and "fs_usable (ph_engine h)" and "length cid = 32" and "push_fits (BuildPushManifest cid ids b)"
    and "d b = Some m" and "cd_ID (mf_Descriptor m) = cid" and "set ids \<subseteq> set (mf_ChunkIDs m)"
    and "\<forall>i \<in> set ids. pushable cid i (held i)" and "ph_stream h = fresh_stream (push_requests cid ids b held) []"
    and "h' = push_handleStream d peer h"
  shows "ph_sessions h' cid = None" and "fs_files (ph_engine h') (manifestPath (ph_engine h') cid) = Some b"
    and "ph_stream h' = fresh_stream [] (push_replies cid ids)"
    and "ph_announced h' = ph_announced h @ (if ph_dht h then [cid] else [])"
    and "push_inv d h \<Longrightarrow> \<forall>i \<in> set ids. holds_chunk (ph_engine h') i"
proof -
  let ?o1 = "[] @ push_frame (BuildPushManifestAck cid PushStatusOK)"
  let ?o2 = "?o1 @ concat (map (\<lambda>i. push_frame (BuildPushChunkAck i PushStatusOK)) ids)"
  have loop: "push_handleStream d peer h = push_loop d h" using assms(1,2) by (auto simp: push_handleStream_def)
  have len: "list_all (\<lambda>i. length i = 32) ids" using assms(9) by (auto simp: list_all_iff dest: pushable_length)
  from manifest_accepted [where d = d, OF assms(10) [unfolded push_requests_def] assms(4) len assms(5-7)]
  obtain h1 p1 where h1: "push_loop d h = push_loop d h1" "ph_engine h1 = ph_engine h" "ph_sessions h1 cid = Some p1"
      "pn_Manifest p1 = m" "pn_ManifestBytes p1 = b" "pn_ExpectedChunks p1 = set ids" "pn_CommittedChunks p1 = {}"
      "ph_stream h1 = fresh_stream (concat (map (\<lambda>i. push_frame (BuildPushChunk cid (held i))) ids)
         @ push_frame (BuildPushBatchComplete cid)) ?o1"
      "ph_announced h1 = ph_announced h" "ph_dht h1 = ph_dht h" "push_inv d h \<Longrightarrow> push_inv d h1" by blast
  from chunks_accepted [OF assms(4) h1(8) assms(9) h1(3), of d] h1(2,4-7) assms(3,8)
  obtain h2 p2 where h2: "push_loop d h1 = push_loop d h2" "fs_usable (ph_engine h2)" "ph_sessions h2 cid = Some p2"
      "pn_ManifestBytes p2 = b" "pn_ExpectedChunks p2 = set ids" "pn_CommittedChunks p2 = set ids"
      "ph_stream h2 = fresh_stream (push_frame (BuildPushBatchComplete cid)) ?o2"
      "ph_announced h2 = ph_announced h1" "ph_dht h2 = ph_dht h1" "push_inv d h1 \<longrightarrow> push_inv d h2" by auto
  have all: "all_committed p2" using h2(5,6) by (simp add: all_committed_def)
  have st: "ph_stream h2 = fresh_stream (push_frame (BuildPushBatchComplete cid) @ []) ?o2" using h2(7) by simp
  from batch_accepted [OF st assms(4) h2(3) all h2(2), of d]
  obtain h3 where h3: "push_loop d h2 = push_loop d h3" "ph_sessions h3 cid = None"
      "fs_files (ph_engine h3) (manifestPath (ph_engine h3) cid) = Some (pn_ManifestBytes p2)"
      "ph_stream h3 = fresh_stream [] (?o2 @ push_frame (BuildPushBatchCompleteAck cid PushStatusOK))"
      "ph_announced h3 = ph_announced h2 @ (if ph_dht h2 then [cid] else [])"
      "\<And>i. holds_chunk (ph_engine h2) i \<Longrightarrow> holds_chunk (ph_engine h3) i" by blast
  have eq: "h' = h3" using assms(11) loop h1(1) h2(1) h3(1) push_loop_end [OF h3(4)] by simp
  show "ph_sessions h' cid = None" "fs_files (ph_engine h') (manifestPath (ph_engine h') cid) = Some b"
    "ph_stream h' = fresh_stream [] (push_replies cid ids)"
    "ph_announced h' = ph_announced h @ (if ph_dht h then [cid] else [])"
    unfolding eq using h1 h2 h3 by (simp_all add: push_replies_def)
  show "\<forall>i \<in> set ids. holds_chunk (ph_engine h') i" if "push_inv d h"
    unfolding eq using that h1(11) h2(3,6,10) h3(6) by (auto simp: push_inv_def session_ok_def)
qed

section \<open>Properties\<close>

definition example_manifest :: "ContentID \<Rightarrow> ChunkID list \<Rightarrow> Manifest" where
  "example_manifest cid ids = \<lparr>mf_Version = 1, mf_Descriptor = \<lparr>cd_ID = cid, cd_Type = TypeFile, cd_Size = 2\<rparr>,
     mf_ChunkIDs = ids, mf_MerkleRoot = replicate 32 0, mf_WholeHash = replicate 32 0,
     mf_Crypto = \<lparr>cy_Algorithm = [], cy_Version = 0, cy_ChunkNonceSize = 0, cy_KeyID = []\<rparr>\<rparr>"

lemma example_manifest_simps [simp]:
  "cd_ID (mf_Descriptor (example_manifest cid ids)) = cid" "mf_ChunkIDs (example_manifest cid ids) = ids"
  by (simp_all add: example_manifest_def)

definition example_handler :: "bytes \<Rightarrow> PushHandler" where
  "example_handler input = NewStreamHandler empty_fs True True AuthPolicyOpen [] [] (fresh_stream input [])"

lemma example_handler_simps [simp]:
  "ph_stream (example_handler b) = fresh_stream b []" "ph_engine (example_handler b) = empty_fs"
  "ph_allowPush (example_handler b)" "ph_authPolicy (example_handler b) = AuthPolicyOpen"
  "ph_announced (example_handler b) = []" "ph_dht (example_handler b)"
  "(example_handler b)\<lparr>ph_stream := fresh_stream b' []\<rparr> = example_handler b'"
  by (simp_all add: example_handler_def NewStreamHandler_def)

lemma example_handler_init: "push_init (example_handler b)"
proof -
  have "chunk_files empty_fs" by (simp add: chunk_files_def empty_fs_def)
  then show ?thesis unfolding push_init_def example_handler_def by blast
qed

text \<open>A manifest can be replaced without any chunk: on a provider that accepts the peer, a stream
  with a manifest that assigns no chunk, followed by \<open>PUSH_BATCH_COMPLETE\<close>, puts its bytes in the place of the
  manifest that is stored for the content ID and announces the content, whatever chunks the store holds. All
  that is required of the bytes is that they decode to a manifest with this content ID.\<close>

lemma empty_batch_replaces_manifest:
  assumes "ph_allowPush h" and "ph_authPolicy h = AuthPolicyAllowlist \<longrightarrow> peer \<in> ph_allowedPublishers h"
    and "fs_usable (ph_engine h)" and "length cid = 32" and "push_fits (BuildPushManifest cid [] b)"
    and "d b = Some m" and "cd_ID (mf_Descriptor m) = cid"
    and "ph_stream h = fresh_stream (push_frame (BuildPushManifest cid [] b) @ push_frame (BuildPushBatchComplete cid)) []"
  shows "fs_files (ph_engine (push_handleStream d peer h)) (manifestPath (ph_engine (push_handleStream d peer h)) cid) = Some b
    \<and> ph_announced (push_handleStream d peer h) = ph_announced h @ (if ph_dht h then [cid] else [])"
proof -
  have st: "ph_stream h = fresh_stream (push_requests cid [] b undefined) []"
    using assms(8) by (simp add: push_requests_def)
  show ?thesis
    using push_handled(2,4) [where d = d, OF assms(1-7) _ _ st refl] by simp
qed

lemma empty_batch_replaces_manifest_witness:
  "let h = example_handler (push_frame (BuildPushManifest (replicate 32 7) [] [9])
           @ push_frame (BuildPushBatchComplete (replicate 32 7)));
       h' = push_handleStream (\<lambda>_. Some (example_manifest (replicate 32 7) [sha256 [1, 2]])) ''p'' h
   in fs_files (ph_engine h') (manifestPath (ph_engine h') (replicate 32 7)) = Some [9]
      \<and> ph_announced h' = [replicate 32 7]"
  using empty_batch_replaces_manifest [of "example_handler (push_frame (BuildPushManifest (replicate 32 7) [] [9])
        @ push_frame (BuildPushBatchComplete (replicate 32 7)))" "''p''" "replicate 32 7" "[9]"
        "\<lambda>_. Some (example_manifest (replicate 32 7) [sha256 [1, 2]])" "example_manifest (replicate 32 7) [sha256 [1, 2]]"]
  by (simp add: Let_def push_fits_def BuildPushManifest_def del: replicate.simps)

lemma pushable_example: "length cid = 32 \<Longrightarrow> pushable cid (sha256 [1, 2]) example_chunk"
  by (simp add: pushable_def example_chunk_def header_wf_def push_fits_def BuildPushChunk_def)

lemma example_push_open:
  assumes "d = (\<lambda>_. Some (example_manifest cid [i]))" and "length cid = 32" and "pushable cid i c"
  obtains h p where "reach push_init (push_step d) h" and "ph_sessions h cid = Some p"
    and "pn_ExpectedChunks p = {i}" and "all_committed p" and "fs_usable (ph_engine h)"
proof -
  let ?m = "BuildPushManifest cid [i] [9]" and ?c = "BuildPushChunk cid c"
  let ?h = "example_handler (push_frame ?m @ push_frame ?c)"
  have fits: "push_fits ?m" "push_fits ?c"
    using assms(2,3) pushable_length [OF assms(3)] by (simp_all add: push_fits_def BuildPushManifest_def pushable_def)
  have l: "push_handleStream d ''p'' ?h = push_loop d ?h" by (simp add: push_handleStream_def)
  have r: "reach push_init (push_step d) (push_loop d ?h)"
    using reach_step [where step = "push_step d", OF reach_init [of push_init, OF example_handler_init [of "[]"]] push_stream [of d "example_handler []" "''p''"
      "fresh_stream (push_frame ?m @ push_frame ?c) []"]] l by simp
  have pre: "ph_stream ?h = fresh_stream (push_frame ?m @ push_frame ?c) []" "length cid = 32"
    "list_all (\<lambda>i. length i = 32) [i]" "d [9] = Some (example_manifest cid [i])"
    "cd_ID (mf_Descriptor (example_manifest cid [i])) = cid"
    using assms pushable_length [OF assms(3)] by simp_all
  obtain h1 p1 where h1: "push_loop d ?h = push_loop d h1" "ph_engine h1 = ph_engine ?h" "ph_sessions h1 cid = Some p1"
      "pn_Manifest p1 = example_manifest cid [i]" "pn_ExpectedChunks p1 = set [i]" "pn_CommittedChunks p1 = {}"
      "ph_stream h1 = fresh_stream (push_frame ?c) ([] @ push_frame (BuildPushManifestAck cid PushStatusOK))"
    by (rule manifest_accepted [where d = d, OF pre(1,2,3) fits(1) pre(4,5)]) (rule that)
  have pre2: "ph_stream h1 = fresh_stream (push_frame ?c @ []) ([] @ push_frame (BuildPushManifestAck cid PushStatusOK))"
    "header_wf (ck_Header c)" "hd_ID (ck_Header c) = i" "sha256 (ck_Data c) = i"
    "i \<in> pn_ExpectedChunks p1" "i \<in> set (mf_ChunkIDs (pn_Manifest p1))" "fs_usable (ph_engine h1)"
    using h1(2,4-7) assms(3) by (simp_all add: pushable_def)
  obtain h2 p2 where h2: "push_loop d h1 = push_loop d h2" "fs_usable (ph_engine h2)" "ph_sessions h2 cid = Some p2"
      "pn_ExpectedChunks p2 = pn_ExpectedChunks p1" "pn_CommittedChunks p2 = insert i (pn_CommittedChunks p1)"
      "ph_stream h2 = fresh_stream [] (([] @ push_frame (BuildPushManifestAck cid PushStatusOK)) @ push_frame (BuildPushChunkAck i PushStatusOK))"
    by (rule chunk_accepted [where d = d, OF pre2(1) pre(2) pre2(2) fits(2) pre2(3,4) h1(3) pre2(5-7)]) (rule that)
  have e: "push_loop d ?h = h2" unfolding h1(1) h2(1) by (rule push_loop_end [OF h2(6)])
  have c: "pn_ExpectedChunks p2 = {i}" "pn_CommittedChunks p2 = {i}" using h1(5,6) h2(4,5) by simp_all
  then have "all_committed p2" by (simp add: all_committed_def)
  from that [OF r [unfolded e] h2(3) c(1) this h2(2)] show thesis .
qed


end
