(* ===== verification/Distribution.thy ===== *)
theory Distribution
  imports PushHandler "HOL-Library.AList"
begin

text \<open>
  Placement of the chunks of a content on providers and the record of their replicas:
  \<open>network/distribution/planner.go\<close> and \<open>network/distribution/tracker.go\<close>.
\<close>

section \<open>The planner\<close>

record PlacementPlan =
  pp_ContentID :: ContentID
  pp_Manifest :: Manifest
  pp_Assignments :: "ChunkID \<rightharpoonup> peerID list"
  pp_ProviderChunks :: "peerID \<rightharpoonup> ChunkID list"
  pp_Replication :: int

datatype plan_error =
    NoProviders
  | NonPositiveReplication int
  | ReplicationExceedsProviders int nat
  | ZeroChunks

text \<open>Reading an absent key of a map of slices gives the nil slice.\<close>

definition slice_at :: "('k \<rightharpoonup> 'v list) \<Rightarrow> 'k \<Rightarrow> 'v list" where
  "slice_at m k = (case m k of None \<Rightarrow> [] | Some xs \<Rightarrow> xs)"

text \<open>One replica: the body of the inner loop.\<close>

definition assign_replica :: "peerID list \<Rightarrow> nat \<Rightarrow> ChunkID \<Rightarrow> nat \<Rightarrow> PlacementPlan \<Rightarrow> PlacementPlan" where
  "assign_replica providers i chunkID r plan =
     (let p = providers ! ((i + r) mod length providers) in
      plan\<lparr>pp_Assignments := (pp_Assignments plan)(chunkID \<mapsto> slice_at (pp_Assignments plan) chunkID @ [p]),
           pp_ProviderChunks := (pp_ProviderChunks plan)(p \<mapsto> slice_at (pp_ProviderChunks plan) p @ [chunkID])\<rparr>)"

definition assign_chunk :: "peerID list \<Rightarrow> nat \<Rightarrow> nat \<times> ChunkID \<Rightarrow> PlacementPlan \<Rightarrow> PlacementPlan" where
  "assign_chunk providers replication ic plan =
     fold (assign_replica providers (fst ic) (snd ic)) [0..<replication]
       (plan\<lparr>pp_Assignments := (pp_Assignments plan)(snd ic \<mapsto> [])\<rparr>)"

definition PlanPlacement :: "Manifest \<Rightarrow> peerID list \<Rightarrow> int \<Rightarrow> plan_error + PlacementPlan" where
  "PlanPlacement m providers replication =
     (if providers = [] then Inl NoProviders
      else if replication \<le> 0 then Inl (NonPositiveReplication replication)
      else if int (length providers) < replication
      then Inl (ReplicationExceedsProviders replication (length providers))
      else if mf_ChunkIDs m = [] then Inl ZeroChunks
      else Inr (fold (assign_chunk providers (nat replication)) (enumerate 0 (mf_ChunkIDs m))
        \<lparr>pp_ContentID = cd_ID (mf_Descriptor m), pp_Manifest = m, pp_Assignments = Map.empty,
         pp_ProviderChunks = (\<lambda>p. if p \<in> set providers then Some [] else None),
         pp_Replication = replication\<rparr>))"

subsection \<open>What the loops compute\<close>

definition replicas :: "peerID list \<Rightarrow> nat \<Rightarrow> nat \<Rightarrow> peerID list" where
  "replicas providers replication i = map (\<lambda>r. providers ! ((i + r) mod length providers)) [0..<replication]"

lemma replicas_Suc:
  "replicas ps (Suc n) i = replicas ps n i @ [ps ! ((i + n) mod length ps)]"
  by (simp add: replicas_def)

lemma assign_replicas:
  "fold (assign_replica ps i c) [0..<n] (plan\<lparr>pp_Assignments := (pp_Assignments plan)(c \<mapsto> [])\<rparr>)
   = plan\<lparr>pp_Assignments := (pp_Assignments plan)(c \<mapsto> replicas ps n i),
       pp_ProviderChunks := (\<lambda>p. if p \<in> set (replicas ps n i)
         then Some (slice_at (pp_ProviderChunks plan) p @ replicate (count_list (replicas ps n i) p) c)
         else pp_ProviderChunks plan p)\<rparr>"
proof (induction n)
  case 0
  then show ?case by (simp add: replicas_def)
next
  case (Suc n)
  let ?p = "ps ! ((i + n) mod length ps)"
  let ?q = "plan\<lparr>pp_Assignments := (pp_Assignments plan)(c \<mapsto> [])\<rparr>"
  have z: "count_list (replicas ps n i) ?p = 0" if "?p \<notin> set (replicas ps n i)"
    using that by (simp add: count_notin)
  have "fold (assign_replica ps i c) [0..<Suc n] ?q = assign_replica ps i c n (fold (assign_replica ps i c) [0..<n] ?q)"
    by simp
  also have "\<dots> = plan\<lparr>pp_Assignments := (pp_Assignments plan)(c \<mapsto> replicas ps (Suc n) i),
       pp_ProviderChunks := (\<lambda>p. if p \<in> set (replicas ps (Suc n) i)
         then Some (slice_at (pp_ProviderChunks plan) p @ replicate (count_list (replicas ps (Suc n) i) p) c)
         else pp_ProviderChunks plan p)\<rparr>"
    unfolding Suc.IH
    by (auto simp: assign_replica_def Let_def replicas_Suc slice_at_def z fun_eq_iff replicate_append_same
        split: option.splits)
  finally show ?case .
qed

lemma add_mod_inject:
  fixes r r' :: nat
  assumes "(i + r) mod k = (i + r') mod k" and "r < k" and "r' < k"
  shows "r = r'"
proof -
  have "k dvd r' - r" if "r \<le> r'" "(i + r) mod k = (i + r') mod k" for r r' :: nat
    using that mod_eq_dvd_iff_nat [of "i + r" "i + r'" k] by simp
  from this [of r r'] this [of r' r] assms show ?thesis
    by (metis diff_is_0_eq dual_order.strict_trans2 diff_le_self le_antisym nat_dvd_not_less nat_le_linear neq0_conv)
qed

lemma replicas_distinct:
  assumes "distinct ps" and "n \<le> length ps" and "ps \<noteq> []"
  shows "distinct (replicas ps n i)" and "set (replicas ps n i) \<subseteq> set ps" and "length (replicas ps n i) = n"
proof -
  have lt: "(i + r) mod length ps < length ps" for r using assms(3) by simp
  have "inj_on (\<lambda>r. ps ! ((i + r) mod length ps)) (set [0..<n])"
  proof (rule inj_onI)
    fix r r'
    assume r: "r \<in> set [0..<n]" "r' \<in> set [0..<n]" "ps ! ((i + r) mod length ps) = ps ! ((i + r') mod length ps)"
    have "(i + r) mod length ps = (i + r') mod length ps"
      using nth_eq_iff_index_eq [OF assms(1) lt lt] r(3) by blast
    then show "r = r'" by (rule add_mod_inject) (use r assms(2) in auto)
  qed
  then show "distinct (replicas ps n i)" unfolding replicas_def distinct_map by simp
  show "set (replicas ps n i) \<subseteq> set ps" using lt by (auto simp: replicas_def)
  show "length (replicas ps n i) = n" by (simp add: replicas_def)
qed

text \<open>Among \<open>m\<close> consecutive positions each residue is met \<open>m div k\<close> times or once more.\<close>

lemma residues_once:
  fixes a k j r :: nat
  assumes "0 < k" and "j < k"
  shows "card {i. a \<le> i \<and> i < a + k \<and> (i + r) mod k = j} = (1 :: nat)"
proof -
  have inj: "inj_on (\<lambda>i. (i + r) mod k) {a..<a + k}"
  proof (rule inj_onI)
    fix x y
    assume xy: "x \<in> {a..<a + k}" "y \<in> {a..<a + k}" "(x + r) mod k = (y + r) mod k"
    then have "(a + r + (x - a)) mod k = (a + r + (y - a)) mod k" by (simp add: add.commute add.left_commute)
    then have "x - a = y - a" by (rule add_mod_inject) (use xy in auto)
    with xy show "x = y" by auto
  qed
  have "(\<lambda>i. (i + r) mod k) ` {a..<a + k} \<subseteq> {..<k}" using assms(1) by auto
  then have "(\<lambda>i. (i + r) mod k) ` {a..<a + k} = {..<k}"
    using card_image [OF inj] by (intro card_subset_eq) simp_all
  then have "j \<in> (\<lambda>i. (i + r) mod k) ` {a..<a + k}" using assms(2) by simp
  then obtain i where i: "i \<in> {a..<a + k}" "(i + r) mod k = j" by (elim imageE) simp
  have "{i. a \<le> i \<and> i < a + k \<and> (i + r) mod k = j} = {i}"
  proof (intro equalityI subsetI)
    fix x
    assume "x \<in> {i. a \<le> i \<and> i < a + k \<and> (i + r) mod k = j}"
    then have "(x + r) mod k = (i + r) mod k" "x \<in> {a..<a + k}" using i(2) by simp_all
    from inj_onD [OF inj this(1) this(2) i(1)] show "x \<in> {i}" by simp
  qed (use i in simp)
  then show ?thesis by simp
qed

lemma residues_balanced:
  fixes m k j r :: nat
  assumes "0 < k" and "j < k"
  shows "m div k \<le> card {i. i < m \<and> (i + r) mod k = j} \<and> card {i. i < m \<and> (i + r) mod k = j} \<le> m div k + (1 :: nat)"
proof (induction m rule: less_induct)
  case (less m)
  show ?case
  proof (cases "m < k")
    case True
    have "card {i. i < m \<and> (i + r) mod k = j} \<le> card {i. 0 \<le> i \<and> i < 0 + k \<and> (i + r) mod k = j}"
      by (rule card_mono) (use True in auto)
    with residues_once [OF assms, of 0 r] True show ?thesis by simp
  next
    case False
    let ?A = "{i. i < m - k \<and> (i + r) mod k = j}" and ?B = "{i. m - k \<le> i \<and> i < m - k + k \<and> (i + r) mod k = j}"
    have "{i. i < m \<and> (i + r) mod k = j} = ?A \<union> ?B" using False by auto
    moreover have "card (?A \<union> ?B) = card ?A + card ?B" by (rule card_Un_disjoint) auto
    ultimately show ?thesis
      using residues_once [OF assms, of "m - k" r] less.IH [of "m - k"] False assms(1) le_div_geq [of k m] by simp
  qed
qed


lemma replicas_mem:
  assumes "distinct ps" and "j < length ps"
  shows "ps ! j \<in> set (replicas ps n i) \<longleftrightarrow> (\<exists>r < n. (i + r) mod length ps = j)"
proof -
  have "0 < length ps" using assms(2) by linarith
  then have "(i + r) mod length ps < length ps" for r by (rule mod_less_divisor)
  then have "ps ! j = ps ! ((i + r) mod length ps) \<longleftrightarrow> (i + r) mod length ps = j" for r
    using assms by (simp add: nth_eq_iff_index_eq eq_commute)
  then show ?thesis by (simp add: replicas_def image_iff Bex_def)
qed

text \<open>The number of positions whose replicas include a provider.\<close>

lemma load_balanced:
  assumes "distinct ps" and "n \<le> length ps" and "p \<in> set ps"
  shows "n * (m div length ps) \<le> card {i. i < m \<and> p \<in> set (replicas ps n i)}"
    and "card {i. i < m \<and> p \<in> set (replicas ps n i)} \<le> n * (m div length ps + 1)"
proof -
  obtain j where j: "j < length ps" "p = ps ! j" using assms(3) by (auto simp: in_set_conv_nth)
  then have k: "0 < length ps" by linarith
  let ?A = "\<lambda>r. {i. i < m \<and> (i + r) mod length ps = j}"
  have "{i. i < m \<and> p \<in> set (replicas ps n i)} = (\<Union>r<n. ?A r)"
    unfolding j(2) replicas_mem [OF assms(1) j(1)] by blast
  moreover have "card (\<Union>r<n. ?A r) = (\<Sum>r<n. card (?A r))"
  proof (rule card_UN_disjoint)
    show "\<forall>r \<in> {..<n}. \<forall>r' \<in> {..<n}. r \<noteq> r' \<longrightarrow> ?A r \<inter> ?A r' = {}"
    proof (intro ballI impI equals0I)
      fix r r' i
      assume r: "r \<in> {..<n}" "r' \<in> {..<n}" "r \<noteq> r'" "i \<in> ?A r \<inter> ?A r'"
      then have "(i + r) mod length ps = (i + r') mod length ps" by simp
      then have "r = r'" by (rule add_mod_inject) (use r(1,2) assms(2) in simp_all)
      with r(3) show False by simp
    qed
  qed simp_all
  moreover have "(\<Sum>r<n. card (?A r)) \<le> (\<Sum>r<n. m div length ps + 1)"
    by (rule sum_mono) (use residues_balanced [OF k j(1)] in blast)
  moreover have "(\<Sum>r<n. m div length ps) \<le> (\<Sum>r<n. card (?A r))"
    by (rule sum_mono) (use residues_balanced [OF k j(1)] in blast)
  ultimately show "n * (m div length ps) \<le> card {i. i < m \<and> p \<in> set (replicas ps n i)}"
    "card {i. i < m \<and> p \<in> set (replicas ps n i)} \<le> n * (m div length ps + 1)" by simp_all
qed

lemma count_distinct: "distinct xs \<Longrightarrow> x \<in> set xs \<Longrightarrow> count_list xs x = 1"
  by (induction xs) (auto simp: count_notin)

lemma assign_chunk_eq:
  assumes "distinct ps" and "n \<le> length ps" and "ps \<noteq> []"
  shows "assign_chunk ps n (i, c) plan = plan\<lparr>pp_Assignments := (pp_Assignments plan)(c \<mapsto> replicas ps n i),
    pp_ProviderChunks := (\<lambda>p. if p \<in> set (replicas ps n i) then Some (slice_at (pp_ProviderChunks plan) p @ [c])
      else pp_ProviderChunks plan p)\<rparr>"
proof -
  have "count_list (replicas ps n i) p = 1" if "p \<in> set (replicas ps n i)" for p
    using that replicas_distinct(1) [OF assms] by (simp add: count_distinct)
  then show ?thesis unfolding assign_chunk_def fst_conv snd_conv assign_replicas by (auto simp: fun_eq_iff)
qed

lemma assigned:
  assumes "distinct ps" and "n \<le> length ps" and "ps \<noteq> []"
    and "\<forall>p \<in> set ps. pp_ProviderChunks plan p = Some []"
  shows "distinct ids \<Longrightarrow> plan' = fold (assign_chunk ps n) (enumerate 0 ids) plan \<Longrightarrow>
    (\<forall>i < length ids. pp_Assignments plan' (ids ! i) = Some (replicas ps n i))
    \<and> (\<forall>p \<in> set ps. pp_ProviderChunks plan' p
         = Some (map ((!) ids) (filter (\<lambda>i. p \<in> set (replicas ps n i)) [0..<length ids])))"
proof (induction ids arbitrary: plan' rule: rev_induct)
  case Nil
  then show ?case using assms(4) by simp
next
  case (snoc c ids)
  let ?q = "fold (assign_chunk ps n) (enumerate 0 ids) plan"
  have plan': "plan' = assign_chunk ps n (length ids, c) ?q"
    using snoc.prems(2) by (simp add: enumerate_append_eq)
  have IH: "\<forall>i < length ids. pp_Assignments ?q (ids ! i) = Some (replicas ps n i)"
    "\<forall>p \<in> set ps. pp_ProviderChunks ?q p
         = Some (map ((!) ids) (filter (\<lambda>i. p \<in> set (replicas ps n i)) [0..<length ids]))"
    using snoc.IH [OF _ refl] snoc.prems(1) by simp_all
  have "map ((!) (ids @ [c])) (filter P [0..<length ids]) = map ((!) ids) (filter P [0..<length ids])" for P
    by (auto simp: nth_append)
  with IH snoc.prems(1) show ?case
    unfolding plan' assign_chunk_eq [OF assms(1-3)] by (auto simp: slice_at_def nth_append less_Suc_eq in_set_conv_nth)
qed

lemma assign_chunks_fields:
  "pp_ContentID (fold (assign_chunk ps n) ics plan) = pp_ContentID plan
   \<and> pp_Manifest (fold (assign_chunk ps n) ics plan) = pp_Manifest plan
   \<and> pp_Replication (fold (assign_chunk ps n) ics plan) = pp_Replication plan"
proof (induction ics arbitrary: plan)
  case (Cons ic ics)
  then show ?case by (cases ic) (simp add: assign_chunk_def assign_replicas)
qed simp

lemma PlanPlacement_fields:
  "PlanPlacement m ps R = Inr plan \<Longrightarrow>
     pp_ContentID plan = cd_ID (mf_Descriptor m) \<and> pp_Manifest plan = m \<and> pp_Replication plan = R"
  by (auto simp: PlanPlacement_def assign_chunks_fields split: if_splits)

lemma placement_facts:
  assumes "PlanPlacement m ps R = Inr plan" and "distinct ps" and "distinct (mf_ChunkIDs m)"
  shows "(\<forall>c \<in> set (mf_ChunkIDs m). \<exists>qs. pp_Assignments plan c = Some qs \<and> distinct qs \<and> int (length qs) = R
           \<and> set qs \<subseteq> set ps)
    \<and> (\<forall>p \<in> set ps. \<exists>cs. pp_ProviderChunks plan p = Some cs \<and> distinct cs \<and> set cs \<subseteq> set (mf_ChunkIDs m)
         \<and> (\<forall>c \<in> set (mf_ChunkIDs m). c \<in> set cs \<longleftrightarrow> p \<in> set (slice_at (pp_Assignments plan) c))
         \<and> nat R * (length (mf_ChunkIDs m) div length ps) \<le> length cs
         \<and> length cs \<le> nat R * (length (mf_ChunkIDs m) div length ps + 1))"
proof -
  let ?ids = "mf_ChunkIDs m" and ?n = "nat R"
  define plan0 where "plan0 = \<lparr>pp_ContentID = cd_ID (mf_Descriptor m), pp_Manifest = m, pp_Assignments = Map.empty,
         pp_ProviderChunks = (\<lambda>p. if p \<in> set ps then Some [] else None), pp_Replication = R\<rparr>"
  have ps: "ps \<noteq> []" "0 < R" "?n \<le> length ps" and plan: "plan = fold (assign_chunk ps ?n) (enumerate 0 ?ids) plan0"
    using assms(1) by (auto simp: PlanPlacement_def plan0_def split: if_splits)
  have "\<forall>p \<in> set ps. pp_ProviderChunks plan0 p = Some []" by (simp add: plan0_def)
  note a = assigned [OF assms(2) ps(3,1) this assms(3) plan]
  note r = replicas_distinct [OF assms(2) ps(3,1)]
  have 1: "\<exists>qs. pp_Assignments plan c = Some qs \<and> distinct qs \<and> int (length qs) = R \<and> set qs \<subseteq> set ps" if c: "c \<in> set ?ids" for c
  proof -
    obtain i where "i < length ?ids" "c = ?ids ! i" using c by (auto simp: in_set_conv_nth)
    with a r ps(2) show ?thesis by auto
  qed
  have 2: "\<exists>cs. pp_ProviderChunks plan p = Some cs \<and> distinct cs \<and> set cs \<subseteq> set (mf_ChunkIDs m)
         \<and> (\<forall>c \<in> set ?ids. c \<in> set cs \<longleftrightarrow> p \<in> set (slice_at (pp_Assignments plan) c))
         \<and> ?n * (length ?ids div length ps) \<le> length cs \<and> length cs \<le> ?n * (length ?ids div length ps + 1)"
    if p: "p \<in> set ps" for p
  proof -
    let ?is = "filter (\<lambda>i. p \<in> set (replicas ps ?n i)) [0..<length ?ids]"
    have "length ?is = card {i. i < length ?ids \<and> p \<in> set (replicas ps ?n i)}"
      by (subst distinct_card [symmetric]) (auto intro!: arg_cong [of _ _ card])
    moreover have "distinct (map ((!) ?ids) ?is)"
      using assms(3) by (auto simp: distinct_map inj_on_def nth_eq_iff_index_eq)
    moreover have "\<forall>c \<in> set ?ids. c \<in> set (map ((!) ?ids) ?is) \<longleftrightarrow> p \<in> set (slice_at (pp_Assignments plan) c)"
    proof
      fix c
      assume "c \<in> set ?ids"
      then obtain i where i: "i < length ?ids" "c = ?ids ! i" by (auto simp: in_set_conv_nth)
      then have "c \<in> set (map ((!) ?ids) ?is) \<longleftrightarrow> p \<in> set (replicas ps ?n i)"
        using assms(3) by (auto simp: nth_eq_iff_index_eq)
      with a i show "c \<in> set (map ((!) ?ids) ?is) \<longleftrightarrow> p \<in> set (slice_at (pp_Assignments plan) c)"
        by (simp add: slice_at_def)
    qed
    moreover have "pp_ProviderChunks plan p = Some (map ((!) ?ids) ?is)" using a p by blast
    moreover have "set (map ((!) ?ids) ?is) \<subseteq> set ?ids" by auto
    ultimately show ?thesis
      using load_balanced [OF assms(2) ps(3) p, of "length ?ids"] by (intro exI [of _ "map ((!) ?ids) ?is"]) simp
  qed
  show ?thesis using 1 2 by blast
qed

definition example_placed :: Manifest where
  "example_placed = \<lparr>mf_Version = 1, mf_Descriptor = \<lparr>cd_ID = replicate 32 7, cd_Type = TypeFile, cd_Size = 2\<rparr>,
     mf_ChunkIDs = [[1], [2], [3], [4]], mf_MerkleRoot = replicate 32 0, mf_WholeHash = replicate 32 0,
     mf_Crypto = \<lparr>cy_Algorithm = [], cy_Version = 0, cy_ChunkNonceSize = 0, cy_KeyID = []\<rparr>\<rparr>"

text \<open>C31. The plan of a placement: for distinct providers and distinct chunks, every chunk is assigned to as
  many distinct providers as the replication factor says; a provider is listed with exactly the chunks assigned
  to it, each once; and the load is balanced, the number of chunks of every provider lying between \<open>R\<close> times the rounded-down
  quotient of chunks and providers and \<open>R\<close> times one more.\<close>

theorem placement_replicates_and_balances:
  assumes "PlanPlacement m ps R = Inr plan" and "distinct ps" and "distinct (mf_ChunkIDs m)"
  shows "(\<forall>c \<in> set (mf_ChunkIDs m). \<exists>qs. pp_Assignments plan c = Some qs \<and> distinct qs \<and> int (length qs) = R
           \<and> set qs \<subseteq> set ps)
    \<and> (\<forall>p \<in> set ps. \<exists>cs. pp_ProviderChunks plan p = Some cs \<and> distinct cs \<and> set cs \<subseteq> set (mf_ChunkIDs m)
         \<and> (\<forall>c \<in> set (mf_ChunkIDs m). c \<in> set cs \<longleftrightarrow> p \<in> set (slice_at (pp_Assignments plan) c))
         \<and> nat R * (length (mf_ChunkIDs m) div length ps) \<le> length cs
         \<and> length cs \<le> nat R * (length (mf_ChunkIDs m) div length ps + 1))"
  using assms by (rule placement_facts)

theorem placement_replicates_and_balances_witness:
  "let m = example_placed in
   \<exists>plan. PlanPlacement m [''p'', ''q'', ''r''] 2 = Inr plan
     \<and> (\<forall>c \<in> set (mf_ChunkIDs m). \<exists>qs. pp_Assignments plan c = Some qs \<and> distinct qs \<and> length qs = 2)"
proof -
  obtain plan where p: "PlanPlacement example_placed [''p'', ''q'', ''r''] 2 = Inr plan"
    by (simp add: PlanPlacement_def example_placed_def)
  have d: "distinct [''p'', ''q'', ''r'']" "distinct (mf_ChunkIDs example_placed)" by (simp_all add: example_placed_def)
  have "int (length qs) = 2 \<longleftrightarrow> length qs = 2" for qs :: "peerID list" by linarith
  with placement_replicates_and_balances [OF p d] p show ?thesis unfolding Let_def by metis
qed

section \<open>The tracker\<close>

datatype ReplicaState = ReplicaPending | ReplicaUploading | ReplicaCommitted | ReplicaFailed

record GlobalReplicaTracker =
  gt_state :: "ChunkID \<Rightarrow> (peerID \<times> ReplicaState) list"
  gt_requiredR :: int

definition NewGlobalReplicaTracker :: "int \<Rightarrow> GlobalReplicaTracker" where
  "NewGlobalReplicaTracker requiredR = \<lparr>gt_state = (\<lambda>_. []), gt_requiredR = requiredR\<rparr>"

definition SetStatus :: "ChunkID \<Rightarrow> peerID \<Rightarrow> ReplicaState \<Rightarrow> GlobalReplicaTracker \<Rightarrow> GlobalReplicaTracker" where
  "SetStatus chunkID p status t =
     t\<lparr>gt_state := (gt_state t)(chunkID := AList.update p status (gt_state t chunkID))\<rparr>"

definition CommittedCount :: "GlobalReplicaTracker \<Rightarrow> ChunkID \<Rightarrow> int" where
  "CommittedCount t chunkID = int (length (filter (\<lambda>(_, status). status = ReplicaCommitted) (gt_state t chunkID)))"

definition IsChunkSatisfied :: "GlobalReplicaTracker \<Rightarrow> ChunkID \<Rightarrow> bool" where
  "IsChunkSatisfied t chunkID \<longleftrightarrow> gt_requiredR t \<le> CommittedCount t chunkID"

definition IsComplete :: "GlobalReplicaTracker \<Rightarrow> ChunkID list \<Rightarrow> bool" where
  "IsComplete t chunkIDs \<longleftrightarrow> list_all (\<lambda>i. \<not> CommittedCount t i < gt_requiredR t) chunkIDs"

definition GetSummary :: "GlobalReplicaTracker \<Rightarrow> ChunkID list \<Rightarrow> nat \<times> nat" where
  "GetSummary t chunkIDs = (length (filter (\<lambda>i. gt_requiredR t \<le> CommittedCount t i) chunkIDs), length chunkIDs)"

definition tracker_wf :: "GlobalReplicaTracker \<Rightarrow> bool" where
  "tracker_wf t \<longleftrightarrow> (\<forall>i. distinct (map fst (gt_state t i)))"

definition committed :: "GlobalReplicaTracker \<Rightarrow> ChunkID \<Rightarrow> peerID set" where
  "committed t i = {p. map_of (gt_state t i) p = Some ReplicaCommitted}"

lemma SetStatus_wf [simp]: "tracker_wf t \<Longrightarrow> tracker_wf (SetStatus i p st t)"
  by (simp add: tracker_wf_def SetStatus_def distinct_update)

lemma SetStatus_requiredR [simp]: "gt_requiredR (SetStatus i p st t) = gt_requiredR t"
  by (simp add: SetStatus_def)

lemma committed_SetStatus:
  "committed (SetStatus i p st t) j = (if j = i then (if st = ReplicaCommitted then insert p (committed t i) else committed t i - {p})
     else committed t j)"
  by (auto simp: committed_def SetStatus_def update_conv')

lemma NewGlobalReplicaTracker_wf [simp]: "tracker_wf (NewGlobalReplicaTracker r)"
  by (simp add: tracker_wf_def NewGlobalReplicaTracker_def)

lemma committed_new [simp]: "committed (NewGlobalReplicaTracker r) i = {}"
  by (simp add: committed_def NewGlobalReplicaTracker_def)

lemma CommittedCount_card:
  assumes "tracker_wf t"
  shows "CommittedCount t i = int (card (committed t i))"
proof -
  let ?xs = "filter (\<lambda>(_, status). status = ReplicaCommitted) (gt_state t i)"
  have d: "distinct (map fst (gt_state t i))" using assms by (simp add: tracker_wf_def)
  then have "distinct (map fst ?xs)" by (rule distinct_map_filter)
  moreover have "set (map fst ?xs) = committed t i"
    using d by (force simp: committed_def)
  ultimately have "length ?xs = card (committed t i)" by (metis distinct_card length_map)
  then show ?thesis by (simp add: CommittedCount_def)
qed

end
