(* ===== verification/Uploader.thy ===== *)
theory Uploader
  imports PushClient Distribution "HOL-Library.Sublist"
begin

text \<open>
  The upload of a content to the providers of a placement plan, \<open>network/distribution/uploader.go\<close>. The uploads
  of one round run in parallel in the source; they write disjoint cells of the tracker and use a stream each, so
  the model runs them one after the other, in an order that is an argument, as is the order in which \<open>range\<close> visits
  the map of providers.
\<close>

section \<open>Uploads\<close>

record UploaderConfig =
  uc_MaxRetriesPerChunk :: int
  uc_FailoverRounds :: int

definition DefaultUploaderConfig :: UploaderConfig where
  "DefaultUploaderConfig = \<lparr>uc_MaxRetriesPerChunk = 3, uc_FailoverRounds = 2\<rparr>"

text \<open>The state of a distribution: the local store, the tracker, for every peer the outcomes of the next
  attempts to open a stream to it (an empty list stands for failure), and the streams closed so far.\<close>

record Upload =
  up_engine :: FSStorage
  up_tracker :: GlobalReplicaTracker
  up_net :: "peerID \<Rightarrow> stream option list"
  up_closed :: "(peerID \<times> stream) list"

definition up_status :: "peerID \<Rightarrow> ReplicaState \<Rightarrow> ChunkID \<Rightarrow> Upload \<Rightarrow> Upload" where
  "up_status p status chunkID u = u\<lparr>up_tracker := SetStatus chunkID p status (up_tracker u)\<rparr>"

definition open_push :: "peerID \<Rightarrow> Upload \<Rightarrow> PushClient option \<times> Upload" where
  "open_push p u = (case up_net u p of
     [] \<Rightarrow> (None, u)
   | st # later \<Rightarrow> (map_option (\<lambda>s. \<lparr>pcl_stream = s, pcl_peerID = p\<rparr>) st, u\<lparr>up_net := (up_net u)(p := later)\<rparr>))"

definition close_push :: "PushClient \<Rightarrow> Upload \<Rightarrow> Upload" where
  "close_push c u = u\<lparr>up_closed := up_closed u @ [(pcl_peerID c, pcl_stream c)]\<rparr>"

text \<open>The attempts to send one chunk; the error is the one of the last attempt, none before the first.\<close>

fun send_attempts ::
    "nat \<Rightarrow> push_client_error option \<Rightarrow> ContentID \<Rightarrow> Chunk \<Rightarrow> PushClient \<Rightarrow> push_client_error option \<times> PushClient" where
  "send_attempts 0 sendErr contentID chunk c = (sendErr, c)"
| "send_attempts (Suc n) sendErr contentID chunk c =
     (case SendChunk contentID chunk c of
        (Inr _, c') \<Rightarrow> (None, c')
      | (Inl e, c') \<Rightarrow> send_attempts n (Some e) contentID chunk c')"

fun upload_chunks ::
    "ContentID \<Rightarrow> peerID \<Rightarrow> int \<Rightarrow> ChunkID list \<Rightarrow> nat \<times> PushClient \<times> Upload \<Rightarrow> nat \<times> PushClient \<times> Upload" where
  "upload_chunks contentID p maxRetries [] s = s"
| "upload_chunks contentID p maxRetries (chunkID # chunks) (committedInBatch, c, u) =
     (case GetChunk chunkID (up_engine u) of
        (Inl _, s) \<Rightarrow>
          upload_chunks contentID p maxRetries chunks
            (committedInBatch, c, up_status p ReplicaFailed chunkID (u\<lparr>up_engine := s\<rparr>))
      | (Inr chunkData, s) \<Rightarrow>
          let u1 = up_status p ReplicaUploading chunkID (u\<lparr>up_engine := s\<rparr>) in
          (case send_attempts (nat maxRetries) None contentID chunkData c of
             (Some _, c') \<Rightarrow>
               upload_chunks contentID p maxRetries chunks (committedInBatch, c', up_status p ReplicaFailed chunkID u1)
           | (None, c') \<Rightarrow>
               upload_chunks contentID p maxRetries chunks
                 (Suc committedInBatch, c', up_status p ReplicaCommitted chunkID u1)))"

definition uploadToProvider ::
    "ContentID \<Rightarrow> peerID \<Rightarrow> ChunkID list \<Rightarrow> bytes \<Rightarrow> int \<Rightarrow> Upload \<Rightarrow> Upload" where
  "uploadToProvider contentID targetPeer chunks manifestBytes maxRetries u =
     (case open_push targetPeer u of
        (None, u1) \<Rightarrow> fold (up_status targetPeer ReplicaFailed) chunks u1
      | (Some c, u1) \<Rightarrow>
          (case SendManifest contentID chunks manifestBytes c of
             (Inl _, c1) \<Rightarrow> close_push c1 (fold (up_status targetPeer ReplicaFailed) chunks u1)
           | (Inr _, c1) \<Rightarrow>
               (case upload_chunks contentID targetPeer maxRetries chunks (0, c1, u1) of
                  (committedInBatch, c2, u2) \<Rightarrow>
                    close_push (if committedInBatch = length chunks then snd (SendBatchComplete contentID c2) else c2) u2)))"

section \<open>Failover\<close>

text \<open>The search for other providers of one chunk: a missing cell of the tracker reads as pending.\<close>

fun reassign_chunk ::
    "ChunkID \<Rightarrow> peerID list \<Rightarrow> int \<Rightarrow> (peerID \<Rightarrow> ChunkID list) \<times> GlobalReplicaTracker
     \<Rightarrow> (peerID \<Rightarrow> ChunkID list) \<times> GlobalReplicaTracker" where
  "reassign_chunk cid [] needed s = s"
| "reassign_chunk cid (p # ps) needed (reassignments, t) =
     (if needed \<le> 0 then (reassignments, t)
      else
        let status = (case map_of (gt_state t cid) p of None \<Rightarrow> ReplicaPending | Some st \<Rightarrow> st) in
        if status \<noteq> ReplicaCommitted \<and> status \<noteq> ReplicaUploading
        then reassign_chunk cid ps (needed - 1)
               (reassignments(p := reassignments p @ [cid]), SetStatus cid p ReplicaPending t)
        else reassign_chunk cid ps needed (reassignments, t))"

definition reassign ::
    "int \<Rightarrow> peerID list \<Rightarrow> ChunkID list \<Rightarrow> GlobalReplicaTracker \<Rightarrow> (peerID \<Rightarrow> ChunkID list) \<times> GlobalReplicaTracker" where
  "reassign replication activeProviders allChunks t =
     fold (\<lambda>cid s. let needed = replication - CommittedCount (snd s) cid
                   in if needed \<le> 0 then s else reassign_chunk cid activeProviders needed s)
       allChunks (\<lambda>_. [], t)"

definition upload_round ::
    "ContentID \<Rightarrow> bytes \<Rightarrow> int \<Rightarrow> (peerID \<Rightarrow> ChunkID list) \<Rightarrow> peerID list \<Rightarrow> Upload \<Rightarrow> Upload" where
  "upload_round contentID manifestBytes maxRetries assigned peers u =
     fold (\<lambda>p u. if assigned p = [] then u
                 else uploadToProvider contentID p (assigned p) manifestBytes maxRetries u) peers u"

fun failover ::
    "nat \<Rightarrow> UploaderConfig \<Rightarrow> PlacementPlan \<Rightarrow> bytes \<Rightarrow> peerID list \<Rightarrow> Upload \<Rightarrow> Upload" where
  "failover 0 cfg plan manifestBytes activeProviders u = u"
| "failover (Suc n) cfg plan manifestBytes activeProviders u =
     (let allChunks = mf_ChunkIDs (pp_Manifest plan) in
      if IsComplete (up_tracker u) allChunks then u
      else
        case reassign (pp_Replication plan) activeProviders allChunks (up_tracker u) of
          (reassignments, t) \<Rightarrow>
            if list_all (\<lambda>p. reassignments p = []) activeProviders then u\<lparr>up_tracker := t\<rparr>
            else failover n cfg plan manifestBytes activeProviders
              (upload_round (pp_ContentID plan) manifestBytes (uc_MaxRetriesPerChunk cfg) reassignments activeProviders
                 (u\<lparr>up_tracker := t\<rparr>)))"

section \<open>Distribution\<close>

datatype distribute_error =
    ManifestBytes storage_error
  | ReplicationViolated nat nat int

definition mark_pending :: "PlacementPlan \<Rightarrow> GlobalReplicaTracker \<Rightarrow> GlobalReplicaTracker" where
  "mark_pending plan t =
     fold (\<lambda>chunkID t. fold (\<lambda>p. SetStatus chunkID p ReplicaPending) (slice_at (pp_Assignments plan) chunkID) t)
       (mf_ChunkIDs (pp_Manifest plan)) t"

definition Distribute ::
    "UploaderConfig \<Rightarrow> peerID list \<Rightarrow> PlacementPlan \<Rightarrow> (Upload, distribute_error, unit) stateful" where
  "Distribute cfg order plan u =
     (case GetManifestBytes (pp_ContentID plan) (up_engine u) of
        (Inl e, s) \<Rightarrow> (Inl (ManifestBytes e), u\<lparr>up_engine := s\<rparr>)
      | (Inr manifestBytes, s) \<Rightarrow>
          let allChunks = mf_ChunkIDs (pp_Manifest plan);
              u0 = u\<lparr>up_engine := s, up_tracker := mark_pending plan (up_tracker u)\<rparr>;
              activeProviders = filter (\<lambda>p. slice_at (pp_ProviderChunks plan) p \<noteq> []) order;
              u1 = upload_round (pp_ContentID plan) manifestBytes (uc_MaxRetriesPerChunk cfg)
                     (slice_at (pp_ProviderChunks plan)) activeProviders u0
          in if IsComplete (up_tracker u1) allChunks then (Inr (), u1)
             else
               let u2 = failover (nat (uc_FailoverRounds cfg)) cfg plan manifestBytes activeProviders u1
               in if \<not> IsComplete (up_tracker u2) allChunks
                  then (case GetSummary (up_tracker u2) allChunks of (satisfied, total_chunks) \<Rightarrow>
                          (Inl (ReplicationViolated satisfied total_chunks (pp_Replication plan)), u2))
                  else (Inr (), u2))"

section \<open>Acknowledged chunks\<close>

text \<open>The bytes a peer sends contain an acknowledgement of the chunk with status OK.\<close>

definition acks_chunk :: "bytes \<Rightarrow> ChunkID \<Rightarrow> bool" where
  "acks_chunk b i \<longleftrightarrow> (\<exists>pre m rest. b = pre @ push_frame m @ rest \<and> pm_Type m = MsgPushChunkAck
     \<and> ParsePushChunkAck (pm_Payload m) = Inr (i, PushStatusOK))"

definition pcl_input :: "PushClient \<Rightarrow> bytes" where
  "pcl_input c = rd_data (sm_in (pcl_stream c))"

lemma acks_chunk_suffix: "acks_chunk b i \<Longrightarrow> suffix b b' \<Longrightarrow> acks_chunk b' i"
  unfolding acks_chunk_def suffix_def by (metis append_assoc)

lemma ReadFull_suffix: "ReadFull n r = (x, r') \<Longrightarrow> suffix (rd_data r') (rd_data r)"
  by (auto simp: ReadFull_def suffix_drop split: if_splits)

lemma ReadPushMessage_suffix: "ReadPushMessage r = (x, r') \<Longrightarrow> suffix (rd_data r') (rd_data r)"
  by (auto simp: ReadPushMessage_def Let_def dest!: ReadFull_suffix intro: suffix_order.trans
      split: prod.splits sum.splits if_splits)

lemma push_call_input:
  assumes "push_call req t parse i c = (x, c')"
  shows "suffix (pcl_input c') (pcl_input c)" and "pcl_peerID c' = pcl_peerID c"
    and "x = Inr u \<Longrightarrow> \<exists>m rest. pcl_input c = push_frame m @ rest \<and> pm_Type m = t \<and> parse (pm_Payload m) = Inr (i, PushStatusOK)"
proof -
  obtain y rd where r: "ReadPushMessage (sm_in (pcl_stream c)) = (y, rd)" by fastforce
  show "suffix (pcl_input c') (pcl_input c)" "pcl_peerID c' = pcl_peerID c"
    using assms ReadPushMessage_suffix [OF r] r by (auto simp: push_call_def pcl_input_def split: prod.splits sum.splits)
  assume "x = Inr u"
  with assms r obtain m where m: "y = Inr m" "pm_Type m = t" "parse (pm_Payload m) = Inr (i, PushStatusOK)"
    by (auto simp: push_call_def split: prod.splits sum.splits if_splits)
  with ReadPushMessage_ok [of "sm_in (pcl_stream c)" m rd] r
  show "\<exists>m rest. pcl_input c = push_frame m @ rest \<and> pm_Type m = t \<and> parse (pm_Payload m) = Inr (i, PushStatusOK)"
    by (auto simp: pcl_input_def)
qed

lemma SendChunk_acks:
  assumes "SendChunk cid ch c = (x, c')"
  shows "suffix (pcl_input c') (pcl_input c)" and "pcl_peerID c' = pcl_peerID c"
    and "x = Inr u \<Longrightarrow> acks_chunk (pcl_input c) (hd_ID (ck_Header ch))"
  using push_call_input [OF assms [unfolded SendChunk_def]] unfolding acks_chunk_def
  by (auto intro: exI [of _ "[]"]) (metis append_Nil)

lemma send_attempts_acks:
  "send_attempts n e cid ch c = (e', c') \<Longrightarrow> 0 < n \<or> e \<noteq> None \<Longrightarrow>
     suffix (pcl_input c') (pcl_input c) \<and> pcl_peerID c' = pcl_peerID c
     \<and> (e' = None \<longrightarrow> acks_chunk (pcl_input c) (hd_ID (ck_Header ch)))"
proof (induction n arbitrary: e c)
  case (Suc n)
  obtain x c1 where x: "SendChunk cid ch c = (x, c1)" by fastforce
  note s = SendChunk_acks [OF x]
  show ?case
  proof (cases x)
    case (Inl e1)
    with Suc.prems(1) x have "send_attempts n (Some e1) cid ch c1 = (e', c')" by simp
    from Suc.IH [OF this] s(1,2) show ?thesis by (auto intro: suffix_order.trans acks_chunk_suffix)
  next
    case (Inr u)
    with Suc.prems(1) x s show ?thesis by auto
  qed
qed auto

lemma GetChunk_held:
  assumes "chunk_files s" and "length i = 32" and "GetChunk i s = (r, t)"
  shows "chunk_files t" and "r = Inr ch \<Longrightarrow> hd_ID (ck_Header ch) = i"
proof -
  obtain f s' where f: "next_fault s = (f, s')" by fastforce
  note ff = next_fault_files [OF f]
  have t: "fs_files t = fs_files s" "fs_baseDir t = fs_baseDir s" using GetChunk_files [OF assms(3)] by simp_all
  show "chunk_files t" by (rule chunk_files_same(2) [OF _ assms(1)]) (simp add: t path_base [OF t(2)])
  assume "r = Inr ch"
  with assms(3) f ff obtain content where c: "fs_files s (pathForChunk s i) = Some content"
      "get_header (bytes_reader content) = (Inr (ck_Header ch), bytes_reader (ck_Data ch))"
    by (auto simp: GetChunk_def path_base [of s' s] get_header_def ReadFull_bytes
        split: prod.splits option.splits if_splits sum.splits)
  have "holds_chunk s i" using assms(1,2) c(1) unfolding chunk_files_def by blast
  with c(1) obtain h d where h: "content = put_header h @ d" "header_wf h" "hd_ID h = i"
    by (auto simp: holds_chunk_def)
  with c(2) show "hd_ID (ck_Header ch) = i" by (simp add: get_header_put_header bytes_reader_def)
qed

definition acknowledged :: "Upload \<Rightarrow> peerID \<Rightarrow> ChunkID \<Rightarrow> bool" where
  "acknowledged u p i \<longleftrightarrow> (\<exists>st. Some st \<in> set (up_net u p) \<and> acks_chunk (rd_data (sm_in st)) i)"

text \<open>The invariant of a distribution that started in \<open>u0\<close>.\<close>

definition acked_only :: "Upload \<Rightarrow> Upload \<Rightarrow> bool" where
  "acked_only u0 u \<longleftrightarrow> chunk_files (up_engine u) \<and> tracker_wf (up_tracker u)
     \<and> gt_requiredR (up_tracker u) = gt_requiredR (up_tracker u0)
     \<and> (\<forall>p. suffix (up_net u p) (up_net u0 p))
     \<and> (\<forall>i p. p \<in> committed (up_tracker u) i \<longrightarrow> acknowledged u0 p i)"

lemma acked_only_status:
  "acked_only u0 u \<Longrightarrow> st = ReplicaCommitted \<longrightarrow> acknowledged u0 p i \<Longrightarrow> acked_only u0 (up_status p st i u)"
  by (auto simp: acked_only_def up_status_def committed_SetStatus split: if_splits)

lemma acked_only_fold:
  "acked_only u0 u \<Longrightarrow> st \<noteq> ReplicaCommitted \<Longrightarrow> acked_only u0 (fold (up_status p st) is u)"
  by (induction "is" arbitrary: u) (simp_all add: acked_only_status)

lemma acked_only_engine: "acked_only u0 u \<Longrightarrow> chunk_files s \<Longrightarrow> acked_only u0 (u\<lparr>up_engine := s\<rparr>)"
  by (simp add: acked_only_def)

lemma acked_only_close [simp]: "acked_only u0 (close_push c u) = acked_only u0 u"
  by (simp add: acked_only_def close_push_def)

lemma acked_only_tracker:
  assumes "acked_only u0 u" and "tracker_wf t" and "gt_requiredR t = gt_requiredR (up_tracker u)"
    and "\<And>i. committed t i \<subseteq> committed (up_tracker u) i"
  shows "acked_only u0 (u\<lparr>up_tracker := t\<rparr>)"
  using assms(1-3) subsetD [OF assms(4)] unfolding acked_only_def by simp

lemma upload_chunks_acked:
  assumes "0 < retries"
  shows "acked_only u0 u \<Longrightarrow> list_all (\<lambda>i. length i = 32) is \<Longrightarrow> Some st \<in> set (up_net u0 p) \<Longrightarrow>
    suffix (pcl_input c) (rd_data (sm_in st)) \<Longrightarrow> acked_only u0 (snd (snd (upload_chunks cid p retries is (n, c, u))))"
proof (induction "is" arbitrary: n c u)
  case (Cons i "is")
  obtain x s where g: "GetChunk i (up_engine u) = (x, s)" by fastforce
  have held: "chunk_files s" "x = Inr ch \<Longrightarrow> hd_ID (ck_Header ch) = i" for ch
    using GetChunk_held [OF _ _ g] Cons.prems(1,2) by (auto simp: acked_only_def)
  note eng = acked_only_engine [OF Cons.prems(1) held(1)]
  show ?case
  proof (cases x)
    case (Inl e)
    with g Cons.IH [OF acked_only_status [OF eng, of ReplicaFailed]] Cons.prems(2-4) show ?thesis by simp
  next
    case (Inr ch)
    obtain e c1 where a: "send_attempts (nat retries) None cid ch c = (e, c1)" by fastforce
    note sa = send_attempts_acks [OF a] held(2) [OF Inr]
    have suf: "suffix (pcl_input c1) (rd_data (sm_in st))"
      using sa(1) assms Cons.prems(4) by (auto intro: suffix_order.trans)
    have ack: "e = None \<longrightarrow> acknowledged u0 p i"
      using sa assms Cons.prems(3,4) by (auto simp: acknowledged_def intro: acks_chunk_suffix)
    let ?u1 = "up_status p ReplicaUploading i (u\<lparr>up_engine := s\<rparr>)"
    have u1: "acked_only u0 ?u1" using acked_only_status [OF eng] by simp
    have "acked_only u0 (up_status p ReplicaFailed i ?u1)" "e = None \<Longrightarrow> acked_only u0 (up_status p ReplicaCommitted i ?u1)"
      using acked_only_status [OF u1] ack by simp_all
    with g Inr a Cons.IH [OF _ _ Cons.prems(3) suf] Cons.prems(2) show ?thesis by (cases e) simp_all
  qed
qed simp

lemma uploadToProvider_acked:
  assumes "acked_only u0 u" and "0 < retries" and "list_all (\<lambda>i. length i = 32) is"
  shows "acked_only u0 (uploadToProvider cid p is mb retries u)"
proof (cases "up_net u p")
  case Nil
  with assms show ?thesis by (simp add: uploadToProvider_def open_push_def acked_only_fold)
next
  case (Cons st later)
  let ?u1 = "u\<lparr>up_net := (up_net u)(p := later)\<rparr>"
  have suf: "suffix (st # later) (up_net u0 p)" using assms(1) Cons by (metis acked_only_def)
  then have mem: "st \<in> set (up_net u0 p)" and "suffix later (up_net u0 p)"
    by (auto simp: suffix_def)
  then have u1: "acked_only u0 ?u1" using assms(1) by (simp add: acked_only_def)
  show ?thesis
  proof (cases st)
    case None
    with Cons acked_only_fold [OF u1] show ?thesis by (simp add: uploadToProvider_def open_push_def)
  next
    case (Some s)
    let ?c = "\<lparr>pcl_stream = s, pcl_peerID = p\<rparr>"
    obtain x c1 where m: "SendManifest cid is mb ?c = (x, c1)" by fastforce
    have "suffix (pcl_input c1) (rd_data (sm_in s))"
      using push_call_input(1) [OF m [unfolded SendManifest_def]] by (simp add: pcl_input_def)
    from upload_chunks_acked [OF assms(2) u1 assms(3) mem [unfolded Some] this, of cid 0] acked_only_fold [OF u1] Cons Some m
    show ?thesis by (cases "upload_chunks cid p retries is (0, c1, ?u1)") (auto simp: uploadToProvider_def open_push_def split: sum.splits)
  qed
qed

lemma upload_round_acked:
  "acked_only u0 u \<Longrightarrow> 0 < retries \<Longrightarrow> \<forall>p \<in> set ps. list_all (\<lambda>i. length i = 32) (assigned p) \<Longrightarrow>
     acked_only u0 (upload_round cid mb retries assigned ps u)"
  unfolding upload_round_def by (induction ps arbitrary: u) (simp_all add: uploadToProvider_acked)

lemma reassign_chunk_keeps:
  "reassign_chunk i ps k (ra, t) = (ra', t') \<Longrightarrow> tracker_wf t \<Longrightarrow>
     tracker_wf t' \<and> gt_requiredR t' = gt_requiredR t \<and> (\<forall>j. committed t' j \<subseteq> committed t j)
     \<and> (\<forall>p. set (ra' p) \<subseteq> insert i (set (ra p)))"
proof (induction ps arbitrary: k ra t)
  case (Cons p ps)
  let ?st = "case map_of (gt_state t i) p of None \<Rightarrow> ReplicaPending | Some st \<Rightarrow> st"
  consider "k \<le> 0" | "0 < k" "?st = ReplicaCommitted \<or> ?st = ReplicaUploading"
    | "0 < k" "?st \<noteq> ReplicaCommitted" "?st \<noteq> ReplicaUploading" by linarith
  then show ?case
  proof cases
    case 3
    with Cons.prems(1) have "reassign_chunk i ps (k - 1) (ra(p := ra p @ [i]), SetStatus i p ReplicaPending t) = (ra', t')"
      by (simp add: Let_def)
    note IH = Cons.IH [OF this SetStatus_wf [OF Cons.prems(2)]]
    have "committed (SetStatus i p ReplicaPending t) j \<subseteq> committed t j" for j by (auto simp: committed_SetStatus)
    moreover have "insert i (set ((ra(p := ra p @ [i])) q)) = insert i (set (ra q))" for q by auto
    ultimately show ?thesis using IH by (metis SetStatus_requiredR subset_trans)
  next
    case 1
    with Cons.prems show ?thesis by auto
  next
    case 2
    with Cons.prems(1) have "reassign_chunk i ps k (ra, t) = (ra', t')" by (auto simp: Let_def)
    from Cons.IH [OF this Cons.prems(2)] show ?thesis .
  qed
qed auto

lemma reassign_keeps:
  assumes "reassign R ps is t = (ra, t')" and "tracker_wf t"
  shows "tracker_wf t' \<and> gt_requiredR t' = gt_requiredR t \<and> (\<forall>j. committed t' j \<subseteq> committed t j) \<and> (\<forall>p. set (ra p) \<subseteq> set is)"
proof -
  let ?f = "\<lambda>cid s. let needed = R - CommittedCount (snd s) cid in if needed \<le> 0 then s else reassign_chunk cid ps needed s"
  have "fold ?f is (r0, t) = (ra, t') \<Longrightarrow> tracker_wf t \<Longrightarrow> tracker_wf t' \<and> gt_requiredR t' = gt_requiredR t
      \<and> (\<forall>j. committed t' j \<subseteq> committed t j) \<and> (\<forall>p. set (ra p) \<subseteq> set (r0 p) \<union> set is)" for r0
  proof (induction "is" arbitrary: r0 t)
    case (Cons i "is")
    obtain r1 t1 where 1: "?f i (r0, t) = (r1, t1)" by fastforce
    then have "tracker_wf t1 \<and> gt_requiredR t1 = gt_requiredR t \<and> (\<forall>j. committed t1 j \<subseteq> committed t j)
        \<and> (\<forall>p. set (r1 p) \<subseteq> insert i (set (r0 p)))"
      using Cons.prems(2) reassign_chunk_keeps [of i ps _ r0 t r1 t1] by (auto simp: Let_def split: if_splits)
    moreover have "fold ?f is (r1, t1) = (ra, t')" using Cons.prems(1) by (simp only: fold.simps comp_def 1)
    ultimately show ?case using Cons.IH [of r1 t1] by (simp add: subset_eq) blast
  qed auto
  from this [of "\<lambda>_. []"] assms show ?thesis by (simp add: reassign_def)
qed

lemma failover_acked:
  assumes "0 < uc_MaxRetriesPerChunk cfg" and "list_all (\<lambda>i. length i = 32) (mf_ChunkIDs (pp_Manifest plan))"
  shows "acked_only u0 u \<Longrightarrow> acked_only u0 (failover n cfg plan mb ps u)"
proof (induction n arbitrary: u)
  case (Suc n)
  let ?is = "mf_ChunkIDs (pp_Manifest plan)"
  obtain ra t where r: "reassign (pp_Replication plan) ps ?is (up_tracker u) = (ra, t)" by fastforce
  have keep: "tracker_wf t" "gt_requiredR t = gt_requiredR (up_tracker u)" "committed t j \<subseteq> committed (up_tracker u) j"
    "set (ra p) \<subseteq> set ?is" for j p
    using reassign_keeps [OF r] Suc.prems by (simp_all add: acked_only_def)
  then have "acked_only u0 (u\<lparr>up_tracker := t\<rparr>)" using acked_only_tracker [OF Suc.prems] by blast
  moreover from this have "acked_only u0 (upload_round (pp_ContentID plan) mb (uc_MaxRetriesPerChunk cfg) ra ps (u\<lparr>up_tracker := t\<rparr>))"
    using assms keep(4) by (intro upload_round_acked) (auto simp: list_all_iff)
  ultimately show ?case using Suc r by (simp add: Let_def)
qed simp

lemma mark_pending_keeps:
  assumes "tracker_wf t"
  shows "tracker_wf (mark_pending plan t)" and "gt_requiredR (mark_pending plan t) = gt_requiredR t"
    and "committed (mark_pending plan t) i \<subseteq> committed t i"
proof -
  have inner: "tracker_wf t \<Longrightarrow> tracker_wf (fold (\<lambda>p. SetStatus c p ReplicaPending) ps t)
      \<and> gt_requiredR (fold (\<lambda>p. SetStatus c p ReplicaPending) ps t) = gt_requiredR t
      \<and> committed (fold (\<lambda>p. SetStatus c p ReplicaPending) ps t) i \<subseteq> committed t i" for c ps t
  proof (induction ps arbitrary: t)
    case (Cons p ps)
    have "committed (SetStatus c p ReplicaPending t) i \<subseteq> committed t i" by (auto simp: committed_SetStatus)
    with Cons.IH [OF SetStatus_wf [OF Cons.prems], of c p ReplicaPending] show ?case by auto
  qed simp
  have "tracker_wf t \<Longrightarrow> tracker_wf (fold (\<lambda>c t. fold (\<lambda>p. SetStatus c p ReplicaPending) (slice_at (pp_Assignments plan) c) t) is t)
      \<and> gt_requiredR (fold (\<lambda>c t. fold (\<lambda>p. SetStatus c p ReplicaPending) (slice_at (pp_Assignments plan) c) t) is t) = gt_requiredR t
      \<and> committed (fold (\<lambda>c t. fold (\<lambda>p. SetStatus c p ReplicaPending) (slice_at (pp_Assignments plan) c) t) is t) i \<subseteq> committed t i"
    for "is" t
  proof (induction "is" arbitrary: t)
    case (Cons c "is")
    from inner [OF Cons.prems, of c "slice_at (pp_Assignments plan) c"] Cons.IH show ?case by auto
  qed simp
  from this [OF assms] show "tracker_wf (mark_pending plan t)" "gt_requiredR (mark_pending plan t) = gt_requiredR t"
    "committed (mark_pending plan t) i \<subseteq> committed t i" by (simp_all add: mark_pending_def)
qed

lemma Distribute_acked:
  assumes "up_tracker u = NewGlobalReplicaTracker R" and "chunk_files (up_engine u)"
    and "list_all (\<lambda>i. length i = 32) (mf_ChunkIDs (pp_Manifest plan))"
    and "\<forall>p. set (slice_at (pp_ProviderChunks plan) p) \<subseteq> set (mf_ChunkIDs (pp_Manifest plan))"
    and "0 < uc_MaxRetriesPerChunk cfg" and "Distribute cfg order plan u = (Inr (), u')"
  shows "acked_only u u' \<and> IsComplete (up_tracker u') (mf_ChunkIDs (pp_Manifest plan))"
proof -
  from assms(6) obtain mb s where g: "GetManifestBytes (pp_ContentID plan) (up_engine u) = (Inr mb, s)"
    by (auto simp: Distribute_def split: prod.splits sum.splits)
  have "fs_files s = fs_files (up_engine u)" "fs_baseDir s = fs_baseDir (up_engine u)"
    using g next_fault_files [of "up_engine u"]
    by (auto simp: GetManifestBytes_def split: prod.splits fault.splits option.splits)
  then have s: "chunk_files s" by (intro chunk_files_same(2) [OF _ assms(2)]) (simp add: path_base [of s "up_engine u"])
  let ?u0 = "u\<lparr>up_engine := s, up_tracker := mark_pending plan (up_tracker u)\<rparr>"
  let ?ps = "filter (\<lambda>p. slice_at (pp_ProviderChunks plan) p \<noteq> []) order"
  let ?u1 = "upload_round (pp_ContentID plan) mb (uc_MaxRetriesPerChunk cfg) (slice_at (pp_ProviderChunks plan)) ?ps ?u0"
  have "acked_only u ?u0"
    using assms(1) s mark_pending_keeps [of "up_tracker u" plan] by (auto simp: acked_only_def subset_iff)
  then have u1: "acked_only u ?u1"
    using assms(3-5) by (intro upload_round_acked) (auto simp: list_all_iff)
  from failover_acked [OF assms(5,3) u1] u1 assms(6) g show ?thesis
    by (auto simp: Distribute_def Let_def split: if_splits prod.splits)
qed

section \<open>Properties\<close>

text \<open>A distribution that reports success has replicated every chunk: with a fresh tracker that requires
  \<open>R\<close> replicas, whole chunk files in the local store and at least one attempt per chunk, when \<open>Distribute\<close> returns
  without error, then for every chunk of the manifest there are at least \<open>R\<close> different providers each of which sent, on a stream
  of this distribution, an acknowledgement of that chunk with status OK, whatever else the peers sent, whichever streams failed, and in
  whatever order the uploads ran.\<close>

lemma distribution_success_acknowledged:
  assumes "up_tracker u = NewGlobalReplicaTracker R" and "chunk_files (up_engine u)"
    and "list_all (\<lambda>i. length i = 32) (mf_ChunkIDs (pp_Manifest plan))"
    and "\<forall>p. set (slice_at (pp_ProviderChunks plan) p) \<subseteq> set (mf_ChunkIDs (pp_Manifest plan))"
    and "0 < uc_MaxRetriesPerChunk cfg" and "Distribute cfg order plan u = (Inr (), u')"
  shows "\<forall>c \<in> set (mf_ChunkIDs (pp_Manifest plan)). \<exists>P. finite P \<and> R \<le> int (card P) \<and> (\<forall>p \<in> P. acknowledged u p c)"
proof
  fix c
  assume c: "c \<in> set (mf_ChunkIDs (pp_Manifest plan))"
  note d = Distribute_acked [OF assms]
  then have wf: "tracker_wf (up_tracker u')" and R: "gt_requiredR (up_tracker u') = R"
    using assms(1) by (simp_all add: acked_only_def NewGlobalReplicaTracker_def)
  have "R \<le> CommittedCount (up_tracker u') c"
    using d c R by (auto simp: IsComplete_def list_all_iff)
  then have "R \<le> int (card (committed (up_tracker u') c))" by (simp add: CommittedCount_card [OF wf])
  moreover have "committed (up_tracker u') c \<subseteq> fst ` set (gt_state (up_tracker u') c)"
    by (auto simp: committed_def dest!: map_of_SomeD intro: rev_image_eqI)
  then have "finite (committed (up_tracker u') c)" by (rule finite_subset) simp
  ultimately show "\<exists>P. finite P \<and> R \<le> int (card P) \<and> (\<forall>p \<in> P. acknowledged u p c)"
    using d by (auto simp: acked_only_def)
qed

end
