(* ===== verification/Replication.thy ===== *)
theory Replication
  imports Uploader
begin

text \<open>
  Planner, uploader, push client and push handler together: a distribution to providers that follow the protocol,
  and the cases in which a distribution reports success although a provider did not complete its batch.
\<close>

section \<open>An upload to a provider that acknowledges everything\<close>

abbreviation chunk_acks :: "ChunkID list \<Rightarrow> bytes" where
  "chunk_acks is \<equiv> concat (map (\<lambda>i. push_frame (BuildPushChunkAck i PushStatusOK)) is)"

abbreviation chunk_frames :: "ContentID \<Rightarrow> (ChunkID \<Rightarrow> Chunk) \<Rightarrow> ChunkID list \<Rightarrow> bytes" where
  "chunk_frames cid held is \<equiv> concat (map (\<lambda>i. push_frame (BuildPushChunk cid (held i))) is)"

text \<open>The local store returns these chunks, and they can be pushed.\<close>

definition stocked :: "FSStorage \<Rightarrow> ContentID \<Rightarrow> (ChunkID \<Rightarrow> Chunk) \<Rightarrow> ChunkID list \<Rightarrow> bool" where
  "stocked s cid held is \<longleftrightarrow> (\<forall>i \<in> set is. GetChunk i s = (Inr (held i), s) \<and> pushable cid i (held i))"

lemma up_status_simps [simp]:
  "up_engine (up_status p st i u) = up_engine u" "up_net (up_status p st i u) = up_net u"
  "up_closed (up_status p st i u) = up_closed u"
  "up_tracker (up_status p st i u) = SetStatus i p st (up_tracker u)"
  by (simp_all add: up_status_def)

lemma send_attempts_acked:
  assumes "0 < n" and "pushable cid i ch"
    and "pcl_stream c = fresh_stream (push_frame (BuildPushChunkAck i PushStatusOK) @ a) out"
  shows "send_attempts n e cid ch c = (None, c\<lparr>pcl_stream := fresh_stream a (out @ push_frame (BuildPushChunk cid ch))\<rparr>)"
proof -
  have "hd_ID (ck_Header ch) = i" "length i = 32" "push_fits (BuildPushChunk cid ch)"
    using assms(2) pushable_length [OF assms(2)] by (simp_all add: pushable_def)
  with SendChunk_acked [of ch cid c a out] assms(1,3) show ?thesis by (cases n) simp_all
qed

lemma upload_chunks_honest:
  assumes "0 < retries"
  shows "stocked (up_engine u) cid held is \<Longrightarrow> pcl_stream c = fresh_stream (chunk_acks is @ a) out \<Longrightarrow> tracker_wf (up_tracker u) \<Longrightarrow>
    \<exists>u'. upload_chunks cid p retries is (n, c, u)
        = (n + length is, c\<lparr>pcl_stream := fresh_stream a (out @ chunk_frames cid held is)\<rparr>, u')
      \<and> up_engine u' = up_engine u \<and> up_net u' = up_net u \<and> up_closed u' = up_closed u \<and> tracker_wf (up_tracker u')
      \<and> gt_requiredR (up_tracker u') = gt_requiredR (up_tracker u)
      \<and> (\<forall>i. committed (up_tracker u) i \<subseteq> committed (up_tracker u') i \<and> (i \<in> set is \<longrightarrow> p \<in> committed (up_tracker u') i))"
proof (induction "is" arbitrary: n c u out)
  case (Cons i "is")
  let ?c1 = "c\<lparr>pcl_stream := fresh_stream (chunk_acks is @ a) (out @ push_frame (BuildPushChunk cid (held i)))\<rparr>"
  let ?u1 = "up_status p ReplicaCommitted i (up_status p ReplicaUploading i u)"
  have g: "GetChunk i (up_engine u) = (Inr (held i), up_engine u)" "pushable cid i (held i)"
    using Cons.prems(1) by (simp_all add: stocked_def)
  have s: "send_attempts (nat retries) None cid (held i) c = (None, ?c1)"
    using send_attempts_acked [OF _ g(2), of "nat retries" c] assms Cons.prems(2) by simp
  have "u\<lparr>up_engine := up_engine u\<rparr> = u" by simp
  then have step: "upload_chunks cid p retries (i # is) (n, c, u) = upload_chunks cid p retries is (Suc n, ?c1, ?u1)"
    using g s by (simp add: Let_def)
  have "committed (up_tracker u) j \<subseteq> committed (up_tracker ?u1) j" "p \<in> committed (up_tracker ?u1) i" for j
    by (auto simp: committed_SetStatus)
  moreover have "stocked (up_engine ?u1) cid held is" "tracker_wf (up_tracker ?u1)"
    using Cons.prems(1,3) by (simp_all add: stocked_def)
  moreover from this Cons.IH [of ?u1 ?c1 "out @ push_frame (BuildPushChunk cid (held i))" "Suc n"]
  obtain u' where "upload_chunks cid p retries is (Suc n, ?c1, ?u1)
        = (Suc n + length is, ?c1\<lparr>pcl_stream := fresh_stream a ((out @ push_frame (BuildPushChunk cid (held i))) @ chunk_frames cid held is)\<rparr>, u')"
      "up_engine u' = up_engine u" "up_net u' = up_net u" "up_closed u' = up_closed u" "tracker_wf (up_tracker u')"
      "gt_requiredR (up_tracker u') = gt_requiredR (up_tracker u)"
      "\<forall>i. committed (up_tracker ?u1) i \<subseteq> committed (up_tracker u') i \<and> (i \<in> set is \<longrightarrow> p \<in> committed (up_tracker u') i)"
    by auto
  ultimately show ?case unfolding step by (intro exI [of _ u']) (auto simp del: up_status_simps(4))
qed auto

text \<open>The stream at its end, when the provider sends \<open>tail\<close> after its last chunk acknowledgement.\<close>

definition finished :: "ContentID \<Rightarrow> bytes \<Rightarrow> (ChunkID \<Rightarrow> Chunk) \<Rightarrow> ChunkID list \<Rightarrow> bytes \<Rightarrow> stream" where
  "finished cid mb held is tail = pcl_stream (snd (SendBatchComplete cid
     \<lparr>pcl_stream = fresh_stream tail (push_frame (BuildPushManifest cid is mb) @ chunk_frames cid held is), pcl_peerID = []\<rparr>))"

lemma SendBatchComplete_stream:
  "pcl_stream c = pcl_stream c' \<Longrightarrow> pcl_stream (snd (SendBatchComplete cid c)) = pcl_stream (snd (SendBatchComplete cid c'))"
  by (simp add: SendBatchComplete_def push_call_def split: prod.splits sum.splits)

lemma SendBatchComplete_peer [simp]: "pcl_peerID (snd (SendBatchComplete cid c)) = pcl_peerID c"
  by (simp add: SendBatchComplete_def push_call_def split: prod.splits sum.splits)

lemma finished_acked:
  "length cid = 32 \<Longrightarrow> finished cid mb held is (push_frame (BuildPushBatchCompleteAck cid PushStatusOK))
     = fresh_stream [] (push_requests cid is mb held)"
  by (simp add: finished_def SendBatchComplete_acked [where a = "[]"] push_requests_def)

lemma uploadToProvider_honest:
  assumes "0 < retries" and "length cid = 32" and "push_fits (BuildPushManifest cid is mb)"
    and "stocked (up_engine u) cid held is" and "tracker_wf (up_tracker u)"
    and "up_net u p = Some (fresh_stream (push_frame (BuildPushManifestAck cid PushStatusOK) @ chunk_acks is @ tail) []) # later"
    and "u' = uploadToProvider cid p is mb retries u"
  shows "up_engine u' = up_engine u \<and> up_net u' = (up_net u)(p := later)
      \<and> up_closed u' = up_closed u @ [(p, finished cid mb held is tail)] \<and> tracker_wf (up_tracker u')
      \<and> gt_requiredR (up_tracker u') = gt_requiredR (up_tracker u)
      \<and> (\<forall>i. committed (up_tracker u) i \<subseteq> committed (up_tracker u') i \<and> (i \<in> set is \<longrightarrow> p \<in> committed (up_tracker u') i))"
proof -
  let ?u1 = "u\<lparr>up_net := (up_net u)(p := later)\<rparr>"
  let ?c = "\<lparr>pcl_stream = fresh_stream (push_frame (BuildPushManifestAck cid PushStatusOK) @ chunk_acks is @ tail) [], pcl_peerID = p\<rparr>"
  have o: "open_push p u = (Some ?c, ?u1)" using assms(6) by (simp add: open_push_def)
  let ?c1 = "?c\<lparr>pcl_stream := fresh_stream (chunk_acks is @ tail) (push_frame (BuildPushManifest cid is mb))\<rparr>"
  let ?c2 = "?c\<lparr>pcl_stream := fresh_stream tail (push_frame (BuildPushManifest cid is mb) @ chunk_frames cid held is)\<rparr>"
  have m: "SendManifest cid is mb ?c = (Inr (), ?c1)" using SendManifest_acked [OF assms(2,3), of ?c] by simp
  have "stocked (up_engine ?u1) cid held is" "tracker_wf (up_tracker ?u1)" using assms(4,5) by simp_all
  with upload_chunks_honest [OF assms(1), of ?u1 cid held "is" ?c1 tail "push_frame (BuildPushManifest cid is mb)" p 0]
  obtain u2 where u2: "upload_chunks cid p retries is (0, ?c1, ?u1) = (length is, ?c2, u2)"
      "up_engine u2 = up_engine u" "up_net u2 = (up_net u)(p := later)" "up_closed u2 = up_closed u" "tracker_wf (up_tracker u2)"
      "gt_requiredR (up_tracker u2) = gt_requiredR (up_tracker u)"
      "\<forall>i. committed (up_tracker u) i \<subseteq> committed (up_tracker u2) i \<and> (i \<in> set is \<longrightarrow> p \<in> committed (up_tracker u2) i)"
    by auto
  have b: "pcl_stream (snd (SendBatchComplete cid ?c2)) = finished cid mb held is tail"
    unfolding finished_def by (rule SendBatchComplete_stream) simp
  show ?thesis
    unfolding assms(7) uploadToProvider_def using o m u2 b by (simp add: close_push_def)
qed

lemma upload_round_honest:
  assumes "0 < retries" and "length cid = 32"
  shows "distinct ps \<Longrightarrow> \<forall>p \<in> set ps. assigned p \<noteq> [] \<and> push_fits (BuildPushManifest cid (assigned p) mb)
      \<and> stocked (up_engine u) cid held (assigned p)
      \<and> (\<exists>later. up_net u p = Some (fresh_stream (push_frame (BuildPushManifestAck cid PushStatusOK) @ chunk_acks (assigned p) @ tail p) []) # later) \<Longrightarrow> tracker_wf (up_tracker u) \<Longrightarrow>
    u' = upload_round cid mb retries assigned ps u \<Longrightarrow>
    tracker_wf (up_tracker u') \<and> gt_requiredR (up_tracker u') = gt_requiredR (up_tracker u)
    \<and> up_closed u' = up_closed u @ map (\<lambda>p. (p, finished cid mb held (assigned p) (tail p))) ps
    \<and> (\<forall>i. committed (up_tracker u) i \<subseteq> committed (up_tracker u') i
         \<and> (\<forall>p \<in> set ps. i \<in> set (assigned p) \<longrightarrow> p \<in> committed (up_tracker u') i))"
proof (induction ps arbitrary: u)
  case Nil
  then show ?case by (simp add: upload_round_def)
next
  case (Cons p ps)
  let ?u1 = "uploadToProvider cid p (assigned p) mb retries u"
  from Cons.prems(2) obtain later where
    net: "up_net u p = Some (fresh_stream (push_frame (BuildPushManifestAck cid PushStatusOK) @ chunk_acks (assigned p) @ tail p) []) # later" by auto
  have fit: "push_fits (BuildPushManifest cid (assigned p) mb)" and st: "stocked (up_engine u) cid held (assigned p)"
    and ne: "assigned p \<noteq> []" using Cons.prems(2) by simp_all
  note h = uploadToProvider_honest [OF assms fit st Cons.prems(3) net refl]
  have u': "u' = upload_round cid mb retries assigned ps ?u1"
    using Cons.prems(4) ne by (simp add: upload_round_def)
  have q: "\<forall>q \<in> set ps. assigned q \<noteq> [] \<and> push_fits (BuildPushManifest cid (assigned q) mb)
      \<and> stocked (up_engine ?u1) cid held (assigned q)
      \<and> (\<exists>later. up_net ?u1 q = Some (fresh_stream (push_frame (BuildPushManifestAck cid PushStatusOK) @ chunk_acks (assigned q) @ tail q) []) # later)"
  proof
    fix q
    assume "q \<in> set ps"
    moreover have "q \<noteq> p" using Cons.prems(1) \<open>q \<in> set ps\<close> by auto
    ultimately show "assigned q \<noteq> [] \<and> push_fits (BuildPushManifest cid (assigned q) mb)
      \<and> stocked (up_engine ?u1) cid held (assigned q)
      \<and> (\<exists>later. up_net ?u1 q = Some (fresh_stream (push_frame (BuildPushManifestAck cid PushStatusOK) @ chunk_acks (assigned q) @ tail q) []) # later)"
      using Cons.prems(2) h by simp
  qed
  have "distinct ps" "tracker_wf (up_tracker ?u1)" using Cons.prems(1) h by simp_all
  note IH = Cons.IH [OF this(1) q this(2) u']
  have "committed (up_tracker ?u1) i \<subseteq> committed (up_tracker u') i" "committed (up_tracker u) i \<subseteq> committed (up_tracker ?u1) i"
    "i \<in> set (assigned p) \<Longrightarrow> p \<in> committed (up_tracker ?u1) i" for i
    using IH h by blast+
  then have "committed (up_tracker u) i \<subseteq> committed (up_tracker u') i" "i \<in> set (assigned p) \<Longrightarrow> p \<in> committed (up_tracker u') i" for i
    by blast+
  with IH h show ?case by simp
qed

section \<open>Properties\<close>

text \<open>The chunks a plan gives to a provider.\<close>

abbreviation share :: "PlacementPlan \<Rightarrow> peerID \<Rightarrow> ChunkID list" where
  "share plan p \<equiv> slice_at (pp_ProviderChunks plan) p"

lemma plan_holders:
  assumes "PlanPlacement m ps R = Inr plan" and "distinct ps" and "distinct (mf_ChunkIDs m)" and "c \<in> set (mf_ChunkIDs m)"
  obtains qs where "distinct qs" and "int (length qs) = R" and "set qs \<subseteq> set ps"
    and "\<forall>p \<in> set ps. c \<in> set (share plan p) \<longleftrightarrow> p \<in> set qs"
proof -
  from placement_facts [OF assms(1-3)] assms(4) obtain qs where q: "pp_Assignments plan c = Some qs" "distinct qs"
      "int (length qs) = R" "set qs \<subseteq> set ps" by blast
  have "c \<in> set (share plan p) \<longleftrightarrow> p \<in> set qs" if "p \<in> set ps" for p
    using placement_facts [OF assms(1-3)] assms(4) that q(1) by (force simp: slice_at_def)
  with q that show thesis by blast
qed

lemma honest_tracker_complete:
  assumes "PlanPlacement m ps R = Inr plan" and "distinct ps" and "distinct (mf_ChunkIDs m)"
    and "tracker_wf t" and "gt_requiredR t = R"
    and "\<forall>i. \<forall>p \<in> set ps. i \<in> set (share plan p) \<longrightarrow> p \<in> committed t i"
  shows "IsComplete t (mf_ChunkIDs m)"
  unfolding IsComplete_def list_all_iff
proof
  fix c
  assume c: "c \<in> set (mf_ChunkIDs m)"
  obtain qs where q: "distinct qs" "int (length qs) = R" "set qs \<subseteq> set ps"
    "\<forall>p \<in> set ps. c \<in> set (share plan p) \<longleftrightarrow> p \<in> set qs"
    by (rule plan_holders [OF assms(1-3) c])
  have "set qs \<subseteq> committed t c" using q assms(6) by blast
  moreover have "finite (committed t c)"
    by (rule finite_subset [of _ "fst ` set (gt_state t c)"]) (auto simp: committed_def dest!: map_of_SomeD intro: rev_image_eqI)
  ultimately have "card (set qs) \<le> card (committed t c)" by (intro card_mono)
  then show "\<not> CommittedCount t c < gt_requiredR t"
    using q(1,2) assms(5) by (simp add: CommittedCount_card [OF assms(4)] distinct_card)
qed

lemma provider_share:
  assumes "PlanPlacement m ps R = Inr plan" and "distinct ps" and "distinct (mf_ChunkIDs m)" and "p \<in> set ps"
  shows "set (share plan p) \<subseteq> set (mf_ChunkIDs m)"
  using placement_facts [OF assms(1-3)] assms(4) by (force simp: slice_at_def)

lemma acknowledged_distribution_completes:
  assumes "PlanPlacement m ps R = Inr plan" and "distinct ps" and "distinct (mf_ChunkIDs m)"
    and "pp_ContentID plan = cid" and "length cid = 32" and "up_tracker u = NewGlobalReplicaTracker R"
    and "GetManifestBytes cid (up_engine u) = (Inr mb, up_engine u)" and "stocked (up_engine u) cid held (mf_ChunkIDs m)"
    and "\<forall>p \<in> set ps. push_fits (BuildPushManifest cid (share plan p) mb)
       \<and> up_net u p = [Some (fresh_stream (push_frame (BuildPushManifestAck cid PushStatusOK) @ chunk_acks (share plan p) @ tail p) [])]"
    and "distinct order" and "set order = set ps" and "0 < uc_MaxRetriesPerChunk cfg"
  shows "\<exists>u'. Distribute cfg order plan u = (Inr (), u')
    \<and> up_closed u' = up_closed u @ map (\<lambda>p. (p, finished cid mb held (share plan p) (tail p)))
        (filter (\<lambda>p. share plan p \<noteq> []) order)"
proof -
  let ?u0 = "u\<lparr>up_engine := up_engine u, up_tracker := mark_pending plan (up_tracker u)\<rparr>"
  let ?ps = "filter (\<lambda>p. share plan p \<noteq> []) order"
  let ?u1 = "upload_round cid mb (uc_MaxRetriesPerChunk cfg) (slice_at (pp_ProviderChunks plan)) ?ps ?u0"
  note f = PlanPlacement_fields [OF assms(1)]
  have t: "tracker_wf (up_tracker u)" "gt_requiredR (up_tracker u) = R"
    using assms(6) by (simp_all add: NewGlobalReplicaTracker_def tracker_wf_def)
  note mp = mark_pending_keeps [OF t(1), of plan]
  have stocked_share: "stocked (up_engine u) cid held (share plan p)" if "p \<in> set ps" for p
    using assms(8) subsetD [OF provider_share [OF assms(1-3) that]] by (simp add: stocked_def)
  have "\<forall>p \<in> set ?ps. share plan p \<noteq> [] \<and> push_fits (BuildPushManifest cid (share plan p) mb)
      \<and> stocked (up_engine ?u0) cid held (share plan p)
      \<and> (\<exists>later. up_net ?u0 p = Some (fresh_stream (push_frame (BuildPushManifestAck cid PushStatusOK) @ chunk_acks (share plan p) @ tail p) []) # later)"
    using assms(9,11) stocked_share by auto
  from upload_round_honest [OF assms(12,5) _ this _ refl] assms(10) mp(1)
  have u1: "tracker_wf (up_tracker ?u1)" "gt_requiredR (up_tracker ?u1) = gt_requiredR (mark_pending plan (up_tracker u))"
    "up_closed ?u1 = up_closed u @ map (\<lambda>p. (p, finished cid mb held (share plan p) (tail p))) ?ps"
    "\<forall>i. \<forall>p \<in> set ?ps. i \<in> set (share plan p) \<longrightarrow> p \<in> committed (up_tracker ?u1) i" by simp_all
  have "\<forall>i. \<forall>p \<in> set ps. i \<in> set (share plan p) \<longrightarrow> p \<in> committed (up_tracker ?u1) i"
  proof (intro allI ballI impI)
    fix i p
    assume ip: "p \<in> set ps" "i \<in> set (share plan p)"
    then have "share plan p \<noteq> []" by (auto simp del: set_empty)
    then have "p \<in> set ?ps" using ip(1) assms(11) by simp
    with u1(4) ip(2) show "p \<in> committed (up_tracker ?u1) i" by blast
  qed
  then have "IsComplete (up_tracker ?u1) (mf_ChunkIDs m)"
    by (intro honest_tracker_complete [OF assms(1-3) u1(1)]) (simp_all only: u1(2) mp(2) t(2))
  then have "Distribute cfg order plan u = (Inr (), ?u1)"
    using assms(4,7) f by (simp add: Distribute_def Let_def)
  with u1(3) show ?thesis by blast
qed

text \<open>C17. Distribution, push client and push handler work together: when a publisher distributes a content by a plan of
  the planner, holds the manifest and every chunk, and each provider of the plan runs the push handler, authorises
  the publisher and has a working store, then \<open>Distribute\<close> returns without error; the bytes that each side writes on a stream are exactly
  the bytes the other side reads; and afterwards every chunk is stored whole, and the manifest with it, by as
  many different providers as the replication factor says.\<close>

theorem honest_distribution_replicates:
  assumes "PlanPlacement m ps R = Inr plan" and "distinct ps" and "distinct (mf_ChunkIDs m)"
    and "pp_ContentID plan = cid" and "length cid = 32" and "up_tracker u = NewGlobalReplicaTracker R"
    and "GetManifestBytes cid (up_engine u) = (Inr mb, up_engine u)" and "stocked (up_engine u) cid held (mf_ChunkIDs m)"
    and "\<forall>p \<in> set ps. push_fits (BuildPushManifest cid (share plan p) mb)
       \<and> up_net u p = [Some (fresh_stream (push_replies cid (share plan p)) [])]"
    and "distinct order" and "set order = set ps" and "0 < uc_MaxRetriesPerChunk cfg" and "d mb = Some m"
    and "\<forall>p \<in> set ps. ph_allowPush (h p) \<and> (ph_authPolicy (h p) = AuthPolicyAllowlist \<longrightarrow> pub \<in> ph_allowedPublishers (h p))
       \<and> fs_usable (ph_engine (h p)) \<and> push_inv d (h p)
       \<and> ph_stream (h p) = fresh_stream (push_requests cid (share plan p) mb held) []"
  shows "(\<exists>u'. Distribute cfg order plan u = (Inr (), u')
      \<and> up_closed u' = up_closed u @ map (\<lambda>p. (p, fresh_stream [] (push_requests cid (share plan p) mb held)))
          (filter (\<lambda>p. share plan p \<noteq> []) order))
    \<and> (\<forall>p \<in> set ps. ph_stream (push_handleStream d pub (h p)) = fresh_stream [] (push_replies cid (share plan p)))
    \<and> (\<forall>c \<in> set (mf_ChunkIDs m). \<exists>qs. distinct qs \<and> int (length qs) = R \<and> set qs \<subseteq> set ps
         \<and> (\<forall>q \<in> set qs. holds_chunk (ph_engine (push_handleStream d pub (h q))) c
              \<and> fs_files (ph_engine (push_handleStream d pub (h q))) (manifestPath (ph_engine (push_handleStream d pub (h q))) cid)
                  = Some mb))"
proof -
  have cid: "cd_ID (mf_Descriptor m) = cid" using PlanPlacement_fields [OF assms(1)] assms(4) by simp
  have p: "ph_stream (push_handleStream d pub (h p)) = fresh_stream [] (push_replies cid (share plan p))
      \<and> (\<forall>i \<in> set (share plan p). holds_chunk (ph_engine (push_handleStream d pub (h p))) i)
      \<and> fs_files (ph_engine (push_handleStream d pub (h p))) (manifestPath (ph_engine (push_handleStream d pub (h p))) cid) = Some mb"
    if "p \<in> set ps" for p
  proof -
    have sub: "set (share plan p) \<subseteq> set (mf_ChunkIDs m)" by (rule provider_share [OF assms(1-3) that])
    then have pu: "\<forall>i \<in> set (share plan p). pushable cid i (held i)" using assms(8) by (auto simp: stocked_def)
    have hp: "ph_allowPush (h p)" "ph_authPolicy (h p) = AuthPolicyAllowlist \<longrightarrow> pub \<in> ph_allowedPublishers (h p)"
      "fs_usable (ph_engine (h p))" "push_inv d (h p)" "push_fits (BuildPushManifest cid (share plan p) mb)"
      "ph_stream (h p) = fresh_stream (push_requests cid (share plan p) mb held) []" using assms(9,14) that by blast+
    note r = push_handled(2,3,5) [where d = d, OF hp(1-3) assms(5) hp(5) assms(13) cid sub pu hp(6) refl]
    show ?thesis using r(1,2) r(3) [OF hp(4)] by blast
  qed
  have "\<exists>qs. distinct qs \<and> int (length qs) = R \<and> set qs \<subseteq> set ps
         \<and> (\<forall>q \<in> set qs. holds_chunk (ph_engine (push_handleStream d pub (h q))) c
              \<and> fs_files (ph_engine (push_handleStream d pub (h q))) (manifestPath (ph_engine (push_handleStream d pub (h q))) cid)
                  = Some mb)" if c: "c \<in> set (mf_ChunkIDs m)" for c
  proof -
    obtain qs where q: "distinct qs" "int (length qs) = R" "set qs \<subseteq> set ps" "\<forall>p \<in> set ps. c \<in> set (share plan p) \<longleftrightarrow> p \<in> set qs"
      by (rule plan_holders [OF assms(1-3) c])
    with p show ?thesis by (intro exI [of _ qs]) blast
  qed
  moreover have "\<forall>p \<in> set ps. push_fits (BuildPushManifest cid (share plan p) mb) \<and> up_net u p
      = [Some (fresh_stream (push_frame (BuildPushManifestAck cid PushStatusOK) @ chunk_acks (share plan p)
           @ push_frame (BuildPushBatchCompleteAck cid PushStatusOK)) [])]"
    using assms(9) by (simp add: push_replies_def)
  note u = acknowledged_distribution_completes [OF assms(1-8) this assms(10-12), unfolded finished_acked [OF assms(5)]]
  ultimately show ?thesis using u p by blast
qed

text \<open>A distribution reports success without any completed batch: when every provider acknowledges the
  manifest and its chunks, \<open>Distribute\<close> returns without error whatever the providers answer to
  \<open>PUSH_BATCH_COMPLETE\<close>, even if they refuse it or close the stream, in which case the handler has stored no manifest and announced
  nothing.\<close>

lemma success_without_batch_completion:
  assumes "PlanPlacement m ps R = Inr plan" and "distinct ps" and "distinct (mf_ChunkIDs m)"
    and "pp_ContentID plan = cid" and "length cid = 32" and "up_tracker u = NewGlobalReplicaTracker R"
    and "GetManifestBytes cid (up_engine u) = (Inr mb, up_engine u)" and "stocked (up_engine u) cid held (mf_ChunkIDs m)"
    and "\<forall>p \<in> set ps. push_fits (BuildPushManifest cid (share plan p) mb)
       \<and> up_net u p = [Some (fresh_stream (push_frame (BuildPushManifestAck cid PushStatusOK) @ chunk_acks (share plan p) @ tail p) [])]"
    and "distinct order" and "set order = set ps" and "0 < uc_MaxRetriesPerChunk cfg"
  shows "fst (Distribute cfg order plan u) = Inr ()"
  using acknowledged_distribution_completes [OF assms] by auto

section \<open>Examples\<close>

lemma example_stock:
  obtains s where "GetChunk (sha256 [1, 2]) s = (Inr example_chunk, s)" and "GetManifestBytes (replicate 32 7) s = (Inr [9], s)"
    and "chunk_files s"
proof -
  let ?i = "sha256 [1, 2]" and ?cid = "replicate 32 7 :: byte list"
  have c: "header_wf (ck_Header example_chunk)" "hd_ID (ck_Header example_chunk) = ?i" "sha256 (ck_Data example_chunk) = ?i"
    by (simp_all add: example_chunk_def header_wf_def)
  obtain s where s: "PutChunk example_chunk empty_fs = (Inr (), s)" "fs_usable s" "GetChunk ?i s = (Inr example_chunk, s)"
    using fs_store.put_ok [OF empty_fs_usable c(1)] c(2) by auto
  let ?t = "s\<lparr>fs_files := (fs_files s)(manifestPath s ?cid \<mapsto> [9])\<rparr>"
  have p: "PutManifestBytes ?cid [9] s = (Inr (), ?t)" using s(2) by (simp add: PutManifestBytes_def del: replicate.simps)
  have same: "fs_files ?t (pathForChunk ?t i) = fs_files s (pathForChunk s i)" if "length i = 32" for i
    using PutManifestBytes_chunks [OF p _ that] by (simp del: replicate.simps)
  have "chunk_files empty_fs" by (simp add: chunk_files_def empty_fs_def)
  then have "chunk_files s" using chunk_files_put [OF _ s(1) c(1)] c(2,3) by simp
  then have "chunk_files ?t" using chunk_files_same(2) [of ?t s] same by blast
  moreover have "GetChunk ?i ?t = (Inr example_chunk, ?t)"
    using s(2,3) same [of ?i] by (auto simp: GetChunk_def split: option.splits sum.splits prod.splits simp del: replicate.simps)
  moreover have "GetManifestBytes ?cid ?t = (Inr [9], ?t)"
    using s(2) by (simp add: GetManifestBytes_def manifestPath_def del: replicate.simps)
  ultimately show thesis using that by blast
qed

definition example_upload :: "FSStorage \<Rightarrow> bytes \<Rightarrow> Upload" where
  "example_upload s tail = \<lparr>up_engine = s, up_tracker = NewGlobalReplicaTracker 1,
     up_net = (\<lambda>_. [Some (fresh_stream (push_frame (BuildPushManifestAck (replicate 32 7) PushStatusOK)
       @ chunk_acks [sha256 [1, 2]] @ tail) [])]), up_closed = []\<rparr>"

lemma example_plan:
  obtains plan where "PlanPlacement (example_manifest (replicate 32 7) [sha256 [1, 2]]) [''p''] 1 = Inr plan"
    and "share plan ''p'' = [sha256 [1, 2]]" and "pp_ContentID plan = replicate 32 7"
    and "pp_Manifest plan = example_manifest (replicate 32 7) [sha256 [1, 2]]"
    and "\<forall>p. set (share plan p) \<subseteq> {sha256 [1, 2]}"
proof -
  let ?m = "example_manifest (replicate 32 7) [sha256 [1, 2]]"
  obtain plan where p: "PlanPlacement ?m [''p''] 1 = Inr plan" by (simp add: PlanPlacement_def)
  then have sh: "share plan q = (if q = ''p'' then [sha256 [1, 2]] else [])" for q
    by (simp add: PlanPlacement_def assign_chunk_def assign_replica_def slice_at_def Let_def) auto
  show thesis by (rule that [OF p]) (use sh PlanPlacement_fields [OF p] in auto)
qed

lemma example_stocked:
  "GetChunk (sha256 [1, 2]) s = (Inr example_chunk, s) \<Longrightarrow> stocked s (replicate 32 7) (\<lambda>_. example_chunk) [sha256 [1, 2]]"
  using pushable_example by (simp add: stocked_def)

lemma example_manifest_fits: "push_fits (BuildPushManifest (replicate 32 7) [sha256 [1, 2]] [9])"
  by (simp add: push_fits_def BuildPushManifest_def del: replicate.simps)

lemma success_without_batch_completion_witness:
  "\<exists>s plan. PlanPlacement (example_manifest (replicate 32 7) [sha256 [1, 2]]) [''p''] 1 = Inr plan
     \<and> fst (Distribute DefaultUploaderConfig [''p''] plan
         (example_upload s (push_frame (BuildPushBatchCompleteAck (replicate 32 7) PushStatusIOError)))) = Inr ()"
proof -
  let ?m = "example_manifest (replicate 32 7) [sha256 [1, 2]]" and ?tail = "push_frame (BuildPushBatchCompleteAck (replicate 32 7) PushStatusIOError)"
  obtain s where s: "GetChunk (sha256 [1, 2]) s = (Inr example_chunk, s)" "GetManifestBytes (replicate 32 7) s = (Inr [9], s)"
    by (rule example_stock)
  obtain plan where p: "PlanPlacement ?m [''p''] 1 = Inr plan" "share plan ''p'' = [sha256 [1, 2]]" "pp_ContentID plan = replicate 32 7"
    by (rule example_plan)
  from success_without_batch_completion [OF p(1) _ _ p(3), of "example_upload s ?tail" "[9]" "\<lambda>_. example_chunk" "\<lambda>_. ?tail" "[''p'']" DefaultUploaderConfig]
    s p example_stocked [OF s(1)] example_manifest_fits
  show ?thesis by (auto simp: example_upload_def DefaultUploaderConfig_def simp del: replicate.simps)
qed

lemma distribution_success_acknowledged_witness:
  "\<exists>u u' plan P. Distribute DefaultUploaderConfig [''p''] plan u = (Inr (), u') \<and> finite P \<and> 1 \<le> card P
     \<and> (\<forall>p \<in> P. acknowledged u p (sha256 [1, 2]))"
proof -
  let ?m = "example_manifest (replicate 32 7) [sha256 [1, 2]]"
  obtain s where s: "GetChunk (sha256 [1, 2]) s = (Inr example_chunk, s)" "GetManifestBytes (replicate 32 7) s = (Inr [9], s)" "chunk_files s"
    by (rule example_stock)
  obtain plan where p: "PlanPlacement ?m [''p''] 1 = Inr plan" "share plan ''p'' = [sha256 [1, 2]]" "pp_ContentID plan = replicate 32 7"
      "pp_Manifest plan = ?m" "\<forall>p. set (share plan p) \<subseteq> {sha256 [1, 2]}"
    by (rule example_plan)
  obtain u' where u': "Distribute DefaultUploaderConfig [''p''] plan (example_upload s []) = (Inr (), u')"
    using acknowledged_distribution_completes [OF p(1) _ _ p(3), of "example_upload s []" "[9]" "\<lambda>_. example_chunk" "\<lambda>_. []" "[''p'']" DefaultUploaderConfig]
      s p example_stocked [OF s(1)] example_manifest_fits
    by (auto simp: example_upload_def DefaultUploaderConfig_def simp del: replicate.simps)
  from distribution_success_acknowledged [OF _ _ _ _ _ u', of 1] s(3) p(4,5)
  obtain P where P: "finite P" "1 \<le> int (card P)" "\<forall>p \<in> P. acknowledged (example_upload s []) p (sha256 [1, 2])"
    by (auto simp: example_upload_def DefaultUploaderConfig_def simp del: replicate.simps)
  then have "1 \<le> card P" by linarith
  with u' P show ?thesis by blast
qed

theorem honest_distribution_replicates_witness:
  "\<exists>s plan h. PlanPlacement (example_manifest (replicate 32 7) [sha256 [1, 2]]) [''p''] 1 = Inr plan
     \<and> fst (Distribute DefaultUploaderConfig [''p''] plan
         (example_upload s (push_frame (BuildPushBatchCompleteAck (replicate 32 7) PushStatusOK)))) = Inr ()
     \<and> holds_chunk (ph_engine (push_handleStream (\<lambda>_. Some (example_manifest (replicate 32 7) [sha256 [1, 2]])) ''pub'' h)) (sha256 [1, 2])"
proof -
  let ?m = "example_manifest (replicate 32 7) [sha256 [1, 2]]" and ?tail = "push_frame (BuildPushBatchCompleteAck (replicate 32 7) PushStatusOK)"
  obtain s where s: "GetChunk (sha256 [1, 2]) s = (Inr example_chunk, s)" "GetManifestBytes (replicate 32 7) s = (Inr [9], s)"
    by (rule example_stock)
  obtain plan where p: "PlanPlacement ?m [''p''] 1 = Inr plan" "share plan ''p'' = [sha256 [1, 2]]" "pp_ContentID plan = replicate 32 7"
    by (rule example_plan)
  let ?d = "\<lambda>_ :: bytes. Some ?m" and ?h = "example_handler (push_requests (replicate 32 7) [sha256 [1, 2]] [9] (\<lambda>_. example_chunk))"
  have inv: "push_inv ?d ?h" by (rule push_sys.inv_reach [OF reach_init [of push_init, OF example_handler_init]])
  have e: "up_net (example_upload s ?tail) q = [Some (fresh_stream (push_replies (replicate 32 7) [sha256 [1, 2]]) [])]"
      "up_tracker (example_upload s ?tail) = NewGlobalReplicaTracker 1" "up_engine (example_upload s ?tail) = s" for q
    by (simp_all add: example_upload_def push_replies_def)
  have pre: "distinct [''p'']" "distinct (mf_ChunkIDs ?m)" "length (replicate 32 7 :: bytes) = 32"
    "up_tracker (example_upload s ?tail) = NewGlobalReplicaTracker 1"
    "GetManifestBytes (replicate 32 7) (up_engine (example_upload s ?tail)) = (Inr [9], up_engine (example_upload s ?tail))"
    "stocked (up_engine (example_upload s ?tail)) (replicate 32 7) (\<lambda>_. example_chunk) (mf_ChunkIDs ?m)"
    "\<forall>q \<in> set [''p'']. push_fits (BuildPushManifest (replicate 32 7) (share plan q) [9])
       \<and> up_net (example_upload s ?tail) q = [Some (fresh_stream (push_replies (replicate 32 7) (share plan q)) [])]"
    "set [''p''] = set [''p'']" "0 < uc_MaxRetriesPerChunk DefaultUploaderConfig" "?d [9] = Some ?m"
    "\<forall>q \<in> set [''p'']. ph_allowPush ?h \<and> (ph_authPolicy ?h = AuthPolicyAllowlist \<longrightarrow> ''pub'' \<in> ph_allowedPublishers ?h)
       \<and> fs_usable (ph_engine ?h) \<and> push_inv ?d ?h
       \<and> ph_stream ?h = fresh_stream (push_requests (replicate 32 7) (share plan q) [9] (\<lambda>_. example_chunk)) []"
    using s p(2) e inv example_stocked [OF s(1)] example_manifest_fits
    by (simp_all add: DefaultUploaderConfig_def del: replicate.simps)
  note r = honest_distribution_replicates [where d = ?d and h = "\<lambda>_. ?h",
      OF p(1) pre(1,2) p(3) pre(3-7) pre(1,8-11)]
  then have 1: "fst (Distribute DefaultUploaderConfig [''p''] plan (example_upload s ?tail)) = Inr ()" by force
  have "sha256 [1, 2] \<in> set (mf_ChunkIDs ?m)" by simp
  with r obtain qs where "int (length qs) = 1"
      "\<forall>q \<in> set (qs :: peerID list). holds_chunk (ph_engine (push_handleStream ?d ''pub'' ?h)) (sha256 [1, 2])" by blast
  then have "holds_chunk (ph_engine (push_handleStream ?d ''pub'' ?h)) (sha256 [1, 2])" by (cases qs) simp_all
  with 1 p(1) show ?thesis by blast
qed

end
