(* ===== verification/Requests.thy ===== *)
theory Requests
  imports GoLib
begin

text \<open>
  The store of active requests and the demand computed from it: \<open>request/request.go\<close>, \<open>demand/tracker.go\<close>
  and \<open>model/request.go\<close> of \<open>availability/proof-of-request\<close>. Records are cells of a heap, because timers and
  operations in progress hold pointers to them.
\<close>

section \<open>State\<close>

datatype RequestStatus = Pending | Resolved | Aborted | RequestExpired

record Request =
  rq_FileID :: string
  rq_ClientID :: string
  rq_Timestamp :: int
  rq_Status :: RequestStatus

record requestRecord =
  rr_request :: Request
  rr_timer :: "gotime option"

text \<open>\<open>rs_timers\<close> are the timers started and not yet fired, with the address they captured and their time.
  \<open>Timer.Stop\<close> does not wait for a callback that is already on its way, so a stopped timer stays in the list and may
  still fire. \<open>rs_found\<close> are the calls of \<open>transitionRequest\<close> that released the mutex after their search and have
  not yet entered \<open>transitionRecord\<close>.\<close>

record request_store =
  rs_heap :: "nat \<rightharpoonup> requestRecord"
  rs_next :: nat
  rs_requests :: "nat list"
  rs_timers :: "(nat \<times> gotime) list"
  rs_found :: "(nat \<times> RequestStatus) list"
  rs_now :: gotime

definition empty_requests :: "gotime \<Rightarrow> request_store" where
  "empty_requests now = \<lparr>rs_heap = Map.empty, rs_next = 0, rs_requests = [], rs_timers = [], rs_found = [], rs_now = now\<rparr>"

datatype request_error = NonPositiveLifetime | EmptyFileID

section \<open>Operations\<close>

definition CreateRequest :: "string \<Rightarrow> string \<Rightarrow> gotime \<Rightarrow> Request" where
  "CreateRequest fileID clientID now =
     \<lparr>rq_FileID = fileID, rq_ClientID = clientID, rq_Timestamp = now, rq_Status = Pending\<rparr>"

definition matches :: "request_store \<Rightarrow> string \<Rightarrow> string \<Rightarrow> nat \<Rightarrow> bool" where
  "matches s fileID clientID a = (case rs_heap s a of
     None \<Rightarrow> False
   | Some r \<Rightarrow> rq_FileID (rr_request r) = fileID \<and> rq_ClientID (rr_request r) = clientID
       \<and> rq_Status (rr_request r) = Pending)"

definition find_active :: "request_store \<Rightarrow> string \<Rightarrow> string \<Rightarrow> nat option" where
  "find_active s fileID clientID = List.find (matches s fileID clientID) (rs_requests s)"

definition GetOrCreateRequest ::
    "string \<Rightarrow> string \<Rightarrow> duration \<Rightarrow> (request_store, request_error, Request \<times> bool) stateful" where
  "GetOrCreateRequest fileID clientID lifetime s =
     (if lifetime \<le> 0 then (Inl NonPositiveLifetime, s)
      else case find_active s fileID clientID of
        Some a \<Rightarrow> (Inr (rr_request (the (rs_heap s a)), False), s)
      | None \<Rightarrow>
          let req = CreateRequest fileID clientID (rs_now s);
              a = rs_next s;
              due = rs_now s + lifetime
          in (Inr (req, True),
              s\<lparr>rs_heap := (rs_heap s)(a \<mapsto> \<lparr>rr_request = req, rr_timer = Some due\<rparr>), rs_next := Suc a,
                rs_requests := rs_requests s @ [a], rs_timers := rs_timers s @ [(a, due)]\<rparr>))"

definition removeRecordLocked :: "nat \<Rightarrow> request_store \<Rightarrow> request_store" where
  "removeRecordLocked a s = s\<lparr>rs_requests := remove1 a (rs_requests s)\<rparr>"

definition transitionRecord :: "nat \<Rightarrow> RequestStatus \<Rightarrow> request_store \<Rightarrow> bool \<times> request_store" where
  "transitionRecord a newStatus s = (case rs_heap s a of
     None \<Rightarrow> (False, s)
   | Some r \<Rightarrow>
       if rq_Status (rr_request r) \<noteq> Pending then (False, s)
       else (True, removeRecordLocked a (s\<lparr>rs_heap := (rs_heap s)(a \<mapsto>
               r\<lparr>rr_request := (rr_request r)\<lparr>rq_Status := newStatus\<rparr>, rr_timer := None\<rparr>)\<rparr>)))"

definition expireRequest :: "nat \<Rightarrow> request_store \<Rightarrow> request_store" where
  "expireRequest a s = snd (transitionRecord a RequestExpired s)"

text \<open>The call as a whole, when no other call comes between its two critical sections.\<close>

definition transitionRequest :: "string \<Rightarrow> string \<Rightarrow> RequestStatus \<Rightarrow> request_store \<Rightarrow> bool \<times> request_store" where
  "transitionRequest fileID clientID newStatus s = (case find_active s fileID clientID of
     None \<Rightarrow> (False, s)
   | Some a \<Rightarrow> transitionRecord a newStatus s)"

definition ResolveRequest :: "string \<Rightarrow> string \<Rightarrow> request_store \<Rightarrow> bool \<times> request_store" where
  "ResolveRequest fileID clientID = transitionRequest fileID clientID Resolved"

definition AbortRequest :: "string \<Rightarrow> string \<Rightarrow> request_store \<Rightarrow> bool \<times> request_store" where
  "AbortRequest fileID clientID = transitionRequest fileID clientID Aborted"

definition GetPendingRequests :: "request_store \<Rightarrow> Request list" where
  "GetPendingRequests s =
     filter (\<lambda>req. rq_Status req = Pending) (map (\<lambda>a. rr_request (the (rs_heap s a))) (rs_requests s))"

definition CalculateDemand :: "string \<Rightarrow> request_store \<Rightarrow> request_error + nat" where
  "CalculateDemand fileID s =
     (if fileID = [] then Inl EmptyFileID
      else Inr (length (filter (\<lambda>req. rq_FileID req = fileID) (GetPendingRequests s))))"

section \<open>Runs\<close>

text \<open>The critical sections in any order, from any number of goroutines: whole calls of
  \<open>GetOrCreateRequest\<close>, the two halves of resolving and aborting, timers that have become due, and the passing of
  time.\<close>

inductive request_step :: "request_store \<Rightarrow> request_store \<Rightarrow> bool" where
  rs_get: "GetOrCreateRequest f c lifetime s = (r, t) \<Longrightarrow> request_step s t"
| rs_find: "find_active s f c = Some a \<Longrightarrow> st = Resolved \<or> st = Aborted \<Longrightarrow>
    request_step s (s\<lparr>rs_found := (a, st) # rs_found s\<rparr>)"
| rs_apply: "(a, st) \<in> set (rs_found s) \<Longrightarrow>
    request_step s (snd (transitionRecord a st (s\<lparr>rs_found := remove1 (a, st) (rs_found s)\<rparr>)))"
| rs_fire: "(a, due) \<in> set (rs_timers s) \<Longrightarrow> due \<le> rs_now s \<Longrightarrow>
    request_step s (expireRequest a (s\<lparr>rs_timers := remove1 (a, due) (rs_timers s)\<rparr>))"
| rs_tick: "rs_now s \<le> now \<Longrightarrow> request_step s (s\<lparr>rs_now := now\<rparr>)"

inductive_cases request_stepE: "request_step s t"

definition requests_init :: "request_store \<Rightarrow> bool" where
  "requests_init s \<longleftrightarrow> (\<exists>now. s = empty_requests now)"

definition pair_of :: "request_store \<Rightarrow> nat \<Rightarrow> string \<times> string" where
  "pair_of s a = (rq_FileID (rr_request (the (rs_heap s a))), rq_ClientID (rr_request (the (rs_heap s a))))"

definition pending_at :: "request_store \<Rightarrow> nat \<Rightarrow> bool" where
  "pending_at s a \<longleftrightarrow> (\<exists>r. rs_heap s a = Some r \<and> rq_Status (rr_request r) = Pending)"

definition request_inv :: "request_store \<Rightarrow> bool" where
  "request_inv s \<longleftrightarrow> distinct (rs_requests s) \<and> (\<forall>a. a \<in> set (rs_requests s) \<longleftrightarrow> pending_at s a)
     \<and> (\<forall>a. rs_heap s a \<noteq> None \<longrightarrow> a < rs_next s) \<and> inj_on (pair_of s) (set (rs_requests s))
     \<and> (\<forall>a st. (a, st) \<in> set (rs_found s) \<longrightarrow> st \<noteq> Pending)
     \<and> (\<forall>a r. rs_heap s a = Some r \<longrightarrow> rq_Status (rr_request r) = Pending \<longrightarrow>
          (\<exists>due. rr_timer r = Some due \<and> (a, due) \<in> set (rs_timers s)))"

lemma find_active_Some:
  "find_active s f c = Some a \<Longrightarrow> a \<in> set (rs_requests s) \<and> pending_at s a \<and> pair_of s a = (f, c)"
  by (auto simp: find_active_def find_Some_iff matches_def pending_at_def pair_of_def split: option.splits)

lemma find_active_None:
  assumes "find_active s f c = None" and "request_inv s"
  shows "(f, c) \<notin> pair_of s ` set (rs_requests s)"
proof
  assume "(f, c) \<in> pair_of s ` set (rs_requests s)"
  then obtain a where a: "a \<in> set (rs_requests s)" "pair_of s a = (f, c)" by force
  then have "pending_at s a" using assms(2) by (simp add: request_inv_def)
  with a have "matches s f c a" by (auto simp: matches_def pending_at_def pair_of_def)
  with assms(1) a(1) show False by (auto simp: find_active_def find_None_iff)
qed

section \<open>The abstract store\<close>

text \<open>What the store promises: a set of pending requests with at most one request for a file and a client. A
  step adds a request for a pair that has none, or removes one.\<close>

definition request_at :: "request_store \<Rightarrow> nat \<Rightarrow> Request" where
  "request_at s a = rr_request (the (rs_heap s a))"

definition active_requests :: "request_store \<Rightarrow> Request set" where
  "active_requests s = request_at s ` set (rs_requests s)"

definition request_pair :: "Request \<Rightarrow> string \<times> string" where
  "request_pair req = (rq_FileID req, rq_ClientID req)"

inductive demand_step :: "Request set \<Rightarrow> Request set \<Rightarrow> bool" where
  ds_open: "request_pair req \<notin> request_pair ` A \<Longrightarrow> rq_Status req = Pending \<Longrightarrow> demand_step A (insert req A)"
| ds_close: "req \<in> A \<Longrightarrow> demand_step A (A - {req})"

lemma pair_of_request_at: "pair_of s a = request_pair (request_at s a)"
  by (simp add: pair_of_def request_pair_def request_at_def)

lemma inj_request_at: "request_inv s \<Longrightarrow> inj_on (request_at s) (set (rs_requests s))"
  by (auto simp: request_inv_def inj_on_def pair_of_request_at)

section \<open>Simulation\<close>

lemma created_inv:
  assumes "request_inv s" and "(f, c) \<notin> pair_of s ` set (rs_requests s)"
    and "t = s\<lparr>rs_heap := (rs_heap s)(rs_next s \<mapsto> \<lparr>rr_request = CreateRequest f c (rs_now s), rr_timer = Some due\<rparr>),
      rs_next := Suc (rs_next s), rs_requests := rs_requests s @ [rs_next s], rs_timers := rs_timers s @ [(rs_next s, due)]\<rparr>"
  shows "request_inv t" and "demand_step (active_requests s) (active_requests t)"
proof -
  let ?a = "rs_next s"
  have new: "rs_heap s ?a = None" using assms(1) by (auto simp: request_inv_def)
  then have fresh: "?a \<notin> set (rs_requests s)" using assms(1) by (auto simp: request_inv_def pending_at_def)
  have heap: "rs_heap t b = rs_heap s b" if "b \<noteq> ?a" for b using that assms(3) by simp
  have same: "pair_of t b = pair_of s b" "request_at t b = request_at s b" "pending_at t b = pending_at s b" if "b \<noteq> ?a" for b
    using heap [OF that] by (simp_all add: pair_of_def request_at_def pending_at_def)
  have at: "request_at t ?a = CreateRequest f c (rs_now s)" "pair_of t ?a = (f, c)" "pending_at t ?a"
    using assms(3) by (simp_all add: request_at_def pair_of_def pending_at_def CreateRequest_def)
  have reqs: "rs_requests t = rs_requests s @ [?a]" "rs_timers t = rs_timers s @ [(?a, due)]" "rs_found t = rs_found s" "rs_next t = Suc ?a"
    using assms(3) by simp_all
  have ne: "b \<noteq> ?a" if "b \<in> set (rs_requests s)" for b using that fresh by blast
  have im: "pair_of t ` set (rs_requests s) = pair_of s ` set (rs_requests s)"
    "request_at t ` set (rs_requests s) = request_at s ` set (rs_requests s)"
    using same [OF ne] by (simp_all add: image_def)
  have "inj_on (pair_of t) (set (rs_requests s))"
    using assms(1) same(1) [OF ne] by (auto simp: request_inv_def inj_on_def)
  then have "inj_on (pair_of t) (set (rs_requests t))"
    using reqs(1) im(1) at(2) assms(2) fresh by simp
  moreover have "b \<in> set (rs_requests t) \<longleftrightarrow> pending_at t b" for b
    using assms(1) same(3) [of b] at(3) reqs(1) by (cases "b = ?a") (simp_all add: request_inv_def)
  moreover have "rs_heap t b \<noteq> None \<longrightarrow> b < rs_next t" for b
    using assms(1) heap [of b] reqs(4) by (cases "b = ?a") (auto simp: request_inv_def intro: less_SucI)
  moreover have "\<exists>due. rr_timer r = Some due \<and> (b, due) \<in> set (rs_timers t)"
    if "rs_heap t b = Some r" "rq_Status (rr_request r) = Pending" for b r
    using that assms(1,3) heap [of b] reqs(2) by (cases "b = ?a") (auto simp: request_inv_def)
  ultimately show "request_inv t"
    unfolding request_inv_def using assms(1) fresh reqs(1,3) by (simp add: request_inv_def)
  have "active_requests t = insert (CreateRequest f c (rs_now s)) (active_requests s)"
    using reqs(1) im(2) at(1) by (simp add: active_requests_def)
  moreover have "request_pair (CreateRequest f c (rs_now s)) \<notin> request_pair ` active_requests s"
    using assms(2) by (auto simp: active_requests_def pair_of_request_at image_image request_pair_def CreateRequest_def)
  ultimately show "demand_step (active_requests s) (active_requests t)"
    by (simp add: ds_open CreateRequest_def)
qed

lemma transition_inv:
  assumes "request_inv s" and "st \<noteq> Pending" and "set F \<subseteq> set (rs_found s)"
    and "\<And>b due. b \<noteq> a \<or> \<not> pending_at s a \<Longrightarrow> (b, due) \<in> set (rs_timers s) \<Longrightarrow> \<not> pending_at s b \<or> (b, due) \<in> set T"
    and "t = snd (transitionRecord a st (s\<lparr>rs_timers := T, rs_found := F\<rparr>))"
  shows "request_inv t"
    and "active_requests t = (if pending_at s a then active_requests s - {request_at s a} else active_requests s)"
proof -
  have keep: "\<exists>due. rr_timer q = Some due \<and> (b, due) \<in> set T"
    if b: "rs_heap s b = Some q" "rq_Status (rr_request q) = Pending" "b \<noteq> a \<or> \<not> pending_at s a" for b q
  proof -
    obtain due where d: "rr_timer q = Some due" "(b, due) \<in> set (rs_timers s)"
      using b assms(1) unfolding request_inv_def by blast
    moreover have "pending_at s b" using b by (simp add: pending_at_def)
    ultimately show ?thesis using assms(4) [of b due] b(3) by blast
  qed
  have fo: "st \<noteq> Pending" if "(b, st) \<in> set F" for b st
    using that assms(1,3) unfolding request_inv_def by blast
  have "request_inv t \<and> active_requests t = (if pending_at s a then active_requests s - {request_at s a} else active_requests s)"
  proof (cases "pending_at s a")
    case False
    then have t: "t = s\<lparr>rs_timers := T, rs_found := F\<rparr>"
      using assms(5) by (auto simp: transitionRecord_def pending_at_def split: option.splits)
    have p: "pair_of t = pair_of s" "pending_at t = pending_at s" "request_at t = request_at s"
      by (simp_all add: t pair_of_def pending_at_def request_at_def fun_eq_iff)
    with keep fo show ?thesis
      using assms(1) False p t by (auto simp: request_inv_def active_requests_def)
  next
    case True
    then obtain r where r: "rs_heap s a = Some r" "rq_Status (rr_request r) = Pending" by (auto simp: pending_at_def)
    let ?r = "r\<lparr>rr_request := (rr_request r)\<lparr>rq_Status := st\<rparr>, rr_timer := None\<rparr>"
    have t: "t = s\<lparr>rs_timers := T, rs_found := F, rs_heap := (rs_heap s)(a \<mapsto> ?r), rs_requests := remove1 a (rs_requests s)\<rparr>"
      using assms(5) r by (simp add: transitionRecord_def removeRecordLocked_def)
    have dist: "distinct (rs_requests s)" "a \<in> set (rs_requests s)" using assms(1) True by (auto simp: request_inv_def)
    have reqs: "set (rs_requests t) = set (rs_requests s) - {a}" using dist(1) t by simp
    have same: "pair_of t b = pair_of s b" "request_at t b = request_at s b" "pending_at t b = pending_at s b" if "b \<noteq> a" for b
      using that t by (simp_all add: pair_of_def request_at_def pending_at_def)
    have "\<not> pending_at t a" using t assms(2) by (simp add: pending_at_def)
    then have p: "b \<in> set (rs_requests t) \<longleftrightarrow> pending_at t b" for b
      using assms(1) same(3) [of b] reqs by (cases "b = a") (simp_all add: request_inv_def)
    have inj: "inj_on (pair_of t) (set (rs_requests t))"
      using assms(1) same(1) reqs by (auto simp: request_inv_def inj_on_def)
    have tm: "\<exists>due. rr_timer q = Some due \<and> (b, due) \<in> set T"
      if "rs_heap t b = Some q" "rq_Status (rr_request q) = Pending" for b q
      using that assms(2) keep [of b q] t by (cases "b = a") auto
    have lt: "rs_heap t b \<noteq> None \<longrightarrow> b < rs_next t" for b
      using assms(1) t r by (cases "b = a") (auto simp: request_inv_def)
    have "request_inv t"
      unfolding request_inv_def using dist(1) t p inj tm lt fo by simp
    moreover have "active_requests t = request_at s ` (set (rs_requests s) - {a})"
      using same(2) reqs by (auto simp: active_requests_def intro!: image_cong)
    then have "active_requests t = active_requests s - {request_at s a}"
      using inj_on_image_set_diff [OF inj_request_at [OF assms(1)], of "set (rs_requests s)" "{a}"] dist(2)
      by (simp add: active_requests_def)
    ultimately show ?thesis using True by simp
  qed
  then show "request_inv t"
    "active_requests t = (if pending_at s a then active_requests s - {request_at s a} else active_requests s)" by blast+
qed

lemma request_step_sim:
  assumes "request_inv s" and "request_step s t"
  shows "request_inv t \<and> (demand_step (active_requests s) (active_requests t) \<or> active_requests t = active_requests s)"
  using assms(2)
proof (cases rule: request_step.cases)
  case (rs_get f c lifetime r)
  then show ?thesis
  proof (cases "0 < lifetime \<and> find_active s f c = None")
    case True
    with rs_get find_active_None [OF _ assms(1), of f c] created_inv [OF assms(1), of f c t "rs_now s + lifetime"]
    show ?thesis by (auto simp: GetOrCreateRequest_def Let_def)
  next
    case False
    with rs_get assms(1) show ?thesis by (auto simp: GetOrCreateRequest_def split: if_splits option.splits)
  qed
next
  case (rs_find f c a st)
  have "pair_of t = pair_of s" "pending_at t = pending_at s" "active_requests t = active_requests s"
    by (simp_all add: rs_find(1) pair_of_def pending_at_def active_requests_def request_at_def fun_eq_iff)
  with rs_find assms(1) show ?thesis by (auto simp: request_inv_def)
next
  case (rs_apply a st)
  have "st \<noteq> Pending" using rs_apply(2) assms(1) by (auto simp: request_inv_def)
  moreover have "s\<lparr>rs_found := remove1 (a, st) (rs_found s)\<rparr>
      = s\<lparr>rs_timers := rs_timers s, rs_found := remove1 (a, st) (rs_found s)\<rparr>" by simp
  ultimately have "request_inv t \<and> active_requests t
      = (if pending_at s a then active_requests s - {request_at s a} else active_requests s)"
    using transition_inv [OF assms(1), of st "remove1 (a, st) (rs_found s)" a "rs_timers s" t] rs_apply(1)
    by (simp add: set_remove1_subset)
  moreover have "request_at s a \<in> active_requests s" if "pending_at s a"
    using that assms(1) by (auto simp: request_inv_def active_requests_def)
  ultimately show ?thesis by (auto intro: ds_close)
next
  case (rs_fire a due)
  have "s\<lparr>rs_timers := remove1 (a, due) (rs_timers s)\<rparr>
      = s\<lparr>rs_timers := remove1 (a, due) (rs_timers s), rs_found := rs_found s\<rparr>" by simp
  moreover have "\<not> pending_at s b \<or> (b, d) \<in> set (remove1 (a, due) (rs_timers s))"
    if "b \<noteq> a \<or> \<not> pending_at s a" "(b, d) \<in> set (rs_timers s)" for b d
    using that by (cases "b = a") (simp_all add: in_set_remove1)
  ultimately have "request_inv t \<and> active_requests t
      = (if pending_at s a then active_requests s - {request_at s a} else active_requests s)"
    using transition_inv [OF assms(1), of RequestExpired "rs_found s" a "remove1 (a, due) (rs_timers s)" t] rs_fire(1)
    by (simp add: expireRequest_def)
  moreover have "request_at s a \<in> active_requests s" if "pending_at s a"
    using that assms(1) by (auto simp: request_inv_def active_requests_def)
  ultimately show ?thesis by (auto intro: ds_close)
next
  case (rs_tick now)
  have "pair_of t = pair_of s" "pending_at t = pending_at s" "active_requests t = active_requests s"
    by (simp_all add: rs_tick(1) pair_of_def pending_at_def active_requests_def request_at_def fun_eq_iff)
  with rs_tick assms(1) show ?thesis by (auto simp: request_inv_def)
qed

interpretation request_sys: forward_simulation requests_init request_step request_inv "\<lambda>A. A = {}" demand_step active_requests
proof unfold_locales
  fix s
  assume "requests_init s"
  then show "request_inv s" "active_requests s = {}"
    by (auto simp: requests_init_def empty_requests_def request_inv_def pending_at_def active_requests_def)
next
  fix s t
  assume s: "request_inv s" "request_step s t"
  show "request_inv t" "demand_step (active_requests s) (active_requests t) \<or> active_requests t = active_requests s"
    using request_step_sim [OF s] by blast+
qed

lemma GetPending_active:
  assumes "request_inv s"
  shows "GetPendingRequests s = map (request_at s) (rs_requests s)"
proof -
  have "rq_Status (request_at s a) = Pending" if "a \<in> set (rs_requests s)" for a
    using that assms by (auto simp: request_inv_def pending_at_def request_at_def)
  then have "filter (\<lambda>req. rq_Status req = Pending) (map (request_at s) (rs_requests s)) = map (request_at s) (rs_requests s)"
    by (simp add: filter_id_conv)
  then show ?thesis unfolding GetPendingRequests_def request_at_def [abs_def] .
qed

lemma demand_card:
  assumes "request_inv s" and "f \<noteq> []"
  shows "CalculateDemand f s = Inr (card {c. (f, c) \<in> request_pair ` active_requests s})"
proof -
  let ?xs = "filter (\<lambda>req. rq_FileID req = f) (map (request_at s) (rs_requests s))"
  have "inj_on request_pair (set (map (request_at s) (rs_requests s)))"
    using assms(1) by (auto simp: request_inv_def inj_on_def pair_of_request_at)
  then have inj: "inj_on rq_ClientID (set ?xs)" by (auto simp: inj_on_def request_pair_def)
  have "distinct (map (request_at s) (rs_requests s))"
    using assms(1) inj_request_at [OF assms(1)] by (simp add: distinct_map request_inv_def)
  then have "length ?xs = card (set ?xs)" by (metis distinct_card distinct_filter)
  also have "\<dots> = card (rq_ClientID ` set ?xs)" using inj by (simp add: card_image)
  also have "rq_ClientID ` set ?xs = {c. (f, c) \<in> request_pair ` active_requests s}"
    by (auto simp: active_requests_def request_pair_def image_iff)
  finally show ?thesis using assms(2) by (simp add: CalculateDemand_def GetPending_active [OF assms(1)])
qed

section \<open>Properties\<close>

text \<open>C19. The request store implements its specification: through every interleaving of the calls of clients, the two
  halves of resolving and aborting, and timers that fire late or after they were stopped, the store is a
  set of pending requests with at most one request per file and client; every step opens a request for a pair
  that has none, closes one, or changes nothing; and the demand of a file is the number of clients with an active
  request for it.\<close>

theorem request_store_refines_active_set:
  assumes "reach requests_init request_step s"
  shows "reach (\<lambda>A. A = {}) demand_step (active_requests s)
    \<and> inj_on request_pair (active_requests s)
    \<and> (\<forall>t. request_step s t \<longrightarrow> demand_step (active_requests s) (active_requests t) \<or> active_requests t = active_requests s)
    \<and> (\<forall>f. f \<noteq> [] \<longrightarrow> CalculateDemand f s = Inr (card {c. (f, c) \<in> request_pair ` active_requests s}))"
proof -
  have inv: "request_inv s" using assms by (rule request_sys.inv_reach)
  then have "inj_on request_pair (active_requests s)"
    by (auto simp: request_inv_def active_requests_def inj_on_def pair_of_request_at)
  with inv show ?thesis
    using request_sys.reach_abs [OF assms] request_sys.abs_step [OF inv] demand_card [OF inv] by blast
qed

theorem request_store_refines_active_set_witness:
  "\<exists>s. reach requests_init request_step s \<and> CalculateDemand ''f'' s = Inr 1"
proof -
  let ?s = "snd (GetOrCreateRequest ''f'' ''c'' 5 (empty_requests 0))"
  have "reach requests_init request_step ?s"
    by (rule reach_step [where step = request_step, OF reach_init [of requests_init] rs_get [of "''f''" "''c''" 5 "empty_requests 0" "fst (GetOrCreateRequest ''f'' ''c'' 5 (empty_requests 0))"]])
      (auto simp: requests_init_def)
  moreover from request_store_refines_active_set [OF this]
  have "CalculateDemand ''f'' ?s = Inr (card {c. (''f'', c) \<in> request_pair ` active_requests ?s})" by simp
  moreover have "request_pair ` active_requests ?s = {(''f'', ''c'')}"
    by (simp add: GetOrCreateRequest_def find_active_def empty_requests_def active_requests_def request_pair_def
        request_at_def CreateRequest_def Let_def)
  then have "{c. (''f'', c) \<in> request_pair ` active_requests ?s} = {''c''}" by auto
  ultimately show ?thesis by auto
qed

text \<open>A record that is no longer pending does not change.\<close>

definition ended_kept :: "request_store \<Rightarrow> request_store \<Rightarrow> bool" where
  "ended_kept s t \<longleftrightarrow> rs_next s \<le> rs_next t \<and>
     (\<forall>a r. a < rs_next s \<longrightarrow> rs_heap s a = Some r \<longrightarrow> rq_Status (rr_request r) \<noteq> Pending \<longrightarrow> rs_heap t a = Some r)"

lemma transition_keeps_ended:
  "rs_heap s' = rs_heap s \<Longrightarrow> rs_next s' = rs_next s \<Longrightarrow> ended_kept s (snd (transitionRecord a st s'))"
  by (auto simp: ended_kept_def transitionRecord_def removeRecordLocked_def split: option.splits)

interpretation request_history: monotone_system request_step ended_kept
proof unfold_locales
  fix s t u :: request_store
  show "ended_kept s s" by (simp add: ended_kept_def)
  show "ended_kept s t \<Longrightarrow> ended_kept t u \<Longrightarrow> ended_kept s u" by (auto simp: ended_kept_def)
  assume "request_step s t"
  then show "ended_kept s t"
  proof (cases rule: request_step.cases)
    case (rs_get f c lifetime r)
    then show ?thesis
      by (auto simp: GetOrCreateRequest_def Let_def ended_kept_def split: if_splits option.splits)
  qed (simp_all add: transition_keeps_ended expireRequest_def, simp_all add: ended_kept_def)
qed

text \<open>A request ends once and never lingers: in every reachable state, a request that was resolved, aborted or
  expired keeps that status through everything that follows, including timers and calls that still hold a pointer to
  it; and a pending request has its timer running, whose firing expires exactly this request and removes it from the
  demand.\<close>

lemma request_ends_once:
  assumes "reach requests_init request_step s" and "rs_heap s a = Some r"
  shows "(rq_Status (rr_request r) \<noteq> Pending \<longrightarrow> (\<forall>t. request_step\<^sup>*\<^sup>* s t \<longrightarrow> rs_heap t a = Some r))
    \<and> (rq_Status (rr_request r) = Pending \<longrightarrow> (\<exists>due. (a, due) \<in> set (rs_timers s))
         \<and> active_requests (expireRequest a s) = active_requests s - {rr_request r}
         \<and> (\<exists>r'. rs_heap (expireRequest a s) a = Some r' \<and> rq_Status (rr_request r') = RequestExpired))"
proof -
  have inv: "request_inv s" using assms(1) by (rule request_sys.inv_reach)
  then have lt: "a < rs_next s" using assms(2) by (auto simp: request_inv_def)
  have ended: "rs_heap t a = Some r" if "rq_Status (rr_request r) \<noteq> Pending" "request_step\<^sup>*\<^sup>* s t" for t
    using request_history.run_le [OF that(2)] that(1) lt assms(2) by (simp add: ended_kept_def)
  have open_req: "(\<exists>due. (a, due) \<in> set (rs_timers s)) \<and> active_requests (expireRequest a s) = active_requests s - {rr_request r}
      \<and> (\<exists>r'. rs_heap (expireRequest a s) a = Some r' \<and> rq_Status (rr_request r') = RequestExpired)"
    if p: "rq_Status (rr_request r) = Pending"
  proof -
    have pa: "pending_at s a" "request_at s a = rr_request r" using p assms(2) by (simp_all add: pending_at_def request_at_def)
    have "s = s\<lparr>rs_timers := rs_timers s, rs_found := rs_found s\<rparr>" by simp
    then have "active_requests (expireRequest a s) = active_requests s - {rr_request r}"
      using transition_inv(2) [OF inv, of RequestExpired "rs_found s" a "rs_timers s"] pa by (simp add: expireRequest_def)
    moreover have "\<exists>due. (a, due) \<in> set (rs_timers s)" using inv p assms(2) unfolding request_inv_def by blast
    moreover have "\<exists>r'. rs_heap (expireRequest a s) a = Some r' \<and> rq_Status (rr_request r') = RequestExpired"
      using p assms(2) by (simp add: expireRequest_def transitionRecord_def removeRecordLocked_def)
    ultimately show ?thesis by blast
  qed
  show ?thesis using ended open_req by blast
qed

lemma request_ends_once_witness:
  "\<exists>s r. reach requests_init request_step s \<and> rs_heap s 0 = Some r \<and> rq_Status (rr_request r) = Pending
     \<and> active_requests (expireRequest 0 s) = active_requests s - {rr_request r}"
proof -
  let ?s = "snd (GetOrCreateRequest ''f'' ''c'' 5 (empty_requests 0))"
  have r: "reach requests_init request_step ?s"
    by (rule reach_step [where step = request_step, OF reach_init [of requests_init]
        rs_get [of "''f''" "''c''" 5 "empty_requests 0" "fst (GetOrCreateRequest ''f'' ''c'' 5 (empty_requests 0))"]])
      (auto simp: requests_init_def)
  have h: "rs_heap ?s 0 = Some \<lparr>rr_request = CreateRequest ''f'' ''c'' 0, rr_timer = Some 5\<rparr>"
    by (simp add: GetOrCreateRequest_def find_active_def empty_requests_def Let_def)
  from request_ends_once [OF r h] r h show ?thesis by (auto simp: CreateRequest_def)
qed

end
