(* ===== verification/Bindings.thy ===== *)
theory Bindings
  imports AvailTypes
begin

text \<open>
  The binding registry, \<open>availability/escrow-payment/bindings/registry.go\<close>: Ethereum addresses
  and escrow contract IDs in hexadecimal, and the two maps from off-chain identities to them. The
  array types are byte lists of length 20 and 32.
\<close>

type_synonym EthereumAddress = bytes
type_synonym EscrowContractID = bytes

datatype binding_error =
    BadAddress
  | BadEscrowID
  | PeerAndAddressRequired
  | AddressAlreadyBound
  | ContractAndEscrowRequired
  | ContractAlreadyBound

section \<open>Hexadecimal identifiers\<close>

text \<open>Drop \<open>0x\<close> from a string of exactly \<open>n\<close> characters.\<close>

definition strip_0x :: "nat \<Rightarrow> string \<Rightarrow> string" where
  "strip_0x n v = (if length v = n \<and> take 2 v = ''0x'' then drop 2 v else v)"

definition ParseEthereumAddress :: "string \<Rightarrow> binding_error + EthereumAddress" where
  "ParseEthereumAddress v =
     (case hex_decode (strip_0x 42 v) of
        None \<Rightarrow> Inl BadAddress
      | Some decoded \<Rightarrow> if length decoded \<noteq> 20 then Inl BadAddress else Inr (copy_into 20 decoded))"

definition ParseEscrowContractID :: "string \<Rightarrow> binding_error + EscrowContractID" where
  "ParseEscrowContractID v =
     (case hex_decode (strip_0x 66 v) of
        None \<Rightarrow> Inl BadEscrowID
      | Some decoded \<Rightarrow> if length decoded \<noteq> 32 then Inl BadEscrowID else Inr (copy_into 32 decoded))"

text \<open>\<open>EthereumAddress.String\<close> and \<open>EscrowContractID.String\<close>.\<close>

definition id_String :: "bytes \<Rightarrow> string" where
  "id_String b = ''0x'' @ hex_encode b"

lemma id_String_inject [simp]: "id_String a = id_String b \<longleftrightarrow> a = b"
  by (simp add: id_String_def)

lemma length_id_String [simp]: "length (id_String b) = 2 * length b + 2"
  by (simp add: id_String_def)

section \<open>The registry\<close>

record Registry =
  rg_providers :: "string \<rightharpoonup> EthereumAddress"
  rg_contracts :: "ContractID \<rightharpoonup> EscrowContractID"

definition NewRegistry :: Registry where
  "NewRegistry = \<lparr>rg_providers = Map.empty, rg_contracts = Map.empty\<rparr>"

definition BindProvider :: "string \<Rightarrow> EthereumAddress \<Rightarrow> (Registry, binding_error, unit) stateful" where
  "BindProvider peerID address r =
     (if peerID = [] \<or> address = replicate 20 0 then (Inl PeerAndAddressRequired, r)
      else case rg_providers r peerID of
        Some existing \<Rightarrow> if existing \<noteq> address then (Inl AddressAlreadyBound, r) else (Inr (), r)
      | None \<Rightarrow> (Inr (), r\<lparr>rg_providers := (rg_providers r)(peerID \<mapsto> address)\<rparr>))"

definition BindContract :: "ContractID \<Rightarrow> EscrowContractID \<Rightarrow> (Registry, binding_error, unit) stateful" where
  "BindContract contractID escrowContractID r =
     (if contractID = [] \<or> escrowContractID = replicate 32 0 then (Inl ContractAndEscrowRequired, r)
      else case rg_contracts r contractID of
        Some existing \<Rightarrow> if existing \<noteq> escrowContractID then (Inl ContractAlreadyBound, r) else (Inr (), r)
      | None \<Rightarrow> (Inr (), r\<lparr>rg_contracts := (rg_contracts r)(contractID \<mapsto> escrowContractID)\<rparr>))"

definition ProviderAddress :: "string \<Rightarrow> Registry \<Rightarrow> EthereumAddress option" where
  "ProviderAddress peerID r = rg_providers r peerID"

definition EscrowID :: "ContractID \<Rightarrow> Registry \<Rightarrow> EscrowContractID option" where
  "EscrowID contractID r = rg_contracts r contractID"

section \<open>Write-once maps\<close>

text \<open>The contract the two kinds of binding share: a bind that succeeds makes the lookup return the
  bound value, and no bind changes a value once it is set.\<close>

locale write_once =
  fixes lookup :: "'k \<Rightarrow> 's \<Rightarrow> 'v option"
    and bind_to :: "'k \<Rightarrow> 'v \<Rightarrow> 's \<Rightarrow> ('e + unit) \<times> 's"
  assumes bound: "bind_to k v s = (Inr u, t) \<Longrightarrow> lookup k t = Some v"
    and keeps: "lookup j s = Some w \<Longrightarrow> bind_to k v s = (res, t) \<Longrightarrow> lookup j t = Some w"
    and conflict: "lookup k s = Some w \<Longrightarrow> v \<noteq> w \<Longrightarrow> \<exists>e. bind_to k v s = (Inl e, s)"
begin

lemma keeps_run:
  "lookup j s = Some w \<Longrightarrow> lookup j (fold (\<lambda>(k, v) s. snd (bind_to k v s)) kvs s) = Some w"
proof (induction kvs arbitrary: s)
  case (Cons kv kvs)
  obtain k v where kv: "kv = (k, v)" by fastforce
  obtain res t where "bind_to k v s = (res, t)" by fastforce
  with Cons kv keeps [OF Cons.prems this] show ?case by simp
qed simp

lemma bound_forever:
  assumes "bind_to k v s = (Inr u, t)" and "v' \<noteq> v"
  shows "\<exists>e. bind_to k v' (fold (\<lambda>(k, v) s. snd (bind_to k v s)) kvs t)
    = (Inl e, fold (\<lambda>(k, v) s. snd (bind_to k v s)) kvs t)"
  using conflict [OF keeps_run [OF bound [OF assms(1)]] assms(2)] by blast

end

interpretation provider_bindings: write_once ProviderAddress BindProvider
  by unfold_locales
    (auto simp: ProviderAddress_def BindProvider_def split: if_splits option.splits)

interpretation contract_bindings: write_once EscrowID BindContract
  by unfold_locales
    (auto simp: EscrowID_def BindContract_def split: if_splits option.splits)

section \<open>Properties\<close>

text \<open>A binding is never changed: once \<open>BindContract\<close> has bound an availability contract to an
  escrow contract, every later sequence of \<open>BindContract\<close> calls leaves that binding in place, and
  an attempt to bind the contract to another escrow contract is refused without any effect.\<close>

lemma contract_binding_is_permanent:
  assumes "BindContract c i r = (Inr u, r1)" and "j \<noteq> i"
    and "r2 = fold (\<lambda>(c, i) r. snd (BindContract c i r)) later r1"
  shows "EscrowID c r2 = Some i \<and> (\<exists>e. BindContract c j r2 = (Inl e, r2))"
  using contract_bindings.keeps_run [OF contract_bindings.bound [OF assms(1)], of later]
    contract_bindings.bound_forever [OF assms(1,2), of later] assms(3) by blast

lemma contract_binding_is_permanent_witness:
  "\<exists>r1 e. BindContract ''a'' (replicate 32 1) NewRegistry = (Inr (), r1)
     \<and> EscrowID ''a'' r1 = Some (replicate 32 1)
     \<and> BindContract ''a'' (replicate 32 2) r1 = (Inl e, r1)"
proof -
  have "replicate 32 1 \<noteq> (replicate 32 0 :: bytes)" "replicate 32 2 \<noteq> (replicate 32 1 :: bytes)"
    by (simp_all add: replicate_eq_replicate)
  then obtain r1 where r1: "BindContract ''a'' (replicate 32 1) NewRegistry = (Inr (), r1)"
    by (simp add: BindContract_def NewRegistry_def)
  from contract_binding_is_permanent [OF r1 \<open>replicate 32 2 \<noteq> _\<close>, of r1 "[]"] r1 show ?thesis by auto
qed

text \<open>Identifiers survive printing and parsing: the \<open>0x\<close> form of a 20-byte address and of a
  32-byte escrow contract ID parse back to the same bytes.\<close>

lemma identifiers_parse_back:
  assumes "length a = 20" and "length i = 32"
  shows "ParseEthereumAddress (id_String a) = Inr a \<and> ParseEscrowContractID (id_String i) = Inr i"
  using assms
  by (simp add: ParseEthereumAddress_def ParseEscrowContractID_def strip_0x_def id_String_def)

lemma identifiers_parse_back_witness:
  "ParseEthereumAddress (id_String (replicate 20 171)) = Inr (replicate 20 171)
     \<and> ParseEscrowContractID (id_String (replicate 32 5)) = Inr (replicate 32 5)"
  by (rule identifiers_parse_back) simp_all

end
