(* ===== verification/Payment.thy ===== *)
theory Payment
  imports Bindings Signatures
begin

text \<open>
  The package \<open>payment\<close> of \<open>availability/escrow-payment\<close>: payment states
  (\<open>payment_state.go\<close>), their signature (\<open>signing.go\<close>, \<open>verification.go\<close>), and the store of
  the latest one (\<open>submission.go\<close>). Calls to the chain are an argument.
\<close>

record PaymentState =
  ps_ContractID :: string
  ps_Publisher :: string
  ps_Provider :: string
  ps_Sequence :: u64
  ps_Period :: u64
  ps_CumulativePayment :: u64
  ps_LastChallengeID :: string
  ps_ValidUntil :: u64
  ps_Status :: AvailabilityStatus
  ps_PublisherSignature :: bytes

datatype payment_error =
    IDsRequired
  | RequiresPass
  | InvalidPrivateKey
  | IncompleteState
  | SignedStateRequired
  | StaleOrForeign
  | NothingStored
  | MatchingIDRequired
  | UnsignedSubmission
  | ChainError string

section \<open>Creation and signature\<close>

definition CreatePaymentState ::
    "AvailabilityResult \<Rightarrow> string \<Rightarrow> u64 \<Rightarrow> u64 \<Rightarrow> payment_error + PaymentState" where
  "CreatePaymentState result publisherID cumulativePayment seqno =
     (if ar_ContractID result = [] \<or> ar_ProviderID result = [] \<or> ar_ChallengeID result = []
         \<or> publisherID = [] then Inl IDsRequired
      else if ar_Result result \<noteq> AvailabilityPass then Inl RequiresPass
      else Inr \<lparr>ps_ContractID = ar_ContractID result, ps_Publisher = publisherID,
             ps_Provider = ar_ProviderID result, ps_Sequence = seqno, ps_Period = ar_Period result,
             ps_CumulativePayment = cumulativePayment, ps_LastChallengeID = ar_ChallengeID result,
             ps_ValidUntil = 0, ps_Status = ar_Result result, ps_PublisherSignature = []\<rparr>)"

text \<open>The bytes written to the hash, in order.\<close>

definition payment_payload :: "PaymentState \<Rightarrow> bytes" where
  "payment_payload p = put_string_be (ps_ContractID p) @ put_string_be (ps_Publisher p)
     @ put_string_be (ps_Provider p) @ put_u64_be (ps_Sequence p) @ put_u64_be (ps_Period p)
     @ put_u64_be (ps_CumulativePayment p) @ put_string_be (ps_LastChallengeID p)
     @ put_u64_be (ps_ValidUntil p) @ put_string_be (status_string (ps_Status p))"

definition paymentStateDigest :: "PaymentState \<Rightarrow> bytes" where
  "paymentStateDigest p = sha256 (payment_payload p)"

definition SignPaymentState ::
    "(bytes \<Rightarrow> bytes \<Rightarrow> bytes) \<Rightarrow> PaymentState \<Rightarrow> bytes \<Rightarrow> payment_error + PaymentState" where
  "SignPaymentState ed_sign p publisherPrivateKey =
     (if length publisherPrivateKey \<noteq> 64 then Inl InvalidPrivateKey
      else if ps_ContractID p = [] \<or> ps_Publisher p = [] \<or> ps_Provider p = [] then Inl IncompleteState
      else Inr (p\<lparr>ps_PublisherSignature := ed_sign publisherPrivateKey (paymentStateDigest p)\<rparr>))"

definition Ed25519Signer_Sign ::
    "(bytes \<Rightarrow> bytes \<Rightarrow> bytes) \<Rightarrow> bytes \<Rightarrow> PaymentState \<Rightarrow> payment_error + PaymentState" where
  "Ed25519Signer_Sign ed_sign privateKey p = SignPaymentState ed_sign p privateKey"

definition VerifyPaymentState ::
    "(bytes \<Rightarrow> bytes \<Rightarrow> bytes \<Rightarrow> bool) \<Rightarrow> PaymentState \<Rightarrow> bytes \<Rightarrow> bool" where
  "VerifyPaymentState ed_verify p publisherPublicKey \<longleftrightarrow>
     length publisherPublicKey = 32 \<and> length (ps_PublisherSignature p) = 64
     \<and> ed_verify publisherPublicKey (paymentStateDigest p) (ps_PublisherSignature p)"

section \<open>The store of the latest state\<close>

text \<open>\<open>HasState\<close> and \<open>Latest\<close> together.\<close>

type_synonym PaymentStateStore = "PaymentState option"

definition StorePaymentState ::
    "PaymentState \<Rightarrow> (PaymentStateStore, payment_error, unit) stateful" where
  "StorePaymentState p store =
     (if ps_ContractID p = [] \<or> length (ps_PublisherSignature p) = 0 then (Inl SignedStateRequired, store)
      else case store of
        Some latest \<Rightarrow>
          if ps_ContractID p \<noteq> ps_ContractID latest \<or> ps_Sequence p \<le> ps_Sequence latest
             \<or> ps_CumulativePayment p < ps_CumulativePayment latest
          then (Inl StaleOrForeign, store) else (Inr (), Some p)
      | None \<Rightarrow> (Inr (), Some p))"

definition GetLatestPaymentState :: "PaymentStateStore \<Rightarrow> payment_error + PaymentState" where
  "GetLatestPaymentState store = (case store of None \<Rightarrow> Inl NothingStored | Some p \<Rightarrow> Inr p)"

text \<open>An \<open>EscrowSubmitter\<close> or \<open>EscrowSettler\<close>: a call that may fail and changes the chain.\<close>

type_synonym 'ch chain_call = "string \<Rightarrow> PaymentState \<Rightarrow> 'ch \<Rightarrow> (string + unit) \<times> 'ch"

definition SubmitPaymentState ::
    "string \<Rightarrow> PaymentState \<Rightarrow> 'ch chain_call option \<Rightarrow> ('ch, payment_error, unit) stateful" where
  "SubmitPaymentState contractID p submitter ch =
     (case submitter of
        None \<Rightarrow> (Inl MatchingIDRequired, ch)
      | Some submit \<Rightarrow>
          if contractID = [] \<or> ps_ContractID p \<noteq> contractID then (Inl MatchingIDRequired, ch)
          else if length (ps_PublisherSignature p) = 0 then (Inl UnsignedSubmission, ch)
          else case submit contractID p ch of
            (Inl e, ch') \<Rightarrow> (Inl (ChainError e), ch')
          | (Inr _, ch') \<Rightarrow> (Inr (), ch'))"

section \<open>Lemmas\<close>

lemma status_string_inject:
  "s \<in> {AvailabilityPass, AvailabilityFail} \<Longrightarrow> t \<in> {AvailabilityPass, AvailabilityFail} \<Longrightarrow>
   status_string s = status_string t \<longleftrightarrow> s = t"
  by auto

text \<open>Field lengths that fit the 8-byte prefix, as every Go string has.\<close>

definition payment_len64 :: "PaymentState \<Rightarrow> bool" where
  "payment_len64 p \<longleftrightarrow> len64 (ps_ContractID p) \<and> len64 (ps_Publisher p) \<and> len64 (ps_Provider p)
     \<and> len64 (ps_LastChallengeID p) \<and> len64 (status_string (ps_Status p))"

lemma payment_payload_inject:
  assumes "payment_len64 p" and "payment_len64 q" and "payment_payload p = payment_payload q"
  shows "ps_ContractID p = ps_ContractID q \<and> ps_Publisher p = ps_Publisher q
    \<and> ps_Provider p = ps_Provider q \<and> ps_Sequence p = ps_Sequence q \<and> ps_Period p = ps_Period q
    \<and> ps_CumulativePayment p = ps_CumulativePayment q
    \<and> ps_LastChallengeID p = ps_LastChallengeID q \<and> ps_ValidUntil p = ps_ValidUntil q
    \<and> status_string (ps_Status p) = status_string (ps_Status q)"
  using assms
  by (simp add: payment_payload_def payment_len64_def string_field.cancel_iff u64_field.cancel_iff
      string_field.enc_inj)

lemma paymentStateDigest_signature [simp]:
  "paymentStateDigest (p\<lparr>ps_PublisherSignature := s\<rparr>) = paymentStateDigest p"
  by (simp add: paymentStateDigest_def payment_payload_def)

lemma SignPaymentState_verifies:
  assumes "ed25519_correct valid ed_sign ed_verify" and "valid k"
    and "SignPaymentState ed_sign p k = Inr q"
  shows "VerifyPaymentState ed_verify q (ed_public k)"
    and "q = p\<lparr>ps_PublisherSignature := ps_PublisherSignature q\<rparr>"
  using assms(3) ed25519_correctD [OF assms(1,2)]
  by (auto simp: SignPaymentState_def VerifyPaymentState_def split: if_splits)

section \<open>Properties\<close>

text \<open>C27. A signed payment state verifies with the publisher's public key, and the signed bytes
  determine every field: a state that differs from it in any field other than the signature has
  different signed bytes.\<close>

theorem payment_signature_covers_every_field:
  assumes "ed25519_correct valid ed_sign ed_verify" and "valid k"
    and "SignPaymentState ed_sign p k = Inr q" and "payment_len64 q" and "payment_len64 q'"
    and "ps_Status q \<in> {AvailabilityPass, AvailabilityFail}" and "ps_Status q' \<in> {AvailabilityPass, AvailabilityFail}"
    and "ps_PublisherSignature q' = ps_PublisherSignature q" and "q' \<noteq> q"
  shows "VerifyPaymentState ed_verify q (ed_public k) \<and> payment_payload q' \<noteq> payment_payload q"
proof -
  have "payment_payload q' \<noteq> payment_payload q"
  proof
    assume "payment_payload q' = payment_payload q"
    from payment_payload_inject [OF assms(5,4) this] assms(6-8) have "q' = q"
      by (intro PaymentState.equality) (auto simp: status_string_inject)
    with assms(9) show False by simp
  qed
  with SignPaymentState_verifies(1) [OF assms(1-3)] show ?thesis by simp
qed

definition example_state :: "u64 \<Rightarrow> PaymentState" where
  "example_state amount = \<lparr>ps_ContractID = ''c'', ps_Publisher = ''pub'', ps_Provider = ''prov'',
     ps_Sequence = 1, ps_Period = 1, ps_CumulativePayment = amount, ps_LastChallengeID = ''ch'',
     ps_ValidUntil = 9, ps_Status = AvailabilityPass, ps_PublisherSignature = []\<rparr>"

theorem payment_signature_covers_every_field_witness:
  "\<exists>q. SignPaymentState plain_sign (example_state 5) (replicate 64 3) = Inr q
     \<and> VerifyPaymentState plain_verify q (ed_public (replicate 64 3))
     \<and> payment_payload (q\<lparr>ps_CumulativePayment := 6\<rparr>) \<noteq> payment_payload q"
proof -
  let ?q = "(example_state 5)\<lparr>ps_PublisherSignature :=
    plain_sign (replicate 64 3) (paymentStateDigest (example_state 5))\<rparr>"
  have q: "SignPaymentState plain_sign (example_state 5) (replicate 64 3) = Inr ?q"
    by (simp add: SignPaymentState_def example_state_def)
  have f: "payment_len64 ?q" "payment_len64 (?q\<lparr>ps_CumulativePayment := 6\<rparr>)"
    "ps_Status ?q = AvailabilityPass"
    by (simp_all add: payment_len64_def example_state_def)
  have "?q\<lparr>ps_CumulativePayment := 6\<rparr> \<noteq> ?q" by (simp add: example_state_def)
  with payment_signature_covers_every_field [OF plain_correct _ q f(1,2)] q f(3)
  show ?thesis by (intro exI [of _ ?q]) simp
qed

text \<open>The store of the latest payment state only moves forward: a state is accepted only if it is
  signed, belongs to the stored contract, has a strictly larger sequence number and no smaller
  cumulative payment; an accepted state becomes the latest one and a rejected one changes
  nothing.\<close>

lemma payment_store_moves_forward:
  "case StorePaymentState p store of
     (Inl _, store') \<Rightarrow> store' = store
   | (Inr _, store') \<Rightarrow> store' = Some p \<and> ps_PublisherSignature p \<noteq> []
       \<and> (case store of None \<Rightarrow> True
          | Some latest \<Rightarrow> ps_ContractID p = ps_ContractID latest \<and> ps_Sequence latest < ps_Sequence p
              \<and> ps_CumulativePayment latest \<le> ps_CumulativePayment p)"
  by (auto simp: StorePaymentState_def split: option.splits)

end
