(* ===== verification/DemandProofs.thy ===== *)
theory DemandProofs
  imports Requests Payment
begin

text \<open>
  The proofs and records around requests, of \<open>availability/proof-of-request\<close>: proof of work
  (\<open>security/pow.go\<close>), signed requests (\<open>security/signature.go\<close>), request validation
  (\<open>validation/validator.go\<close>), cache announcements (\<open>cacheAnnouncement\<close>), demand metadata (\<open>demandMetadata\<close>) and the replica
  tracker (\<open>replica/tracker.go\<close>).
\<close>

section \<open>Proof of work\<close>

record PoW =
  pw_Nonce :: u64
  pw_Difficulty :: u8

definition HasPrefix :: "string \<Rightarrow> string \<Rightarrow> bool" where
  "HasPrefix s p \<longleftrightarrow> length p \<le> length s \<and> take (length p) s = p"

definition pow_hash :: "Request \<Rightarrow> u64 \<Rightarrow> string" where
  "pow_hash req nonce = hex_encode (sha256 (str_bytes
     (rq_ClientID req @ rq_FileID req @ format_int (rq_Timestamp req) @ format_nat (unat nonce))))"

text \<open>The loop ends only when a nonce is found; the counter wraps around.\<close>

partial_function (option) pow_loop :: "Request \<Rightarrow> u8 \<Rightarrow> u64 \<Rightarrow> PoW option" where
  "pow_loop req difficulty nonce =
     (if HasPrefix (pow_hash req nonce) (replicate (unat difficulty) (CHR ''0''))
      then Some \<lparr>pw_Nonce = nonce, pw_Difficulty = difficulty\<rparr>
      else pow_loop req difficulty (nonce + 1))"

definition GeneratePoW :: "Request \<Rightarrow> u8 \<Rightarrow> PoW option" where
  "GeneratePoW req difficulty = pow_loop req difficulty 0"

definition VerifyPoW :: "Request \<Rightarrow> PoW \<Rightarrow> bool" where
  "VerifyPoW req p \<longleftrightarrow> HasPrefix (pow_hash req (pw_Nonce p)) (replicate (unat (pw_Difficulty p)) (CHR ''0''))"

section \<open>Signed requests and validation\<close>

record SignedRequest =
  sq_Request :: Request
  sq_Signature :: bytes

text \<open>\<open>json.Marshal\<close> is an argument.\<close>

definition SignRequest ::
    "(bytes \<Rightarrow> bytes \<Rightarrow> bytes) \<Rightarrow> (Request \<Rightarrow> string + bytes) \<Rightarrow> Request \<Rightarrow> bytes \<Rightarrow> string + SignedRequest" where
  "SignRequest ed_sign marshal req privateKey = (case marshal req of
     Inl e \<Rightarrow> Inl e
   | Inr content \<Rightarrow> Inr \<lparr>sq_Request = req, sq_Signature = ed_sign privateKey content\<rparr>)"

definition VerifySignature ::
    "(bytes \<Rightarrow> bytes \<Rightarrow> bytes \<Rightarrow> bool) \<Rightarrow> (Request \<Rightarrow> string + bytes) \<Rightarrow> SignedRequest \<Rightarrow> bytes \<Rightarrow> bool" where
  "VerifySignature ed_verify marshal signedReq publicKey = (case marshal (sq_Request signedReq) of
     Inl _ \<Rightarrow> False
   | Inr content \<Rightarrow> ed_verify publicKey content (sq_Signature signedReq))"

definition ValidateRequest :: "Request \<Rightarrow> bool" where
  "ValidateRequest req \<longleftrightarrow> rq_FileID req \<noteq> [] \<and> rq_ClientID req \<noteq> [] \<and> \<not> rq_Timestamp req \<le> 0 \<and> rq_Status req = Pending"

section \<open>Cache announcements\<close>

record CacheAnnouncement =
  ca_ProviderID :: string
  ca_FileID :: string
  ca_MerkleRoot :: string
  ca_Version :: u64
  ca_Expiry :: gotime

record SignedCacheAnnouncement =
  sa_Announcement :: CacheAnnouncement
  sa_Signature :: bytes

datatype demand_error =
    ProviderIDEmpty
  | FileIDEmpty
  | MerkleRootEmpty
  | ExpiryZero
  | DemandNegative
  | ReplicaCountNegative
  | TimestampZero

definition CreateCacheAnnouncement ::
    "string \<Rightarrow> string \<Rightarrow> string \<Rightarrow> u64 \<Rightarrow> gotime \<Rightarrow> demand_error + CacheAnnouncement" where
  "CreateCacheAnnouncement providerID fileID merkleRoot version expiry =
     (if providerID = [] then Inl ProviderIDEmpty
      else if fileID = [] then Inl FileIDEmpty
      else if merkleRoot = [] then Inl MerkleRootEmpty
      else if expiry = zero_time then Inl ExpiryZero
      else Inr \<lparr>ca_ProviderID = providerID, ca_FileID = fileID, ca_MerkleRoot = merkleRoot,
                ca_Version = version, ca_Expiry = expiry\<rparr>)"

text \<open>\<open>UnixNano\<close> of the expiry is written as an \<open>int64\<close>, that is modulo \<open>2 ^ 64\<close>.\<close>

definition buildSigningPayload :: "CacheAnnouncement \<Rightarrow> demand_error + bytes" where
  "buildSigningPayload announcement =
     (if ca_ProviderID announcement = [] then Inl ProviderIDEmpty
      else if ca_FileID announcement = [] then Inl FileIDEmpty
      else if ca_MerkleRoot announcement = [] then Inl MerkleRootEmpty
      else Inr (put_string_be (ca_ProviderID announcement) @ put_string_be (ca_FileID announcement)
        @ put_string_be (ca_MerkleRoot announcement) @ put_u64_be (word_of_int (ca_Expiry announcement))
        @ put_u64_be (ca_Version announcement)))"

definition SignCacheAnnouncement ::
    "(bytes \<Rightarrow> bytes \<Rightarrow> bytes) \<Rightarrow> CacheAnnouncement \<Rightarrow> bytes \<Rightarrow> demand_error + SignedCacheAnnouncement" where
  "SignCacheAnnouncement ed_sign announcement privateKey = (case buildSigningPayload announcement of
     Inl e \<Rightarrow> Inl e
   | Inr payload \<Rightarrow> Inr \<lparr>sa_Announcement = announcement, sa_Signature = ed_sign privateKey payload\<rparr>)"

definition VerifyCacheAnnouncement ::
    "(bytes \<Rightarrow> bytes \<Rightarrow> bytes \<Rightarrow> bool) \<Rightarrow> SignedCacheAnnouncement \<Rightarrow> bytes \<Rightarrow> bool" where
  "VerifyCacheAnnouncement ed_verify signedAnnouncement publicKey =
     (case buildSigningPayload (sa_Announcement signedAnnouncement) of
        Inl _ \<Rightarrow> False
      | Inr payload \<Rightarrow> ed_verify publicKey payload (sa_Signature signedAnnouncement))"

section \<open>Demand metadata\<close>

record DemandMetadata =
  dm_FileID :: string
  dm_Demand :: int
  dm_ReplicaCount :: int
  dm_Timestamp :: gotime
  dm_Version :: u64

definition CreateDemandMetadata ::
    "string \<Rightarrow> int \<Rightarrow> int \<Rightarrow> gotime \<Rightarrow> u64 \<Rightarrow> demand_error + DemandMetadata" where
  "CreateDemandMetadata fileID demand replicaCount timestamp version =
     (if fileID = [] then Inl FileIDEmpty
      else if demand < 0 then Inl DemandNegative
      else if replicaCount < 0 then Inl ReplicaCountNegative
      else if timestamp = zero_time then Inl TimestampZero
      else Inr \<lparr>dm_FileID = fileID, dm_Demand = demand, dm_ReplicaCount = replicaCount,
                dm_Timestamp = timestamp, dm_Version = version\<rparr>)"

section \<open>The replica tracker\<close>

datatype ProviderState = ReplicaActive | ReplicaRemoved | OtherProviderState string

record Replica =
  rp_ReplicaID :: string
  rp_ProviderID :: string
  rp_FileID :: string
  rp_Version :: u64
  rp_State :: ProviderState

type_synonym Tracker = "Replica list"

definition NewTracker :: Tracker where
  "NewTracker = []"

definition replica_key :: "Replica \<Rightarrow> string \<times> string \<times> u64" where
  "replica_key r = (rp_ProviderID r, rp_FileID r, rp_Version r)"

text \<open>The first entry that satisfies the condition is changed.\<close>

fun update_first :: "('a \<Rightarrow> bool) \<Rightarrow> ('a \<Rightarrow> 'a) \<Rightarrow> 'a list \<Rightarrow> 'a list option" where
  "update_first P f [] = None"
| "update_first P f (x # xs) = (if P x then Some (f x # xs) else map_option ((#) x) (update_first P f xs))"

definition AddOrUpdateReplica :: "Replica \<Rightarrow> (Tracker, demand_error, unit) stateful" where
  "AddOrUpdateReplica replica t =
     (if rp_ProviderID replica = [] then (Inl ProviderIDEmpty, t)
      else if rp_FileID replica = [] then (Inl FileIDEmpty, t)
      else case update_first (\<lambda>existing. replica_key existing = replica_key replica) (\<lambda>existing. existing\<lparr>rp_State := rp_State replica\<rparr>) t of
        Some t' \<Rightarrow> (Inr (), t')
      | None \<Rightarrow> (Inr (), t @ [replica]))"

definition GetReplicaCount :: "string \<Rightarrow> u64 \<Rightarrow> Tracker \<Rightarrow> demand_error + nat" where
  "GetReplicaCount fileID version t =
     (if fileID = [] then Inl FileIDEmpty
      else Inr (length (filter (\<lambda>r. rp_FileID r = fileID \<and> rp_Version r = version \<and> rp_State r = ReplicaActive) t)))"

definition RemoveReplica :: "string \<Rightarrow> string \<Rightarrow> u64 \<Rightarrow> Tracker \<Rightarrow> bool \<times> Tracker" where
  "RemoveReplica providerID fileID version t =
     (case update_first (\<lambda>r. replica_key r = (providerID, fileID, version) \<and> rp_State r = ReplicaActive)
             (\<lambda>r. r\<lparr>rp_State := ReplicaRemoved\<rparr>) t of
        Some t' \<Rightarrow> (True, t')
      | None \<Rightarrow> (False, t))"

section \<open>The search for a nonce\<close>

lemma VerifyPoW_nonce:
  "VerifyPoW req \<lparr>pw_Nonce = n, pw_Difficulty = d\<rparr> \<longleftrightarrow> HasPrefix (pow_hash req n) (replicate (unat d) (CHR ''0''))"
  by (simp add: VerifyPoW_def)

lemma pow_loop_sound: "pow_loop req d n = Some p \<Longrightarrow> VerifyPoW req p \<and> pw_Difficulty p = d"
  by (erule pow_loop.raw_induct [rotated, of _ _ _ _ "\<lambda>req d n p. VerifyPoW req p \<and> pw_Difficulty p = d"])
    (auto simp: VerifyPoW_def split: if_splits)

lemma pow_loop_finds:
  assumes "k < 2 ^ 64" and "VerifyPoW req \<lparr>pw_Nonce = of_nat k, pw_Difficulty = d\<rparr>"
    and "\<forall>i. j \<le> i \<and> i < k \<longrightarrow> \<not> VerifyPoW req \<lparr>pw_Nonce = of_nat i, pw_Difficulty = d\<rparr>" and "j \<le> k"
  shows "pow_loop req d (of_nat j) = Some \<lparr>pw_Nonce = of_nat k, pw_Difficulty = d\<rparr>"
  using assms(3,4)
proof (induction "k - j" arbitrary: j)
  case 0
  then have "j = k" by simp
  with assms(2) show ?case by (subst pow_loop.simps) (simp add: VerifyPoW_nonce)
next
  case (Suc n)
  then have j: "j < k" by simp
  then have "\<not> VerifyPoW req \<lparr>pw_Nonce = of_nat j, pw_Difficulty = d\<rparr>" using Suc.prems(1) by simp
  moreover have "pow_loop req d (of_nat (Suc j)) = Some \<lparr>pw_Nonce = of_nat k, pw_Difficulty = d\<rparr>"
    by (rule Suc.hyps(1)) (use Suc j in auto)
  ultimately show ?case by (subst pow_loop.simps) (simp add: VerifyPoW_nonce add.commute)
qed

lemma GeneratePoW_least:
  assumes "VerifyPoW req \<lparr>pw_Nonce = n, pw_Difficulty = d\<rparr>"
  obtains k where "GeneratePoW req d = Some \<lparr>pw_Nonce = k, pw_Difficulty = d\<rparr>"
    and "\<forall>m. unat m < unat k \<longrightarrow> \<not> VerifyPoW req \<lparr>pw_Nonce = m, pw_Difficulty = d\<rparr>"
proof -
  let ?V = "\<lambda>i. VerifyPoW req \<lparr>pw_Nonce = of_nat i, pw_Difficulty = d\<rparr>"
  have "\<exists>i. ?V i" using assms by (intro exI [of _ "unat n"]) simp
  then obtain k where k: "?V k" and before: "\<forall>i < k. \<not> ?V i" using exists_least_iff [of ?V] by blast
  have u: "of_nat (unat (of_nat k :: u64)) = (of_nat k :: u64)" by simp
  have le: "k \<le> unat (of_nat k :: u64)" using before k u by (metis not_less)
  have lt: "k < 2 ^ 64" using le unsigned_less [of "of_nat k :: u64", where ?'a = nat] by simp
  have "pow_loop req d (of_nat 0) = Some \<lparr>pw_Nonce = of_nat k, pw_Difficulty = d\<rparr>"
    by (rule pow_loop_finds [OF lt k]) (use before in auto)
  then have "GeneratePoW req d = Some \<lparr>pw_Nonce = of_nat k, pw_Difficulty = d\<rparr>"
    by (simp add: GeneratePoW_def)
  moreover have "\<not> VerifyPoW req \<lparr>pw_Nonce = m, pw_Difficulty = d\<rparr>" if m: "unat m < unat (of_nat k :: u64)" for m
  proof -
    have "unat (of_nat k :: u64) \<le> k" by (simp add: unsigned_of_nat take_bit_eq_mod)
    then show ?thesis using m before [rule_format, of "unat m"] by simp
  qed
  ultimately show thesis using that by blast
qed

lemma pow_too_difficult:
  assumes "64 < unat d"
  shows "\<not> VerifyPoW req \<lparr>pw_Nonce = n, pw_Difficulty = d\<rparr>"
  using assms by (simp add: VerifyPoW_nonce HasPrefix_def pow_hash_def)

section \<open>Runs of the replica tracker\<close>

inductive replica_step :: "Tracker \<Rightarrow> Tracker \<Rightarrow> bool" where
  rp_add: "AddOrUpdateReplica r t = (x, t') \<Longrightarrow> replica_step t t'"
| rp_remove: "RemoveReplica p f v t = (b, t') \<Longrightarrow> replica_step t t'"

definition replica_wf :: "Tracker \<Rightarrow> bool" where
  "replica_wf t \<longleftrightarrow> distinct (map replica_key t) \<and> (\<forall>r \<in> set t. rp_ProviderID r \<noteq> [] \<and> rp_FileID r \<noteq> [])"

lemma replica_key_state [simp]:
  "replica_key (r\<lparr>rp_State := st\<rparr>) = replica_key r"
  by (simp add: replica_key_def)

lemma replica_wf_keys:
  "replica_wf t \<longleftrightarrow> distinct (map replica_key t) \<and> (\<forall>k \<in> set (map replica_key t). fst k \<noteq> [] \<and> fst (snd k) \<noteq> [])"
  by (auto simp: replica_wf_def replica_key_def)

lemma replica_wf_cong: "map replica_key u = map replica_key t \<Longrightarrow> replica_wf u \<longleftrightarrow> replica_wf t"
  by (simp only: replica_wf_keys)

lemma update_first_keys:
  "update_first P f xs = Some ys \<Longrightarrow> (\<And>x. g (f x) = g x) \<Longrightarrow> map g ys = map g xs"
  by (induction xs arbitrary: ys) (auto split: if_splits)

lemma update_first_None: "update_first P f xs = None \<longleftrightarrow> (\<forall>x \<in> set xs. \<not> P x)"
  by (induction xs) auto

interpretation replica_sys: invariant_system "\<lambda>t. t = NewTracker" replica_step replica_wf
proof unfold_locales
  fix t :: Tracker
  assume "t = NewTracker"
  then show "replica_wf t" by (simp add: NewTracker_def replica_wf_def)
next
  fix t t'
  assume t: "replica_wf t" "replica_step t t'"
  from t(2) show "replica_wf t'"
  proof cases
    case (rp_add r x)
    show ?thesis
    proof (cases "update_first (\<lambda>e. replica_key e = replica_key r) (\<lambda>e. e\<lparr>rp_State := rp_State r\<rparr>) t")
      case None
      then have "replica_key r \<notin> replica_key ` set t" by (auto simp: update_first_None)
      with rp_add None t(1) show ?thesis
        by (auto simp: AddOrUpdateReplica_def replica_wf_def split: if_splits)
    next
      case (Some u)
      have "map replica_key u = map replica_key t" by (rule update_first_keys [OF Some]) simp
      then have "replica_wf u" using replica_wf_cong t(1) by blast
      with rp_add Some t(1) show ?thesis by (auto simp: AddOrUpdateReplica_def split: if_splits)
    qed
  next
    case (rp_remove p f v b)
    show ?thesis
    proof (cases "update_first (\<lambda>r. replica_key r = (p, f, v) \<and> rp_State r = ReplicaActive) (\<lambda>r. r\<lparr>rp_State := ReplicaRemoved\<rparr>) t")
      case None
      with rp_remove t(1) show ?thesis by (simp add: RemoveReplica_def)
    next
      case (Some u)
      have "map replica_key u = map replica_key t" by (rule update_first_keys [OF Some]) simp
      then have "replica_wf u" using replica_wf_cong t(1) by blast
      with rp_remove Some show ?thesis by (simp add: RemoveReplica_def)
    qed
  qed
qed

section \<open>Properties\<close>

text \<open>C33. The search for a proof of work returns exactly when a solution exists: \<open>GeneratePoW\<close> ends if and
  only if some nonce satisfies the difficulty, and then it returns the smallest such nonce, which \<open>VerifyPoW\<close> accepts; for a difficulty
  above 64, the number of hexadecimal digits of a hash, it never ends.\<close>

theorem pow_search_exact:
  "((\<exists>p. GeneratePoW req d = Some p) \<longleftrightarrow> (\<exists>n. VerifyPoW req \<lparr>pw_Nonce = n, pw_Difficulty = d\<rparr>))
   \<and> (\<forall>p. GeneratePoW req d = Some p \<longrightarrow> VerifyPoW req p \<and> pw_Difficulty p = d
        \<and> (\<forall>m. unat m < unat (pw_Nonce p) \<longrightarrow> \<not> VerifyPoW req \<lparr>pw_Nonce = m, pw_Difficulty = d\<rparr>))
   \<and> (64 < unat d \<longrightarrow> GeneratePoW req d = None)"
proof -
  have sound: "VerifyPoW req p \<and> pw_Difficulty p = d" if "GeneratePoW req d = Some p" for p
    using pow_loop_sound that by (simp add: GeneratePoW_def)
  have ver: "VerifyPoW req \<lparr>pw_Nonce = pw_Nonce p, pw_Difficulty = d\<rparr>" if "GeneratePoW req d = Some p" for p
    using sound [OF that] by (auto simp: VerifyPoW_def)
  have "\<forall>m. unat m < unat (pw_Nonce p) \<longrightarrow> \<not> VerifyPoW req \<lparr>pw_Nonce = m, pw_Difficulty = d\<rparr>"
    if g: "GeneratePoW req d = Some p" for p
    by (rule GeneratePoW_least [OF ver [OF g]]) (use g in auto)
  moreover have "GeneratePoW req d = None" if "64 < unat d"
    using ver pow_too_difficult [OF that] by (cases "GeneratePoW req d") auto
  moreover have "\<exists>p. GeneratePoW req d = Some p" if "VerifyPoW req \<lparr>pw_Nonce = n, pw_Difficulty = d\<rparr>" for n
    by (rule GeneratePoW_least [OF that]) blast
  ultimately show ?thesis using sound ver by blast
qed

theorem pow_search_exact_witness:
  "(let req = CreateRequest ''f'' ''c'' 1 in
     GeneratePoW req 0 = Some \<lparr>pw_Nonce = 0, pw_Difficulty = 0\<rparr> \<and> VerifyPoW req \<lparr>pw_Nonce = 0, pw_Difficulty = 0\<rparr>
     \<and> GeneratePoW req 65 = None)"
proof -
  let ?r = "CreateRequest ''f'' ''c'' 1"
  have "GeneratePoW ?r 0 = Some \<lparr>pw_Nonce = 0, pw_Difficulty = 0\<rparr>"
    unfolding GeneratePoW_def by (subst pow_loop.simps) (simp add: HasPrefix_def)
  with pow_search_exact [of ?r 0] pow_search_exact [of ?r 65] show ?thesis by (simp add: Let_def)
qed

text \<open>C32. The replica tracker is well formed after any sequence of updates and removals: it has at most one
  entry for a provider, file and version, every entry names a provider and a file, and the replica count is the number of providers whose
  entry is active.\<close>

theorem replica_tracker_well_formed:
  assumes "reach (\<lambda>t. t = NewTracker) replica_step t"
  shows "distinct (map replica_key t) \<and> (\<forall>r \<in> set t. rp_ProviderID r \<noteq> [] \<and> rp_FileID r \<noteq> [])
    \<and> (f \<noteq> [] \<longrightarrow> GetReplicaCount f v t
         = Inr (card {p. \<exists>r \<in> set t. replica_key r = (p, f, v) \<and> rp_State r = ReplicaActive}))"
proof -
  have wf: "replica_wf t" using assms by (rule replica_sys.inv_reach)
  let ?xs = "filter (\<lambda>r. rp_FileID r = f \<and> rp_Version r = v \<and> rp_State r = ReplicaActive) t"
  have d: "distinct (map replica_key ?xs)" using wf by (simp add: replica_wf_def distinct_map_filter)
  then have "inj_on rp_ProviderID (set ?xs)" by (auto simp: distinct_map inj_on_def replica_key_def)
  moreover have "distinct ?xs" using d by (simp add: distinct_map)
  ultimately have "length ?xs = card (rp_ProviderID ` set ?xs)" by (simp only: card_image distinct_card)
  also have "rp_ProviderID ` set ?xs = {p. \<exists>r \<in> set t. replica_key r = (p, f, v) \<and> rp_State r = ReplicaActive}"
    by (auto simp: replica_key_def)
  finally show ?thesis using wf by (simp add: GetReplicaCount_def replica_wf_def)
qed

theorem replica_tracker_well_formed_witness:
  "\<exists>t. reach (\<lambda>t. t = NewTracker) replica_step t \<and> GetReplicaCount ''f'' 1 t = Inr 1
     \<and> {p. \<exists>r \<in> set t. replica_key r = (p, ''f'', 1) \<and> rp_State r = ReplicaActive} = {''p''}"
proof -
  let ?r = "\<lparr>rp_ReplicaID = [], rp_ProviderID = ''p'', rp_FileID = ''f'', rp_Version = 1, rp_State = ReplicaActive\<rparr>"
  have "replica_step NewTracker [?r]"
    by (rule rp_add [where r = ?r and x = "Inr ()"]) (simp add: AddOrUpdateReplica_def NewTracker_def)
  then have "reach (\<lambda>t. t = NewTracker) replica_step [?r]"
    by (rule reach_step [where step = replica_step, OF reach_init [of "\<lambda>t. t = NewTracker", OF refl]])
  moreover have "{p. \<exists>r \<in> set [?r]. replica_key r = (p, ''f'', 1) \<and> rp_State r = ReplicaActive} = {''p''}"
    by (auto simp: replica_key_def)
  ultimately show ?thesis using replica_tracker_well_formed [of "[?r]" "''f''" 1] by (intro exI [of _ "[?r]"]) simp
qed

end
