(* ===== verification/DemandBridge.thy ===== *)
theory DemandBridge
  imports DemandProofs Content
begin

text \<open>
  The manager of replicas and demand, \<open>integration/availability/demand_bridge.go\<close>, over the replica tracker, the
  cache announcements, the proof of work and the request store of \<open>proof-of-request\<close>. The manager's state is its replica
  tracker; the request store is a global variable of the package \<open>request\<close>.
\<close>

datatype bridge_error =
    NilManifest
  | CreateAnnouncement demand_error
  | SignAnnouncement demand_error
  | InvalidAnnouncementSignature
  | AnnouncementExpired
  | TrackReplica demand_error
  | PoWFailed
  | TrackRequest request_error

definition CreateSignedCacheAnnouncement ::
    "(bytes \<Rightarrow> bytes \<Rightarrow> bytes) \<Rightarrow> gotime \<Rightarrow> string \<Rightarrow> bytes \<Rightarrow> Manifest option \<Rightarrow> duration
     \<Rightarrow> bridge_error + SignedCacheAnnouncement" where
  "CreateSignedCacheAnnouncement ed_sign now providerID privKey manifest ttl = (case manifest of
     None \<Rightarrow> Inl NilManifest
   | Some m \<Rightarrow>
       (case CreateCacheAnnouncement providerID (hex_encode (cd_ID (mf_Descriptor m))) (hex_encode (mf_MerkleRoot m))
               (ucast (mf_Version m)) (now + ttl) of
          Inl e \<Rightarrow> Inl (CreateAnnouncement e)
        | Inr ann \<Rightarrow>
            (case SignCacheAnnouncement ed_sign ann privKey of
               Inl e \<Rightarrow> Inl (SignAnnouncement e)
             | Inr sca \<Rightarrow> Inr sca)))"

definition IngestAnnouncement ::
    "(bytes \<Rightarrow> bytes \<Rightarrow> bytes \<Rightarrow> bool) \<Rightarrow> gotime \<Rightarrow> SignedCacheAnnouncement \<Rightarrow> bytes \<Rightarrow> (Tracker, bridge_error, unit) stateful" where
  "IngestAnnouncement ed_verify now sca pubKey t =
     (if \<not> VerifyCacheAnnouncement ed_verify sca pubKey then (Inl InvalidAnnouncementSignature, t)
      else let ann = sa_Announcement sca in
        if ca_Expiry ann < now then (Inl AnnouncementExpired, t)
        else (case AddOrUpdateReplica \<lparr>rp_ReplicaID = [], rp_ProviderID = ca_ProviderID ann, rp_FileID = ca_FileID ann,
                rp_Version = ca_Version ann, rp_State = ReplicaActive\<rparr> t of
                (Inl e, t') \<Rightarrow> (Inl (TrackReplica e), t')
              | (Inr _, t') \<Rightarrow> (Inr (), t')))"

definition ValidateAndTrackRequest ::
    "Request \<Rightarrow> PoW \<Rightarrow> duration \<Rightarrow> (request_store, bridge_error, Request) stateful" where
  "ValidateAndTrackRequest req pow lifetime s =
     (if \<not> VerifyPoW req pow then (Inl PoWFailed, s)
      else (case GetOrCreateRequest (rq_FileID req) (rq_ClientID req) lifetime s of
              (Inl e, s') \<Rightarrow> (Inl (TrackRequest e), s')
            | (Inr (trackedReq, _), s') \<Rightarrow> (Inr trackedReq, s')))"

text \<open>A sequence of announcements, and a sequence of requests.\<close>

fun ingest_all ::
    "(bytes \<Rightarrow> bytes \<Rightarrow> bytes \<Rightarrow> bool) \<Rightarrow> gotime \<Rightarrow> bytes \<Rightarrow> SignedCacheAnnouncement list \<Rightarrow> Tracker \<Rightarrow> Tracker" where
  "ingest_all ed_verify now pubKey [] t = t"
| "ingest_all ed_verify now pubKey (a # as) t =
     ingest_all ed_verify now pubKey as (snd (IngestAnnouncement ed_verify now a pubKey t))"

fun track_all :: "duration \<Rightarrow> (Request \<times> PoW) list \<Rightarrow> request_store \<Rightarrow> request_store" where
  "track_all lifetime [] s = s"
| "track_all lifetime ((req, pow) # rs) s = track_all lifetime rs (snd (ValidateAndTrackRequest req pow lifetime s))"

section \<open>Announcements\<close>

lemma CreateSigned_verifies:
  assumes "ed25519_correct valid ed_sign ed_verify" and "valid k"
    and "CreateSignedCacheAnnouncement ed_sign now p k (Some m) ttl = Inr a"
  shows "VerifyCacheAnnouncement ed_verify a (ed_public k) \<and> p \<noteq> []
    \<and> sa_Announcement a = \<lparr>ca_ProviderID = p, ca_FileID = hex_encode (cd_ID (mf_Descriptor m)),
        ca_MerkleRoot = hex_encode (mf_MerkleRoot m), ca_Version = ucast (mf_Version m), ca_Expiry = now + ttl\<rparr>"
  using assms(3) ed25519_correctD [OF assms(1,2)]
  by (auto simp: CreateSignedCacheAnnouncement_def CreateCacheAnnouncement_def SignCacheAnnouncement_def
      VerifyCacheAnnouncement_def split: if_splits sum.splits)

definition announced :: "Manifest \<Rightarrow> string \<Rightarrow> Replica" where
  "announced m p = \<lparr>rp_ReplicaID = [], rp_ProviderID = p, rp_FileID = hex_encode (cd_ID (mf_Descriptor m)),
     rp_Version = ucast (mf_Version m), rp_State = ReplicaActive\<rparr>"

lemma Ingest_new:
  assumes "ed25519_correct valid ed_sign ed_verify" and "valid k"
    and "CreateSignedCacheAnnouncement ed_sign now p k (Some m) ttl = Inr a"
    and "now' \<le> now + ttl" and "p \<notin> rp_ProviderID ` set t" and "cd_ID (mf_Descriptor m) \<noteq> []"
  shows "IngestAnnouncement ed_verify now' a (ed_public k) t = (Inr (), t @ [announced m p])"
proof -
  note a = CreateSigned_verifies [OF assms(1-3)]
  have "update_first (\<lambda>e. replica_key e = replica_key (announced m p)) g t = None" for g
    using assms(5) by (force simp: update_first_None replica_key_def announced_def)
  then have "AddOrUpdateReplica (announced m p) t = (Inr (), t @ [announced m p])"
    using a assms(6) by (simp add: AddOrUpdateReplica_def) (simp add: announced_def)
  with a assms(4) show ?thesis by (simp add: IngestAnnouncement_def announced_def)
qed

lemma ingest_all_new:
  assumes "ed25519_correct valid ed_sign ed_verify" and "valid k" and "now' \<le> now + ttl" and "cd_ID (mf_Descriptor m) \<noteq> []"
    and "list_all2 (\<lambda>p a. CreateSignedCacheAnnouncement ed_sign now p k (Some m) ttl = Inr a) ps as"
    and "distinct ps" and "set ps \<inter> rp_ProviderID ` set t = {}"
  shows "ingest_all ed_verify now' (ed_public k) as t = t @ map (announced m) ps"
  using assms(5-7)
proof (induction arbitrary: t rule: list_all2_induct)
  case (Cons p ps a as)
  have "IngestAnnouncement ed_verify now' a (ed_public k) t = (Inr (), t @ [announced m p])"
    by (rule Ingest_new [OF assms(1,2) Cons.hyps(1) assms(3) _ assms(4)]) (use Cons.prems in auto)
  moreover have "rp_ProviderID (announced m p) = p" by (simp add: announced_def)
  ultimately show ?case using Cons.prems Cons.IH [of "t @ [announced m p]"] by auto
qed simp

section \<open>Tracked requests\<close>

lemma VerifyPoW_zero [simp]: "VerifyPoW req \<lparr>pw_Nonce = n, pw_Difficulty = 0\<rparr>"
  by (simp add: VerifyPoW_nonce HasPrefix_def)

text \<open>The pairs of file and client with an active request, in the order of the store.\<close>

definition active_pairs :: "request_store \<Rightarrow> (string \<times> string) list" where
  "active_pairs s = map request_pair (GetPendingRequests s)"

lemma active_pairs_of: "request_inv s \<Longrightarrow> active_pairs s = map (pair_of s) (rs_requests s)"
  by (simp add: active_pairs_def GetPending_active pair_of_request_at)

lemma track_new:
  assumes "request_inv s" and "VerifyPoW req pow" and "0 < lifetime"
    and "request_pair req \<notin> set (active_pairs s)" and "ValidateAndTrackRequest req pow lifetime s = (x, t)"
  shows "request_inv t \<and> active_pairs t = active_pairs s @ [request_pair req]"
proof -
  let ?q = "CreateRequest (rq_FileID req) (rq_ClientID req) (rs_now s)"
  let ?a = "rs_next s"
  have new: "(rq_FileID req, rq_ClientID req) \<notin> pair_of s ` set (rs_requests s)"
    using assms(4) by (simp add: active_pairs_of [OF assms(1)] request_pair_def)
  then have "find_active s (rq_FileID req) (rq_ClientID req) = None"
    using find_active_Some [of s "rq_FileID req" "rq_ClientID req"]
    by (cases "find_active s (rq_FileID req) (rq_ClientID req)") force+
  with assms(2,3,5) have t: "t = s\<lparr>rs_heap := (rs_heap s)(?a \<mapsto> \<lparr>rr_request = ?q, rr_timer = Some (rs_now s + lifetime)\<rparr>),
      rs_next := Suc ?a, rs_requests := rs_requests s @ [?a], rs_timers := rs_timers s @ [(?a, rs_now s + lifetime)]\<rparr>"
    by (auto simp: ValidateAndTrackRequest_def GetOrCreateRequest_def Let_def)
  have inv: "request_inv t" using created_inv(1) [OF assms(1) new t] .
  have "?a \<notin> set (rs_requests s)" using assms(1) by (auto simp: request_inv_def pending_at_def)
  then have "map (pair_of t) (rs_requests s) = map (pair_of s) (rs_requests s)" by (auto simp: t pair_of_def)
  moreover have "pair_of t ?a = request_pair req" by (simp add: t pair_of_def request_pair_def CreateRequest_def)
  moreover have "rs_requests t = rs_requests s @ [?a]" by (simp add: t)
  ultimately show ?thesis by (simp add: active_pairs_of [OF inv] active_pairs_of [OF assms(1)] inv)
qed

lemma track_all_new:
  assumes "request_inv s" and "0 < lifetime" and "\<forall>r \<in> set rs. VerifyPoW (fst r) (snd r)"
    and "distinct (map (request_pair \<circ> fst) rs)" and "set (map (request_pair \<circ> fst) rs) \<inter> set (active_pairs s) = {}"
  shows "request_inv (track_all lifetime rs s) \<and> active_pairs (track_all lifetime rs s) = active_pairs s @ map (request_pair \<circ> fst) rs"
  using assms(1,3-5)
proof (induction rs arbitrary: s)
  case (Cons x rs)
  obtain req pow where x: "x = (req, pow)" by force
  obtain y t where t: "ValidateAndTrackRequest req pow lifetime s = (y, t)" by force
  have n: "request_inv t" "active_pairs t = active_pairs s @ [request_pair req]"
    using track_new [OF Cons.prems(1) _ assms(2) _ t] Cons.prems(2,4) x by auto
  have "request_inv (track_all lifetime rs t) \<and> active_pairs (track_all lifetime rs t) = active_pairs t @ map (request_pair \<circ> fst) rs"
    by (rule Cons.IH [OF n(1)]) (use n(2) Cons.prems x in auto)
  with n(2) x t show ?case by simp
qed simp

lemma demand_of_pairs: "f \<noteq> [] \<Longrightarrow> CalculateDemand f s = Inr (length (filter (\<lambda>p. fst p = f) (active_pairs s)))"
  by (simp add: CalculateDemand_def active_pairs_def request_pair_def filter_map comp_def)

section \<open>Properties\<close>

text \<open>Replicas are counted by name, not by key: announcements for the same manifest under any number of distinct provider
  names, all signed with one key, are all accepted with that key, and each of them counts as a replica.\<close>

lemma one_key_announces_many_replicas:
  assumes "ed25519_correct valid ed_sign ed_verify" and "valid k" and "now' \<le> now + ttl" and "cd_ID (mf_Descriptor m) \<noteq> []"
    and "list_all2 (\<lambda>p a. CreateSignedCacheAnnouncement ed_sign now p k (Some m) ttl = Inr a) ps as" and "distinct ps"
  shows "GetReplicaCount (hex_encode (cd_ID (mf_Descriptor m))) (ucast (mf_Version m))
    (ingest_all ed_verify now' (ed_public k) as NewTracker) = Inr (length ps)"
proof -
  have "ingest_all ed_verify now' (ed_public k) as NewTracker = map (announced m) ps"
    using ingest_all_new [OF assms, of NewTracker] by (simp add: NewTracker_def)
  with assms(4) show ?thesis by (simp add: GetReplicaCount_def announced_def filter_map comp_def)
qed

definition announced_manifest :: Manifest where
  "announced_manifest = \<lparr>mf_Version = 1, mf_Descriptor = \<lparr>cd_ID = [7], cd_Type = TypeFile, cd_Size = 1\<rparr>, mf_ChunkIDs = [[7]],
     mf_MerkleRoot = [8], mf_WholeHash = [9], mf_Crypto = \<lparr>cy_Algorithm = [], cy_Version = 1, cy_ChunkNonceSize = 12, cy_KeyID = []\<rparr>\<rparr>"

lemma one_key_announces_many_replicas_witness:
  "\<exists>as. list_all2 (\<lambda>p a. CreateSignedCacheAnnouncement plain_sign 1 p (replicate 64 3) (Some announced_manifest) 5 = Inr a) [''a'', ''b''] as
     \<and> GetReplicaCount (hex_encode [7]) 1 (ingest_all plain_verify 2 (ed_public (replicate 64 3)) as NewTracker) = Inr 2"
proof -
  have "\<exists>a. CreateSignedCacheAnnouncement plain_sign 1 p (replicate 64 3) (Some announced_manifest) 5 = Inr a" if "p \<noteq> []" for p
    using that by (simp add: CreateSignedCacheAnnouncement_def CreateCacheAnnouncement_def SignCacheAnnouncement_def
        buildSigningPayload_def announced_manifest_def zero_time_def del: replicate.simps)
  then obtain a b where "list_all2 (\<lambda>p a. CreateSignedCacheAnnouncement plain_sign 1 p (replicate 64 3) (Some announced_manifest) 5 = Inr a)
      [''a'', ''b''] [a, b]" by fastforce
  with one_key_announces_many_replicas [OF plain_correct _ _ _ this, of 2] show ?thesis
    by (auto simp: announced_manifest_def intro!: exI [of _ "[a, b]"])
qed

text \<open>Demand can be raised without work: the difficulty that is checked is the one in the proof itself, and a proof of difficulty 0
  is accepted with any nonce, so that requests for a file under any number of new client names raise its demand by that number.\<close>

lemma demand_rises_without_work:
  assumes "reach requests_init request_step s" and "0 < lifetime" and "f \<noteq> []" and "distinct cs"
    and "\<forall>c \<in> set cs. (f, c) \<notin> request_pair ` active_requests s"
    and "CalculateDemand f s = Inr d"
  shows "CalculateDemand f (track_all lifetime (map (\<lambda>c. (\<lparr>rq_FileID = f, rq_ClientID = c, rq_Timestamp = ts, rq_Status = st\<rparr>,
           \<lparr>pw_Nonce = n c, pw_Difficulty = 0\<rparr>)) cs) s) = Inr (d + length cs)"
proof -
  let ?rs = "map (\<lambda>c. (\<lparr>rq_FileID = f, rq_ClientID = c, rq_Timestamp = ts, rq_Status = st\<rparr>,
    \<lparr>pw_Nonce = n c, pw_Difficulty = 0\<rparr>)) cs"
  have inv: "request_inv s" using assms(1) by (rule request_sys.inv_reach)
  have ps: "map (request_pair \<circ> fst) ?rs = map (Pair f) cs" by (simp add: request_pair_def)
  have "set (active_pairs s) = request_pair ` active_requests s"
    by (auto simp: active_pairs_of [OF inv] pair_of_request_at active_requests_def)
  with assms(5) have "set (map (request_pair \<circ> fst) ?rs) \<inter> set (active_pairs s) = {}" unfolding ps by auto
  moreover have "distinct (map (request_pair \<circ> fst) ?rs)" unfolding ps using assms(4) by (simp add: distinct_map inj_on_def)
  ultimately have "active_pairs (track_all lifetime ?rs s) = active_pairs s @ map (Pair f) cs"
    using track_all_new [OF inv assms(2), of ?rs] ps by auto
  with assms(3,6) show ?thesis by (simp add: demand_of_pairs filter_map comp_def)
qed

lemma demand_rises_without_work_witness:
  "CalculateDemand ''f'' (track_all 5 (map (\<lambda>c. (\<lparr>rq_FileID = ''f'', rq_ClientID = c, rq_Timestamp = 1, rq_Status = Pending\<rparr>,
     \<lparr>pw_Nonce = 0, pw_Difficulty = 0\<rparr>)) [''a'', ''b'', ''c'']) (empty_requests 0)) = Inr 3"
proof -
  have "reach requests_init request_step (empty_requests 0)"
    by (rule reach_init) (auto simp: requests_init_def)
  moreover have "active_requests (empty_requests 0) = {}" by (simp add: active_requests_def empty_requests_def)
  moreover have "CalculateDemand ''f'' (empty_requests 0) = Inr 0"
    by (simp add: CalculateDemand_def GetPendingRequests_def empty_requests_def)
  ultimately show ?thesis
    using demand_rises_without_work [of "empty_requests 0" 5 "''f''" "[''a'', ''b'', ''c'']" 0 1 Pending "\<lambda>_. 0"] by simp
qed

end
