(* ===== verification/Merkle.thy ===== *)
theory Merkle
  imports Verification
begin

text \<open>
  The binary Merkle tree of \<open>integration/availability/merkle.go\<close>, whose proofs are meant to
  verify with \<open>VerifyMerkleProof\<close> of theory \<open>Verification\<close>. Index expressions that would
  panic in Go are the error \<open>IndexOutOfRange\<close>.
\<close>

section \<open>The tree\<close>

record MerkleTree =
  mt_leaves :: "bytes list"
  mt_levels :: "bytes list list"
  mt_root :: bytes

datatype merkle_error =
    NoLeaves
  | BadLeafLength nat nat
  | NoChunks
  | LeafOutOfBounds int nat
  | IndexOutOfRange

definition HashPair :: "bytes \<Rightarrow> bytes \<Rightarrow> bytes" where
  "HashPair left right = sha256 (left @ right)"

text \<open>An odd level is completed by a second copy of its last node.\<close>

definition pad_level :: "bytes list \<Rightarrow> bytes list" where
  "pad_level nodes = (if odd (length nodes) then nodes @ [last nodes] else nodes)"

text \<open>The loop over the pairs of a padded level, which always has even length.\<close>

fun next_level :: "bytes list \<Rightarrow> bytes list" where
  "next_level (a # b # nodes) = HashPair a b # next_level nodes"
| "next_level _ = []"

lemma length_next_level [simp]: "length (next_level nodes) = length nodes div 2"
  by (induction nodes rule: next_level.induct) simp_all

lemma length_pad_level: "length (pad_level nodes) = 2 * ((length nodes + 1) div 2)"
  by (auto simp: pad_level_def elim!: oddE)

text \<open>\<open>levels\<close> as the loop of \<open>NewMerkleTree\<close> appends them, from the leaves to the root.\<close>

function build_levels :: "bytes list \<Rightarrow> bytes list list" where
  "build_levels currentLevel =
     (if length currentLevel \<le> 1 then [currentLevel]
      else currentLevel # build_levels (next_level (pad_level currentLevel)))"
  by pat_completeness auto
termination by (relation "measure length") (auto simp: length_pad_level)

declare build_levels.simps [simp del]

definition NewMerkleTree :: "bytes list \<Rightarrow> merkle_error + MerkleTree" where
  "NewMerkleTree leafHashes =
     (if leafHashes = [] then Inl NoLeaves
      else case find (\<lambda>(i, h). length h \<noteq> 32) (enumerate 0 leafHashes) of
        Some (i, h) \<Rightarrow> Inl (BadLeafLength i (length h))
      | None \<Rightarrow>
          let leaves = map (copy_into 32) leafHashes in
          if length leaves = 1 then
            Inr \<lparr>mt_leaves = leaves, mt_levels = [leaves], mt_root = leaves ! 0\<rparr>
          else
            let levels = build_levels leaves in
            Inr \<lparr>mt_leaves = leaves, mt_levels = levels, mt_root = last levels ! 0\<rparr>)"

definition BuildMerkleTreeFromChunks :: "bytes list \<Rightarrow> merkle_error + MerkleTree" where
  "BuildMerkleTreeFromChunks chunks =
     (if chunks = [] then Inl NoChunks else NewMerkleTree (map sha256 chunks))"

definition Root :: "MerkleTree \<Rightarrow> bytes" where
  "Root m = copy_into 32 (mt_root m)"

definition LeafCount :: "MerkleTree \<Rightarrow> nat" where
  "LeafCount m = length (mt_leaves m)"

text \<open>The loop of \<open>GenerateProof\<close> over all levels but the last.\<close>

fun proof_path :: "bytes list list \<Rightarrow> nat \<Rightarrow> bytes list option" where
  "proof_path (level # level' # levels) idx =
     (let currentNodes = pad_level level;
          s = (if even idx then idx + 1 else idx - 1)
      in if s < length currentNodes
         then map_option ((#) (copy_into 32 (currentNodes ! s))) (proof_path (level' # levels) (idx div 2))
         else None)"
| "proof_path _ idx = Some []"

definition GenerateProof :: "MerkleTree \<Rightarrow> int \<Rightarrow> merkle_error + bytes list" where
  "GenerateProof m leafIndex =
     (if leafIndex < 0 \<or> int (length (mt_leaves m)) \<le> leafIndex
      then Inl (LeafOutOfBounds leafIndex (length (mt_leaves m)))
      else if length (mt_leaves m) = 1 then Inr []
      else case proof_path (mt_levels m) (nat leafIndex) of
        None \<Rightarrow> Inl IndexOutOfRange
      | Some ps \<Rightarrow> Inr ps)"

section \<open>Levels\<close>

lemma length_HashPair [simp]: "length (HashPair a b) = 32"
  by (simp add: HashPair_def)

lemma nth_next_level:
  "i < length nodes div 2 \<Longrightarrow> next_level nodes ! i = HashPair (nodes ! (2 * i)) (nodes ! (2 * i + 1))"
proof (induction nodes arbitrary: i rule: next_level.induct)
  case (1 a b nodes)
  then show ?case by (cases i) auto
qed simp_all

lemma nth_pad_level:
  "i < length nodes \<Longrightarrow> pad_level nodes ! i = nodes ! i"
  "odd (length nodes) \<Longrightarrow> pad_level nodes ! length nodes = nodes ! (length nodes - 1)"
  by (auto simp: pad_level_def nth_append) (metis last_conv_nth even_zero list.size(3) One_nat_def)

lemma pad_level_all: "nodes \<noteq> [] \<Longrightarrow> list_all P nodes \<Longrightarrow> list_all P (pad_level nodes)"
  by (auto simp: pad_level_def list_all_iff)

lemma next_level_all: "list_all (\<lambda>h. length h = 32) (next_level nodes)"
  by (induction nodes rule: next_level.induct) simp_all

lemma build_levels_simps [simp]:
  "length nodes \<le> 1 \<Longrightarrow> build_levels nodes = [nodes]"
  "1 < length nodes \<Longrightarrow> build_levels nodes = nodes # build_levels (next_level (pad_level nodes))"
  by (simp_all add: build_levels.simps [of nodes])

lemma build_levels_not_Nil [simp]: "build_levels nodes \<noteq> []"
  by (cases "length nodes \<le> 1") simp_all

lemma proof_path_Cons_build_levels:
  "proof_path (level # build_levels nodes) idx =
     (let s = (if even idx then idx + 1 else idx - 1)
      in if s < length (pad_level level)
         then map_option ((#) (copy_into 32 (pad_level level ! s)))
                (proof_path (build_levels nodes) (idx div 2))
         else None)"
  by (cases "build_levels nodes") (simp_all add: Let_def)

text \<open>The level above contains, at half the index, the hash of the node and its sibling in the
  order in which the verifier hashes them.\<close>

lemma parent_in_next_level:
  assumes "i < length nodes"
  defines "s \<equiv> (if even i then i + 1 else i - 1)"
  shows "s < length (pad_level nodes)"
    and "i div 2 < length (next_level (pad_level nodes))"
    and "next_level (pad_level nodes) ! (i div 2) = sha256 (ordered_pair i (nodes ! i) (pad_level nodes ! s))"
proof -
  have len: "length (pad_level nodes) = 2 * ((length nodes + 1) div 2)" by (rule length_pad_level)
  show s: "s < length (pad_level nodes)"
    unfolding len s_def using assms(1) by (cases "even i") (simp, presburger, simp)
  show half: "i div 2 < length (next_level (pad_level nodes))"
    using assms(1) by (simp add: len)
  then have "next_level (pad_level nodes) ! (i div 2)
      = HashPair (pad_level nodes ! (2 * (i div 2))) (pad_level nodes ! (2 * (i div 2) + 1))"
    by (simp add: nth_next_level)
  moreover have "pad_level nodes ! i = nodes ! i" using assms(1) by (rule nth_pad_level)
  ultimately show "next_level (pad_level nodes) ! (i div 2)
      = sha256 (ordered_pair i (nodes ! i) (pad_level nodes ! s))"
    by (cases "even i") (auto simp: HashPair_def ordered_pair_def s_def elim!: evenE oddE)
qed

text \<open>The audit path the tree produces exists at every leaf, leads to the root, and has one
  sibling per level below it.\<close>

lemma proof_path_verifies:
  assumes "i < length nodes" and "list_all (\<lambda>h. length h = 32) nodes"
  shows "\<exists>ps. proof_path (build_levels nodes) i = Some ps
    \<and> merkle_walk (nodes ! i) i ps = Some (last (build_levels nodes) ! 0)
    \<and> length ps = length (build_levels nodes) - 1"
  using assms
proof (induction nodes arbitrary: i rule: build_levels.induct)
  case (1 nodes)
  show ?case
  proof (cases "length nodes \<le> 1")
    case True
    with 1(2) have "i = 0" by linarith
    with True show ?thesis by simp
  next
    case False
    let ?up = "next_level (pad_level nodes)" and ?s = "if even i then i + 1 else i - 1"
    note parent = parent_in_next_level [OF 1(2)]
    obtain ps where ps: "proof_path (build_levels ?up) (i div 2) = Some ps"
      "merkle_walk (?up ! (i div 2)) (i div 2) ps = Some (last (build_levels ?up) ! 0)"
      "length ps = length (build_levels ?up) - 1"
      using 1(1) [OF False parent(2) next_level_all] by blast
    have "list_all (\<lambda>h. length h = 32) (pad_level nodes)"
      using 1(2,3) by (intro pad_level_all) auto
    then have len: "length (pad_level nodes ! ?s) = 32" using parent(1) by (simp add: list_all_length)
    have "length (build_levels ?up) \<noteq> 0" by simp
    with ps parent len False show ?thesis
      by (intro exI [of _ "pad_level nodes ! ?s # ps"])
         (simp add: proof_path_Cons_build_levels Let_def del: length_0_conv)
  qed
qed

lemma build_levels_height:
  assumes "nodes \<noteq> []"
  shows "length nodes \<le> 2 ^ (length (build_levels nodes) - 1)
    \<and> (1 < length nodes \<longrightarrow> 2 ^ (length (build_levels nodes) - 2) < length nodes)"
  using assms
proof (induction nodes rule: build_levels.induct)
  case (1 nodes)
  show ?case
  proof (cases "length nodes \<le> 1")
    case False
    let ?up = "next_level (pad_level nodes)"
    have up: "length ?up = (length nodes + 1) div 2" using length_pad_level [of nodes] by simp
    then have "length ?up \<noteq> 0" using False by linarith
    then have ne: "?up \<noteq> []" by (simp only: length_0_conv not_False_eq_True)
    have ih: "length ?up \<le> 2 ^ (length (build_levels ?up) - 1)"
      "1 < length ?up \<Longrightarrow> 2 ^ (length (build_levels ?up) - 2) < length ?up"
      using 1(1) [OF False ne] by blast+
    obtain k where k: "length (build_levels ?up) = Suc k"
      by (metis build_levels_not_Nil length_0_conv not0_implies_Suc)
    have levels: "length (build_levels nodes) = Suc (Suc k)" using False k by simp
    have "length nodes \<le> 2 * 2 ^ k" using up ih(1) k by simp
    moreover have "2 ^ k < length nodes"
    proof (cases k)
      case (Suc j)
      then have "1 < length ?up" using k build_levels_simps(1) [of ?up] by (metis One_nat_def length_Cons list.size(3) nat.distinct(1) nat.inject not_le)
      with ih(2) k Suc up show ?thesis by simp
    qed (use False in simp)
    ultimately show ?thesis using levels by (simp only: power_Suc diff_Suc_Suc diff_zero) simp
  qed simp
qed

section \<open>Trees\<close>

lemma find_bad_leaf:
  "find (\<lambda>(i, h). length h \<noteq> 32) (enumerate n hs) = None \<longleftrightarrow> list_all (\<lambda>h. length h = 32) hs"
  by (induction hs arbitrary: n) auto

lemma map_copy_into: "list_all (\<lambda>h. length h = n) hs \<Longrightarrow> map (copy_into n) hs = hs"
  by (induction hs) auto

lemma NewMerkleTree_Inr:
  "NewMerkleTree hs = Inr t \<longleftrightarrow> hs \<noteq> [] \<and> list_all (\<lambda>h. length h = 32) hs
     \<and> t = \<lparr>mt_leaves = hs, mt_levels = build_levels hs, mt_root = last (build_levels hs) ! 0\<rparr>"
proof (cases "list_all (\<lambda>h. length h = 32) hs")
  case True
  then have "find (\<lambda>(i, h). length h \<noteq> 32) (enumerate 0 hs) = None" by (simp add: find_bad_leaf)
  with True show ?thesis by (auto simp: NewMerkleTree_def Let_def map_copy_into)
next
  case False
  then obtain x where "find (\<lambda>(i, h). length h \<noteq> 32) (enumerate 0 hs) = Some x"
    using find_bad_leaf [of 0 hs] by blast
  with False show ?thesis by (simp add: NewMerkleTree_def split: prod.splits)
qed

lemma root_length:
  assumes "hs \<noteq> []" and "list_all (\<lambda>h. length h = 32) hs"
  shows "length (last (build_levels hs) ! 0) = 32"
  using assms
proof (induction hs rule: build_levels.induct)
  case (1 hs)
  show ?case
  proof (cases "length hs \<le> 1")
    case True
    with 1(2,3) show ?thesis by (simp add: list_all_length)
  next
    case False
    then have "length (next_level (pad_level hs)) \<noteq> 0"
      using length_pad_level [of hs] by simp
    then have "next_level (pad_level hs) \<noteq> []" by (simp only: length_0_conv not_False_eq_True)
    with 1(1) [OF False _ next_level_all] False show ?thesis by simp
  qed
qed

lemma tree_leaf_length: "NewMerkleTree hs = Inr t \<Longrightarrow> i < length hs \<Longrightarrow> length (hs ! i) = 32"
  by (simp add: NewMerkleTree_Inr list_all_length)

lemma Root_NewMerkleTree:
  "NewMerkleTree hs = Inr t \<Longrightarrow> Root t = last (build_levels hs) ! 0 \<and> length (Root t) = 32"
  by (auto simp: NewMerkleTree_Inr Root_def root_length)

lemma GenerateProof_verifies:
  assumes "NewMerkleTree hs = Inr t" and "i < length hs"
  shows "\<exists>ps. GenerateProof t (int i) = Inr ps \<and> merkle_walk (hs ! i) i ps = Some (Root t)
    \<and> length ps = length (build_levels hs) - 1"
proof (cases "length hs = 1")
  case True
  with assms have "i = 0" by simp
  with True assms Root_NewMerkleTree [OF assms(1)] show ?thesis
    by (auto simp: GenerateProof_def NewMerkleTree_Inr)
next
  case False
  have "list_all (\<lambda>h. length h = 32) hs" using assms(1) by (simp add: NewMerkleTree_Inr)
  from proof_path_verifies [OF assms(2) this] False assms Root_NewMerkleTree [OF assms(1)]
  show ?thesis by (auto simp: GenerateProof_def NewMerkleTree_Inr)
qed

lemma VerifyMerkleProof_walk:
  "length h = 32 \<Longrightarrow> length root = 32 \<Longrightarrow>
   VerifyMerkleProof h (int i) ps root \<longleftrightarrow> merkle_walk h i ps = Some root"
  by (auto simp: VerifyMerkleProof_def split: option.splits)

section \<open>Properties\<close>

text \<open>C9. The tree and the verifier agree: for every leaf of every tree \<open>NewMerkleTree\<close> builds,
  \<open>GenerateProof\<close> returns a path (it never indexes outside a level) that
  \<open>VerifyMerkleProof\<close> accepts for that leaf and index against the root of the tree, and the
  path is as long as the tree is high, the least \<open>h\<close> with at most \<open>2\<^sup>h\<close> leaves.\<close>

theorem generated_proofs_verify:
  assumes "NewMerkleTree hs = Inr t" and "i < length hs"
  shows "\<exists>ps. GenerateProof t (int i) = Inr ps \<and> VerifyMerkleProof (hs ! i) (int i) ps (Root t)
    \<and> length hs \<le> 2 ^ length ps \<and> (length ps = 0 \<or> 2 ^ (length ps - 1) < length hs)"
proof -
  obtain ps where ps: "GenerateProof t (int i) = Inr ps" "merkle_walk (hs ! i) i ps = Some (Root t)"
    "length ps = length (build_levels hs) - 1"
    using GenerateProof_verifies [OF assms] by blast
  have "hs \<noteq> []" using assms(2) by auto
  note h = build_levels_height [OF this]
  have "1 < length hs" if "length ps \<noteq> 0"
    using that ps(3) build_levels_simps(1) [of hs] by fastforce
  with ps(3) h have "length hs \<le> 2 ^ length ps \<and> (length ps = 0 \<or> 2 ^ (length ps - 1) < length hs)"
    by (metis diff_diff_left one_add_one)
  moreover have "VerifyMerkleProof (hs ! i) (int i) ps (Root t)"
    using VerifyMerkleProof_walk [OF tree_leaf_length [OF assms]] ps(2) Root_NewMerkleTree [OF assms(1)]
    by blast
  ultimately show ?thesis using ps(1) by blast
qed

theorem generated_proofs_verify_witness:
  "\<exists>t ps. NewMerkleTree [replicate 32 1, replicate 32 2, replicate 32 3] = Inr t
     \<and> GenerateProof t 2 = Inr ps \<and> VerifyMerkleProof (replicate 32 3) 2 ps (Root t)"
proof -
  let ?hs = "[replicate 32 1, replicate 32 2, replicate 32 3] :: bytes list"
  obtain t where t: "NewMerkleTree ?hs = Inr t" by (simp add: NewMerkleTree_Inr)
  from generated_proofs_verify [OF this, of 2] show ?thesis using t by auto
qed

text \<open>C10. A path of the tree's own length binds the leaf: if a chunk hash and a path as long as
  the tree is high are accepted at index \<open>i\<close> against the root of a tree, then the hash is the
  leaf at index \<open>i\<close>, or the two paths exhibit, at a level that \<open>find_collision\<close> computes, two
  different byte strings with the same SHA-256 digest.\<close>

theorem full_length_proof_binds_leaf:
  assumes "NewMerkleTree hs = Inr t" and "i < length hs" and "GenerateProof t (int i) = Inr qs"
    and "VerifyMerkleProof h (int i) ps (Root t)" and "length ps = length qs"
  shows "h = hs ! i \<or> is_collision (find_collision h (hs ! i) i ps qs)"
proof -
  have len: "length h = 32" "length (hs ! i) = 32" "length (Root t) = 32"
    using VerifyMerkleProof_root_length [OF assms(4)] tree_leaf_length [OF assms(1,2)] by auto
  have "merkle_walk (hs ! i) i qs = Some (Root t)"
    using GenerateProof_verifies [OF assms(1,2)] assms(3) by auto
  moreover have "merkle_walk h i ps = Some (Root t)"
    using assms(4) len by (simp add: VerifyMerkleProof_walk)
  ultimately show ?thesis using merkle_walk_binding [OF _ _ assms(5)] len by blast
qed

theorem full_length_proof_binds_leaf_witness:
  "\<exists>t. NewMerkleTree [replicate 32 1] = Inr t \<and> GenerateProof t 0 = Inr []
     \<and> (\<forall>h. VerifyMerkleProof h 0 [] (Root t) \<longrightarrow> h = replicate 32 1)"
proof -
  let ?hs = "[replicate 32 1] :: bytes list"
  obtain t where t: "NewMerkleTree ?hs = Inr t" by (simp add: NewMerkleTree_Inr)
  then have g: "GenerateProof t 0 = Inr []" by (simp add: NewMerkleTree_Inr GenerateProof_def)
  have "h = replicate 32 1" if "VerifyMerkleProof h 0 [] (Root t)" for h
    using full_length_proof_binds_leaf [OF t, of 0 "[]" h "[]"] g that
    by (simp add: is_collision_def)
  with t g show ?thesis by blast
qed

end
