(* ===== verification/ContentEngine.thy ===== *)
theory ContentEngine
  imports Storage
begin

text \<open>
  The content engine, \<open>network/content/engine/engine.go\<close>: \<open>Ingest\<close> cuts a stream into chunks,
  encrypts, hashes and stores them and returns the manifest, \<open>Reassemble\<close> fetches, checks,
  decrypts and writes them. The chunk store is the pair of arguments \<open>get\<close> and \<open>put\<close> (the
  interfaces \<open>ChunkSource\<close> and \<open>ChunkSink\<close>); the keys are the \<open>LocalKeyProvider\<close>.
\<close>

datatype 'e engine_error =
    ContentIDFailed
  | KeyFailed
  | EncryptFailed crypto_error
  | StoreFailed 'e
  | StreamFailed io_error
  | NoContentKey
  | GetFailed ChunkID 'e
  | CorruptedChunk ChunkID
  | DecryptFailed ChunkID crypto_error
  | WriteFailed

section \<open>Ingest\<close>

text \<open>The loop over the chunks: the IDs and the total size, added up with wrap-around.\<close>

fun ingest_chunks ::
    "(bytes \<Rightarrow> bytes \<Rightarrow> bytes \<Rightarrow> bytes) \<Rightarrow> (Chunk \<Rightarrow> 's \<Rightarrow> ('e + unit) \<times> 's) \<Rightarrow> bytes \<Rightarrow> Chunk list
     \<Rightarrow> ('s, 'e engine_error, ChunkID list \<times> u64) stateful" where
  "ingest_chunks seal put key [] s = (Inr ([], 0), s)"
| "ingest_chunks seal put key (chunk # chunks) s =
     (case EncryptChunk seal key chunk of
        Inl e \<Rightarrow> (Inl (EncryptFailed e), s)
      | Inr chunk1 \<Rightarrow>
          let chunkID = copy_into 32 (Sum (ck_Data chunk1));
              chunk2 = chunk1\<lparr>ck_Header := (ck_Header chunk1)\<lparr>hd_ID := chunkID\<rparr>\<rparr>
          in case put chunk2 s of
               (Inl e, s') \<Rightarrow> (Inl (StoreFailed e), s')
             | (Inr _, s') \<Rightarrow>
                 (case ingest_chunks seal put key chunks s' of
                    (Inl e, s'') \<Rightarrow> (Inl e, s'')
                  | (Inr (ids, tot), s'') \<Rightarrow>
                      (Inr (chunkID # ids, of_nat (unat (hd_PlainSize (ck_Header chunk2))) + tot), s'')))"

definition manifest_of :: "ContentID \<Rightarrow> ContentType \<Rightarrow> ChunkID list \<Rightarrow> u64 \<Rightarrow> Manifest" where
  "manifest_of contentID mtype chunkIDs totalSize =
     (let wholeHash = Sum (concat chunkIDs)
      in \<lparr>mf_Version = 1,
          mf_Descriptor = \<lparr>cd_ID = contentID, cd_Type = mtype, cd_Size = totalSize\<rparr>,
          mf_ChunkIDs = chunkIDs, mf_MerkleRoot = wholeHash, mf_WholeHash = wholeHash,
          mf_Crypto = \<lparr>cy_Algorithm = ''ChaCha20-Poly1305'', cy_Version = 1, cy_ChunkNonceSize = 12,
            cy_KeyID = ''embedded''\<rparr>\<rparr>)"

text \<open>\<open>None\<close> is a call that never returns, because the chunker never ends.\<close>

definition Ingest ::
    "(bytes \<Rightarrow> bytes \<Rightarrow> bytes \<Rightarrow> bytes) \<Rightarrow> (Chunk \<Rightarrow> 's \<Rightarrow> ('e + unit) \<times> 's) \<Rightarrow> u32
     \<Rightarrow> bytes option \<Rightarrow> bytes option \<Rightarrow> reader \<Rightarrow> ContentType \<Rightarrow> key_store \<Rightarrow> 's
     \<Rightarrow> (('e engine_error + Manifest) \<times> key_store \<times> 's) option" where
  "Ingest seal put chunkSize rnd_id rnd_key r mtype ks s =
     (case rnd_id of
        None \<Rightarrow> Some (Inl ContentIDFailed, ks, s)
      | Some contentID \<Rightarrow>
          (case rnd_key of
             None \<Rightarrow> Some (Inl KeyFailed, ks, s)
           | Some key \<Rightarrow>
               let ks' = keys_Put contentID key ks
               in case Split chunkSize r of
                    None \<Rightarrow> None
                  | Some (chunks, err) \<Rightarrow>
                      (case ingest_chunks seal put key chunks s of
                         (Inl e, s') \<Rightarrow> Some (Inl e, ks', s')
                       | (Inr (chunkIDs, totalSize), s') \<Rightarrow>
                           (case err of
                              Some e \<Rightarrow> Some (Inl (StreamFailed e), ks', s')
                            | None \<Rightarrow>
                                Some (Inr (manifest_of contentID mtype chunkIDs totalSize), ks', s')))))"

section \<open>Reassembly\<close>

fun fetch_chunks ::
    "(bytes \<Rightarrow> bytes \<Rightarrow> bytes \<Rightarrow> bytes option) \<Rightarrow> (ChunkID \<Rightarrow> 's \<Rightarrow> ('e + Chunk) \<times> 's) \<Rightarrow> bytes
     \<Rightarrow> ChunkID list \<Rightarrow> ('s, 'e engine_error, Chunk list) stateful" where
  "fetch_chunks unseal get key [] s = (Inr [], s)"
| "fetch_chunks unseal get key (chunkID # ids) s =
     (case get chunkID s of
        (Inl e, s') \<Rightarrow> (Inl (GetFailed chunkID e), s')
      | (Inr chunk, s') \<Rightarrow>
          if Sum (ck_Data chunk) \<noteq> chunkID then (Inl (CorruptedChunk chunkID), s')
          else case DecryptChunk unseal key chunk of
            Inl e \<Rightarrow> (Inl (DecryptFailed chunkID e), s')
          | Inr chunk' \<Rightarrow>
              (case fetch_chunks unseal get key ids s' of
                 (Inl e, s'') \<Rightarrow> (Inl e, s'')
               | (Inr chunks, s'') \<Rightarrow> (Inr (chunk' # chunks), s'')))"

text \<open>The writer either accepts everything or fails at its \<open>n\<close>-th write after \<open>k\<close> bytes.\<close>

fun write_all :: "(nat \<times> nat) option \<Rightarrow> bytes list \<Rightarrow> 'e engine_error option \<times> bytes" where
  "write_all w [] = (None, [])"
| "write_all (Some (0, k)) (d # ds) = (Some WriteFailed, take k d)"
| "write_all (Some (Suc n, k)) (d # ds) = (case write_all (Some (n, k)) ds of (e, out) \<Rightarrow> (e, d @ out))"
| "write_all None (d # ds) = (case write_all None ds of (e, out) \<Rightarrow> (e, d @ out))"

text \<open>The error and the bytes written. \<open>sort.Slice\<close> puts the chunks in ascending order of the
  index in their header; with distinct indices the order it produces is determined.\<close>

definition Reassemble ::
    "(bytes \<Rightarrow> bytes \<Rightarrow> bytes \<Rightarrow> bytes option) \<Rightarrow> (ChunkID \<Rightarrow> 's \<Rightarrow> ('e + Chunk) \<times> 's) \<Rightarrow> key_store
     \<Rightarrow> Manifest \<Rightarrow> (nat \<times> nat) option \<Rightarrow> 's \<Rightarrow> 'e engine_error option \<times> bytes \<times> 's" where
  "Reassemble unseal get ks m w s =
     (case keys_Get (cd_ID (mf_Descriptor m)) ks of
        None \<Rightarrow> (Some NoContentKey, [], s)
      | Some key \<Rightarrow>
          (case fetch_chunks unseal get key (mf_ChunkIDs m) s of
             (Inl e, s') \<Rightarrow> (Some e, [], s')
           | (Inr chunks, s') \<Rightarrow>
               let sorted_chunks = sort_key (\<lambda>c. hd_Index (ck_Header c)) chunks;
                   (err, out) = write_all w (map ck_Data sorted_chunks)
               in (err, out, s')))"

section \<open>What ingest stores\<close>

text \<open>The chunk that \<open>ingest_chunks\<close> puts into the store for a plain chunk.\<close>

definition sealed :: "(bytes \<Rightarrow> bytes \<Rightarrow> bytes \<Rightarrow> bytes) \<Rightarrow> bytes \<Rightarrow> Chunk \<Rightarrow> Chunk" where
  "sealed seal key c =
     (let nonce = generateNonce (hd_Index (ck_Header c)); ct = seal key nonce (ck_Data c)
      in \<lparr>ck_Header = (ck_Header c)\<lparr>hd_Nonce := nonce, hd_CipherSize := of_nat (length ct),
            hd_ID := Sum ct\<rparr>, ck_Data = ct\<rparr>)"

lemma length_generateNonce [simp]: "length (generateNonce i) = 12"
  by (simp add: generateNonce_def)

lemma length_Sum [simp]: "length (Sum d) = 32"
  by (simp add: Sum_def)

lemma sealed_wf [simp]: "header_wf (ck_Header (sealed seal key c))"
  by (simp add: header_wf_def sealed_def Let_def)

lemma sealed_simps [simp]:
  "hd_ID (ck_Header (sealed seal key c)) = Sum (ck_Data (sealed seal key c))"
  "hd_Index (ck_Header (sealed seal key c)) = hd_Index (ck_Header c)"
  "hd_PlainSize (ck_Header (sealed seal key c)) = hd_PlainSize (ck_Header c)"
  by (simp_all add: sealed_def Let_def)

lemma DecryptChunk_sealed:
  assumes "aead_correct seal unseal" and "length key = 32"
    and "hd_PlainSize (ck_Header c) = of_nat (length (ck_Data c))"
  shows "DecryptChunk unseal key (sealed seal key c)
    = Inr ((sealed seal key c)\<lparr>ck_Data := ck_Data c\<rparr>)"
  using assms by (simp add: DecryptChunk_def sealed_def aead_correct_def Let_def)

lemma ingest_chunks_Cons:
  assumes "length key = 32"
  shows "ingest_chunks seal put key (c # cs) s =
     (case put (sealed seal key c) s of
        (Inl e, s') \<Rightarrow> (Inl (StoreFailed e), s')
      | (Inr _, s') \<Rightarrow>
          (case ingest_chunks seal put key cs s' of
             (Inl e, s'') \<Rightarrow> (Inl e, s'')
           | (Inr (ids, tot), s'') \<Rightarrow>
               (Inr (Sum (ck_Data (sealed seal key c)) # ids,
                  of_nat (unat (hd_PlainSize (ck_Header c))) + tot), s'')))"
  using assms by (simp add: EncryptChunk_def sealed_def Let_def split: prod.splits sum.splits)

text \<open>Decryption does not look at the index in the header.\<close>

lemma DecryptChunk_index:
  "DecryptChunk unseal key (x\<lparr>ck_Header := (ck_Header x)\<lparr>hd_Index := i\<rparr>\<rparr>) =
     (case DecryptChunk unseal key x of
        Inl e \<Rightarrow> Inl e
      | Inr y \<Rightarrow> Inr (y\<lparr>ck_Header := (ck_Header x)\<lparr>hd_Index := i\<rparr>\<rparr>))"
  by (auto simp: DecryptChunk_def split: option.splits)

section \<open>Clients of a chunk store\<close>

context chunk_store
begin

lemma ingest_stores:
  assumes "length key = 32" and "usable s"
    and "\<forall>c \<in> set old. get (hd_ID (ck_Header c)) s = (Inr c, s) \<and> length (hd_ID (ck_Header c)) = 32"
    and "distinct (map (\<lambda>c. hd_ID (ck_Header c)) old @ map (\<lambda>c. Sum (ck_Data (sealed seal key c))) cs)"
  shows "\<exists>tot t. ingest_chunks seal put key cs s
      = (Inr (map (\<lambda>c. Sum (ck_Data (sealed seal key c))) cs, tot), t) \<and> usable t
    \<and> (\<forall>c \<in> set old \<union> sealed seal key ` set cs. get (hd_ID (ck_Header c)) t = (Inr c, t))"
  using assms(2-)
proof (induction cs arbitrary: s old)
  case Nil
  then show ?case by auto
next
  case (Cons c cs)
  let ?c = "sealed seal key c"
  obtain t where t: "put ?c s = (Inr (), t)" "usable t" "get (hd_ID (ck_Header ?c)) t = (Inr ?c, t)"
    using put_ok [OF Cons.prems(1) sealed_wf] by blast
  have old: "get (hd_ID (ck_Header x)) t = (Inr x, t) \<and> length (hd_ID (ck_Header x)) = 32"
    if "x \<in> set (old @ [?c])" for x
  proof (cases "x = ?c")
    case False
    with that have x: "x \<in> set old" by simp
    with Cons.prems(3) have "hd_ID (ck_Header x) \<noteq> hd_ID (ck_Header ?c)"
      by (auto simp: image_iff)
    with x Cons.prems put_other [OF Cons.prems(1) sealed_wf t(1)] show ?thesis by blast
  qed (use t in simp)
  have "distinct (map (\<lambda>c. hd_ID (ck_Header c)) (old @ [?c]) @ map (\<lambda>c. Sum (ck_Data (sealed seal key c))) cs)"
    using Cons.prems(3) by auto
  from Cons.IH [OF t(2) _ this] old obtain tot u
    where "ingest_chunks seal put key cs t = (Inr (map (\<lambda>c. Sum (ck_Data (sealed seal key c))) cs, tot), u)"
      "usable u" "\<forall>x \<in> set (old @ [?c]) \<union> sealed seal key ` set cs. get (hd_ID (ck_Header x)) u = (Inr x, u)"
    by blast
  with t show ?case by (simp add: ingest_chunks_Cons [OF assms(1)] del: ingest_chunks.simps)
qed

lemma fetch_sealed:
  assumes "aead_correct seal unseal" and "length key = 32"
    and "\<forall>c \<in> set cs. get (hd_ID (ck_Header (sealed seal key c))) s = (Inr (sealed seal key c), s)"
    and "\<forall>c \<in> set cs. hd_PlainSize (ck_Header c) = of_nat (length (ck_Data c))"
  shows "fetch_chunks unseal get key (map (\<lambda>c. Sum (ck_Data (sealed seal key c))) cs) s
    = (Inr (map (\<lambda>c. (sealed seal key c)\<lparr>ck_Data := ck_Data c\<rparr>) cs), s)"
  using assms(3,4) by (induction cs) (simp_all add: DecryptChunk_sealed [OF assms(1,2)])

end

section \<open>Order of the chunks\<close>

lemma number_chunks_sorted:
  "unat i + length ps \<le> 2 ^ 32 \<Longrightarrow>
     sorted (map (\<lambda>c. hd_Index (ck_Header c)) (number_chunks i off ps))
     \<and> (\<forall>c \<in> set (number_chunks i off ps). i \<le> hd_Index (ck_Header c))"
proof (induction ps arbitrary: i off)
  case (Cons p ps)
  show ?case
  proof (cases ps)
    case Nil
    then show ?thesis by (simp add: plain_chunk_def)
  next
    case (Cons q qs)
    then have i: "unat (i + 1) = unat i + 1" using Cons.prems by (intro unat_plus_one) simp
    then have "i \<le> i + 1" by (simp add: word_le_nat_alt)
    moreover have "sorted (map (\<lambda>c. hd_Index (ck_Header c)) (number_chunks (i + 1) (off + of_nat (length p)) ps))
      \<and> (\<forall>c \<in> set (number_chunks (i + 1) (off + of_nat (length p)) ps). i + 1 \<le> hd_Index (ck_Header c))"
      using Cons.prems i by (intro Cons.IH) simp
    ultimately show ?thesis by (auto simp: plain_chunk_def intro: order_trans)
  qed
qed simp

lemma number_chunks_plain:
  "c \<in> set (number_chunks i off ps) \<Longrightarrow> hd_PlainSize (ck_Header c) = of_nat (length (ck_Data c))"
  by (induction ps arbitrary: i off) (auto simp: plain_chunk_def)

lemma write_all_None [simp]: "write_all None ds = (None, concat ds)"
  by (induction ds) simp_all

section \<open>Properties\<close>

text \<open>C28. \<open>Split\<close> ends and delivers exactly the stream for every positive chunk size: the data of
  the chunks, in order, concatenate to the bytes of the stream, every chunk is non-empty and no
  longer than the chunk size, and only an error other than the end of the stream is reported. With
  chunk size 0 it never ends.\<close>

theorem split_partitions_stream:
  "if chunkSize = 0 then Split chunkSize r = None
   else \<exists>cs. Split chunkSize r = Some (cs, stream_error (rd_end r))
     \<and> concat (map ck_Data cs) = rd_data r
     \<and> list_all (\<lambda>c. ck_Data c \<noteq> [] \<and> length (ck_Data c) \<le> unat chunkSize) cs
     \<and> cs = number_chunks 0 0 (map ck_Data cs)"
proof (cases "chunkSize = 0")
  case False
  then have n: "0 < unat chunkSize" by (simp add: unat_gt_0)
  let ?cs = "number_chunks 0 0 (pieces (unat chunkSize) (rd_data r))"
  have d: "map ck_Data ?cs = pieces (unat chunkSize) (rd_data r)" by simp
  have "list_all (\<lambda>p. p \<noteq> [] \<and> length p \<le> unat chunkSize) (map ck_Data ?cs)"
    unfolding d by (auto simp: list_all_iff dest: pieces_length)
  then have "list_all (\<lambda>c. ck_Data c \<noteq> [] \<and> length (ck_Data c) \<le> unat chunkSize) ?cs"
    by (simp only: list.pred_map o_def)
  moreover have "concat (map ck_Data ?cs) = rd_data r" using n by (simp add: concat_pieces)
  ultimately show ?thesis
    using False d split_loop_terminates [OF n, of 0 0 r] by (auto simp: Split_def)
qed (simp add: Split_def split_loop_size_zero)

text \<open>C11. What is ingested is what is reassembled: with a cipher that opens what it sealed, a store
  that does not fail, a positive chunk size, at most \<open>2\<^sup>3\<^sup>2\<close> chunks, and chunks that do not
  share an ID, \<open>Ingest\<close> succeeds and \<open>Reassemble\<close> of the manifest writes exactly the ingested
  bytes.\<close>

theorem ingest_reassemble_roundtrip:
  assumes "aead_correct seal unseal" and "length key = 32" and "chunkSize \<noteq> 0" and "fs_usable s"
    and "length (pieces (unat chunkSize) data) \<le> 2 ^ 32"
    and "distinct (map (\<lambda>c. Sum (ck_Data (sealed seal key c))) (number_chunks 0 0 (pieces (unat chunkSize) data)))"
  shows "\<exists>m ks' s'. Ingest seal PutChunk chunkSize (Some cid) (Some key) (bytes_reader data) mtype ks s
      = Some (Inr m, ks', s')
    \<and> Reassemble unseal GetChunk ks' m None s' = (None, data, s')"
proof -
  have n: "0 < unat chunkSize" using assms(3) by (simp add: unat_gt_0)
  let ?cs = "number_chunks 0 0 (pieces (unat chunkSize) data)"
  let ?ids = "map (\<lambda>c. Sum (ck_Data (sealed seal key c))) ?cs"
  have split: "Split chunkSize (bytes_reader data) = Some (?cs, None)"
    using split_loop_terminates [OF n, of 0 0 "bytes_reader data"]
    by (simp add: Split_def bytes_reader_def stream_error_def)
  obtain tot t where t: "ingest_chunks seal PutChunk key ?cs s = (Inr (?ids, tot), t)"
    "\<forall>c \<in> sealed seal key ` set ?cs. GetChunk (hd_ID (ck_Header c)) t = (Inr c, t)"
    using fs_store.ingest_stores [OF assms(2,4), of "[]" seal ?cs] assms(6) by auto
  let ?m = "manifest_of cid mtype ?ids tot" and ?ks = "keys_Put cid key ks"
  let ?out = "map (\<lambda>c. (sealed seal key c)\<lparr>ck_Data := ck_Data c\<rparr>) ?cs"
  have fetch: "fetch_chunks unseal GetChunk key ?ids t = (Inr ?out, t)"
    using t(2) number_chunks_plain by (intro fs_store.fetch_sealed [OF assms(1,2)]) auto
  have "map (\<lambda>c. hd_Index (ck_Header c)) ?out = map (\<lambda>c. hd_Index (ck_Header c)) ?cs" by simp
  then have "sort_key (\<lambda>c. hd_Index (ck_Header c)) ?out = ?out"
    using number_chunks_sorted [of 0 "pieces (unat chunkSize) data" 0] assms(5)
    by (intro sort_key_id_if_sorted) (simp add: o_def)
  moreover have "map ck_Data ?out = pieces (unat chunkSize) data" by (simp add: o_def)
  ultimately have "Reassemble unseal GetChunk ?ks ?m None t = (None, data, t)"
    using fetch local_keys.get_put [of cid cid key ks] concat_pieces [OF n, of data]
    by (simp add: Reassemble_def manifest_of_def Let_def)
  moreover have "Ingest seal PutChunk chunkSize (Some cid) (Some key) (bytes_reader data) mtype ks s
      = Some (Inr ?m, ?ks, t)"
    using split t(1) by (simp add: Ingest_def)
  ultimately show ?thesis by blast
qed

definition prefix_seal :: "bytes \<Rightarrow> bytes \<Rightarrow> bytes \<Rightarrow> bytes" where
  "prefix_seal k n p = n @ p"

definition prefix_unseal :: "bytes \<Rightarrow> bytes \<Rightarrow> bytes \<Rightarrow> bytes option" where
  "prefix_unseal k n c = (if take (length n) c = n then Some (drop (length n) c) else None)"

lemma prefix_aead: "aead_correct prefix_seal prefix_unseal"
  by (simp add: aead_correct_def prefix_seal_def prefix_unseal_def)

theorem ingest_reassemble_roundtrip_witness:
  "\<exists>m ks' s'. Ingest prefix_seal PutChunk 4 (Some [1]) (Some (replicate 32 5)) (bytes_reader [7, 8, 9])
        TypeFile Map.empty \<lparr>fs_baseDir = ''b'', fs_pid = 1, fs_files = Map.empty, fs_faults = []\<rparr>
      = Some (Inr m, ks', s')
    \<and> Reassemble prefix_unseal GetChunk ks' m None s' = (None, [7, 8, 9], s')"
  by (rule ingest_reassemble_roundtrip [OF prefix_aead])
    (simp_all add: fs_usable_def pieces_step)

text \<open>The order of a reassembled file is not authenticated. A chunk ID covers the ciphertext and
  not the header, and \<open>Reassemble\<close> sorts by the index in the header rather than keeping the
  order of the manifest: if the store returns the two chunks of a manifest with their indices
  exchanged, the call succeeds and writes their plaintexts in the wrong order.\<close>

lemma reassemble_trusts_header_index:
  assumes "aead_correct seal unseal" and "length key = 32"
    and "keys_Get (cd_ID (mf_Descriptor m)) ks = Some key"
    and "hd_PlainSize (ck_Header c1) = of_nat (length (ck_Data c1))"
    and "hd_PlainSize (ck_Header c2) = of_nat (length (ck_Data c2))"
    and "x1 = sealed seal key c1" and "x2 = sealed seal key c2"
    and "mf_ChunkIDs m = [hd_ID (ck_Header x1), hd_ID (ck_Header x2)]"
    and "get (hd_ID (ck_Header x1)) s = (Inr (x1\<lparr>ck_Header := (ck_Header x1)\<lparr>hd_Index := 1\<rparr>\<rparr>), s1)"
    and "get (hd_ID (ck_Header x2)) s1 = (Inr (x2\<lparr>ck_Header := (ck_Header x2)\<lparr>hd_Index := 0\<rparr>\<rparr>), s2)"
  shows "Reassemble unseal get ks m None s = (None, ck_Data c2 @ ck_Data c1, s2)"
proof -
  have "DecryptChunk unseal key (x1\<lparr>ck_Header := (ck_Header x1)\<lparr>hd_Index := 1\<rparr>\<rparr>)
      = Inr (x1\<lparr>ck_Data := ck_Data c1, ck_Header := (ck_Header x1)\<lparr>hd_Index := 1\<rparr>\<rparr>)"
    by (simp only: DecryptChunk_index assms(6) DecryptChunk_sealed [OF assms(1,2,4)] sum.case)
  moreover have "DecryptChunk unseal key (x2\<lparr>ck_Header := (ck_Header x2)\<lparr>hd_Index := 0\<rparr>\<rparr>)
      = Inr (x2\<lparr>ck_Data := ck_Data c2, ck_Header := (ck_Header x2)\<lparr>hd_Index := 0\<rparr>\<rparr>)"
    by (simp only: DecryptChunk_index assms(7) DecryptChunk_sealed [OF assms(1,2,5)] sum.case)
  moreover have "hd_ID (ck_Header x1) = Sum (ck_Data x1)" "hd_ID (ck_Header x2) = Sum (ck_Data x2)"
    by (simp_all add: assms(6,7))
  ultimately show ?thesis
    using assms(3,8-) by (simp add: Reassemble_def Let_def)
qed

lemma reassemble_trusts_header_index_witness:
  "let key = replicate 32 5; c1 = plain_chunk 0 0 [1]; c2 = plain_chunk 1 1 [2];
       x1 = sealed prefix_seal key c1; x2 = sealed prefix_seal key c2;
       m = manifest_of [9] TypeFile [hd_ID (ck_Header x1), hd_ID (ck_Header x2)] 2;
       get = (\<lambda>_ n. (Inr (if n = 0 then x1\<lparr>ck_Header := (ck_Header x1)\<lparr>hd_Index := 1\<rparr>\<rparr>
                         else x2\<lparr>ck_Header := (ck_Header x2)\<lparr>hd_Index := 0\<rparr>\<rparr>), n + 1 :: nat))
   in Reassemble prefix_unseal get [[9] \<mapsto> key] m None 0 = (None :: nat engine_error option, [2, 1], 2)"
proof -
  let ?key = "replicate 32 5" and ?c1 = "plain_chunk 0 0 [1]" and ?c2 = "plain_chunk 1 1 [2]"
  let ?x1 = "sealed prefix_seal ?key ?c1" and ?x2 = "sealed prefix_seal ?key ?c2"
  show ?thesis unfolding Let_def
    by (subst reassemble_trusts_header_index [OF prefix_aead, of ?key _ _ ?c1 ?c2 ?x1 ?x2 _ 0 1 2])
      (simp_all add: keys_Get_def manifest_of_def plain_chunk_def Let_def)
qed

end
