(* ===== verification/ProofEngine.thy ===== *)
theory ProofEngine
  imports Merkle ContentEngine
begin

text \<open>
  The provider's proof engine, \<open>integration/availability/proof_engine.go\<close>: it keeps a Merkle tree
  per file and answers challenges with an audit path and a signature. The chunk source, when it
  is present and can return manifests, is an \<open>FSStorage\<close>; \<open>json.Unmarshal\<close> into a manifest is
  the argument \<open>parse_manifest\<close>; \<open>ed25519.Sign\<close> is the argument \<open>ed_sign\<close>.
\<close>

record ProviderProofEngine =
  pe_providerID :: string
  pe_privKey :: bytes
  pe_pubKey :: bytes
  pe_chunkSource :: "FSStorage option"
  pe_trees :: "string \<rightharpoonup> MerkleTree"
  pe_chunkPayload :: "string \<rightharpoonup> (nat \<rightharpoonup> bytes)"

datatype engine_failure =
    ProviderIDRequired
  | BadPrivateKey
  | FileIDEmpty
  | NoChunksProvided
  | BuildTree merkle_error
  | FileIDAndTree
  | NoTreeRegistered string
  | ChallengeIDEmpty
  | FileNotFound string
  | ChunkOutOfBounds int nat
  | ProofGeneration merkle_error
  | LeafIndexPanic

definition NewProviderProofEngine ::
    "string \<Rightarrow> bytes \<Rightarrow> FSStorage option \<Rightarrow> engine_failure + ProviderProofEngine" where
  "NewProviderProofEngine providerID privKey chunkSource =
     (if providerID = [] then Inl ProviderIDRequired
      else if length privKey \<noteq> 64 then Inl BadPrivateKey
      else Inr \<lparr>pe_providerID = providerID, pe_privKey = privKey, pe_pubKey = ed_public privKey,
             pe_chunkSource = chunkSource, pe_trees = Map.empty, pe_chunkPayload = Map.empty\<rparr>)"

text \<open>The payload map of a file is extended by the chunks, index by index.\<close>

definition add_payload :: "bytes list \<Rightarrow> (nat \<rightharpoonup> bytes) option \<Rightarrow> nat \<rightharpoonup> bytes" where
  "add_payload chunks old =
     (case old of None \<Rightarrow> Map.empty | Some p \<Rightarrow> p) ++ map_of (enumerate 0 chunks)"

definition RegisterFileChunks ::
    "string \<Rightarrow> bytes list \<Rightarrow> (ProviderProofEngine, engine_failure, MerkleTree) stateful" where
  "RegisterFileChunks fileID chunks e =
     (if fileID = [] then (Inl FileIDEmpty, e)
      else if chunks = [] then (Inl NoChunksProvided, e)
      else case BuildMerkleTreeFromChunks chunks of
        Inl err \<Rightarrow> (Inl (BuildTree err), e)
      | Inr tree \<Rightarrow>
          (Inr tree, e\<lparr>pe_trees := (pe_trees e)(fileID \<mapsto> tree),
             pe_chunkPayload := (pe_chunkPayload e)(fileID \<mapsto> add_payload chunks (pe_chunkPayload e fileID))\<rparr>))"

definition RegisterTree ::
    "string \<Rightarrow> MerkleTree option \<Rightarrow> (ProviderProofEngine, engine_failure, unit) stateful" where
  "RegisterTree fileID tree e =
     (case tree of
        None \<Rightarrow> (Inl FileIDAndTree, e)
      | Some t \<Rightarrow>
          if fileID = [] then (Inl FileIDAndTree, e)
          else (Inr (), e\<lparr>pe_trees := (pe_trees e)(fileID \<mapsto> t)\<rparr>))"

definition engine_MerkleRoot :: "string \<Rightarrow> ProviderProofEngine \<Rightarrow> engine_failure + bytes" where
  "engine_MerkleRoot fileID e =
     (case pe_trees e fileID of None \<Rightarrow> Inl (NoTreeRegistered fileID) | Some tree \<Rightarrow> Inr (Root tree))"

text \<open>The attempt to load a tree from the manifest of the file: every failure on the way leaves the
  engine without a tree.\<close>

definition load_tree ::
    "(bytes \<Rightarrow> Manifest option) \<Rightarrow> string \<Rightarrow> ProviderProofEngine \<Rightarrow> MerkleTree option \<times> ProviderProofEngine" where
  "load_tree parse_manifest fileID e =
     (case pe_chunkSource e of
        None \<Rightarrow> (None, e)
      | Some src \<Rightarrow>
          (case hex_decode fileID of
             None \<Rightarrow> (None, e)
           | Some idBytes \<Rightarrow>
               if length idBytes \<noteq> 32 then (None, e)
               else
                 (case GetManifestBytes (copy_into 32 idBytes) src of
                    (r, src') \<Rightarrow>
                      let e' = e\<lparr>pe_chunkSource := Some src'\<rparr> in
                      (case r of
                         Inl _ \<Rightarrow> (None, e')
                       | Inr mData \<Rightarrow>
                           (case parse_manifest mData of
                              None \<Rightarrow> (None, e')
                            | Some m \<Rightarrow>
                                (case NewMerkleTree (map (copy_into 32) (mf_ChunkIDs m)) of
                                   Inl _ \<Rightarrow> (None, e')
                                 | Inr newTree \<Rightarrow>
                                     (Some newTree, snd (RegisterTree fileID (Some newTree) e'))))))))"

definition generateResponse ::
    "(bytes \<Rightarrow> bytes \<Rightarrow> bytes) \<Rightarrow> (bytes \<Rightarrow> Manifest option) \<Rightarrow> gotime \<Rightarrow> Challenge \<Rightarrow> bool \<Rightarrow> bool
     \<Rightarrow> (ProviderProofEngine, engine_failure, ChallengeResponse) stateful" where
  "generateResponse ed_sign parse_manifest now challenge corruptHash corruptSig e =
     (if ch_ChallengeID challenge = [] then (Inl ChallengeIDEmpty, e)
      else
        let (found, e') = (case pe_trees e (ch_FileID challenge) of
               Some tree \<Rightarrow> (Some tree, e)
             | None \<Rightarrow> load_tree parse_manifest (ch_FileID challenge) e)
        in case found of
             None \<Rightarrow> (Inl (FileNotFound (ch_FileID challenge)), e')
           | Some tree \<Rightarrow>
               if ch_ChunkID challenge < 0 \<or> int (LeafCount tree) \<le> ch_ChunkID challenge
               then (Inl (ChunkOutOfBounds (ch_ChunkID challenge) (LeafCount tree)), e')
               else case GenerateProof tree (ch_ChunkID challenge) of
                 Inl err \<Rightarrow> (Inl (ProofGeneration err), e')
               | Inr prf \<Rightarrow>
                   let leaf = copy_into 32 (mt_leaves tree ! nat (ch_ChunkID challenge));
                       chunkHash = (if corruptHash then flip_first leaf else leaf);
                       digest = ComputeProofDigest chunkHash (ch_Nonce challenge) (ch_ChallengeID challenge);
                       sig = ed_sign (pe_privKey e) digest
                   in (Inr \<lparr>rs_ChallengeID = ch_ChallengeID challenge,
                            rs_ContractID = ch_ContractID challenge,
                            rs_ProviderID = pe_providerID e, rs_FileID = ch_FileID challenge,
                            rs_ChunkID = ch_ChunkID challenge, rs_ChunkHash = chunkHash,
                            rs_MerkleProof = prf,
                            rs_Signature = (if corruptSig then flip_first sig else sig),
                            rs_RespondedAt = now\<rparr>, e'))"

definition HandleChallenge ::
    "(bytes \<Rightarrow> bytes \<Rightarrow> bytes) \<Rightarrow> (bytes \<Rightarrow> Manifest option) \<Rightarrow> gotime \<Rightarrow> Challenge
     \<Rightarrow> (ProviderProofEngine, engine_failure, ChallengeResponse) stateful" where
  "HandleChallenge ed_sign parse_manifest now challenge e =
     generateResponse ed_sign parse_manifest now challenge False False e"

definition HandleChallengeAdversarial ::
    "(bytes \<Rightarrow> bytes \<Rightarrow> bytes) \<Rightarrow> (bytes \<Rightarrow> Manifest option) \<Rightarrow> gotime \<Rightarrow> Challenge \<Rightarrow> bool \<Rightarrow> bool
     \<Rightarrow> (ProviderProofEngine, engine_failure, ChallengeResponse) stateful" where
  "HandleChallengeAdversarial ed_sign parse_manifest now challenge corruptChunkHash corruptSig e =
     generateResponse ed_sign parse_manifest now challenge corruptChunkHash corruptSig e"

section \<open>Engines whose trees come from the constructor\<close>

definition engine_wf :: "ProviderProofEngine \<Rightarrow> bool" where
  "engine_wf e \<longleftrightarrow> pe_pubKey e = ed_public (pe_privKey e)
     \<and> (\<forall>f t. pe_trees e f = Some t \<longrightarrow> (\<exists>hs. NewMerkleTree hs = Inr t))"

lemma NewProviderProofEngine_wf:
  "NewProviderProofEngine pid k src = Inr e \<Longrightarrow> engine_wf e"
  by (auto simp: NewProviderProofEngine_def engine_wf_def split: if_splits)

lemma RegisterFileChunks_wf:
  "engine_wf e \<Longrightarrow> RegisterFileChunks f chunks e = (r, e') \<Longrightarrow> engine_wf e'"
  by (auto simp: RegisterFileChunks_def engine_wf_def BuildMerkleTreeFromChunks_def
      split: if_splits sum.splits)

lemma load_tree_wf:
  assumes "engine_wf e" and "load_tree pm f e = (found, e')"
  shows "engine_wf e' \<and> (\<forall>t. found = Some t \<longrightarrow> (\<exists>hs. NewMerkleTree hs = Inr t))"
  using assms
  by (auto simp: load_tree_def RegisterTree_def engine_wf_def Let_def
      split: if_splits sum.splits option.splits prod.splits)

lemma NewMerkleTree_leaves: "NewMerkleTree hs = Inr t \<Longrightarrow> mt_leaves t = hs"
  by (simp add: NewMerkleTree_Inr)

text \<open>The response built from a tree verifies against the root of that tree.\<close>

lemma response_verifies:
  assumes "NewMerkleTree hs = Inr t" and "0 \<le> ch_ChunkID c" and "ch_ChunkID c < int (length hs)"
    and "GenerateProof t (ch_ChunkID c) = Inr prf"
  shows "VerifyMerkleProof (copy_into 32 (mt_leaves t ! nat (ch_ChunkID c))) (ch_ChunkID c) prf (Root t)"
proof -
  let ?i = "nat (ch_ChunkID c)"
  have i: "?i < length hs" "int ?i = ch_ChunkID c" using assms(2,3) by linarith+
  from GenerateProof_verifies [OF assms(1) i(1)] assms(4) i(2)
  have "merkle_walk (hs ! ?i) ?i prf = Some (Root t)" by simp
  then have "VerifyMerkleProof (hs ! ?i) (int ?i) prf (Root t)"
    using VerifyMerkleProof_walk [OF tree_leaf_length [OF assms(1) i(1)]] Root_NewMerkleTree [OF assms(1)]
    by blast
  then show ?thesis
    using i(2) tree_leaf_length [OF assms(1) i(1)] by (simp add: NewMerkleTree_leaves [OF assms(1)])
qed

lemma generateResponse_ok:
  assumes "engine_wf e" and "generateResponse ed_sign pm now c False False e = (Inr r, e')"
  obtains t where "engine_MerkleRoot (ch_FileID c) e' = Inr (Root t) \<or> ch_FileID c = []"
    and "VerifyMerkleProof (rs_ChunkHash r) (ch_ChunkID c) (rs_MerkleProof r) (Root t)"
    and "ch_ChallengeID c \<noteq> []" and "rs_ChallengeID r = ch_ChallengeID c"
    and "rs_ContractID r = ch_ContractID c" and "rs_ProviderID r = pe_providerID e"
    and "rs_FileID r = ch_FileID c" and "rs_ChunkID r = ch_ChunkID c" and "rs_RespondedAt r = now"
    and "rs_Signature r = ed_sign (pe_privKey e)
           (ComputeProofDigest (rs_ChunkHash r) (ch_Nonce c) (ch_ChallengeID c))"
proof -
  obtain found e0 where f: "(case pe_trees e (ch_FileID c) of
      Some tree \<Rightarrow> (Some tree, e) | None \<Rightarrow> load_tree pm (ch_FileID c) e) = (found, e0)" by fastforce
  with assms(2) obtain t where t: "found = Some t" "e' = e0" "ch_ChallengeID c \<noteq> []"
      "0 \<le> ch_ChunkID c" "ch_ChunkID c < int (LeafCount t)"
      and path: "GenerateProof t (ch_ChunkID c) = Inr (rs_MerkleProof r)"
      and r: "rs_ChunkHash r = copy_into 32 (mt_leaves t ! nat (ch_ChunkID c))"
      "rs_ChallengeID r = ch_ChallengeID c" "rs_ContractID r = ch_ContractID c"
      "rs_ProviderID r = pe_providerID e" "rs_FileID r = ch_FileID c" "rs_ChunkID r = ch_ChunkID c"
      "rs_RespondedAt r = now" "rs_Signature r = ed_sign (pe_privKey e)
         (ComputeProofDigest (rs_ChunkHash r) (ch_Nonce c) (ch_ChallengeID c))"
    by (auto simp: generateResponse_def Let_def split: if_splits option.splits sum.splits prod.splits)
  obtain hs where hs: "NewMerkleTree hs = Inr t"
  proof (cases "pe_trees e (ch_FileID c)")
    case None
    with f t(1) load_tree_wf [OF assms(1)] that show thesis by fastforce
  next
    case (Some t')
    with f t(1) assms(1) that show thesis unfolding engine_wf_def by auto
  qed
  have "VerifyMerkleProof (rs_ChunkHash r) (ch_ChunkID c) (rs_MerkleProof r) (Root t)"
    using response_verifies [OF hs t(4) _ path] t(5) r(1) by (simp add: LeafCount_def NewMerkleTree_leaves [OF hs])
  moreover have "pe_trees e0 (ch_FileID c) = Some t \<or> ch_FileID c = []"
    using f t(1) by (auto simp: load_tree_def RegisterTree_def Let_def
        split: option.splits if_splits prod.splits sum.splits)
  then have "engine_MerkleRoot (ch_FileID c) e' = Inr (Root t) \<or> ch_FileID c = []"
    using t(2) by (auto simp: engine_MerkleRoot_def)
  ultimately show thesis using that r t(3) by blast
qed

lemma accepted_response:
  assumes "ed25519_correct valid ed_sign ed_verify" and "valid (pe_privKey e)" and "engine_wf e"
    and "generateResponse ed_sign pm now c False False e = (Inr r, e')"
    and "ch_ProviderID c = pe_providerID e" and "ch_FileID c \<noteq> []"
    and "now \<le> ch_CreatedAt c + maxTimeout"
  shows "\<exists>root. engine_MerkleRoot (ch_FileID c) e' = Inr root
    \<and> VerifyChallengeResponse ed_verify c r root (pe_pubKey e) maxTimeout = Inr True"
proof -
  have pk: "pe_pubKey e = ed_public (pe_privKey e)" using assms(3) by (simp add: engine_wf_def)
  note k = ed25519_correctD [OF assms(1,2)]
  from assms(3,4) show ?thesis
  proof (rule generateResponse_ok)
    fix t
    assume "engine_MerkleRoot (ch_FileID c) e' = Inr (Root t) \<or> ch_FileID c = []"
      and "VerifyMerkleProof (rs_ChunkHash r) (ch_ChunkID c) (rs_MerkleProof r) (Root t)"
      and "ch_ChallengeID c \<noteq> []" "rs_ChallengeID r = ch_ChallengeID c"
      "rs_ContractID r = ch_ContractID c" "rs_ProviderID r = pe_providerID e"
      "rs_FileID r = ch_FileID c" "rs_ChunkID r = ch_ChunkID c" "rs_RespondedAt r = now"
      and "rs_Signature r = ed_sign (pe_privKey e)
           (ComputeProofDigest (rs_ChunkHash r) (ch_Nonce c) (ch_ChallengeID c))"
    then show ?thesis using assms(5-7) k pk
      by (simp add: VerifyChallengeResponse_accepts response_binds_def signature_ok_def)
  qed
qed

text \<open>A challenge within the leaves of the tree is always answered.\<close>

lemma generateResponse_succeeds:
  assumes "pe_trees e (ch_FileID c) = Some t \<and> e' = e
      \<or> pe_trees e (ch_FileID c) = None \<and> load_tree pm (ch_FileID c) e = (Some t, e')"
    and "NewMerkleTree hs = Inr t" and "ch_ChallengeID c \<noteq> []" and "0 \<le> ch_ChunkID c"
    and "ch_ChunkID c < int (length hs)"
  shows "\<exists>r. generateResponse ed_sign pm now c False False e = (Inr r, e')"
proof -
  have "nat (ch_ChunkID c) < length hs" using assms(4,5) by linarith
  from GenerateProof_verifies [OF assms(2) this] assms(4)
  obtain ps where "GenerateProof t (ch_ChunkID c) = Inr ps" by auto
  with assms NewMerkleTree_leaves [OF assms(2)] show ?thesis
    by (auto simp: generateResponse_def LeafCount_def Let_def)
qed

lemma load_tree_from_manifest:
  assumes "pe_chunkSource e = Some src" and "fs_usable src" and "hex_decode f = Some cid"
    and "length cid = 32" and "fs_files src (manifestPath src cid) = Some mData"
    and "pm mData = Some m" and "mf_ChunkIDs m \<noteq> []" and "list_all (\<lambda>h. length h = 32) (mf_ChunkIDs m)"
  shows "\<exists>t e'. load_tree pm f e = (Some t, e') \<and> NewMerkleTree (mf_ChunkIDs m) = Inr t"
proof -
  obtain t where t: "NewMerkleTree (mf_ChunkIDs m) = Inr t" using assms(7,8) by (simp add: NewMerkleTree_Inr)
  moreover have "map (copy_into 32) (mf_ChunkIDs m) = mf_ChunkIDs m" using assms(8) by (rule map_copy_into)
  moreover have "f \<noteq> []" using assms(3,4) by auto
  ultimately show ?thesis using assms by (simp add: load_tree_def GetManifestBytes_def)
qed

section \<open>Properties\<close>

text \<open>An honest provider passes: whenever \<open>HandleChallenge\<close> returns a response to a challenge
  addressed to this provider, the response is accepted against the Merkle root the engine reports
  for the file and the engine's public key, as long as it is dated within the allowed time.\<close>

lemma honest_response_accepted:
  assumes "ed25519_correct valid ed_sign ed_verify" and "valid (pe_privKey e)" and "engine_wf e"
    and "HandleChallenge ed_sign pm now c e = (Inr r, e')"
    and "ch_ProviderID c = pe_providerID e" and "ch_FileID c \<noteq> []"
    and "now \<le> ch_CreatedAt c + maxTimeout"
  shows "\<exists>root. engine_MerkleRoot (ch_FileID c) e' = Inr root
    \<and> VerifyChallengeResponse ed_verify c r root (pe_pubKey e) maxTimeout = Inr True"
  by (rule accepted_response [OF assms(1-3) assms(4) [unfolded HandleChallenge_def] assms(5-7)])

definition example_challenge :: "string \<Rightarrow> Challenge" where
  "example_challenge f = \<lparr>ch_ChallengeID = ''c1'', ch_ContractID = ''k1'', ch_ProviderID = ''p'',
     ch_FileID = f, ch_EpochID = ''e'', ch_ChunkID = 1, ch_Nonce = [1, 2], ch_ChallengeCounter = 0,
     ch_RoundNumber = 1, ch_TriggerStatus = False, ch_CreatedAt = 5\<rparr>"

lemma honest_response_accepted_witness:
  "\<exists>e t e1 r e' root. NewProviderProofEngine ''p'' (replicate 64 3) None = Inr e
     \<and> RegisterFileChunks ''f'' [[1], [2]] e = (Inr t, e1)
     \<and> HandleChallenge plain_sign (\<lambda>_. None) 6 (example_challenge ''f'') e1 = (Inr r, e')
     \<and> engine_MerkleRoot ''f'' e' = Inr root
     \<and> VerifyChallengeResponse plain_verify (example_challenge ''f'') r root (pe_pubKey e1) 10 = Inr True"
proof -
  let ?c = "example_challenge ''f''"
  obtain e where e: "NewProviderProofEngine ''p'' (replicate 64 3) None = Inr e"
    by (simp add: NewProviderProofEngine_def)
  obtain t where t: "BuildMerkleTreeFromChunks [[1], [2]] = Inr t"
    by (simp add: BuildMerkleTreeFromChunks_def NewMerkleTree_Inr)
  then have hs: "NewMerkleTree (map sha256 [[1], [2]]) = Inr t" by (simp add: BuildMerkleTreeFromChunks_def)
  obtain e1 where e1: "RegisterFileChunks ''f'' [[1], [2]] e = (Inr t, e1)" "pe_trees e1 ''f'' = Some t"
    "pe_privKey e1 = pe_privKey e" "pe_providerID e1 = pe_providerID e"
    using t by (simp add: RegisterFileChunks_def)
  have wf: "engine_wf e1" using e e1(1) NewProviderProofEngine_wf RegisterFileChunks_wf by blast
  obtain r where r: "HandleChallenge plain_sign (\<lambda>_. None) 6 ?c e1 = (Inr r, e1)"
    using generateResponse_succeeds [OF _ hs, of e1 ?c e1 "\<lambda>_. None" plain_sign 6] e1(2)
    by (auto simp: HandleChallenge_def example_challenge_def)
  have "length (pe_privKey e1) = 64" "pe_providerID e1 = ''p''"
    using e e1 by (auto simp: NewProviderProofEngine_def)
  with honest_response_accepted [OF plain_correct _ wf r, of 10] e e1 r show ?thesis
    by (auto simp: example_challenge_def)
qed

text \<open>C36. Possession of the chunks is not checked: a provider whose store holds the manifest of a
  file and nothing else answers every challenge for that file, and the answer is accepted against
  the Merkle root over the chunk IDs in the manifest.\<close>

theorem manifest_alone_answers_challenges:
  assumes "ed25519_correct valid ed_sign ed_verify" and "valid k"
    and "NewProviderProofEngine (ch_ProviderID c) k (Some src) = Inr e"
    and "fs_faults src = []" and "fs_files src = [manifestPath src cid \<mapsto> mData]"
    and "hex_decode (ch_FileID c) = Some cid" and "length cid = 32" and "pm mData = Some m"
    and "mf_ChunkIDs m \<noteq> []" and "list_all (\<lambda>h. length h = 32) (mf_ChunkIDs m)"
    and "0 \<le> ch_ChunkID c" and "ch_ChunkID c < int (length (mf_ChunkIDs m))"
    and "ch_ChallengeID c \<noteq> []" and "now \<le> ch_CreatedAt c + maxTimeout"
  shows "\<exists>t r e'. NewMerkleTree (mf_ChunkIDs m) = Inr t
    \<and> HandleChallenge ed_sign pm now c e = (Inr r, e')
    \<and> VerifyChallengeResponse ed_verify c r (Root t) (ed_public k) maxTimeout = Inr True"
proof -
  have e: "pe_privKey e = k" "pe_pubKey e = ed_public k" "pe_providerID e = ch_ProviderID c"
    "pe_chunkSource e = Some src" "pe_trees e = Map.empty"
    using assms(3) by (auto simp: NewProviderProofEngine_def split: if_splits)
  have "fs_usable src" "fs_files src (manifestPath src cid) = Some mData"
    using assms(4,5) by (simp_all add: fs_usable_def)
  from load_tree_from_manifest [where pm = pm, OF e(4) this(1) assms(6,7) this(2) assms(8-10)] obtain t e'
    where t: "load_tree pm (ch_FileID c) e = (Some t, e')" "NewMerkleTree (mf_ChunkIDs m) = Inr t" by blast
  obtain r where r: "generateResponse ed_sign pm now c False False e = (Inr r, e')"
    using generateResponse_succeeds [OF _ t(2) assms(13,11,12), of e e' pm ed_sign now] t(1) e(5) by auto
  have f: "ch_FileID c \<noteq> []" using assms(6,7) by auto
  obtain root where root: "engine_MerkleRoot (ch_FileID c) e' = Inr root"
    "VerifyChallengeResponse ed_verify c r root (pe_pubKey e) maxTimeout = Inr True"
    using accepted_response [OF assms(1) _ NewProviderProofEngine_wf [OF assms(3)] r _ f assms(14)]
      assms(2) e by auto
  have "pe_trees e' (ch_FileID c) = Some t"
    using t(1) f by (auto simp: load_tree_def RegisterTree_def Let_def
        split: option.splits if_splits prod.splits sum.splits)
  with root have "root = Root t" by (simp add: engine_MerkleRoot_def)
  with t(2) r root e(2) show ?thesis by (auto simp: HandleChallenge_def)
qed

theorem manifest_alone_answers_challenges_witness:
  "\<exists>e t r e'. NewProviderProofEngine ''p'' (replicate 64 3) (Some
        \<lparr>fs_baseDir = ''b'', fs_pid = 1, fs_files = [manifestPath
           \<lparr>fs_baseDir = ''b'', fs_pid = 1, fs_files = Map.empty, fs_faults = []\<rparr> (replicate 32 7) \<mapsto> [1]],
         fs_faults = []\<rparr>) = Inr e
    \<and> HandleChallenge plain_sign (\<lambda>_. Some (manifest_of (replicate 32 7) TypeFile
         [replicate 32 1, replicate 32 2] 2)) 6 (example_challenge (hex_encode (replicate 32 7))) e = (Inr r, e')
    \<and> VerifyChallengeResponse plain_verify (example_challenge (hex_encode (replicate 32 7))) r (Root t)
         (ed_public (replicate 64 3)) 10 = Inr True"
proof -
  let ?s0 = "\<lparr>fs_baseDir = ''b'', fs_pid = 1, fs_files = Map.empty, fs_faults = []\<rparr>"
  let ?src = "?s0\<lparr>fs_files := [manifestPath ?s0 (replicate 32 7) \<mapsto> [1]]\<rparr>"
  let ?m = "manifest_of (replicate 32 7) TypeFile [replicate 32 1, replicate 32 2] 2"
  let ?c = "example_challenge (hex_encode (replicate 32 7))"
  obtain e where e: "NewProviderProofEngine ''p'' (replicate 64 3) (Some ?src) = Inr e"
    by (simp add: NewProviderProofEngine_def)
  have p: "ch_ProviderID ?c = ''p''" by (simp add: example_challenge_def)
  have "manifestPath ?src x = manifestPath ?s0 x" for x by (simp add: manifestPath_def)
  with manifest_alone_answers_challenges [OF plain_correct, of "replicate 64 3" ?c ?src e "replicate 32 7"
      "[1]" "\<lambda>_. Some ?m" ?m 6 10] e p show ?thesis
    by (auto simp: example_challenge_def manifest_of_def Let_def)
qed

end
