(* ===== verification/AvailabilityWire.thy ===== *)
theory AvailabilityWire
  imports Wire ProofEngine Payment
begin

text \<open>
  The availability protocol between publisher and provider, \<open>integration/availability/protocol.go\<close>: envelopes, the
  stream handler of the provider, and the client of the publisher. \<open>json.Marshal\<close> and \<open>json.Unmarshal\<close> are arguments, one
  pair for each type sent, as are the texts of errors, which only travel in error envelopes. Opening a stream is an argument of
  the client.
\<close>

section \<open>Envelopes\<close>

definition MaxAvailabilityMessageSize :: u32 where
  "MaxAvailabilityMessageSize = 64 * 1024"

abbreviation (input) MsgChallengeRequest :: u8 where "MsgChallengeRequest \<equiv> 32"
abbreviation (input) MsgChallengeResponse :: u8 where "MsgChallengeResponse \<equiv> 33"
abbreviation (input) MsgPaymentVoucher :: u8 where "MsgPaymentVoucher \<equiv> 34"
abbreviation (input) MsgChallengeError :: u8 where "MsgChallengeError \<equiv> 35"

record WireEnvelope =
  we_Type :: u8
  we_Payload :: bytes

datatype wire_error =
    EnvelopeTooLarge u32
  | EmptyEnvelope
  | WireFailed io_error
  | OpenStream string
  | JSONFailed string
  | ProviderReturned bytes
  | UnexpectedType u8

text \<open>The length is converted to 32 bits before it is compared with the limit.\<close>

definition WriteEnvelope :: "WireEnvelope \<Rightarrow> (writer, wire_error, unit) stateful" where
  "WriteEnvelope env w =
     (let totalLen = (of_nat (1 + length (we_Payload env)) :: u32) in
      if MaxAvailabilityMessageSize < totalLen then (Inl (EnvelopeTooLarge totalLen), w)
      else case Write (put_u32_le totalLen @ we_Type env # we_Payload env) w of
        (Inl e, w') \<Rightarrow> (Inl (WireFailed e), w')
      | (Inr _, w') \<Rightarrow> (Inr (), w'))"

definition ReadEnvelope :: "reader \<Rightarrow> (wire_error + WireEnvelope) \<times> reader" where
  "ReadEnvelope r =
     (case ReadFull 4 r of
        (Inl e, r') \<Rightarrow> (Inl (WireFailed e), r')
      | (Inr b, r') \<Rightarrow>
          let totalLen = get_u32_le b in
          if MaxAvailabilityMessageSize < totalLen then (Inl (EnvelopeTooLarge totalLen), r')
          else if totalLen < 1 then (Inl EmptyEnvelope, r')
          else (case ReadFull (unat totalLen) r' of
                  (Inl e, r'') \<Rightarrow> (Inl (WireFailed e), r'')
                | (Inr data, r'') \<Rightarrow> (Inr \<lparr>we_Type = hd data, we_Payload = tl data\<rparr>, r'')))"

text \<open>Operations on the two directions of a stream.\<close>

definition send_envelope :: "WireEnvelope \<Rightarrow> (stream, wire_error, unit) stateful" where
  "send_envelope env s = (case WriteEnvelope env (sm_out s) of (x, w) \<Rightarrow> (x, s\<lparr>sm_out := w\<rparr>))"

definition receive_envelope :: "(stream, wire_error, WireEnvelope) stateful" where
  "receive_envelope s = (case ReadEnvelope (sm_in s) of (x, r) \<Rightarrow> (x, s\<lparr>sm_in := r\<rparr>))"

section \<open>The handler of the provider\<close>

text \<open>\<open>'w\<close> is what the callback for vouchers changes.\<close>

record 'w AvailabilityStreamHandler =
  av_proofEngine :: ProviderProofEngine
  av_onVoucher :: "(PaymentState \<Rightarrow> 'w \<Rightarrow> 'w) option"
  av_world :: 'w
  av_vouchers :: "PaymentState list"

definition NewAvailabilityStreamHandler ::
    "ProviderProofEngine \<Rightarrow> (PaymentState \<Rightarrow> 'w \<Rightarrow> 'w) option \<Rightarrow> 'w \<Rightarrow> 'w AvailabilityStreamHandler" where
  "NewAvailabilityStreamHandler proofEngine onVoucher world =
     \<lparr>av_proofEngine = proofEngine, av_onVoucher = onVoucher, av_world = world, av_vouchers = []\<rparr>"

definition error_payload :: "string \<Rightarrow> string \<Rightarrow> bytes" where
  "error_payload kind err = str_bytes (''{\"error\":\"'' @ kind @ '': '' @ err @ ''\"}'')"

text \<open>The case of a challenge; errors of the writes are ignored.\<close>

definition handle_challenge_request ::
    "(bytes \<Rightarrow> bytes \<Rightarrow> bytes) \<Rightarrow> (bytes \<Rightarrow> Manifest option) \<Rightarrow> gotime \<Rightarrow> (engine_failure \<Rightarrow> string)
     \<Rightarrow> (bytes \<Rightarrow> string + Challenge) \<Rightarrow> (ChallengeResponse \<Rightarrow> string + bytes) \<Rightarrow> bytes
     \<Rightarrow> 'w AvailabilityStreamHandler \<Rightarrow> stream \<Rightarrow> 'w AvailabilityStreamHandler \<times> stream" where
  "handle_challenge_request ed_sign parse_manifest now show_failure unmarshal marshal payload h s =
     (case unmarshal payload of
        Inl err \<Rightarrow> (h, snd (send_envelope \<lparr>we_Type = MsgChallengeError, we_Payload = error_payload ''bad json'' err\<rparr> s))
      | Inr challenge \<Rightarrow>
          (case HandleChallenge ed_sign parse_manifest now challenge (av_proofEngine h) of
             (Inl err, e) \<Rightarrow> (h\<lparr>av_proofEngine := e\<rparr>, snd (send_envelope
                \<lparr>we_Type = MsgChallengeError, we_Payload = error_payload ''proof failed'' (show_failure err)\<rparr> s))
           | (Inr resp, e) \<Rightarrow>
               (case marshal resp of
                  Inl _ \<Rightarrow> (h\<lparr>av_proofEngine := e\<rparr>, s)
                | Inr payloadBytes \<Rightarrow> (h\<lparr>av_proofEngine := e\<rparr>, snd (send_envelope
                    \<lparr>we_Type = MsgChallengeResponse, we_Payload = payloadBytes\<rparr> s)))))"

definition handle_voucher ::
    "(bytes \<Rightarrow> string + PaymentState) \<Rightarrow> bytes \<Rightarrow> 'w AvailabilityStreamHandler \<Rightarrow> 'w AvailabilityStreamHandler" where
  "handle_voucher unmarshal payload h =
     (case unmarshal payload of
        Inl _ \<Rightarrow> h
      | Inr voucher \<Rightarrow>
          let h' = h\<lparr>av_vouchers := av_vouchers h @ [voucher]\<rparr> in
          (case av_onVoucher h' of
             None \<Rightarrow> h'
           | Some callback \<Rightarrow> h'\<lparr>av_world := callback voucher (av_world h')\<rparr>))"

definition HandleStream ::
    "(bytes \<Rightarrow> bytes \<Rightarrow> bytes) \<Rightarrow> (bytes \<Rightarrow> Manifest option) \<Rightarrow> gotime \<Rightarrow> (engine_failure \<Rightarrow> string)
     \<Rightarrow> (bytes \<Rightarrow> string + Challenge) \<Rightarrow> (ChallengeResponse \<Rightarrow> string + bytes) \<Rightarrow> (bytes \<Rightarrow> string + PaymentState)
     \<Rightarrow> 'w AvailabilityStreamHandler \<Rightarrow> stream \<Rightarrow> 'w AvailabilityStreamHandler \<times> stream" where
  "HandleStream ed_sign parse_manifest now show_failure unmarshal_c marshal_r unmarshal_v h s =
     (case receive_envelope s of
        (Inl _, s') \<Rightarrow> (h, s')
      | (Inr env, s') \<Rightarrow>
          if we_Type env = MsgChallengeRequest
          then handle_challenge_request ed_sign parse_manifest now show_failure unmarshal_c marshal_r (we_Payload env) h s'
          else if we_Type env = MsgPaymentVoucher then (handle_voucher unmarshal_v (we_Payload env) h, s')
          else (h, s'))"

section \<open>The client of the publisher\<close>

definition ChallengeProvider ::
    "(Challenge \<Rightarrow> string + bytes) \<Rightarrow> (bytes \<Rightarrow> string + ChallengeResponse) \<Rightarrow> Challenge \<Rightarrow> string + stream
     \<Rightarrow> (wire_error + ChallengeResponse) \<times> stream option" where
  "ChallengeProvider marshal unmarshal challenge opened =
     (case opened of
        Inl err \<Rightarrow> (Inl (OpenStream err), None)
      | Inr s \<Rightarrow>
          (case marshal challenge of
             Inl err \<Rightarrow> (Inl (JSONFailed err), Some s)
           | Inr payload \<Rightarrow>
               (case send_envelope \<lparr>we_Type = MsgChallengeRequest, we_Payload = payload\<rparr> s of
                  (Inl err, s') \<Rightarrow> (Inl err, Some s')
                | (Inr _, s') \<Rightarrow>
                    (case receive_envelope s' of
                       (Inl err, s'') \<Rightarrow> (Inl err, Some s'')
                     | (Inr env, s'') \<Rightarrow>
                         if we_Type env = MsgChallengeError then (Inl (ProviderReturned (we_Payload env)), Some s'')
                         else if we_Type env \<noteq> MsgChallengeResponse then (Inl (UnexpectedType (we_Type env)), Some s'')
                         else (case unmarshal (we_Payload env) of
                                 Inl err \<Rightarrow> (Inl (JSONFailed err), Some s'')
                               | Inr resp \<Rightarrow> (Inr resp, Some s''))))))"

definition SendPaymentVoucher ::
    "(PaymentState \<Rightarrow> string + bytes) \<Rightarrow> PaymentState \<Rightarrow> string + stream \<Rightarrow> (wire_error + unit) \<times> stream option" where
  "SendPaymentVoucher marshal voucher opened =
     (case opened of
        Inl err \<Rightarrow> (Inl (OpenStream err), None)
      | Inr s \<Rightarrow>
          (case marshal voucher of
             Inl err \<Rightarrow> (Inl (JSONFailed err), Some s)
           | Inr payload \<Rightarrow>
               (case send_envelope \<lparr>we_Type = MsgPaymentVoucher, we_Payload = payload\<rparr> s of
                  (x, s') \<Rightarrow> (x, Some s'))))"

section \<open>The framing\<close>

definition envelope_frame :: "WireEnvelope \<Rightarrow> bytes" where
  "envelope_frame env = put_u32_le (of_nat (1 + length (we_Payload env))) @ we_Type env # we_Payload env"

definition envelope_fits :: "WireEnvelope \<Rightarrow> bool" where
  "envelope_fits env \<longleftrightarrow> length (we_Payload env) < 64 * 1024"

lemma envelope_fits_word:
  assumes "envelope_fits env"
  shows "unat (of_nat (1 + length (we_Payload env)) :: u32) = 1 + length (we_Payload env)"
    and "\<not> MaxAvailabilityMessageSize < of_nat (1 + length (we_Payload env))"
    and "\<not> (of_nat (1 + length (we_Payload env)) :: u32) < 1"
proof -
  show u: "unat (of_nat (1 + length (we_Payload env)) :: u32) = 1 + length (we_Payload env)"
    using assms by (intro unat_u32_of_nat) (simp add: envelope_fits_def)
  show "\<not> MaxAvailabilityMessageSize < of_nat (1 + length (we_Payload env))"
    using assms unfolding word_less_nat_alt u by (simp add: MaxAvailabilityMessageSize_def envelope_fits_def)
  show "\<not> (of_nat (1 + length (we_Payload env)) :: u32) < 1" unfolding word_less_nat_alt u by simp
qed

lemma WriteEnvelope_frame:
  "envelope_fits env \<Longrightarrow> WriteEnvelope env (good_writer out) = (Inr (), good_writer (out @ envelope_frame env))"
  using envelope_fits_word [of env] by (simp add: WriteEnvelope_def envelope_frame_def Let_def)

lemma ReadEnvelope_frame:
  assumes "envelope_fits env"
  shows "ReadEnvelope \<lparr>rd_data = envelope_frame env @ rest, rd_end = e\<rparr> = (Inr env, \<lparr>rd_data = rest, rd_end = e\<rparr>)"
  using envelope_fits_word [OF assms] unfolding ReadEnvelope_def envelope_frame_def append_assoc
  by (simp add: Let_def ReadFull_def)

interpretation envelope_framing: message_framing envelope_frame ReadEnvelope envelope_fits
  by unfold_locales (rule ReadEnvelope_frame)

lemma send_envelope_frame [simp]:
  "envelope_fits env \<Longrightarrow> send_envelope env (fresh_stream i out) = (Inr (), fresh_stream i (out @ envelope_frame env))"
  by (simp add: send_envelope_def WriteEnvelope_frame)

lemma receive_envelope_frame [simp]:
  "envelope_fits env \<Longrightarrow> receive_envelope (fresh_stream (envelope_frame env) out) = (Inr env, fresh_stream [] out)"
  using ReadEnvelope_frame [of env "[]" EOF] by (simp add: receive_envelope_def bytes_reader_def fresh_stream_def)

section \<open>Properties\<close>

lemma fits_challenge_wire [simp]:
  "length b < 64 * 1024 \<Longrightarrow> envelope_fits \<lparr>we_Type = t, we_Payload = b\<rparr>"
  by (simp add: envelope_fits_def)

text \<open>What the handler answers to a challenge that arrives intact, and what the client makes of it.\<close>

lemma challenge_exchange:
  assumes "marshal_c c = Inr pc" and "unmarshal_c pc = Inr c" and "length pc < 64 * 1024"
    and "HandleChallenge sg pm now c (av_proofEngine h) = (x, e')"
    and "\<And>r. x = Inr r \<Longrightarrow> \<exists>pr. marshal_r r = Inr pr \<and> unmarshal_r pr = Inr r \<and> length pr < 64 * 1024"
    and "\<And>f. x = Inl f \<Longrightarrow> length (error_payload ''proof failed'' (show_failure f)) < 64 * 1024"
  shows "\<exists>req rep. HandleStream sg pm now show_failure unmarshal_c marshal_r unmarshal_v h (fresh_stream req [])
        = (h\<lparr>av_proofEngine := e'\<rparr>, fresh_stream [] rep)
    \<and> ChallengeProvider marshal_c unmarshal_r c (Inr (fresh_stream rep []))
        = (case x of Inr r \<Rightarrow> Inr r | Inl f \<Rightarrow> Inl (ProviderReturned (error_payload ''proof failed'' (show_failure f))),
           Some (fresh_stream [] req))"
proof -
  let ?q = "\<lparr>we_Type = MsgChallengeRequest, we_Payload = pc\<rparr>"
  obtain a where a: "envelope_fits a"
    "HandleStream sg pm now show_failure unmarshal_c marshal_r unmarshal_v h (fresh_stream (envelope_frame ?q) [])
       = (h\<lparr>av_proofEngine := e'\<rparr>, fresh_stream [] (envelope_frame a))"
    "(if we_Type a = MsgChallengeError then Inl (ProviderReturned (we_Payload a))
      else if we_Type a \<noteq> MsgChallengeResponse then Inl (UnexpectedType (we_Type a))
      else case unmarshal_r (we_Payload a) of Inl err \<Rightarrow> Inl (JSONFailed err) | Inr resp \<Rightarrow> Inr resp)
      = (case x of Inr r \<Rightarrow> Inr r | Inl f \<Rightarrow> Inl (ProviderReturned (error_payload ''proof failed'' (show_failure f))))"
  proof (cases x)
    case (Inl f)
    with assms that [of "\<lparr>we_Type = MsgChallengeError, we_Payload = error_payload ''proof failed'' (show_failure f)\<rparr>"]
    show thesis by (simp add: HandleStream_def handle_challenge_request_def)
  next
    case (Inr r)
    with assms(5) obtain pr where "marshal_r r = Inr pr" "unmarshal_r pr = Inr r" "length pr < 64 * 1024" by blast
    with Inr assms(1-4) that [of "\<lparr>we_Type = MsgChallengeResponse, we_Payload = pr\<rparr>"]
    show thesis by (simp add: HandleStream_def handle_challenge_request_def)
  qed
  have "ChallengeProvider marshal_c unmarshal_r c (Inr (fresh_stream (envelope_frame a) []))
    = (if we_Type a = MsgChallengeError then Inl (ProviderReturned (we_Payload a))
      else if we_Type a \<noteq> MsgChallengeResponse then Inl (UnexpectedType (we_Type a))
      else case unmarshal_r (we_Payload a) of Inl err \<Rightarrow> Inl (JSONFailed err) | Inr resp \<Rightarrow> Inr resp,
       Some (fresh_stream [] (envelope_frame ?q)))"
    using assms(1,3) a(1) by (simp add: ChallengeProvider_def split: sum.splits)
  from this [unfolded a(3)] a(2) show ?thesis by (intro exI conjI)
qed

lemma registered_file:
  assumes "RegisterFileChunks f chunks e0 = (Inr t, e)"
  shows "f \<noteq> []" and "NewMerkleTree (map sha256 chunks) = Inr t" and "pe_trees e f = Some t"
    and "pe_privKey e = pe_privKey e0" and "pe_pubKey e = pe_pubKey e0" and "pe_providerID e = pe_providerID e0"
  using assms by (auto simp: RegisterFileChunks_def BuildMerkleTreeFromChunks_def split: if_splits sum.splits)

text \<open>A challenge for a chunk of a registered file is answered, and the response passes verification against the root of the file.\<close>

lemma registered_file_answered:
  assumes "ed25519_correct valid sg ed_verify" and "valid (pe_privKey e0)" and "engine_wf e0"
    and "RegisterFileChunks (ch_FileID c) chunks e0 = (Inr t, e)" and "ch_ProviderID c = pe_providerID e0" and "ch_ChallengeID c \<noteq> []"
    and "0 \<le> ch_ChunkID c" and "ch_ChunkID c < int (length chunks)" and "now \<le> ch_CreatedAt c + maxTimeout"
  shows "\<exists>r. HandleChallenge sg pm now c e = (Inr r, e)
    \<and> VerifyChallengeResponse ed_verify c r (Root t) (pe_pubKey e0) maxTimeout = Inr True"
proof -
  note reg = registered_file [OF assms(4)]
  obtain r where r: "generateResponse sg pm now c False False e = (Inr r, e)"
    using generateResponse_succeeds [OF _ reg(2) assms(6,7), of e e pm sg now] reg(3) assms(8) by auto
  have wf: "engine_wf e" using RegisterFileChunks_wf assms(3,4) by blast
  have "\<exists>root. engine_MerkleRoot (ch_FileID c) e = Inr root \<and> VerifyChallengeResponse ed_verify c r root (pe_pubKey e) maxTimeout = Inr True"
    by (rule accepted_response [OF assms(1) _ wf r]) (use assms(2,5,9) reg in simp_all)
  then show ?thesis using r reg(3,5) by (auto simp: HandleChallenge_def engine_MerkleRoot_def)
qed

text \<open>C20. A challenge for a chunk of a registered file is answered over the wire. The provider has registered the chunks of the file,
  and the challenge names that provider, that file and the index of one of the chunks. With a marshalling that reads back
  what it wrote and messages below the size limit, the provider's handler reads the bytes that the client sends and sends the bytes that the
  client reads; the client gets a response, the one that the provider's proof engine gives, and the response passes verification
  against the Merkle root of the registered file and the provider's public key, as long as it is dated within the allowed time.\<close>

theorem challenge_answered_over_the_wire:
  assumes "ed25519_correct valid sg ed_verify" and "valid (pe_privKey e0)" and "engine_wf e0"
    and "RegisterFileChunks (ch_FileID c) chunks e0 = (Inr t, av_proofEngine h)"
    and "ch_ProviderID c = pe_providerID e0" and "ch_ChallengeID c \<noteq> []"
    and "0 \<le> ch_ChunkID c" and "ch_ChunkID c < int (length chunks)" and "now \<le> ch_CreatedAt c + maxTimeout"
    and "marshal_c c = Inr pc" and "unmarshal_c pc = Inr c" and "length pc < 64 * 1024"
    and "\<And>r e. HandleChallenge sg pm now c (av_proofEngine h) = (Inr r, e)
      \<Longrightarrow> \<exists>pr. marshal_r r = Inr pr \<and> unmarshal_r pr = Inr r \<and> length pr < 64 * 1024"
  shows "\<exists>req rep r. HandleStream sg pm now show_failure unmarshal_c marshal_r unmarshal_v h (fresh_stream req []) = (h, fresh_stream [] rep)
    \<and> ChallengeProvider marshal_c unmarshal_r c (Inr (fresh_stream rep [])) = (Inr r, Some (fresh_stream [] req))
    \<and> HandleChallenge sg pm now c (av_proofEngine h) = (Inr r, av_proofEngine h)
    \<and> VerifyChallengeResponse ed_verify c r (Root t) (pe_pubKey e0) maxTimeout = Inr True"
proof -
  obtain r where r: "HandleChallenge sg pm now c (av_proofEngine h) = (Inr r, av_proofEngine h)"
    and v: "VerifyChallengeResponse ed_verify c r (Root t) (pe_pubKey e0) maxTimeout = Inr True"
    using registered_file_answered [OF assms(1-9)] by blast
  obtain req rep where "HandleStream sg pm now show_failure unmarshal_c marshal_r unmarshal_v h (fresh_stream req [])
        = (h\<lparr>av_proofEngine := av_proofEngine h\<rparr>, fresh_stream [] rep)"
    and "ChallengeProvider marshal_c unmarshal_r c (Inr (fresh_stream rep [])) = (Inr r, Some (fresh_stream [] req))"
    using challenge_exchange [of marshal_c c pc unmarshal_c sg pm now h "Inr r" "av_proofEngine h" marshal_r unmarshal_r show_failure unmarshal_v,
        OF assms(10-12) r] assms(13) [OF r] by auto
  then show ?thesis using r v by (intro exI [of _ req] exI [of _ rep] exI [of _ r]) simp
qed

theorem challenge_answered_over_the_wire_witness:
  "\<exists>e t e1 req rep r h'. NewProviderProofEngine ''p'' (replicate 64 3) None = Inr e
     \<and> RegisterFileChunks ''f'' [[1], [2]] e = (Inr t, e1)
     \<and> HandleStream plain_sign (\<lambda>_. None) 6 (\<lambda>_. []) (\<lambda>_. Inr (example_challenge ''f'')) (\<lambda>_. Inr [2]) (\<lambda>_. Inl [])
         (NewAvailabilityStreamHandler e1 None ()) (fresh_stream req []) = (h', fresh_stream [] rep)
     \<and> ChallengeProvider (\<lambda>_. Inr [1]) (\<lambda>_. Inr r) (example_challenge ''f'') (Inr (fresh_stream rep []))
         = (Inr r, Some (fresh_stream [] req))
     \<and> VerifyChallengeResponse plain_verify (example_challenge ''f'') r (Root t) (pe_pubKey e1) 10 = Inr True"
proof -
  let ?c = "example_challenge ''f''"
  let ?h = "\<lambda>e. NewAvailabilityStreamHandler e None ()"
  obtain e where e: "NewProviderProofEngine ''p'' (replicate 64 3) None = Inr e"
    by (simp add: NewProviderProofEngine_def)
  obtain t where t: "BuildMerkleTreeFromChunks [[1], [2]] = Inr t"
    by (simp add: BuildMerkleTreeFromChunks_def NewMerkleTree_Inr)
  then obtain e1 where e1: "RegisterFileChunks (ch_FileID ?c) [[1], [2]] e = (Inr t, av_proofEngine (?h e1))"
    by (simp add: RegisterFileChunks_def NewAvailabilityStreamHandler_def example_challenge_def)
  have wf: "engine_wf e" using e NewProviderProofEngine_wf by blast
  have k: "length (pe_privKey e) = 64" "pe_providerID e = ''p''" using e by (auto simp: NewProviderProofEngine_def)
  obtain r where r: "HandleChallenge plain_sign (\<lambda>_. None) 6 ?c (av_proofEngine (?h e1)) = (Inr r, av_proofEngine (?h e1))"
    using registered_file_answered [OF plain_correct _ wf e1, where now = 6 and maxTimeout = 10] k by (auto simp: example_challenge_def)
  have "\<exists>req rep r'. HandleStream plain_sign (\<lambda>_. None) 6 (\<lambda>_. []) (\<lambda>_. Inr ?c) (\<lambda>_. Inr [2]) (\<lambda>_. Inl []) (?h e1) (fresh_stream req [])
        = (?h e1, fresh_stream [] rep)
    \<and> ChallengeProvider (\<lambda>_. Inr [1]) (\<lambda>_. Inr r) ?c (Inr (fresh_stream rep [])) = (Inr r', Some (fresh_stream [] req))
    \<and> HandleChallenge plain_sign (\<lambda>_. None) 6 ?c (av_proofEngine (?h e1)) = (Inr r', av_proofEngine (?h e1))
    \<and> VerifyChallengeResponse plain_verify ?c r' (Root t) (pe_pubKey e) 10 = Inr True"
    by (rule challenge_answered_over_the_wire [where pc = "[1]", OF plain_correct _ wf e1])
      (use k r in \<open>auto simp: example_challenge_def\<close>)
  then show ?thesis using e e1 r registered_file(5) [OF e1] by (fastforce simp: example_challenge_def NewAvailabilityStreamHandler_def)
qed

text \<open>A voucher reaches the provider unchanged and unchecked: whatever payment state the client sends, the
  handler appends it to its vouchers, calls the callback with it and answers nothing. The signature is not looked at, so a payment state
  without one, which \<open>VerifyPaymentState\<close> rejects, is stored as well.\<close>

lemma voucher_delivered_unchecked:
  assumes "marshal_v v = Inr pv" and "unmarshal_v pv = Inr v" and "length pv < 64 * 1024" and "av_onVoucher h = Some cb"
  shows "\<exists>req. SendPaymentVoucher marshal_v v (Inr (fresh_stream [] [])) = (Inr (), Some (fresh_stream [] req))
    \<and> HandleStream sg pm now show_failure unmarshal_c marshal_r unmarshal_v h (fresh_stream req [])
        = (h\<lparr>av_vouchers := av_vouchers h @ [v], av_world := cb v (av_world h)\<rparr>, fresh_stream [] [])
    \<and> (ps_PublisherSignature v = [] \<longrightarrow> \<not> VerifyPaymentState ed_verify v pk)"
  using assms
  by (intro exI [of _ "envelope_frame \<lparr>we_Type = MsgPaymentVoucher, we_Payload = pv\<rparr>"])
    (simp add: SendPaymentVoucher_def HandleStream_def handle_voucher_def VerifyPaymentState_def)

definition unsigned_voucher :: PaymentState where
  "unsigned_voucher = \<lparr>ps_ContractID = ''k'', ps_Publisher = ''pub'', ps_Provider = ''prov'', ps_Sequence = 1,
     ps_Period = 1, ps_CumulativePayment = 1000, ps_LastChallengeID = ''ch'', ps_ValidUntil = 9,
     ps_Status = AvailabilityPass, ps_PublisherSignature = []\<rparr>"

definition voucher_handler :: "(PaymentState list) AvailabilityStreamHandler" where
  "voucher_handler = NewAvailabilityStreamHandler \<lparr>pe_providerID = ''p'', pe_privKey = [], pe_pubKey = [],
     pe_chunkSource = None, pe_trees = Map.empty, pe_chunkPayload = Map.empty\<rparr> (Some (#)) []"

lemma voucher_delivered_unchecked_witness:
  "\<exists>req h'. SendPaymentVoucher (\<lambda>_. Inr [1]) unsigned_voucher (Inr (fresh_stream [] [])) = (Inr (), Some (fresh_stream [] req))
     \<and> HandleStream plain_sign (\<lambda>_. None) 6 (\<lambda>_. []) (\<lambda>_. Inl []) (\<lambda>_. Inl []) (\<lambda>_. Inr unsigned_voucher)
         voucher_handler (fresh_stream req []) = (h', fresh_stream [] [])
     \<and> av_vouchers h' = [unsigned_voucher] \<and> \<not> VerifyPaymentState plain_verify unsigned_voucher (replicate 32 1)"
  using voucher_delivered_unchecked [of "\<lambda>_. Inr [1]" unsigned_voucher "[1]" "\<lambda>_. Inr unsigned_voucher" voucher_handler "(#)"
      plain_sign "\<lambda>_. None" 6 "\<lambda>_. []" "\<lambda>_. Inl []" "\<lambda>_. Inl []" plain_verify "replicate 32 1"]
  by (auto simp: voucher_handler_def NewAvailabilityStreamHandler_def unsigned_voucher_def)

end
