(* ===== verification/Resolver.thy ===== *)
theory Resolver
  imports Storage
begin

text \<open>
  The resolver of chunk counts, \<open>integration/availability/resolver.go\<close>: it answers from a map of
  manifests in memory and otherwise from the manifest store, an \<open>FSStorage\<close>. \<open>manifest.Deserialize\<close> and the entries that
  \<open>ListManifests\<close> finds are arguments.
\<close>

record StorageChunkCountResolver =
  sr_manifestStore :: "FSStorage option"
  sr_inMemory :: "string \<rightharpoonup> Manifest"

datatype resolver_error =
    ResolverFileIDEmpty
  | ZeroChunks string
  | MetadataNotFound string string

definition NewStorageChunkCountResolver :: "FSStorage option \<Rightarrow> StorageChunkCountResolver" where
  "NewStorageChunkCountResolver store = \<lparr>sr_manifestStore = store, sr_inMemory = Map.empty\<rparr>"

definition RegisterManifest ::
    "Manifest option \<Rightarrow> string list \<Rightarrow> StorageChunkCountResolver \<Rightarrow> StorageChunkCountResolver" where
  "RegisterManifest manifest aliases r = (case manifest of
     None \<Rightarrow> r
   | Some m \<Rightarrow> r\<lparr>sr_inMemory :=
       fold (\<lambda>alias mem. if alias \<noteq> [] then mem(alias \<mapsto> m) else mem) aliases
         ((sr_inMemory r)(hex_encode (cd_ID (mf_Descriptor m)) \<mapsto> m))\<rparr>)"

text \<open>The attempt to read a usable manifest from the store under an ID.\<close>

definition load_manifest ::
    "(bytes \<Rightarrow> Manifest option) \<Rightarrow> ContentID \<Rightarrow> StorageChunkCountResolver \<Rightarrow> Manifest option \<times> StorageChunkCountResolver" where
  "load_manifest deserialize cid r = (case sr_manifestStore r of
     None \<Rightarrow> (None, r)
   | Some store \<Rightarrow>
       (case GetManifestBytes cid store of (x, store') \<Rightarrow>
          let r' = r\<lparr>sr_manifestStore := Some store'\<rparr> in
          (case x of
             Inl _ \<Rightarrow> (None, r')
           | Inr data \<Rightarrow>
               (case deserialize data of
                  None \<Rightarrow> (None, r')
                | Some m \<Rightarrow> if 0 < length (mf_ChunkIDs m) then (Some m, RegisterManifest (Some m) [] r') else (None, r')))))"

text \<open>The loop over all stored manifests.\<close>

fun scan_manifests ::
    "(bytes \<Rightarrow> Manifest option) \<Rightarrow> string \<Rightarrow> ContentID list \<Rightarrow> StorageChunkCountResolver
     \<Rightarrow> Manifest option \<times> StorageChunkCountResolver" where
  "scan_manifests deserialize fileID [] r = (None, r)"
| "scan_manifests deserialize fileID (cid # ids) r =
     (if hex_encode cid = fileID
      then (case load_manifest deserialize cid r of
              (Some m, r') \<Rightarrow> (Some m, r')
            | (None, r') \<Rightarrow> scan_manifests deserialize fileID ids r')
      else scan_manifests deserialize fileID ids r)"

definition load_by_id ::
    "(bytes \<Rightarrow> Manifest option) \<Rightarrow> string \<Rightarrow> StorageChunkCountResolver \<Rightarrow> Manifest option \<times> StorageChunkCountResolver" where
  "load_by_id deserialize fileID r = (case hex_decode fileID of
     None \<Rightarrow> (None, r)
   | Some idBytes \<Rightarrow> if length idBytes = 32 then load_manifest deserialize (copy_into 32 idBytes) r else (None, r))"

definition ChunkCount ::
    "(bytes \<Rightarrow> Manifest option) \<Rightarrow> dir_listing \<Rightarrow> string \<Rightarrow> string
     \<Rightarrow> (StorageChunkCountResolver, resolver_error, int) stateful" where
  "ChunkCount deserialize listing providerID fileID r =
     (if fileID = [] then (Inl ResolverFileIDEmpty, r)
      else (case sr_inMemory r fileID of
        Some m \<Rightarrow>
          if length (mf_ChunkIDs m) = 0 then (Inl (ZeroChunks fileID), r) else (Inr (int (length (mf_ChunkIDs m))), r)
      | None \<Rightarrow>
          if sr_manifestStore r = None then (Inl (MetadataNotFound fileID providerID), r)
          else (case load_by_id deserialize fileID r of
            (Some m, r') \<Rightarrow> (Inr (int (length (mf_ChunkIDs m))), r')
          | (None, r') \<Rightarrow>
              (case ListManifests listing of
                 Inl _ \<Rightarrow> (Inl (MetadataNotFound fileID providerID), r')
               | Inr ids \<Rightarrow>
                   (case scan_manifests deserialize fileID ids r' of
                      (Some m, r'') \<Rightarrow> (Inr (int (length (mf_ChunkIDs m))), r'')
                    | (None, r'') \<Rightarrow> (Inl (MetadataNotFound fileID providerID), r''))))))"

section \<open>Lemmas\<close>

text \<open>The reference: the manifest with at least one chunk that the store holds under the ID which the name encodes.\<close>

definition usable_manifest :: "(bytes \<Rightarrow> Manifest option) \<Rightarrow> FSStorage \<Rightarrow> ContentID \<Rightarrow> Manifest option" where
  "usable_manifest deserialize store cid = (case fs_files store (manifestPath store cid) of
     None \<Rightarrow> None
   | Some content \<Rightarrow> (case deserialize content of
       None \<Rightarrow> None
     | Some m \<Rightarrow> if mf_ChunkIDs m = [] then None else Some m))"

definition manifest_for :: "(bytes \<Rightarrow> Manifest option) \<Rightarrow> FSStorage \<Rightarrow> string \<Rightarrow> Manifest option" where
  "manifest_for deserialize store fileID = (case hex_decode fileID of
     None \<Rightarrow> None
   | Some cid \<Rightarrow> if length cid = 32 then usable_manifest deserialize store cid else None)"

lemma RegisterManifest_fields [simp]:
  "sr_manifestStore (RegisterManifest manifest aliases r) = sr_manifestStore r"
  "sr_inMemory (RegisterManifest (Some m) [] r) = (sr_inMemory r)(hex_encode (cd_ID (mf_Descriptor m)) \<mapsto> m)"
  by (simp_all add: RegisterManifest_def split: option.splits)

lemma load_manifest_usable:
  assumes "sr_manifestStore r = Some store" and "fs_usable store"
  shows "load_manifest deserialize cid r = (case usable_manifest deserialize store cid of
    None \<Rightarrow> (None, r) | Some m \<Rightarrow> (Some m, RegisterManifest (Some m) [] r))"
proof -
  have "r\<lparr>sr_manifestStore := Some store\<rparr> = r" using assms(1) by simp
  with assms show ?thesis
    by (auto simp: load_manifest_def usable_manifest_def GetManifestBytes_def split: option.splits)
qed

lemma load_by_id_usable:
  assumes "sr_manifestStore r = Some store" and "fs_usable store"
  shows "load_by_id deserialize fileID r = (case manifest_for deserialize store fileID of
    None \<Rightarrow> (None, r) | Some m \<Rightarrow> (Some m, RegisterManifest (Some m) [] r))"
  by (simp add: load_by_id_def manifest_for_def load_manifest_usable [OF assms] split: option.splits)

text \<open>The loop over the stored manifests finds nothing that the direct lookup did not find.\<close>

lemma scan_manifests_none:
  assumes "sr_manifestStore r = Some store" and "fs_usable store" and "manifest_for deserialize store fileID = None"
  shows "list_all (\<lambda>cid. length cid = 32) ids \<Longrightarrow> scan_manifests deserialize fileID ids r = (None, r)"
  using assms(3) by (induction ids) (auto simp: load_manifest_usable [OF assms(1,2)] manifest_for_def)

lemma manifest_id_length: "manifest_id_of_name entry = Some cid \<Longrightarrow> length cid = 32"
  by (auto simp: manifest_id_of_name_def split: prod.splits if_splits option.splits)

lemma ListManifests_ids: "ListManifests listing = Inr ids \<Longrightarrow> list_all (\<lambda>cid. length cid = 32) ids"
  by (auto simp: ListManifests_def list_all_iff List.map_filter_def split: dir_listing.splits)
    (force dest: manifest_id_length)

section \<open>Properties\<close>

text \<open>The chunk count of a file is the number of chunk IDs in its manifest: the one registered in memory under that name or, with
  a store whose reads do not fail, the one stored under the ID that the name encodes, which is then registered. Without either, and for
  a manifest without chunks, it is an error.\<close>

lemma chunk_count_is_manifest_length:
  assumes "sr_manifestStore r = Some store" and "fs_usable store" and "fileID \<noteq> []"
  shows "ChunkCount deserialize listing providerID fileID r =
    (case sr_inMemory r fileID of
       Some m \<Rightarrow> (if mf_ChunkIDs m = [] then Inl (ZeroChunks fileID) else Inr (int (length (mf_ChunkIDs m))), r)
     | None \<Rightarrow> (case manifest_for deserialize store fileID of
         Some m \<Rightarrow> (Inr (int (length (mf_ChunkIDs m))), RegisterManifest (Some m) [] r)
       | None \<Rightarrow> (Inl (MetadataNotFound fileID providerID), r)))"
  using assms scan_manifests_none [OF assms(1,2)] ListManifests_ids
  by (auto simp: ChunkCount_def load_by_id_usable [OF assms(1,2)] split: option.splits sum.splits)

definition file_manifest :: "ContentID \<Rightarrow> ChunkID list \<Rightarrow> Manifest" where
  "file_manifest cid ids = \<lparr>mf_Version = 1, mf_Descriptor = \<lparr>cd_ID = cid, cd_Type = TypeFile, cd_Size = 1\<rparr>, mf_ChunkIDs = ids,
     mf_MerkleRoot = [], mf_WholeHash = [], mf_Crypto = \<lparr>cy_Algorithm = [], cy_Version = 1, cy_ChunkNonceSize = 12, cy_KeyID = []\<rparr>\<rparr>"

text \<open>A store with two manifest files, and what they decode to: the first claims the content ID of the second.\<close>

definition two_manifests :: FSStorage where
  "two_manifests = (let s = \<lparr>fs_baseDir = ''d'', fs_pid = 1, fs_files = Map.empty, fs_faults = []\<rparr>
     in s\<lparr>fs_files := [manifestPath s (replicate 32 7) \<mapsto> [1], manifestPath s (replicate 32 9) \<mapsto> [2]]\<rparr>)"

definition decode_two :: "bytes \<Rightarrow> Manifest option" where
  "decode_two b = (if b = [1] then Some (file_manifest (replicate 32 9) [[1], [2]])
     else if b = [2] then Some (file_manifest (replicate 32 9) [[3]]) else None)"

lemma manifest_for_two:
  "manifest_for decode_two two_manifests (hex_encode (replicate 32 7)) = Some (file_manifest (replicate 32 9) [[1], [2]])"
  "manifest_for decode_two two_manifests (hex_encode (replicate 32 9)) = Some (file_manifest (replicate 32 9) [[3]])"
  by (simp_all add: manifest_for_def usable_manifest_def two_manifests_def decode_two_def manifestPath_def join2_def
      file_manifest_def Let_def del: replicate.simps)

lemma usable_two: "fs_usable two_manifests"
  by (simp add: two_manifests_def fs_usable_def Let_def)

lemma chunk_count_is_manifest_length_witness:
  "fst (ChunkCount decode_two DirMissing ''p'' (hex_encode (replicate 32 9)) (NewStorageChunkCountResolver (Some two_manifests))) = Inr 1"
  using chunk_count_is_manifest_length [of "NewStorageChunkCountResolver (Some two_manifests)" two_manifests
      "hex_encode (replicate 32 9)" decode_two DirMissing "''p''"] usable_two
  by (simp add: NewStorageChunkCountResolver_def manifest_for_two) (simp add: file_manifest_def)

text \<open>The cache trusts the ID inside a manifest: resolving a file whose stored manifest names another content ID registers the
  manifest under that other ID, and from then on the other file's chunk count is taken from it, whatever the store holds for it.\<close>

lemma resolver_trusts_descriptor_id:
  assumes "sr_manifestStore r = Some store" and "fs_usable store" and "sr_inMemory r f = None"
    and "manifest_for deserialize store f = Some m" and "cd_ID (mf_Descriptor m) \<noteq> []"
  shows "fst (ChunkCount deserialize listing' p' (hex_encode (cd_ID (mf_Descriptor m)))
           (snd (ChunkCount deserialize listing p f r))) = Inr (int (length (mf_ChunkIDs m)))"
proof -
  have f: "f \<noteq> []" using assms(4) by (auto simp: manifest_for_def)
  have "mf_ChunkIDs m \<noteq> []"
    using assms(4) by (auto simp: manifest_for_def usable_manifest_def split: option.splits if_splits)
  moreover have "snd (ChunkCount deserialize listing p f r) = RegisterManifest (Some m) [] r"
    using assms(3,4) f by (simp add: ChunkCount_def load_by_id_usable [OF assms(1,2)] assms(1))
  ultimately show ?thesis using assms(5) by (simp add: ChunkCount_def)
qed

lemma resolver_trusts_descriptor_id_witness:
  "let r = NewStorageChunkCountResolver (Some two_manifests);
       count = (\<lambda>b. ChunkCount decode_two DirMissing ''p'' (hex_encode (replicate 32 b)))
   in fst (count 9 r) = Inr 1 \<and> fst (count 9 (snd (count 7 r))) = Inr 2"
proof -
  note s = usable_two
  let ?r = "NewStorageChunkCountResolver (Some two_manifests)"
  have r: "sr_manifestStore ?r = Some two_manifests" "sr_inMemory ?r f = None" for f
    by (simp_all add: NewStorageChunkCountResolver_def)
  have "fst (ChunkCount decode_two DirMissing ''p'' (hex_encode (replicate 32 9)) ?r) = Inr 1"
    using r by (simp add: ChunkCount_def load_by_id_usable [OF r(1) s] manifest_for_two file_manifest_def del: replicate.simps)
  moreover note resolver_trusts_descriptor_id [OF r(1) s r(2) manifest_for_two(1), of DirMissing "''p''" DirMissing "''p''"]
  ultimately show ?thesis by (simp add: Let_def file_manifest_def del: replicate.simps)
qed

end
