(* ===== verification/Escrow.thy ===== *)
theory Escrow
  imports GoLib
begin

text \<open>
  The escrow contract on the chain, \<open>availability/escrow-payment/escrow\<close>: \<open>EscrowContract.sol\<close>,
  \<open>contract_state.sol\<close>, \<open>settlement.sol\<close> and \<open>collateral.sol\<close>. An external function takes the transaction and
  the state and returns either the error it reverts with, in which case the chain keeps the old state, or the new state. Arithmetic is
  checked, as in Solidity 0.8. \<open>keccak256\<close>, \<open>ecrecover\<close> and whether a recipient accepts a transfer are fields of
  the record \<open>evm\<close>. Every transfer comes after all changes of the function's state, and no function reads the balance of the
  contract, so a call that a recipient makes during a transfer has the effect of a call made after it; such calls appear as
  later transactions. Events are not modelled.
\<close>

section \<open>Values and state\<close>

type_synonym u256 = "256 word"
type_synonym bytes32 = "256 word"
type_synonym address = "160 word"

datatype EscrowState = EsCreated | EsFunded | EsActive | EsFailed | EsSettled | EsRefunded | EsTerminated

datatype FailureReason = FrNone | AvailabilityFailure | DeadlineMissed | PaymentStateInvalid | FrOther

record SolPaymentState =
  sp_contractID :: bytes32
  sp_publisher :: address
  sp_provider :: address
  sp_sequence :: u64
  sp_period :: u64
  sp_cumulativePayment :: u256
  sp_lastChallengeID :: bytes32
  sp_validUntil :: u64
  sp_status :: u8
  sp_signature :: bytes

record EscrowAgreement =
  ag_publisher :: address
  ag_provider :: address
  ag_fileID :: bytes32
  ag_rulesHash :: bytes32
  ag_reward :: u256
  ag_escrowBalance :: u256
  ag_collateralRequired :: u256
  ag_collateral :: u256
  ag_periods :: u64
  ag_duration :: u64
  ag_activatedAt :: u64
  ag_deadline :: u64
  ag_latestSequence :: u64
  ag_latestCumulativePayment :: u256
  ag_state :: EscrowState
  ag_failureReason :: FailureReason
  ag_exists :: bool
  ag_hasPaymentState :: bool

text \<open>\<open>ec_balance\<close> is the money of the contract, \<open>ec_paid\<close> what it has sent to each address.\<close>

record EscrowContract =
  ec_agreements :: "bytes32 \<rightharpoonup> EscrowAgreement"
  ec_latestPaymentStates :: "bytes32 \<rightharpoonup> SolPaymentState"
  ec_nextContractNonce :: u256
  ec_balance :: nat
  ec_paid :: "address \<Rightarrow> nat"

definition empty_escrow :: EscrowContract where
  "empty_escrow = \<lparr>ec_agreements = Map.empty, ec_latestPaymentStates = Map.empty, ec_nextContractNonce = 0,
     ec_balance = 0, ec_paid = (\<lambda>_. 0)\<rparr>"

record evm =
  ev_this :: address
  ev_chainid :: u256
  ev_keccak :: "bytes \<Rightarrow> bytes32"
  ev_ecrecover :: "bytes32 \<Rightarrow> u8 \<Rightarrow> bytes32 \<Rightarrow> bytes32 \<Rightarrow> address"
  ev_accepts :: "address \<Rightarrow> bool"

record tx =
  tx_sender :: address
  tx_value :: u256
  tx_timestamp :: u256

datatype escrow_error =
    UnknownContract
  | EscrowUnauthorized
  | InvalidState
  | InvalidInput
  | InvalidPaymentState
  | EscrowInvalidSignature
  | EscrowTransferFailed
  | Panic
  | NotPayable

section \<open>Encoding and signatures\<close>

text \<open>\<open>abi.encode\<close> of values of static type: 32 big-endian bytes for each.\<close>

definition abi_word :: "'a::len word \<Rightarrow> bytes" where
  "abi_word w = rev (le_bytes 32 (unat w))"

definition payment_digest :: "evm \<Rightarrow> SolPaymentState \<Rightarrow> bytes32" where
  "payment_digest E p = ev_keccak E (abi_word (ev_this E) @ abi_word (ev_chainid E) @ abi_word (sp_contractID p)
     @ abi_word (sp_publisher p) @ abi_word (sp_provider p) @ abi_word (sp_sequence p) @ abi_word (sp_period p)
     @ abi_word (sp_cumulativePayment p) @ abi_word (sp_lastChallengeID p) @ abi_word (sp_validUntil p) @ abi_word (sp_status p))"

text \<open>The hash of a message of 32 bytes with the prefix of EIP-191.\<close>

definition eip191_hash :: "(bytes \<Rightarrow> bytes32) \<Rightarrow> bytes32 \<Rightarrow> bytes32" where
  "eip191_hash keccak digest = keccak (25 # str_bytes (''Ethereum Signed Message:'' @ [char_of (10 :: nat)] @ ''32'') @ abi_word digest)"

definition bytes_word :: "bytes \<Rightarrow> bytes32" where
  "bytes_word b = of_nat (le_nat (rev b))"

definition recoverPaymentSigner :: "evm \<Rightarrow> SolPaymentState \<Rightarrow> address" where
  "recoverPaymentSigner E p =
     (let signature = sp_signature p in
      if length signature \<noteq> 65 then 0
      else
        let messageHash = eip191_hash (ev_keccak E) (payment_digest E p);
            r = bytes_word (take 32 signature);
            s = bytes_word (take 32 (drop 32 signature));
            v0 = signature ! 64;
            v = (if v0 < 27 then v0 + 27 else v0)
        in if v \<noteq> 27 \<and> v \<noteq> 28 \<or> 0x7fffffffffffffffffffffffffffffff5d576e7357a4501ddfe92f46681b20a0 < s then 0
           else ev_ecrecover E messageHash v r s)"

section \<open>Internal functions\<close>

definition agreement_of :: "bytes32 \<Rightarrow> EscrowContract \<Rightarrow> escrow_error + EscrowAgreement" where
  "agreement_of contractID s = (case ec_agreements s contractID of
     None \<Rightarrow> Inl UnknownContract
   | Some a \<Rightarrow> if \<not> ag_exists a then Inl UnknownContract else Inr a)"

definition set_agreement :: "bytes32 \<Rightarrow> EscrowAgreement \<Rightarrow> EscrowContract \<Rightarrow> EscrowContract" where
  "set_agreement contractID a s = s\<lparr>ec_agreements := (ec_agreements s)(contractID \<mapsto> a)\<rparr>"

definition sendValue :: "evm \<Rightarrow> address \<Rightarrow> u256 \<Rightarrow> EscrowContract \<Rightarrow> escrow_error + EscrowContract" where
  "sendValue E recipient amount s =
     (if amount = 0 then Inr s
      else if ec_balance s < unat amount \<or> \<not> ev_accepts E recipient then Inl EscrowTransferFailed
      else Inr (s\<lparr>ec_balance := ec_balance s - unat amount,
                  ec_paid := (ec_paid s)(recipient := ec_paid s recipient + unat amount)\<rparr>))"

definition isNextPaymentState :: "EscrowAgreement \<Rightarrow> SolPaymentState \<Rightarrow> bool" where
  "isNextPaymentState a p \<longleftrightarrow> ag_latestSequence a < sp_sequence p
     \<and> ag_latestCumulativePayment a \<le> sp_cumulativePayment p \<and> sp_cumulativePayment p \<le> ag_reward a"

definition penaltyAmount :: "u256 \<Rightarrow> u256 \<Rightarrow> u256" where
  "penaltyAmount collateral requestedPenalty = (if collateral < requestedPenalty then collateral else requestedPenalty)"

text \<open>Checked addition of \<open>uint64\<close>.\<close>

definition add64 :: "u64 \<Rightarrow> u64 \<Rightarrow> u64 option" where
  "add64 a b = (if unat a + unat b < 2 ^ 64 then Some (a + b) else None)"

definition SETTLEMENT_WINDOW :: u64 where
  "SETTLEMENT_WINDOW = 86400"

text \<open>The end of the settlement window; \<open>None\<close> is an overflow.\<close>

definition window_end :: "EscrowAgreement \<Rightarrow> u256 option" where
  "window_end a = map_option ucast (add64 (ag_deadline a) SETTLEMENT_WINDOW)"

section \<open>External functions\<close>

definition createContract ::
    "evm \<Rightarrow> address \<Rightarrow> bytes32 \<Rightarrow> u256 \<Rightarrow> u64 \<Rightarrow> u64 \<Rightarrow> bytes32 \<Rightarrow> u256 \<Rightarrow> tx \<Rightarrow> EscrowContract
     \<Rightarrow> escrow_error + (bytes32 \<times> EscrowContract)" where
  "createContract E provider fileID reward periods duration rulesHash collateralRequired t s =
     (if provider = 0 \<or> fileID = 0 \<or> reward = 0 \<or> periods = 0 \<or> duration = 0 then Inl InvalidInput
      else if ec_nextContractNonce s = - 1 then Inl Panic
      else
        let contractID = ev_keccak E (abi_word (ev_this E) @ abi_word (ev_chainid E) @ abi_word (tx_sender t)
              @ abi_word provider @ abi_word fileID @ abi_word (ec_nextContractNonce s))
        in Inr (contractID, set_agreement contractID
             \<lparr>ag_publisher = tx_sender t, ag_provider = provider, ag_fileID = fileID, ag_rulesHash = rulesHash,
              ag_reward = reward, ag_escrowBalance = 0, ag_collateralRequired = collateralRequired, ag_collateral = 0,
              ag_periods = periods, ag_duration = duration, ag_activatedAt = 0, ag_deadline = 0, ag_latestSequence = 0,
              ag_latestCumulativePayment = 0, ag_state = EsCreated, ag_failureReason = FrNone, ag_exists = True,
              ag_hasPaymentState = False\<rparr>
             (s\<lparr>ec_nextContractNonce := ec_nextContractNonce s + 1\<rparr>)))"

definition fundEscrow :: "bytes32 \<Rightarrow> tx \<Rightarrow> EscrowContract \<Rightarrow> escrow_error + EscrowContract" where
  "fundEscrow contractID t s = (case agreement_of contractID s of
     Inl e \<Rightarrow> Inl e
   | Inr a \<Rightarrow>
       if tx_sender t \<noteq> ag_publisher a \<or> ag_state a \<noteq> EsCreated \<or> tx_value t \<noteq> ag_reward a then Inl InvalidState
       else Inr (set_agreement contractID (a\<lparr>ag_escrowBalance := tx_value t, ag_state := EsFunded\<rparr>)
              (s\<lparr>ec_balance := ec_balance s + unat (tx_value t)\<rparr>)))"

definition depositCollateral :: "bytes32 \<Rightarrow> tx \<Rightarrow> EscrowContract \<Rightarrow> escrow_error + EscrowContract" where
  "depositCollateral contractID t s = (case agreement_of contractID s of
     Inl e \<Rightarrow> Inl e
   | Inr a \<Rightarrow>
       if tx_sender t \<noteq> ag_provider a \<or> ag_state a \<noteq> EsFunded then Inl InvalidState
       else if ag_collateral a \<noteq> 0 then Inl InvalidState
       else if ag_collateralRequired a = 0 \<or> tx_value t \<noteq> ag_collateralRequired a then Inl InvalidInput
       else Inr (set_agreement contractID (a\<lparr>ag_collateral := tx_value t\<rparr>)
              (s\<lparr>ec_balance := ec_balance s + unat (tx_value t)\<rparr>)))"

definition activateContract :: "bytes32 \<Rightarrow> tx \<Rightarrow> EscrowContract \<Rightarrow> escrow_error + EscrowContract" where
  "activateContract contractID t s = (case agreement_of contractID s of
     Inl e \<Rightarrow> Inl e
   | Inr a \<Rightarrow>
       if tx_sender t \<noteq> ag_publisher a \<and> tx_sender t \<noteq> ag_provider a then Inl EscrowUnauthorized
       else if ag_state a \<noteq> EsFunded \<or> ag_escrowBalance a \<noteq> ag_reward a then Inl InvalidState
       else if ag_collateral a < ag_collateralRequired a then Inl InvalidState
       else (case add64 (ucast (tx_timestamp t)) (ag_duration a) of
               None \<Rightarrow> Inl Panic
             | Some deadline \<Rightarrow> Inr (set_agreement contractID
                 (a\<lparr>ag_activatedAt := ucast (tx_timestamp t), ag_deadline := deadline, ag_state := EsActive\<rparr>) s)))"

text \<open>The checks of a voucher and its effect, in \<open>submitPaymentState\<close> and \<open>disputeFailure\<close>.\<close>

definition check_voucher :: "evm \<Rightarrow> bytes32 \<Rightarrow> SolPaymentState \<Rightarrow> tx \<Rightarrow> EscrowAgreement \<Rightarrow> escrow_error option" where
  "check_voucher E contractID p t a =
     (if sp_contractID p \<noteq> contractID \<or> sp_publisher p \<noteq> ag_publisher a \<or> sp_provider p \<noteq> ag_provider a
         \<or> ucast (sp_validUntil p) < tx_timestamp t \<or> \<not> isNextPaymentState a p then Some InvalidPaymentState
      else if recoverPaymentSigner E p \<noteq> ag_publisher a then Some EscrowInvalidSignature
      else None)"

definition accept_voucher :: "bytes32 \<Rightarrow> SolPaymentState \<Rightarrow> EscrowAgreement \<Rightarrow> EscrowContract \<Rightarrow> EscrowContract" where
  "accept_voucher contractID p a s =
     (set_agreement contractID (a\<lparr>ag_latestSequence := sp_sequence p, ag_latestCumulativePayment := sp_cumulativePayment p,
        ag_hasPaymentState := True\<rparr>) s)\<lparr>ec_latestPaymentStates := (ec_latestPaymentStates s)(contractID \<mapsto> p)\<rparr>"

definition submitPaymentState ::
    "evm \<Rightarrow> bytes32 \<Rightarrow> SolPaymentState \<Rightarrow> tx \<Rightarrow> EscrowContract \<Rightarrow> escrow_error + EscrowContract" where
  "submitPaymentState E contractID p t s = (case agreement_of contractID s of
     Inl e \<Rightarrow> Inl e
   | Inr a \<Rightarrow>
       if ag_state a \<noteq> EsActive then Inl InvalidState
       else (case window_end a of
          None \<Rightarrow> Inl Panic
        | Some w \<Rightarrow>
            if w < tx_timestamp t then Inl InvalidState
            else (case check_voucher E contractID p t a of
                    Some e \<Rightarrow> Inl e
                  | None \<Rightarrow> Inr (accept_voucher contractID p a s))))"

definition settleContract ::
    "evm \<Rightarrow> bytes32 \<Rightarrow> SolPaymentState \<Rightarrow> tx \<Rightarrow> EscrowContract \<Rightarrow> escrow_error + EscrowContract" where
  "settleContract E contractID p t s = (case agreement_of contractID s of
     Inl e \<Rightarrow> Inl e
   | Inr a \<Rightarrow>
       if ag_state a \<noteq> EsActive \<or> \<not> ag_hasPaymentState a then Inl InvalidState
       else if sp_sequence p \<noteq> ag_latestSequence a \<or> sp_cumulativePayment p \<noteq> ag_latestCumulativePayment a
         \<or> sp_contractID p \<noteq> contractID then Inl InvalidPaymentState
       else
         let providerPayment = ag_latestCumulativePayment a in
         if ag_escrowBalance a < providerPayment then Inl Panic
         else
           let publisherRefund = ag_escrowBalance a - providerPayment;
               s1 = set_agreement contractID (a\<lparr>ag_escrowBalance := 0, ag_state := EsSettled\<rparr>) s
           in (case sendValue E (ag_provider a) providerPayment s1 of
                 Inl e \<Rightarrow> Inl e
               | Inr s2 \<Rightarrow> sendValue E (ag_publisher a) publisherRefund s2))"

text \<open>An active agreement whose window has passed without a voucher is terminated first.\<close>

definition auto_terminate :: "tx \<Rightarrow> EscrowAgreement \<Rightarrow> EscrowAgreement option" where
  "auto_terminate t a =
     (if ag_state a = EsActive
      then (case window_end a of
              None \<Rightarrow> None
            | Some w \<Rightarrow> Some (if w < tx_timestamp t \<and> \<not> ag_hasPaymentState a then a\<lparr>ag_state := EsTerminated\<rparr> else a))
      else Some a)"

definition refundPublisher :: "evm \<Rightarrow> bytes32 \<Rightarrow> tx \<Rightarrow> EscrowContract \<Rightarrow> escrow_error + EscrowContract" where
  "refundPublisher E contractID t s = (case agreement_of contractID s of
     Inl e \<Rightarrow> Inl e
   | Inr a0 \<Rightarrow>
       (case auto_terminate t a0 of
          None \<Rightarrow> Inl Panic
        | Some a \<Rightarrow>
            if tx_sender t \<noteq> ag_publisher a \<or> ag_state a \<noteq> EsFailed \<and> ag_state a \<noteq> EsTerminated then Inl InvalidState
            else sendValue E (ag_publisher a) (ag_escrowBalance a)
                   (set_agreement contractID (a\<lparr>ag_escrowBalance := 0, ag_state := EsRefunded\<rparr>) s)))"

definition returnCollateral :: "evm \<Rightarrow> bytes32 \<Rightarrow> tx \<Rightarrow> EscrowContract \<Rightarrow> escrow_error + EscrowContract" where
  "returnCollateral E contractID t s = (case agreement_of contractID s of
     Inl e \<Rightarrow> Inl e
   | Inr a \<Rightarrow>
       if ag_state a \<noteq> EsSettled \<and> ag_state a \<noteq> EsTerminated \<and> ag_state a \<noteq> EsRefunded \<or> ag_collateral a = 0
       then Inl InvalidState
       else sendValue E (ag_provider a) (ag_collateral a) (set_agreement contractID (a\<lparr>ag_collateral := 0\<rparr>) s))"

definition markFailure :: "bytes32 \<Rightarrow> FailureReason \<Rightarrow> tx \<Rightarrow> EscrowContract \<Rightarrow> escrow_error + EscrowContract" where
  "markFailure contractID reason t s = (case agreement_of contractID s of
     Inl e \<Rightarrow> Inl e
   | Inr a \<Rightarrow>
       if tx_sender t \<noteq> ag_publisher a \<or> ag_state a \<noteq> EsActive \<or> reason = FrNone then Inl InvalidState
       else Inr (set_agreement contractID (a\<lparr>ag_failureReason := reason, ag_state := EsFailed\<rparr>) s))"

definition disputeFailure ::
    "evm \<Rightarrow> bytes32 \<Rightarrow> SolPaymentState \<Rightarrow> tx \<Rightarrow> EscrowContract \<Rightarrow> escrow_error + EscrowContract" where
  "disputeFailure E contractID p t s = (case agreement_of contractID s of
     Inl e \<Rightarrow> Inl e
   | Inr a \<Rightarrow>
       if ag_state a \<noteq> EsFailed then Inl InvalidState
       else if tx_sender t \<noteq> ag_provider a then Inl EscrowUnauthorized
       else (case check_voucher E contractID p t a of
               Some e \<Rightarrow> Inl e
             | None \<Rightarrow> Inr (accept_voucher contractID p (a\<lparr>ag_failureReason := FrNone, ag_state := EsActive\<rparr>) s)))"

definition slashCollateral :: "evm \<Rightarrow> bytes32 \<Rightarrow> u256 \<Rightarrow> tx \<Rightarrow> EscrowContract \<Rightarrow> escrow_error + EscrowContract" where
  "slashCollateral E contractID penalty t s = (case agreement_of contractID s of
     Inl e \<Rightarrow> Inl e
   | Inr a \<Rightarrow>
       if tx_sender t \<noteq> ag_publisher a \<or> ag_state a \<noteq> EsFailed \<or> penalty = 0 then Inl InvalidState
       else
         let amount = penaltyAmount (ag_collateral a) penalty in
         if ag_collateral a < amount then Inl Panic
         else sendValue E (ag_publisher a) amount (set_agreement contractID (a\<lparr>ag_collateral := ag_collateral a - amount\<rparr>) s))"

definition terminateExpiredContract :: "bytes32 \<Rightarrow> tx \<Rightarrow> EscrowContract \<Rightarrow> escrow_error + EscrowContract" where
  "terminateExpiredContract contractID t s = (case agreement_of contractID s of
     Inl e \<Rightarrow> Inl e
   | Inr a \<Rightarrow>
       if ag_state a \<noteq> EsActive then Inl InvalidState
       else (case window_end a of
          None \<Rightarrow> Inl Panic
        | Some w \<Rightarrow>
            if tx_timestamp t \<le> w then Inl InvalidState
            else if ag_hasPaymentState a then Inl InvalidState
            else Inr (set_agreement contractID (a\<lparr>ag_state := EsTerminated\<rparr>) s)))"

section \<open>Queries\<close>

definition getContractState :: "bytes32 \<Rightarrow> EscrowContract \<Rightarrow> escrow_error + EscrowState" where
  "getContractState contractID s = map_sum id ag_state (agreement_of contractID s)"

definition getEscrowBalance :: "bytes32 \<Rightarrow> EscrowContract \<Rightarrow> escrow_error + u256" where
  "getEscrowBalance contractID s = map_sum id ag_escrowBalance (agreement_of contractID s)"

definition getCollateral :: "bytes32 \<Rightarrow> EscrowContract \<Rightarrow> escrow_error + u256" where
  "getCollateral contractID s = map_sum id ag_collateral (agreement_of contractID s)"

text \<open>A key that was never written reads as the struct of zeros.\<close>

definition getPaymentState :: "bytes32 \<Rightarrow> EscrowContract \<Rightarrow> escrow_error + SolPaymentState" where
  "getPaymentState contractID s = (case agreement_of contractID s of
     Inl e \<Rightarrow> Inl e
   | Inr _ \<Rightarrow> Inr (case ec_latestPaymentStates s contractID of
       None \<Rightarrow> \<lparr>sp_contractID = 0, sp_publisher = 0, sp_provider = 0, sp_sequence = 0, sp_period = 0, sp_cumulativePayment = 0,
         sp_lastChallengeID = 0, sp_validUntil = 0, sp_status = 0, sp_signature = []\<rparr>
     | Some p \<Rightarrow> p))"

section \<open>Transactions\<close>

datatype escrow_call =
    CreateContract address bytes32 u256 u64 u64 bytes32 u256
  | FundEscrow bytes32
  | DepositCollateral bytes32
  | ActivateContract bytes32
  | SubmitPayment bytes32 SolPaymentState
  | SettleContract bytes32 SolPaymentState
  | RefundPublisher bytes32
  | ReturnCollateral bytes32
  | MarkFailure bytes32 FailureReason
  | DisputeFailure bytes32 SolPaymentState
  | SlashCollateral bytes32 u256
  | TerminateExpired bytes32

text \<open>Functions that are not payable revert when they are sent money.\<close>

fun is_payable :: "escrow_call \<Rightarrow> bool" where
  "is_payable (FundEscrow _) = True"
| "is_payable (DepositCollateral _) = True"
| "is_payable _ = False"

fun run_call :: "evm \<Rightarrow> tx \<Rightarrow> escrow_call \<Rightarrow> EscrowContract \<Rightarrow> escrow_error + EscrowContract" where
  "run_call E t (CreateContract p f r n d h c) s = map_sum id snd (createContract E p f r n d h c t s)"
| "run_call E t (FundEscrow i) s = fundEscrow i t s"
| "run_call E t (DepositCollateral i) s = depositCollateral i t s"
| "run_call E t (ActivateContract i) s = activateContract i t s"
| "run_call E t (SubmitPayment i p) s = submitPaymentState E i p t s"
| "run_call E t (SettleContract i p) s = settleContract E i p t s"
| "run_call E t (RefundPublisher i) s = refundPublisher E i t s"
| "run_call E t (ReturnCollateral i) s = returnCollateral E i t s"
| "run_call E t (MarkFailure i r) s = markFailure i r t s"
| "run_call E t (DisputeFailure i p) s = disputeFailure E i p t s"
| "run_call E t (SlashCollateral i x) s = slashCollateral E i x t s"
| "run_call E t (TerminateExpired i) s = terminateExpiredContract i t s"

definition exec :: "evm \<Rightarrow> tx \<Rightarrow> escrow_call \<Rightarrow> EscrowContract \<Rightarrow> escrow_error + EscrowContract" where
  "exec E t call s = (if \<not> is_payable call \<and> tx_value t \<noteq> 0 then Inl NotPayable else run_call E t call s)"

text \<open>The new ID of \<open>createContract\<close> is not in use, which is what the contract relies on \<open>keccak256\<close> for.\<close>

definition no_collision :: "evm \<Rightarrow> tx \<Rightarrow> escrow_call \<Rightarrow> EscrowContract \<Rightarrow> bool" where
  "no_collision E t call s = (case call of
     CreateContract p f r n d h c \<Rightarrow> (case createContract E p f r n d h c t s of
        Inl _ \<Rightarrow> True
      | Inr (i, _) \<Rightarrow> ec_agreements s i = None)
   | _ \<Rightarrow> True)"

text \<open>A successful transaction of one of the given senders, or money that reaches the contract without a call, as the reward of
  a block or by \<open>selfdestruct\<close> of another contract. Nobody can send from the address zero.\<close>

inductive escrow_step :: "evm \<Rightarrow> (address \<Rightarrow> bool) \<Rightarrow> EscrowContract \<Rightarrow> EscrowContract \<Rightarrow> bool" for E senders where
  es_tx: "exec E t call s = Inr s' \<Longrightarrow> senders (tx_sender t) \<Longrightarrow> tx_sender t \<noteq> 0 \<Longrightarrow> no_collision E t call s \<Longrightarrow>
    escrow_step E senders s s'"
| es_force: "escrow_step E senders s (s\<lparr>ec_balance := ec_balance s + n\<rparr>)"

inductive_cases escrow_stepE: "escrow_step E senders s s'"

abbreviation anyone :: "address \<Rightarrow> bool" where
  "anyone \<equiv> \<lambda>_. True"

end
