(* ===== verification/EscrowRuns.thy ===== *)
theory EscrowRuns
  imports Escrow Prelude
begin

text \<open>
  Runs of the escrow contract: what holds in every reachable state, and what follows for the money of publisher and
  provider.
\<close>

section \<open>Liabilities\<close>

text \<open>The money an agreement has a claim on, and the sum over all agreements.\<close>

definition held :: "EscrowAgreement \<Rightarrow> nat" where
  "held a = unat (ag_escrowBalance a) + unat (ag_collateral a)"

definition liabilities :: "EscrowContract \<Rightarrow> nat" where
  "liabilities s = (\<Sum>i \<in> dom (ec_agreements s). held (the (ec_agreements s i)))"

lemma liabilities_update:
  assumes "finite (dom (ec_agreements s))" and "ec_agreements s i = Some a"
    and "ec_agreements s' = (ec_agreements s)(i \<mapsto> b)"
  shows "liabilities s' + held a = liabilities s + held b"
proof -
  have d: "dom (ec_agreements s) = insert i (dom (ec_agreements s) - {i})" "dom (ec_agreements s') = dom (ec_agreements s)"
    using assms(2,3) by auto
  have "(\<Sum>j \<in> dom (ec_agreements s) - {i}. held (the (ec_agreements s' j)))
      = (\<Sum>j \<in> dom (ec_agreements s) - {i}. held (the (ec_agreements s j)))"
    by (rule sum.cong) (simp_all add: assms(3))
  moreover have "liabilities s' = held b + (\<Sum>j \<in> dom (ec_agreements s) - {i}. held (the (ec_agreements s' j)))"
    unfolding liabilities_def d(2) by (subst d(1), subst sum.insert) (use assms in auto)
  moreover have "liabilities s = held a + (\<Sum>j \<in> dom (ec_agreements s) - {i}. held (the (ec_agreements s j)))"
    unfolding liabilities_def by (subst d(1), subst sum.insert) (use assms in auto)
  ultimately show ?thesis by simp
qed

lemma liabilities_new:
  assumes "finite (dom (ec_agreements s))" and "ec_agreements s i = None"
    and "ec_agreements s' = (ec_agreements s)(i \<mapsto> b)"
  shows "liabilities s' = liabilities s + held b"
proof -
  have i: "i \<notin> dom (ec_agreements s)" using assms(2) by auto
  have "(\<Sum>j \<in> dom (ec_agreements s). held (the (ec_agreements s' j)))
      = (\<Sum>j \<in> dom (ec_agreements s). held (the (ec_agreements s j)))"
    by (rule sum.cong) (use i in \<open>auto simp: assms(3)\<close>)
  with i assms(1) show ?thesis by (simp add: liabilities_def assms(3))
qed

section \<open>The invariant\<close>

definition agreement_ok :: "EscrowAgreement \<Rightarrow> bool" where
  "agreement_ok a \<longleftrightarrow> ag_exists a \<and> ag_publisher a \<noteq> 0
     \<and> ag_latestCumulativePayment a \<le> ag_reward a
     \<and> ag_collateral a \<le> ag_collateralRequired a
     \<and> ag_escrowBalance a = (if ag_state a \<in> {EsFunded, EsActive, EsFailed, EsTerminated} then ag_reward a else 0)
     \<and> (ag_state a = EsCreated \<longrightarrow> ag_collateral a = 0)
     \<and> (ag_state a \<in> {EsCreated, EsFunded, EsTerminated} \<longrightarrow> \<not> ag_hasPaymentState a)
     \<and> (ag_state a = EsSettled \<longrightarrow> ag_hasPaymentState a)"

text \<open>The voucher on record is one that the publisher signed for this agreement.\<close>

definition voucher_ok :: "evm \<Rightarrow> EscrowContract \<Rightarrow> bytes32 \<Rightarrow> EscrowAgreement \<Rightarrow> bool" where
  "voucher_ok E s i a \<longleftrightarrow> (ag_hasPaymentState a \<longrightarrow> (\<exists>p. ec_latestPaymentStates s i = Some p
     \<and> recoverPaymentSigner E p = ag_publisher a \<and> sp_contractID p = i \<and> sp_provider p = ag_provider a
     \<and> sp_cumulativePayment p = ag_latestCumulativePayment a \<and> sp_sequence p = ag_latestSequence a))"

definition escrow_inv :: "evm \<Rightarrow> EscrowContract \<Rightarrow> bool" where
  "escrow_inv E s \<longleftrightarrow> finite (dom (ec_agreements s)) \<and> liabilities s \<le> ec_balance s
     \<and> (\<forall>i a. ec_agreements s i = Some a \<longrightarrow> agreement_ok a \<and> voucher_ok E s i a)"

section \<open>Preservation\<close>

text \<open>A change of one agreement that keeps the rest of the state and whose change of liabilities is covered by the
  change of the balance.\<close>

lemma change_inv:
  assumes "escrow_inv E s" and "ec_agreements s i = Some a" and "ec_agreements s' = (ec_agreements s)(i \<mapsto> b)"
    and "agreement_ok b" and "voucher_ok E s' i b"
    and "\<forall>j. j \<noteq> i \<longrightarrow> ec_latestPaymentStates s' j = ec_latestPaymentStates s j"
    and "ec_balance s + held b \<le> ec_balance s' + held a"
  shows "escrow_inv E s'"
proof -
  have "liabilities s' + held a = liabilities s + held b"
    using assms(1-3) by (intro liabilities_update) (auto simp: escrow_inv_def)
  moreover have "liabilities s \<le> ec_balance s" using assms(1) by (simp add: escrow_inv_def)
  ultimately have "liabilities s' \<le> ec_balance s'" using assms(7) by linarith
  moreover have "voucher_ok E s' j c" if "j \<noteq> i" "ec_agreements s j = Some c" for j c
    using assms(1,6) that by (auto simp: escrow_inv_def voucher_ok_def)
  ultimately show ?thesis using assms by (auto simp: escrow_inv_def)
qed

lemma agreement_of_Inr: "agreement_of i s = Inr a \<longleftrightarrow> ec_agreements s i = Some a \<and> ag_exists a"
  by (auto simp: agreement_of_def split: option.splits)

lemma set_agreement_simps [simp]:
  "ec_agreements (set_agreement i a s) = (ec_agreements s)(i \<mapsto> a)"
  "ec_latestPaymentStates (set_agreement i a s) = ec_latestPaymentStates s"
  "ec_nextContractNonce (set_agreement i a s) = ec_nextContractNonce s"
  "ec_balance (set_agreement i a s) = ec_balance s" "ec_paid (set_agreement i a s) = ec_paid s"
  by (simp_all add: set_agreement_def)

lemma sendValue_ok:
  assumes "sendValue E r x s = Inr s'"
  shows "ec_agreements s' = ec_agreements s" "ec_latestPaymentStates s' = ec_latestPaymentStates s"
    "ec_nextContractNonce s' = ec_nextContractNonce s" "ec_balance s = ec_balance s' + unat x"
    "ec_paid s' = (ec_paid s)(r := ec_paid s r + unat x)"
  using assms by (auto simp: sendValue_def split: if_splits)

lemma escrow_invD:
  assumes "escrow_inv E s" and "ec_agreements s i = Some a"
  shows "agreement_ok a" "voucher_ok E s i a"
  using assms by (simp_all add: escrow_inv_def)

lemma create_inv:
  assumes "escrow_inv E s" and "tx_sender t \<noteq> 0" and "createContract E p f r n d h c t s = Inr (i, s')"
    and "ec_agreements s i = None"
  shows "escrow_inv E s'"
proof -
  obtain b k where s': "s' = set_agreement i b (s\<lparr>ec_nextContractNonce := k\<rparr>)" and b: "agreement_ok b" "held b = 0" "\<not> ag_hasPaymentState b"
    using assms(2,3) by (auto simp: createContract_def agreement_ok_def held_def Let_def split: if_splits)
  have "liabilities s' = liabilities s"
    using liabilities_new [of s i s' b] assms(1,4) b(2) s' by (simp add: escrow_inv_def)
  then show ?thesis using assms(1) b by (auto simp: escrow_inv_def s' voucher_ok_def)
qed

lemma fund_inv:
  assumes "escrow_inv E s" and "fundEscrow i t s = Inr s'"
  shows "escrow_inv E s'"
proof -
  from assms(2) obtain a where a: "ec_agreements s i = Some a" "ag_state a = EsCreated" "tx_value t = ag_reward a"
      and s': "s' = set_agreement i (a\<lparr>ag_escrowBalance := tx_value t, ag_state := EsFunded\<rparr>) (s\<lparr>ec_balance := ec_balance s + unat (tx_value t)\<rparr>)"
    by (auto simp: fundEscrow_def agreement_of_Inr split: sum.splits if_splits)
  show ?thesis
    by (rule change_inv [OF assms(1) a(1), where b = "a\<lparr>ag_escrowBalance := tx_value t, ag_state := EsFunded\<rparr>"])
      (use escrow_invD [OF assms(1) a(1)] a in \<open>simp_all add: s' agreement_ok_def held_def voucher_ok_def\<close>)
qed

lemma deposit_inv:
  assumes "escrow_inv E s" and "depositCollateral i t s = Inr s'"
  shows "escrow_inv E s'"
proof -
  from assms(2) obtain a where a: "ec_agreements s i = Some a" "ag_state a = EsFunded" "tx_value t = ag_collateralRequired a" "ag_collateral a = 0"
      and s': "s' = set_agreement i (a\<lparr>ag_collateral := tx_value t\<rparr>) (s\<lparr>ec_balance := ec_balance s + unat (tx_value t)\<rparr>)"
    by (auto simp: depositCollateral_def agreement_of_Inr split: sum.splits if_splits)
  show ?thesis
    by (rule change_inv [OF assms(1) a(1), where b = "a\<lparr>ag_collateral := tx_value t\<rparr>"])
      (use escrow_invD [OF assms(1) a(1)] a in \<open>simp_all add: s' agreement_ok_def held_def voucher_ok_def\<close>)
qed

lemma activate_inv:
  assumes "escrow_inv E s" and "activateContract i t s = Inr s'"
  shows "escrow_inv E s'"
proof -
  from assms(2) obtain a x y where a: "ec_agreements s i = Some a" "ag_state a = EsFunded"
      and s': "s' = set_agreement i (a\<lparr>ag_activatedAt := x, ag_deadline := y, ag_state := EsActive\<rparr>) s"
    by (auto simp: activateContract_def agreement_of_Inr split: sum.splits if_splits option.splits)
  show ?thesis
    by (rule change_inv [OF assms(1) a(1), where b = "a\<lparr>ag_activatedAt := x, ag_deadline := y, ag_state := EsActive\<rparr>"])
      (use escrow_invD [OF assms(1) a(1)] a in \<open>simp_all add: s' agreement_ok_def held_def voucher_ok_def\<close>)
qed

text \<open>An accepted voucher: the agreement that it is accepted for is active afterwards and kept its money.\<close>

lemma voucher_inv:
  assumes "escrow_inv E s" and "ec_agreements s i = Some a" and "check_voucher E i p t a = None"
    and "ag_state a = EsActive \<or> ag_state a = EsFailed"
  shows "escrow_inv E (accept_voucher i p (a\<lparr>ag_failureReason := fr, ag_state := EsActive\<rparr>) s)"
  by (rule change_inv [OF assms(1,2), where b = "a\<lparr>ag_failureReason := fr, ag_state := EsActive, ag_latestSequence := sp_sequence p,
      ag_latestCumulativePayment := sp_cumulativePayment p, ag_hasPaymentState := True\<rparr>"])
    (use escrow_invD [OF assms(1,2)] assms(3,4) in
      \<open>auto simp: accept_voucher_def agreement_ok_def held_def voucher_ok_def check_voucher_def isNextPaymentState_def split: if_splits\<close>)

lemma submit_inv:
  assumes "escrow_inv E s" and "submitPaymentState E i p t s = Inr s'"
  shows "escrow_inv E s'"
proof -
  from assms(2) obtain a where a: "ec_agreements s i = Some a" "ag_state a = EsActive" "check_voucher E i p t a = None"
      and s': "s' = accept_voucher i p a s"
    by (auto simp: submitPaymentState_def agreement_of_Inr split: sum.splits if_splits option.splits)
  have "a\<lparr>ag_failureReason := ag_failureReason a, ag_state := EsActive\<rparr> = a" using a(2) by simp
  then show ?thesis using voucher_inv [OF assms(1) a(1,3), of "ag_failureReason a"] a(2) s' by metis
qed

lemma dispute_inv:
  assumes "escrow_inv E s" and "disputeFailure E i p t s = Inr s'"
  shows "escrow_inv E s'"
  using assms by (auto simp: disputeFailure_def agreement_of_Inr voucher_inv split: sum.splits if_splits option.splits)

lemma mark_inv:
  assumes "escrow_inv E s" and "markFailure i r t s = Inr s'"
  shows "escrow_inv E s'"
proof -
  from assms(2) obtain a where a: "ec_agreements s i = Some a" "ag_state a = EsActive"
      and s': "s' = set_agreement i (a\<lparr>ag_failureReason := r, ag_state := EsFailed\<rparr>) s"
    by (auto simp: markFailure_def agreement_of_Inr split: sum.splits if_splits)
  show ?thesis
    by (rule change_inv [OF assms(1) a(1), where b = "a\<lparr>ag_failureReason := r, ag_state := EsFailed\<rparr>"])
      (use escrow_invD [OF assms(1) a(1)] a in \<open>simp_all add: s' agreement_ok_def held_def voucher_ok_def\<close>)
qed

lemma terminate_inv:
  assumes "escrow_inv E s" and "terminateExpiredContract i t s = Inr s'"
  shows "escrow_inv E s'"
proof -
  from assms(2) obtain a where a: "ec_agreements s i = Some a" "ag_state a = EsActive" "\<not> ag_hasPaymentState a"
      and s': "s' = set_agreement i (a\<lparr>ag_state := EsTerminated\<rparr>) s"
    by (auto simp: terminateExpiredContract_def agreement_of_Inr split: sum.splits if_splits option.splits)
  show ?thesis
    by (rule change_inv [OF assms(1) a(1), where b = "a\<lparr>ag_state := EsTerminated\<rparr>"])
      (use escrow_invD [OF assms(1) a(1)] a in \<open>simp_all add: s' agreement_ok_def held_def voucher_ok_def\<close>)
qed

text \<open>A payment to one party that takes it from what the agreement holds.\<close>

lemma payout_inv:
  assumes "escrow_inv E s" and "ec_agreements s i = Some a" and "sendValue E r x (set_agreement i b s) = Inr s'"
    and "agreement_ok b" and "voucher_ok E s i b" and "held b + unat x = held a"
  shows "escrow_inv E s'"
proof (rule change_inv [OF assms(1,2)])
  note s' = sendValue_ok [OF assms(3)]
  show "ec_agreements s' = (ec_agreements s)(i \<mapsto> b)"
    "\<forall>j. j \<noteq> i \<longrightarrow> ec_latestPaymentStates s' j = ec_latestPaymentStates s j" "ec_balance s + held b \<le> ec_balance s' + held a"
    "voucher_ok E s' i b"
    using s' assms(5,6) by (simp_all add: voucher_ok_def)
qed (rule assms(4))

lemma voucher_ok_cong:
  "ag_hasPaymentState b = ag_hasPaymentState a \<Longrightarrow> ag_publisher b = ag_publisher a \<Longrightarrow> ag_provider b = ag_provider a \<Longrightarrow>
   ag_latestCumulativePayment b = ag_latestCumulativePayment a \<Longrightarrow> ag_latestSequence b = ag_latestSequence a \<Longrightarrow>
   voucher_ok E s i b = voucher_ok E s i a"
  by (simp add: voucher_ok_def)

lemma refund_inv:
  assumes "escrow_inv E s" and "refundPublisher E i t s = Inr s'"
  shows "escrow_inv E s'"
proof -
  from assms(2) obtain a b where a: "ec_agreements s i = Some a" "auto_terminate t a = Some b" "ag_state b = EsFailed \<or> ag_state b = EsTerminated"
      and s': "sendValue E (ag_publisher b) (ag_escrowBalance b) (set_agreement i (b\<lparr>ag_escrowBalance := 0, ag_state := EsRefunded\<rparr>) s) = Inr s'"
    by (auto simp: refundPublisher_def agreement_of_Inr split: sum.splits if_splits option.splits)
  have b: "b = a \<or> ag_state a = EsActive \<and> b = a\<lparr>ag_state := EsTerminated\<rparr>"
    using a(2) by (auto simp: auto_terminate_def split: if_splits option.splits)
  have "held b = held a" "voucher_ok E s i b = voucher_ok E s i a" "agreement_ok (b\<lparr>ag_escrowBalance := 0, ag_state := EsRefunded\<rparr>)"
    using b escrow_invD(1) [OF assms(1) a(1)] by (auto simp: held_def voucher_ok_def agreement_ok_def)
  then show ?thesis
    by (intro payout_inv [OF assms(1) a(1) s'])
      (use escrow_invD(2) [OF assms(1) a(1)] in \<open>simp_all add: held_def voucher_ok_def\<close>)
qed

lemma return_inv:
  assumes "escrow_inv E s" and "returnCollateral E i t s = Inr s'"
  shows "escrow_inv E s'"
proof -
  from assms(2) obtain a where a: "ec_agreements s i = Some a"
      and s': "sendValue E (ag_provider a) (ag_collateral a) (set_agreement i (a\<lparr>ag_collateral := 0\<rparr>) s) = Inr s'"
    by (auto simp: returnCollateral_def agreement_of_Inr split: sum.splits if_splits)
  note ok = escrow_invD [OF assms(1) a]
  show ?thesis
    by (rule payout_inv [OF assms(1) a s']) (use ok in \<open>simp_all add: agreement_ok_def held_def voucher_ok_def\<close>)
qed

lemma slash_inv:
  assumes "escrow_inv E s" and "slashCollateral E i x t s = Inr s'"
  shows "escrow_inv E s'"
proof -
  from assms(2) obtain a m where a: "ec_agreements s i = Some a" "ag_state a = EsFailed" "m \<le> ag_collateral a"
      and s': "sendValue E (ag_publisher a) m (set_agreement i (a\<lparr>ag_collateral := ag_collateral a - m\<rparr>) s) = Inr s'"
    by (auto simp: slashCollateral_def agreement_of_Inr Let_def not_less split: sum.splits if_splits)
  note ok = escrow_invD [OF assms(1) a(1)]
  have "ag_collateral a - m \<le> ag_collateral a" using a(3) by (rule word_sub_le)
  moreover have "unat (ag_collateral a - m) + unat m = unat (ag_collateral a)" using unat_sub [OF a(3)] a(3) by (simp add: word_le_nat_alt)
  ultimately show ?thesis
    by (intro payout_inv [OF assms(1) a(1) s']) (use ok a(2) in \<open>auto simp: agreement_ok_def held_def voucher_ok_def\<close>)
qed

lemma settle_ok:
  assumes "settleContract E i p t s = Inr s'"
  obtains a s1 where "ec_agreements s i = Some a" and "ag_state a = EsActive" and "ag_hasPaymentState a"
    and "ag_latestCumulativePayment a \<le> ag_escrowBalance a"
    and "sendValue E (ag_provider a) (ag_latestCumulativePayment a) (set_agreement i (a\<lparr>ag_escrowBalance := 0, ag_state := EsSettled\<rparr>) s) = Inr s1"
    and "sendValue E (ag_publisher a) (ag_escrowBalance a - ag_latestCumulativePayment a) s1 = Inr s'"
  using assms by (auto simp: settleContract_def agreement_of_Inr Let_def not_less split: sum.splits if_splits)

lemma settle_inv:
  assumes "escrow_inv E s" and "settleContract E i p t s = Inr s'"
  shows "escrow_inv E s'"
  using assms(2)
proof (rule settle_ok)
  fix a :: EscrowAgreement and s1 :: EscrowContract
  let ?b = "a\<lparr>ag_escrowBalance := 0, ag_state := EsSettled\<rparr>"
  assume a: "ec_agreements s i = Some a" "ag_state a = EsActive" "ag_hasPaymentState a" "ag_latestCumulativePayment a \<le> ag_escrowBalance a"
    and s1: "sendValue E (ag_provider a) (ag_latestCumulativePayment a) (set_agreement i ?b s) = Inr s1"
    and s': "sendValue E (ag_publisher a) (ag_escrowBalance a - ag_latestCumulativePayment a) s1 = Inr s'"
  note ok = escrow_invD [OF assms(1) a(1)]
  have "unat (ag_escrowBalance a - ag_latestCumulativePayment a) = unat (ag_escrowBalance a) - unat (ag_latestCumulativePayment a)"
    using a(4) by (rule unat_sub)
  moreover have "unat (ag_latestCumulativePayment a) \<le> unat (ag_escrowBalance a)" using a(4) by (simp add: word_le_nat_alt)
  ultimately have "ec_balance s = ec_balance s' + unat (ag_escrowBalance a)"
    using sendValue_ok(4) [OF s1] sendValue_ok(4) [OF s'] by simp
  then show ?thesis
    by (intro change_inv [OF assms(1) a(1), where b = ?b])
      (use ok a sendValue_ok [OF s1] sendValue_ok [OF s'] in \<open>simp_all add: agreement_ok_def held_def voucher_ok_def\<close>)
qed

lemma exec_inv:
  assumes "escrow_inv E s" and "tx_sender t \<noteq> 0" and "no_collision E t call s" and "exec E t call s = Inr s'"
  shows "escrow_inv E s'"
proof -
  from assms(4) have run: "run_call E t call s = Inr s'" by (auto simp: exec_def split: if_splits)
  note keeps = fund_inv deposit_inv activate_inv submit_inv settle_inv refund_inv return_inv mark_inv dispute_inv slash_inv terminate_inv
  show ?thesis
  proof (cases call)
    case (CreateContract p f r n d h c)
    with run obtain i where "createContract E p f r n d h c t s = Inr (i, s')"
      by (cases "createContract E p f r n d h c t s") auto
    then show ?thesis using create_inv [OF assms(1,2)] assms(3) CreateContract by (simp add: no_collision_def)
  qed (use run in \<open>auto intro: keeps [OF assms(1)]\<close>)
qed

abbreviation escrow_init :: "EscrowContract \<Rightarrow> bool" where
  "escrow_init \<equiv> \<lambda>s. s = empty_escrow"

interpretation escrow_sys: invariant_system escrow_init "escrow_step E senders" "escrow_inv E" for E senders
proof unfold_locales
  fix s
  assume "s = empty_escrow"
  then show "escrow_inv E s" by (simp add: empty_escrow_def escrow_inv_def liabilities_def)
next
  fix s s'
  assume "escrow_inv E s" and "escrow_step E senders s s'"
  then show "escrow_inv E s'"
    by (auto elim!: escrow_stepE intro: exec_inv) (simp add: escrow_inv_def liabilities_def voucher_ok_def)
qed

section \<open>Progress of an agreement\<close>

text \<open>What never changes, and what only moves forward.\<close>

definition agreement_le :: "EscrowAgreement \<Rightarrow> EscrowAgreement \<Rightarrow> bool" where
  "agreement_le a b \<longleftrightarrow> ag_publisher b = ag_publisher a \<and> ag_provider b = ag_provider a \<and> ag_reward b = ag_reward a
     \<and> ag_latestSequence a \<le> ag_latestSequence b \<and> ag_latestCumulativePayment a \<le> ag_latestCumulativePayment b
     \<and> (ag_hasPaymentState a \<longrightarrow> ag_hasPaymentState b)
     \<and> (ag_state a \<in> {EsSettled, EsRefunded} \<longrightarrow> ag_state b = ag_state a)"

lemma agreement_le_refl [simp]: "agreement_le a a"
  by (simp add: agreement_le_def)

lemma agreement_le_trans: "agreement_le a b \<Longrightarrow> agreement_le b c \<Longrightarrow> agreement_le a c"
  by (auto simp: agreement_le_def)

text \<open>The successful calls, with the agreement they change.\<close>

lemma run_call_change:
  assumes "run_call E t call s = Inr s'" and "\<forall>p f r n d h c. call \<noteq> CreateContract p f r n d h c"
  obtains i a b where "ec_agreements s i = Some a" and "ec_agreements s' = (ec_agreements s)(i \<mapsto> b)" and "agreement_le a b"
    and "ag_state a = EsFunded \<Longrightarrow> ag_collateral a < ag_collateralRequired a \<Longrightarrow> tx_sender t = ag_provider a \<and> call = DepositCollateral i"
proof (cases call)
  case (CreateContract p f r n d h c)
  with assms(2) show thesis by blast
next
  case (FundEscrow i)
  with assms(1) show thesis
    by (auto simp: fundEscrow_def agreement_of_Inr agreement_le_def split: sum.splits if_splits intro!: that)
next
  case (DepositCollateral i)
  with assms(1) show thesis
    by (auto simp: depositCollateral_def agreement_of_Inr agreement_le_def split: sum.splits if_splits intro!: that)
next
  case (ActivateContract i)
  with assms(1) show thesis
    by (auto simp: activateContract_def agreement_of_Inr agreement_le_def split: sum.splits if_splits option.splits intro!: that)
next
  case (SubmitPayment i p)
  with assms(1) show thesis
    by (auto simp: submitPaymentState_def agreement_of_Inr agreement_le_def accept_voucher_def check_voucher_def isNextPaymentState_def
        split: sum.splits if_splits option.splits intro!: that)
next
  case (SettleContract i p)
  with assms(1) have "settleContract E i p t s = Inr s'" by simp
  then show thesis
  proof (rule settle_ok)
    fix a :: EscrowAgreement and s1 :: EscrowContract
    assume "ec_agreements s i = Some a" "ag_state a = EsActive"
      "sendValue E (ag_provider a) (ag_latestCumulativePayment a) (set_agreement i (a\<lparr>ag_escrowBalance := 0, ag_state := EsSettled\<rparr>) s) = Inr s1"
      "sendValue E (ag_publisher a) (ag_escrowBalance a - ag_latestCumulativePayment a) s1 = Inr s'"
    then show thesis by (intro that [of i a "a\<lparr>ag_escrowBalance := 0, ag_state := EsSettled\<rparr>"]) (simp_all add: sendValue_ok(1) agreement_le_def)
  qed
next
  case (RefundPublisher i)
  with assms(1) show thesis
    by (auto simp: refundPublisher_def agreement_of_Inr agreement_le_def auto_terminate_def sendValue_ok(1)
        split: sum.splits if_splits option.splits intro!: that)
next
  case (ReturnCollateral i)
  with assms(1) show thesis
    by (auto simp: returnCollateral_def agreement_of_Inr agreement_le_def sendValue_ok(1) split: sum.splits if_splits intro!: that)
next
  case (MarkFailure i r)
  with assms(1) show thesis
    by (auto simp: markFailure_def agreement_of_Inr agreement_le_def split: sum.splits if_splits intro!: that)
next
  case (DisputeFailure i p)
  with assms(1) show thesis
    by (auto simp: disputeFailure_def agreement_of_Inr agreement_le_def accept_voucher_def check_voucher_def isNextPaymentState_def
        split: sum.splits if_splits option.splits intro!: that)
next
  case (SlashCollateral i x)
  with assms(1) show thesis
    by (auto simp: slashCollateral_def agreement_of_Inr agreement_le_def sendValue_ok(1) Let_def split: sum.splits if_splits intro!: that)
next
  case (TerminateExpired i)
  with assms(1) show thesis
    by (auto simp: terminateExpiredContract_def agreement_of_Inr agreement_le_def split: sum.splits if_splits option.splits intro!: that)
qed

lemma exec_change:
  assumes "no_collision E t call s" and "exec E t call s = Inr s'" and "ec_agreements s i = Some a"
  obtains b where "ec_agreements s' i = Some b" and "agreement_le a b"
    and "ag_state a = EsFunded \<Longrightarrow> ag_collateral a < ag_collateralRequired a \<Longrightarrow> tx_sender t \<noteq> ag_provider a \<Longrightarrow> b = a"
proof (cases "\<exists>p f r n d h c. call = CreateContract p f r n d h c")
  case True
  then obtain p f r n d h c where call: "call = CreateContract p f r n d h c" by blast
  with assms(2) obtain j where j: "createContract E p f r n d h c t s = Inr (j, s')"
    by (cases "createContract E p f r n d h c t s") (auto simp: exec_def split: if_splits)
  with assms(1,3) call have "i \<noteq> j" by (auto simp: no_collision_def)
  with j assms(3) have "ec_agreements s' i = Some a" by (auto simp: createContract_def Let_def split: if_splits)
  with that show thesis by simp
next
  case False
  from assms(2) have "run_call E t call s = Inr s'" by (auto simp: exec_def split: if_splits)
  from run_call_change [OF this] False obtain j c b where c: "ec_agreements s j = Some c" "ec_agreements s' = (ec_agreements s)(j \<mapsto> b)"
      "agreement_le c b" and f: "ag_state c = EsFunded \<Longrightarrow> ag_collateral c < ag_collateralRequired c \<Longrightarrow> tx_sender t = ag_provider c"
    by metis
  show thesis
  proof (cases "i = j")
    case True
    with c f assms(3) that [of b] show thesis by auto
  next
    case False
    with c assms(3) that [of a] show thesis by simp
  qed
qed

text \<open>An agreement along the steps of a run.\<close>

definition agreements_le :: "EscrowContract \<Rightarrow> EscrowContract \<Rightarrow> bool" where
  "agreements_le s t \<longleftrightarrow> (\<forall>i a. ec_agreements s i = Some a \<longrightarrow> (\<exists>b. ec_agreements t i = Some b \<and> agreement_le a b))"

interpretation escrow_progress: monotone_system "escrow_step E senders" agreements_le for E senders
proof unfold_locales
  fix s t u
  show "agreements_le s s" by (simp add: agreements_le_def)
  show "agreements_le s t \<Longrightarrow> agreements_le t u \<Longrightarrow> agreements_le s u"
    unfolding agreements_le_def using agreement_le_trans by blast
  show "escrow_step E senders s t \<Longrightarrow> agreements_le s t"
    by (auto simp: agreements_le_def elim!: escrow_stepE) (metis exec_change)
qed

text \<open>A sequence of transactions; one that reverts leaves the state as it was.\<close>

fun exec_all :: "evm \<Rightarrow> (tx \<times> escrow_call) list \<Rightarrow> EscrowContract \<Rightarrow> EscrowContract" where
  "exec_all E [] s = s"
| "exec_all E ((t, call) # txs) s = exec_all E txs (case exec E t call s of Inl _ \<Rightarrow> s | Inr s' \<Rightarrow> s')"

lemma sendValue_succeeds:
  assumes "ev_accepts E r" and "unat x \<le> ec_balance s"
  shows "\<exists>s'. sendValue E r x s = Inr s'"
  using assms by (simp add: sendValue_def)

lemma held_le_balance:
  assumes "escrow_inv E s" and "ec_agreements s i = Some a"
  shows "held a \<le> ec_balance s"
proof -
  have "held a \<le> liabilities s"
    unfolding liabilities_def using assms member_le_sum [of i "dom (ec_agreements s)" "\<lambda>j. held (the (ec_agreements s j))"]
    by (auto simp: escrow_inv_def)
  then show ?thesis using assms(1) by (simp add: escrow_inv_def)
qed

section \<open>Properties\<close>

text \<open>C2. The escrow contract is solvent: in every reachable state its balance covers the escrowed rewards and the
  collateral of all agreements. An agreement holds its whole reward from funding until it is settled or refunded, and
  nothing afterwards; the payment on record never exceeds the reward and is the amount of a voucher for this agreement and provider whose
  signature recovers to the publisher; an agreement with a voucher is never terminated.\<close>

theorem escrow_solvent:
  assumes "reach escrow_init (escrow_step E anyone) s" and "ec_agreements s i = Some a"
  shows "(\<Sum>j \<in> dom (ec_agreements s). unat (ag_escrowBalance (the (ec_agreements s j))) + unat (ag_collateral (the (ec_agreements s j))))
       \<le> ec_balance s
    \<and> ag_escrowBalance a = (if ag_state a \<in> {EsFunded, EsActive, EsFailed, EsTerminated} then ag_reward a else 0)
    \<and> ag_latestCumulativePayment a \<le> ag_reward a
    \<and> (ag_hasPaymentState a \<longrightarrow> ag_state a \<noteq> EsTerminated \<and> (\<exists>p. ec_latestPaymentStates s i = Some p
         \<and> recoverPaymentSigner E p = ag_publisher a \<and> sp_contractID p = i \<and> sp_provider p = ag_provider a
         \<and> sp_cumulativePayment p = ag_latestCumulativePayment a))"
proof -
  have inv: "escrow_inv E s" using assms(1) by (rule escrow_sys.inv_reach)
  then show ?thesis
    using escrow_invD [OF inv assms(2)] by (auto simp: escrow_inv_def liabilities_def held_def agreement_ok_def voucher_ok_def)
qed

lemma settle_pays:
  assumes inv: "escrow_inv E s" and "ec_agreements s i = Some a"
    and "ag_state a = EsActive" and "ec_latestPaymentStates s i = Some p" and "ag_hasPaymentState a"
    and "ev_accepts E (ag_provider a)" and "ev_accepts E (ag_publisher a)"
  shows "\<exists>s'. settleContract E i p t s = Inr s'
    \<and> (\<forall>x. ec_paid s' x = ec_paid s x + (if x = ag_provider a then unat (sp_cumulativePayment p) else 0)
         + (if x = ag_publisher a then unat (ag_reward a) - unat (sp_cumulativePayment p) else 0))
    \<and> ec_agreements s' i = Some (a\<lparr>ag_escrowBalance := 0, ag_state := EsSettled\<rparr>)"
proof -
  note ok = escrow_invD [OF inv assms(2)]
  have p: "sp_contractID p = i" "sp_sequence p = ag_latestSequence a" "sp_cumulativePayment p = ag_latestCumulativePayment a"
    using ok(2) assms(4,5) by (auto simp: voucher_ok_def)
  have bal: "ag_escrowBalance a = ag_reward a" "ag_latestCumulativePayment a \<le> ag_reward a" "ag_exists a"
    using ok(1) assms(3) by (simp_all add: agreement_ok_def)
  have le: "unat (ag_latestCumulativePayment a) \<le> unat (ag_reward a)" "unat (ag_reward a) \<le> ec_balance s"
    using bal held_le_balance [OF inv assms(2)] by (simp_all add: word_le_nat_alt held_def)
  have sub: "unat (ag_reward a - ag_latestCumulativePayment a) = unat (ag_reward a) - unat (ag_latestCumulativePayment a)"
    using bal(2) by (rule unat_sub)
  let ?s0 = "set_agreement i (a\<lparr>ag_escrowBalance := 0, ag_state := EsSettled\<rparr>) s"
  obtain s1 where s1: "sendValue E (ag_provider a) (ag_latestCumulativePayment a) ?s0 = Inr s1"
    using sendValue_succeeds [OF assms(6), of "ag_latestCumulativePayment a" ?s0] le by auto
  have "unat (ag_reward a - ag_latestCumulativePayment a) \<le> ec_balance s1" using le sub sendValue_ok(4) [OF s1] by simp
  then obtain s2 where s2: "sendValue E (ag_publisher a) (ag_reward a - ag_latestCumulativePayment a) s1 = Inr s2"
    using sendValue_succeeds [OF assms(7)] by blast
  have "settleContract E i p t s = Inr s2"
    using assms(2,3,5) p bal s1 s2 by (simp add: settleContract_def agreement_of_def Let_def not_less)
  then show ?thesis using sendValue_ok [OF s1] sendValue_ok [OF s2] sub p(3) by simp
qed

text \<open>C23. Settlement pays what was signed: in every reachable state an active agreement with a voucher can be settled by anyone who
  names that voucher, as long as publisher and provider accept money. The provider receives the amount of the voucher, the publisher the
  rest of the reward, and the agreement is settled and empty.\<close>

theorem settlement_pays_voucher:
  assumes "reach escrow_init (escrow_step E anyone) s" and "ec_agreements s i = Some a"
    and "ag_state a = EsActive" and "ec_latestPaymentStates s i = Some p" and "ag_hasPaymentState a"
    and "ev_accepts E (ag_provider a)" and "ev_accepts E (ag_publisher a)"
  shows "\<exists>s'. settleContract E i p t s = Inr s'
    \<and> (\<forall>x. ec_paid s' x = ec_paid s x + (if x = ag_provider a then unat (sp_cumulativePayment p) else 0)
         + (if x = ag_publisher a then unat (ag_reward a) - unat (sp_cumulativePayment p) else 0))
    \<and> ec_agreements s' i = Some (a\<lparr>ag_escrowBalance := 0, ag_state := EsSettled\<rparr>)"
  using settle_pays [OF escrow_sys.inv_reach [OF assms(1)] assms(2-7)] .

text \<open>Vouchers only move forward: over any run the parties and the reward of an agreement stay the same, the recorded
  sequence number and payment never decrease, a recorded voucher is never lost, and a settled or refunded agreement stays so.\<close>

lemma vouchers_move_forward:
  assumes "(escrow_step E anyone)\<^sup>*\<^sup>* s s'" and "ec_agreements s i = Some a"
  shows "\<exists>b. ec_agreements s' i = Some b \<and> ag_publisher b = ag_publisher a \<and> ag_provider b = ag_provider a \<and> ag_reward b = ag_reward a
     \<and> ag_latestSequence a \<le> ag_latestSequence b \<and> ag_latestCumulativePayment a \<le> ag_latestCumulativePayment b
     \<and> (ag_hasPaymentState a \<longrightarrow> ag_hasPaymentState b)
     \<and> (ag_state a \<in> {EsSettled, EsRefunded} \<longrightarrow> ag_state b = ag_state a)"
  using escrow_progress.run_le [OF assms(1)] assms(2) by (auto simp: agreements_le_def agreement_le_def)

text \<open>C34. The publisher can take everything: from any active agreement of a reachable state, even one with a recorded voucher, the
  publisher alone marks a failure, slashes the whole collateral and takes the refund, and ends up with reward and
  collateral. There is no waiting time in which the provider could dispute the failure.\<close>

theorem publisher_can_take_everything:
  assumes "reach escrow_init (escrow_step E anyone) s" and "ec_agreements s i = Some a"
    and "ag_state a = EsActive" and "ag_collateral a \<noteq> 0" and "ev_accepts E (ag_publisher a)"
    and "tx_sender t = ag_publisher a" and "tx_value t = 0"
  shows "let s' = exec_all E [(t, MarkFailure i AvailabilityFailure), (t, SlashCollateral i (ag_collateral a)), (t, RefundPublisher i)] s
    in ec_paid s' = (ec_paid s)(ag_publisher a := ec_paid s (ag_publisher a) + unat (ag_reward a) + unat (ag_collateral a))
      \<and> map_option ag_state (ec_agreements s' i) = Some EsRefunded"
proof -
  have inv: "escrow_inv E s" using assms(1) by (rule escrow_sys.inv_reach)
  have ok: "ag_exists a" "ag_escrowBalance a = ag_reward a"
    using escrow_invD(1) [OF inv assms(2)] assms(3) by (simp_all add: agreement_ok_def)
  have bal: "unat (ag_reward a) + unat (ag_collateral a) \<le> ec_balance s"
    using held_le_balance [OF inv assms(2)] ok(2) by (simp add: held_def)
  let ?a1 = "a\<lparr>ag_failureReason := AvailabilityFailure, ag_state := EsFailed\<rparr>"
  let ?s1 = "set_agreement i ?a1 s"
  have 1: "exec E t (MarkFailure i AvailabilityFailure) s = Inr ?s1"
    using assms(2,3,6,7) ok by (simp add: exec_def markFailure_def agreement_of_def)
  obtain s2 where s2: "sendValue E (ag_publisher a) (ag_collateral a) (set_agreement i (?a1\<lparr>ag_collateral := 0\<rparr>) ?s1) = Inr s2"
    using sendValue_succeeds [OF assms(5), of "ag_collateral a" "set_agreement i (?a1\<lparr>ag_collateral := 0\<rparr>) ?s1"] bal by auto
  have 2: "exec E t (SlashCollateral i (ag_collateral a)) ?s1 = Inr s2"
    using s2 assms(4,6,7) ok by (simp add: exec_def slashCollateral_def agreement_of_def penaltyAmount_def)
  note s2 = sendValue_ok [OF s2]
  let ?s3 = "set_agreement i (?a1\<lparr>ag_collateral := 0, ag_escrowBalance := 0, ag_state := EsRefunded\<rparr>) s2"
  obtain s3 where s3: "sendValue E (ag_publisher a) (ag_reward a) ?s3 = Inr s3"
    using sendValue_succeeds [OF assms(5), of "ag_reward a" ?s3] bal s2(4) by auto
  have 3: "exec E t (RefundPublisher i) s2 = Inr s3"
    using s3 s2(1) assms(6,7) ok by (simp add: exec_def refundPublisher_def agreement_of_def auto_terminate_def)
  show ?thesis using 1 2 3 sendValue_ok [OF s3] s2 by (simp add: fun_eq_iff)
qed

text \<open>The reward of a funded agreement can be locked: while the provider does not deposit the required collateral, no sequence of
  transactions by anyone else changes the agreement, so the publisher has no way to get the reward back.\<close>

lemma funded_reward_locked_by_provider:
  assumes "ec_agreements s i = Some a" and "ag_state a = EsFunded" and "ag_collateral a < ag_collateralRequired a"
    and "(escrow_step E (\<lambda>sender. sender \<noteq> ag_provider a))\<^sup>*\<^sup>* s s'"
  shows "ec_agreements s' i = Some a"
  using assms(4)
proof (induction rule: rtranclp_induct)
  case base
  show ?case by (rule assms(1))
next
  case (step u v)
  from step.hyps(2) step.IH show ?case
  proof (cases rule: escrow_step.cases)
    case (es_tx t call)
    show ?thesis by (rule exec_change [OF es_tx(4,1) step.IH]) (use assms(2,3) es_tx(2) in auto)
  qed simp
qed

section \<open>An example run\<close>

text \<open>A publisher 11 and a provider 22 on a chain where every hash is 7 and every signature recovers to 11, which is enough
  for a single agreement.\<close>

definition example_evm :: evm where
  "example_evm = \<lparr>ev_this = 1, ev_chainid = 1, ev_keccak = (\<lambda>_. 7), ev_ecrecover = (\<lambda>_ _ _ _. 11), ev_accepts = (\<lambda>_. True)\<rparr>"

definition by_publisher :: "u256 \<Rightarrow> tx" where
  "by_publisher v = \<lparr>tx_sender = 11, tx_value = v, tx_timestamp = 1000\<rparr>"

definition by_provider :: "u256 \<Rightarrow> tx" where
  "by_provider v = \<lparr>tx_sender = 22, tx_value = v, tx_timestamp = 1000\<rparr>"

definition example_agreement :: EscrowAgreement where
  "example_agreement = \<lparr>ag_publisher = 11, ag_provider = 22, ag_fileID = 5, ag_rulesHash = 0, ag_reward = 100,
     ag_escrowBalance = 0, ag_collateralRequired = 30, ag_collateral = 0, ag_periods = 1, ag_duration = 50, ag_activatedAt = 0,
     ag_deadline = 0, ag_latestSequence = 0, ag_latestCumulativePayment = 0, ag_state = EsCreated, ag_failureReason = FrNone,
     ag_exists = True, ag_hasPaymentState = False\<rparr>"

definition example_voucher :: SolPaymentState where
  "example_voucher = \<lparr>sp_contractID = 7, sp_publisher = 11, sp_provider = 22, sp_sequence = 1, sp_period = 1,
     sp_cumulativePayment = 60, sp_lastChallengeID = 3, sp_validUntil = 2000, sp_status = 1, sp_signature = replicate 65 0\<rparr>"

definition example_funded :: EscrowContract where
  "example_funded = \<lparr>ec_agreements = [7 \<mapsto> example_agreement\<lparr>ag_escrowBalance := 100, ag_state := EsFunded\<rparr>],
     ec_latestPaymentStates = Map.empty, ec_nextContractNonce = 1, ec_balance = 100, ec_paid = (\<lambda>_. 0)\<rparr>"

definition example_active :: EscrowContract where
  "example_active = example_funded\<lparr>ec_agreements := [7 \<mapsto> example_agreement\<lparr>ag_escrowBalance := 100, ag_collateral := 30,
     ag_activatedAt := 1000, ag_deadline := 1050, ag_state := EsActive\<rparr>], ec_balance := 130\<rparr>"

definition example_with_voucher :: EscrowContract where
  "example_with_voucher = accept_voucher 7 example_voucher (the (ec_agreements example_active 7)) example_active"

lemma reach_exec:
  assumes "reach escrow_init (escrow_step E anyone) s" and "exec E t call s = Inr s'" and "tx_sender t \<noteq> 0" and "no_collision E t call s"
  shows "reach escrow_init (escrow_step E anyone) s'"
  by (rule reach_step [where step = "escrow_step E anyone", OF assms(1)]) (rule es_tx [OF assms(2) TrueI assms(3,4)])

lemmas example_defs = example_evm_def by_publisher_def by_provider_def example_agreement_def example_funded_def example_active_def

lemma example_funded_reach: "reach escrow_init (escrow_step example_evm anyone) example_funded"
proof (rule reach_exec)
  let ?c = "CreateContract 22 5 100 1 50 0 30"
  let ?s = "empty_escrow\<lparr>ec_agreements := [7 \<mapsto> example_agreement], ec_nextContractNonce := 1\<rparr>"
  show "exec example_evm (by_publisher 100) (FundEscrow 7) ?s = Inr example_funded"
    by (simp add: exec_def fundEscrow_def agreement_of_def set_agreement_def empty_escrow_def example_defs)
  show "reach escrow_init (escrow_step example_evm anyone) ?s"
  proof (rule reach_exec)
    show "reach escrow_init (escrow_step example_evm anyone) empty_escrow" by (rule reach_init [of escrow_init]) simp
    show "exec example_evm (by_publisher 0) ?c empty_escrow = Inr ?s"
      by (simp add: exec_def createContract_def set_agreement_def empty_escrow_def example_defs)
    show "no_collision example_evm (by_publisher 0) ?c empty_escrow"
      by (simp add: no_collision_def createContract_def empty_escrow_def example_defs)
  qed (simp add: by_publisher_def)
qed (simp_all add: by_publisher_def no_collision_def)

lemma example_active_reach: "reach escrow_init (escrow_step example_evm anyone) example_active"
proof (rule reach_exec)
  let ?s = "example_funded\<lparr>ec_agreements := [7 \<mapsto> example_agreement\<lparr>ag_escrowBalance := 100, ag_collateral := 30, ag_state := EsFunded\<rparr>],
    ec_balance := 130\<rparr>"
  show "reach escrow_init (escrow_step example_evm anyone) ?s"
  proof (rule reach_exec [OF example_funded_reach])
    show "exec example_evm (by_provider 30) (DepositCollateral 7) example_funded = Inr ?s"
      by (simp add: exec_def depositCollateral_def agreement_of_def set_agreement_def example_defs)
  qed (simp_all add: by_provider_def no_collision_def)
  show "exec example_evm (by_provider 0) (ActivateContract 7) ?s = Inr example_active"
    by (simp add: exec_def activateContract_def agreement_of_def set_agreement_def add64_def example_defs)
qed (simp_all add: by_provider_def no_collision_def)

lemma le_nat_zeros [simp]: "le_nat (replicate n 0) = 0"
  by (induction n) simp_all

lemma example_recover: "recoverPaymentSigner example_evm example_voucher = 11"
  by (simp add: recoverPaymentSigner_def example_voucher_def example_evm_def bytes_word_def Let_def nth_append)

lemma example_submit: "exec example_evm (by_provider 0) (SubmitPayment 7 example_voucher) example_active = Inr example_with_voucher"
  using example_recover
  by (simp add: exec_def submitPaymentState_def agreement_of_def check_voucher_def isNextPaymentState_def window_end_def add64_def
      SETTLEMENT_WINDOW_def example_with_voucher_def example_defs) (simp add: example_voucher_def)

lemma example_voucher_reach: "reach escrow_init (escrow_step example_evm anyone) example_with_voucher"
  by (rule reach_exec [OF example_active_reach example_submit]) (simp_all add: by_provider_def no_collision_def)

lemma example_agreements:
  "ec_agreements example_active 7 = Some (example_agreement\<lparr>ag_escrowBalance := 100, ag_collateral := 30, ag_activatedAt := 1000,
     ag_deadline := 1050, ag_state := EsActive\<rparr>)"
  "ec_agreements example_with_voucher 7 = Some (example_agreement\<lparr>ag_escrowBalance := 100, ag_collateral := 30, ag_activatedAt := 1000,
     ag_deadline := 1050, ag_state := EsActive, ag_latestSequence := 1, ag_latestCumulativePayment := 60, ag_hasPaymentState := True\<rparr>)"
  "ec_latestPaymentStates example_with_voucher 7 = Some example_voucher"
  by (simp_all add: example_with_voucher_def accept_voucher_def example_voucher_def example_active_def)

section \<open>Witnesses\<close>

theorem escrow_solvent_witness:
  "\<exists>a. reach escrow_init (escrow_step example_evm anyone) example_with_voucher \<and> ec_agreements example_with_voucher 7 = Some a
     \<and> ag_escrowBalance a = 100 \<and> (\<exists>p. ec_latestPaymentStates example_with_voucher 7 = Some p
         \<and> recoverPaymentSigner example_evm p = 11 \<and> sp_cumulativePayment p = 60)"
  using escrow_solvent [OF example_voucher_reach example_agreements(2)] example_voucher_reach example_agreements(2)
  by (auto simp: example_agreement_def)

theorem settlement_pays_voucher_witness:
  "\<exists>s'. settleContract example_evm 7 example_voucher (by_provider 0) example_with_voucher = Inr s' \<and> ec_paid s' 22 = 60 \<and> ec_paid s' 11 = 40"
proof -
  have "ec_paid example_with_voucher x = 0" for x
    by (simp add: example_with_voucher_def accept_voucher_def example_active_def example_funded_def)
  then show ?thesis
    using settlement_pays_voucher [OF example_voucher_reach example_agreements(2) _ example_agreements(3), of "by_provider 0"]
    by (auto simp: example_agreement_def example_evm_def example_voucher_def)
qed

lemma vouchers_move_forward_witness:
  "(escrow_step example_evm anyone)\<^sup>*\<^sup>* example_active example_with_voucher
   \<and> (\<exists>b. ec_agreements example_with_voucher 7 = Some b \<and> ag_reward b = 100 \<and> 0 \<le> ag_latestSequence b)"
proof -
  have "(escrow_step example_evm anyone)\<^sup>*\<^sup>* example_active example_with_voucher"
    by (rule r_into_rtranclp, rule es_tx [OF example_submit]) (simp_all add: by_provider_def no_collision_def)
  with vouchers_move_forward [OF this example_agreements(1)] show ?thesis by (auto simp: example_agreement_def)
qed

theorem publisher_can_take_everything_witness:
  "let s' = exec_all example_evm [(by_publisher 0, MarkFailure 7 AvailabilityFailure), (by_publisher 0, SlashCollateral 7 30),
       (by_publisher 0, RefundPublisher 7)] example_with_voucher
   in ec_paid s' 11 = 130 \<and> ec_paid s' 22 = 0"
proof -
  have "ec_paid example_with_voucher x = 0" for x
    by (simp add: example_with_voucher_def accept_voucher_def example_active_def example_funded_def)
  then show ?thesis
    using publisher_can_take_everything [OF example_voucher_reach example_agreements(2), of "by_publisher 0"]
    by (simp add: example_agreement_def example_evm_def by_publisher_def Let_def)
qed

lemma funded_reward_locked_by_provider_witness:
  "ag_escrowBalance (the (ec_agreements (example_funded\<lparr>ec_balance := 200\<rparr>) 7)) = 100"
proof -
  have f: "ec_agreements example_funded 7 = Some (example_agreement\<lparr>ag_escrowBalance := 100, ag_state := EsFunded\<rparr>)"
    by (simp add: example_funded_def)
  have "escrow_step example_evm (\<lambda>sender. sender \<noteq> 22) example_funded (example_funded\<lparr>ec_balance := ec_balance example_funded + 100\<rparr>)"
    by (rule es_force)
  then have "(escrow_step example_evm (\<lambda>sender. sender \<noteq> 22))\<^sup>*\<^sup>* example_funded (example_funded\<lparr>ec_balance := 200\<rparr>)"
    by (simp add: example_funded_def r_into_rtranclp)
  then show ?thesis
    using funded_reward_locked_by_provider [OF f, of example_evm "example_funded\<lparr>ec_balance := 200\<rparr>"] by (simp add: example_agreement_def)
qed

end
