(* ===== verification/Coordinator.thy ===== *)
theory Coordinator
  imports Payment
begin

text \<open>
  The publisher coordinator, \<open>availability/escrow-payment/coordinator/publisher.go\<close> and
  \<open>sign_only.go\<close>: bindings, payment-state stores per escrow contract, signing of vouchers and
  the calls to the chain. The signer, the submitter and the settler are interfaces of the source;
  they are functions stored in the record. The type variable is the state of the chain. The clock
  is an argument.
\<close>

record 'ch PublisherCoordinator =
  pc_publisherID :: string
  pc_signer :: "PaymentState \<Rightarrow> payment_error + PaymentState"
  pc_submitter :: "'ch chain_call"
  pc_paymentStateTTL :: duration
  pc_settler :: "'ch chain_call option"
  pc_bindings :: Registry
  pc_stores :: "string \<rightharpoonup> PaymentStateStore"

datatype coordinator_error =
    CoordinatorArguments
  | TTLNotPositive
  | BindingFailed binding_error
  | ErrNotPassResult
  | ErrInvalidTTL
  | ErrNoEscrowBinding
  | ErrNoProviderAddress
  | ErrNoStore string
  | ErrStaleState u64 u64 u64 u64
  | PaymentFailed payment_error
  | ErrNoStoredState string
  | ErrStateExpired u64 int
  | NoSettlerConfigured
  | SubmitOnChain payment_error
  | SettleOnChain string

section \<open>Configuration\<close>

definition NewPublisherCoordinator ::
    "string \<Rightarrow> (PaymentState \<Rightarrow> payment_error + PaymentState) option \<Rightarrow> 'ch chain_call option
     \<Rightarrow> coordinator_error + 'ch PublisherCoordinator" where
  "NewPublisherCoordinator publisherID signer submitter =
     (case (signer, submitter) of
        (Some sg, Some sb) \<Rightarrow>
          if publisherID = [] then Inl CoordinatorArguments
          else Inr \<lparr>pc_publisherID = publisherID, pc_signer = sg, pc_submitter = sb,
                 pc_paymentStateTTL = 24 * 3600 * 10 ^ 9, pc_settler = None,
                 pc_bindings = NewRegistry, pc_stores = Map.empty\<rparr>
      | _ \<Rightarrow> Inl CoordinatorArguments)"

definition SetPaymentStateTTL ::
    "duration \<Rightarrow> ('ch PublisherCoordinator, coordinator_error, unit) stateful" where
  "SetPaymentStateTTL ttl c =
     (if ttl \<le> 0 then (Inl TTLNotPositive, c) else (Inr (), c\<lparr>pc_paymentStateTTL := ttl\<rparr>))"

definition RegisterProvider ::
    "string \<Rightarrow> EthereumAddress \<Rightarrow> ('ch PublisherCoordinator, coordinator_error, unit) stateful" where
  "RegisterProvider providerID address c =
     (case BindProvider providerID address (pc_bindings c) of
        (Inl e, r) \<Rightarrow> (Inl (BindingFailed e), c\<lparr>pc_bindings := r\<rparr>)
      | (Inr _, r) \<Rightarrow> (Inr (), c\<lparr>pc_bindings := r\<rparr>))"

definition RegisterContract ::
    "ContractID \<Rightarrow> EscrowContractID \<Rightarrow> ('ch PublisherCoordinator, coordinator_error, unit) stateful" where
  "RegisterContract contractID escrowContractID c =
     (case BindContract contractID escrowContractID (pc_bindings c) of
        (Inl e, r) \<Rightarrow> (Inl (BindingFailed e), c\<lparr>pc_bindings := r\<rparr>)
      | (Inr _, r) \<Rightarrow>
          let escrowKey = id_String escrowContractID in
          (Inr (), c\<lparr>pc_bindings := r,
             pc_stores := (if pc_stores c escrowKey = None
                           then (pc_stores c)(escrowKey \<mapsto> None) else pc_stores c)\<rparr>))"

definition ProviderAddressFor :: "AvailabilityResult \<Rightarrow> 'ch PublisherCoordinator \<Rightarrow> string option" where
  "ProviderAddressFor result c =
     (case ProviderAddress (ar_ProviderID result) (pc_bindings c) of
        None \<Rightarrow> None
      | Some addr \<Rightarrow> Some (id_String addr))"

definition SetSettler :: "'ch chain_call option \<Rightarrow> 'ch PublisherCoordinator \<Rightarrow> 'ch PublisherCoordinator" where
  "SetSettler s c = c\<lparr>pc_settler := s\<rparr>"

section \<open>Signing\<close>

text \<open>\<open>time.Time.Unix\<close>: whole seconds, rounded down.\<close>

definition unix_seconds :: "gotime \<Rightarrow> int" where
  "unix_seconds t = t div 10 ^ 9"

text \<open>The monotonic check before signing.\<close>

definition stale_check :: "PaymentStateStore \<Rightarrow> u64 \<Rightarrow> u64 \<Rightarrow> coordinator_error option" where
  "stale_check store seqno cumulativePayment =
     (case store of
        Some latest \<Rightarrow>
          if seqno \<le> ps_Sequence latest \<or> cumulativePayment < ps_CumulativePayment latest
          then Some (ErrStaleState seqno cumulativePayment (ps_Sequence latest)
                       (ps_CumulativePayment latest))
          else None
      | None \<Rightarrow> None)"

definition CreateAndSignPaymentState ::
    "gotime \<Rightarrow> AvailabilityResult \<Rightarrow> u64 \<Rightarrow> u64
     \<Rightarrow> ('ch PublisherCoordinator, coordinator_error, PaymentState) stateful" where
  "CreateAndSignPaymentState now result cumulativePayment seqno c =
     (if ar_Result result \<noteq> AvailabilityPass then (Inl ErrNotPassResult, c)
      else if pc_paymentStateTTL c \<le> 0 then (Inl ErrInvalidTTL, c)
      else case EscrowID (ar_ContractID result) (pc_bindings c) of
        None \<Rightarrow> (Inl ErrNoEscrowBinding, c)
      | Some escrowContractID \<Rightarrow>
      (case ProviderAddress (ar_ProviderID result) (pc_bindings c) of
        None \<Rightarrow> (Inl ErrNoProviderAddress, c)
      | Some providerAddress \<Rightarrow>
          let escrowKey = id_String escrowContractID in
          (case pc_stores c escrowKey of
             None \<Rightarrow> (Inl (ErrNoStore escrowKey), c)
           | Some store \<Rightarrow>
               (case stale_check store seqno cumulativePayment of
                    Some e \<Rightarrow> (Inl e, c)
                  | None \<Rightarrow>
                      (case CreatePaymentState (result\<lparr>ar_ProviderID := id_String providerAddress\<rparr>)
                              (pc_publisherID c) cumulativePayment seqno of
                         Inl e \<Rightarrow> (Inl (PaymentFailed e), c)
                       | Inr state \<Rightarrow>
                           (case pc_signer c (state\<lparr>ps_ContractID := escrowKey,
                                   ps_ValidUntil := of_int (unix_seconds (now + pc_paymentStateTTL c))\<rparr>) of
                              Inl e \<Rightarrow> (Inl (PaymentFailed e), c)
                            | Inr signed_state \<Rightarrow>
                                (case StorePaymentState signed_state store of
                                   (Inl e, _) \<Rightarrow> (Inl (PaymentFailed e), c)
                                 | (Inr _, store') \<Rightarrow>
                                     (Inr signed_state, c\<lparr>pc_stores := (pc_stores c)(escrowKey \<mapsto> store')\<rparr>))))))))"

section \<open>Calls to the chain\<close>

definition SubmitLatestPaymentStateOnChain ::
    "gotime \<Rightarrow> string \<Rightarrow> 'ch PublisherCoordinator \<Rightarrow> ('ch, coordinator_error, unit) stateful" where
  "SubmitLatestPaymentStateOnChain now escrowKey c ch =
     (case pc_stores c escrowKey of
        Some (Some latest) \<Rightarrow>
          if ps_ValidUntil latest \<le> of_int (unix_seconds now)
          then (Inl (ErrStateExpired (ps_ValidUntil latest) (unix_seconds now)), ch)
          else (case SubmitPaymentState escrowKey latest (Some (pc_submitter c)) ch of
                  (Inl e, ch') \<Rightarrow> (Inl (PaymentFailed e), ch')
                | (Inr _, ch') \<Rightarrow> (Inr (), ch'))
      | _ \<Rightarrow> (Inl (ErrNoStoredState escrowKey), ch))"

definition SettleContractOnChain ::
    "gotime \<Rightarrow> string \<Rightarrow> 'ch PublisherCoordinator \<Rightarrow> ('ch, coordinator_error, unit) stateful" where
  "SettleContractOnChain now escrowKey c ch =
     (case pc_settler c of
        None \<Rightarrow> (Inl NoSettlerConfigured, ch)
      | Some settle \<Rightarrow>
          (case pc_stores c escrowKey of
             Some (Some latest) \<Rightarrow>
               if ps_ValidUntil latest \<le> of_int (unix_seconds now)
               then (Inl (ErrStateExpired (ps_ValidUntil latest) (unix_seconds now)), ch)
               else (case SubmitPaymentState escrowKey latest (Some (pc_submitter c)) ch of
                       (Inl e, ch') \<Rightarrow> (Inl (SubmitOnChain e), ch')
                     | (Inr _, ch') \<Rightarrow>
                         (case settle escrowKey latest ch' of
                            (Inl e, ch'') \<Rightarrow> (Inl (SettleOnChain e), ch'')
                          | (Inr _, ch'') \<Rightarrow> (Inr (), ch'')))
           | _ \<Rightarrow> (Inl (ErrNoStoredState escrowKey), ch)))"

section \<open>What signing does\<close>

lemma stale_check_None:
  "stale_check store n a = None \<longleftrightarrow>
     (\<forall>latest. store = Some latest \<longrightarrow> ps_Sequence latest < n \<and> ps_CumulativePayment latest \<le> a)"
  by (auto simp: stale_check_def not_le not_less split: option.splits)

lemma CreateAndSign_err: "CreateAndSignPaymentState now r a n c = (Inl e, c') \<Longrightarrow> c' = c"
  by (auto simp: CreateAndSignPaymentState_def Let_def
      split: if_splits option.splits sum.splits prod.splits)

lemma CreateAndSign_ok:
  assumes "CreateAndSignPaymentState now r a n c = (Inr p, c')"
  obtains i addr store st where "ar_Result r = AvailabilityPass"
    and "EscrowID (ar_ContractID r) (pc_bindings c) = Some i"
    and "ProviderAddress (ar_ProviderID r) (pc_bindings c) = Some addr"
    and "pc_stores c (id_String i) = Some store"
    and "\<forall>latest. store = Some latest \<longrightarrow> ps_Sequence latest < n \<and> ps_CumulativePayment latest \<le> a"
    and "st = \<lparr>ps_ContractID = id_String i, ps_Publisher = pc_publisherID c, ps_Provider = id_String addr,
      ps_Sequence = n, ps_Period = ar_Period r, ps_CumulativePayment = a,
      ps_LastChallengeID = ar_ChallengeID r,
      ps_ValidUntil = of_int (unix_seconds (now + pc_paymentStateTTL c)),
      ps_Status = AvailabilityPass, ps_PublisherSignature = []\<rparr>"
    and "pc_signer c st = Inr p" and "StorePaymentState p store = (Inr (), Some p)"
    and "c' = c\<lparr>pc_stores := (pc_stores c)(id_String i \<mapsto> Some p)\<rparr>"
proof -
  from assms obtain i addr store where b: "ar_Result r = AvailabilityPass"
      "EscrowID (ar_ContractID r) (pc_bindings c) = Some i"
      "ProviderAddress (ar_ProviderID r) (pc_bindings c) = Some addr"
      "pc_stores c (id_String i) = Some store" "stale_check store n a = None"
    by (auto simp: CreateAndSignPaymentState_def Let_def split: if_splits option.splits)
  with assms obtain st store' where st: "CreatePaymentState (r\<lparr>ar_ProviderID := id_String addr\<rparr>)
        (pc_publisherID c) a n = Inr st"
      "pc_signer c (st\<lparr>ps_ContractID := id_String i,
         ps_ValidUntil := of_int (unix_seconds (now + pc_paymentStateTTL c))\<rparr>) = Inr p"
      "StorePaymentState p store = (Inr (), store')"
      "c' = c\<lparr>pc_stores := (pc_stores c)(id_String i \<mapsto> store')\<rparr>"
    by (auto simp: CreateAndSignPaymentState_def Let_def split: if_splits sum.splits prod.splits)
  from st(3) have "store' = Some p" by (auto simp: StorePaymentState_def split: if_splits option.splits)
  moreover from st(1) b(1) have "st\<lparr>ps_ContractID := id_String i,
         ps_ValidUntil := of_int (unix_seconds (now + pc_paymentStateTTL c))\<rparr>
      = \<lparr>ps_ContractID = id_String i, ps_Publisher = pc_publisherID c, ps_Provider = id_String addr,
      ps_Sequence = n, ps_Period = ar_Period r, ps_CumulativePayment = a,
      ps_LastChallengeID = ar_ChallengeID r,
      ps_ValidUntil = of_int (unix_seconds (now + pc_paymentStateTTL c)),
      ps_Status = AvailabilityPass, ps_PublisherSignature = []\<rparr>"
    by (auto simp: CreatePaymentState_def split: if_splits)
  ultimately show thesis
    using that [OF b(1-4)] b(5) st by (simp add: stale_check_None)
qed

section \<open>Properties\<close>

text \<open>Only an unexpired latest voucher reaches the chain: if a settlement call succeeds, then the
  submitter and after it the settler were called for this escrow contract with exactly the latest
  stored payment state, which was signed and still valid at the time of the call.\<close>

lemma settlement_uses_latest_unexpired_voucher:
  assumes "SettleContractOnChain now k c ch = (Inr u, ch')"
  shows "\<exists>latest settle ch1. pc_stores c k = Some (Some latest) \<and> pc_settler c = Some settle
    \<and> of_int (unix_seconds now) < ps_ValidUntil latest \<and> ps_ContractID latest = k
    \<and> ps_PublisherSignature latest \<noteq> []
    \<and> pc_submitter c k latest ch = (Inr (), ch1) \<and> settle k latest ch1 = (Inr (), ch')"
  using assms
  by (auto simp: SettleContractOnChain_def SubmitPaymentState_def not_le
      split: option.splits if_splits sum.splits prod.splits)

lemma settlement_uses_latest_unexpired_voucher_witness:
  "let p = \<lparr>ps_ContractID = ''k'', ps_Publisher = ''pub'', ps_Provider = ''prov'', ps_Sequence = 1,
         ps_Period = 1, ps_CumulativePayment = 5, ps_LastChallengeID = ''ch'', ps_ValidUntil = 9,
         ps_Status = AvailabilityPass, ps_PublisherSignature = [1]\<rparr>;
       call = (\<lambda>k p n. (Inr (), n + 1 :: nat));
       c = \<lparr>pc_publisherID = ''pub'', pc_signer = Inr, pc_submitter = call, pc_paymentStateTTL = 1,
         pc_settler = Some call, pc_bindings = NewRegistry, pc_stores = [''k'' \<mapsto> Some p]\<rparr>
   in SettleContractOnChain 0 ''k'' c 0 = (Inr (), 2)
     \<and> (\<exists>latest. pc_stores c ''k'' = Some (Some latest) \<and> ps_PublisherSignature latest \<noteq> [])"
proof -
  let ?p = "\<lparr>ps_ContractID = ''k'', ps_Publisher = ''pub'', ps_Provider = ''prov'', ps_Sequence = 1,
         ps_Period = 1, ps_CumulativePayment = 5, ps_LastChallengeID = ''ch'', ps_ValidUntil = 9,
         ps_Status = AvailabilityPass, ps_PublisherSignature = [1]\<rparr>"
  let ?call = "\<lambda>k p n. (Inr (), n + 1 :: nat)"
  let ?c = "\<lparr>pc_publisherID = ''pub'', pc_signer = Inr, pc_submitter = ?call, pc_paymentStateTTL = 1,
         pc_settler = Some ?call, pc_bindings = NewRegistry, pc_stores = [''k'' \<mapsto> Some ?p]\<rparr>"
  have "SettleContractOnChain 0 ''k'' ?c 0 = (Inr (), 2)"
    by (simp add: SettleContractOnChain_def SubmitPaymentState_def unix_seconds_def)
  with settlement_uses_latest_unexpired_voucher [OF this] show ?thesis by (simp add: Let_def)
qed

end
