(* ===== verification/Dispatcher.thy ===== *)
theory Dispatcher
  imports Coordinator
begin

text \<open>
  The payment dispatcher, \<open>availability/escrow-payment/coordinator/dispatcher.go\<close>: it turns each
  availability result into a signed payment state or a signed failure record, keeps the running
  amount, the sequence number and the streak of failures of every contract, and flags a streak of
  \<open>K\<close> failures as slashable. The clocks of the coordinator and of the dispatcher are arguments.
\<close>

section \<open>State\<close>

record FailRecord =
  fr_EscrowContractID :: string
  fr_ProviderEthAddress :: string
  fr_ChallengeID :: ChallengeID
  fr_Period :: u64
  fr_Sequence :: u64
  fr_IssuedAt :: gotime
  fr_PublisherSignature :: bytes

datatype DispatchKind = DispatchKindPass | DispatchKindFail

text \<open>Of the payment state and the failure record exactly one is filled in; the zero value of the
  other is \<open>None\<close>.\<close>

record DispatchResult =
  dr_Kind :: DispatchKind
  dr_PaymentState :: "PaymentState option"
  dr_FailRecord :: "FailRecord option"
  dr_ConsecutiveFailures :: u32
  dr_SlashEligible :: bool
  dr_SlashEvidence :: "FailRecord list"

record PaymentSchedule =
  sc_PaymentPerPass :: u64
  sc_MaxPayment :: u64
  sc_CurrentCumulativePayment :: u64
  sc_Sequence :: u64
  sc_EscrowContractID :: EscrowContractID
  sc_ProcessedChallenges :: "ChallengeID set"
  sc_ConsecutiveFailures :: u32
  sc_FailStreak :: "FailRecord list"

record 'ch AvailabilityPaymentDispatcher =
  dp_coordinator :: "'ch PublisherCoordinator"
  dp_schedules :: "ContractID \<rightharpoonup> PaymentSchedule"
  dp_signerKey :: bytes
  dp_failureThreshold :: u32

datatype dispatch_error =
    ThresholdZero
  | CoordinatorRequired
  | SignerKeyRequired
  | ValidIDsRequired
  | AmountsPositive
  | PerPassExceedsMax
  | ErrScheduleExists ContractID
  | RegisterInCoordinator coordinator_error
  | EmptyContractID
  | EmptyResultChallengeID
  | ErrUnknownStatus AvailabilityStatus
  | ErrScheduleNotFound ContractID
  | ErrDuplicateChallenge ChallengeID
  | ErrSequenceExhausted
  | SignPaymentStateFailed coordinator_error
  | SignFailRecordFailed coordinator_error
  | OnChainFailed coordinator_error

section \<open>Configuration\<close>

definition DefaultFailureThreshold :: u32 where
  "DefaultFailureThreshold = 3"

definition WithFailureThreshold ::
    "u32 \<Rightarrow> ('ch AvailabilityPaymentDispatcher, dispatch_error, unit) stateful" where
  "WithFailureThreshold k d =
     (if k = 0 then (Inl ThresholdZero, d) else (Inr (), d\<lparr>dp_failureThreshold := k\<rparr>))"

text \<open>The options of the constructor are the thresholds given to \<open>WithFailureThreshold\<close>.\<close>

fun apply_options ::
    "u32 list \<Rightarrow> 'ch AvailabilityPaymentDispatcher \<Rightarrow> dispatch_error + 'ch AvailabilityPaymentDispatcher" where
  "apply_options [] d = Inr d"
| "apply_options (k # ks) d = (case WithFailureThreshold k d of
     (Inl e, _) \<Rightarrow> Inl e
   | (Inr _, d') \<Rightarrow> apply_options ks d')"

definition NewAvailabilityPaymentDispatcher ::
    "'ch PublisherCoordinator option \<Rightarrow> bytes \<Rightarrow> u32 list
     \<Rightarrow> dispatch_error + 'ch AvailabilityPaymentDispatcher" where
  "NewAvailabilityPaymentDispatcher coordinator signerKey opts =
     (case coordinator of
        None \<Rightarrow> Inl CoordinatorRequired
      | Some c \<Rightarrow>
          if length signerKey \<noteq> 64 then Inl SignerKeyRequired
          else apply_options opts \<lparr>dp_coordinator = c, dp_schedules = Map.empty,
                 dp_signerKey = copy_into (length signerKey) signerKey,
                 dp_failureThreshold = DefaultFailureThreshold\<rparr>)"

definition RegisterContractSchedule ::
    "ContractID \<Rightarrow> EscrowContractID \<Rightarrow> u64 \<Rightarrow> u64
     \<Rightarrow> ('ch AvailabilityPaymentDispatcher, dispatch_error, unit) stateful" where
  "RegisterContractSchedule contractID escrowContractID paymentPerPass maxPayment d =
     (if contractID = [] \<or> escrowContractID = replicate 32 0 then (Inl ValidIDsRequired, d)
      else if paymentPerPass = 0 \<or> maxPayment = 0 then (Inl AmountsPositive, d)
      else if maxPayment < paymentPerPass then (Inl PerPassExceedsMax, d)
      else if dp_schedules d contractID \<noteq> None then (Inl (ErrScheduleExists contractID), d)
      else case RegisterContract contractID escrowContractID (dp_coordinator d) of
        (Inl e, c) \<Rightarrow> (Inl (RegisterInCoordinator e), d\<lparr>dp_coordinator := c\<rparr>)
      | (Inr _, c) \<Rightarrow>
          (Inr (), d\<lparr>dp_coordinator := c, dp_schedules := (dp_schedules d)(contractID \<mapsto>
             \<lparr>sc_PaymentPerPass = paymentPerPass, sc_MaxPayment = maxPayment,
              sc_CurrentCumulativePayment = 0, sc_Sequence = 0, sc_EscrowContractID = escrowContractID,
              sc_ProcessedChallenges = {}, sc_ConsecutiveFailures = 0, sc_FailStreak = []\<rparr>)\<rparr>))"

section \<open>Failure records\<close>

definition failRecordDomainTag :: string where
  "failRecordDomainTag = ''CIPHER_FAIL_RECORD_V1''"

definition buildFailRecordPayload :: "FailRecord \<Rightarrow> bytes" where
  "buildFailRecordPayload rec = put_string_be failRecordDomainTag
     @ put_string_be (fr_EscrowContractID rec) @ put_string_be (fr_ProviderEthAddress rec)
     @ put_string_be (fr_ChallengeID rec) @ put_u64_be (fr_Period rec) @ put_u64_be (fr_Sequence rec)
     @ put_u64_be (of_int (fr_IssuedAt rec))"

definition buildAndSignFailRecord ::
    "(bytes \<Rightarrow> bytes \<Rightarrow> bytes) \<Rightarrow> gotime \<Rightarrow> AvailabilityResult \<Rightarrow> EscrowContractID \<Rightarrow> u64
     \<Rightarrow> 'ch AvailabilityPaymentDispatcher \<Rightarrow> coordinator_error + FailRecord" where
  "buildAndSignFailRecord ed_sign now result escrowContractID seqno d =
     (case ProviderAddressFor result (dp_coordinator d) of
        None \<Rightarrow> Inl ErrNoProviderAddress
      | Some providerAddress \<Rightarrow>
          let rec = \<lparr>fr_EscrowContractID = id_String escrowContractID,
                fr_ProviderEthAddress = providerAddress, fr_ChallengeID = ar_ChallengeID result,
                fr_Period = ar_Period result, fr_Sequence = seqno, fr_IssuedAt = now,
                fr_PublisherSignature = []\<rparr>
          in Inr (rec\<lparr>fr_PublisherSignature :=
                ed_sign (dp_signerKey d) (sha256 (buildFailRecordPayload rec))\<rparr>))"

definition VerifyFailRecord :: "(bytes \<Rightarrow> bytes \<Rightarrow> bytes \<Rightarrow> bool) \<Rightarrow> FailRecord \<Rightarrow> bytes \<Rightarrow> bool" where
  "VerifyFailRecord ed_verify rec publisherPubKey =
     (if length publisherPubKey \<noteq> 32 then False
      else if length (fr_PublisherSignature rec) \<noteq> 64 then False
      else ed_verify publisherPubKey (sha256 (buildFailRecordPayload rec)) (fr_PublisherSignature rec))"

text \<open>The comparison of a record with its predecessor.\<close>

definition follows_record :: "FailRecord \<Rightarrow> FailRecord \<Rightarrow> bool" where
  "follows_record prev rec \<longleftrightarrow> fr_EscrowContractID rec = fr_EscrowContractID prev
     \<and> fr_ProviderEthAddress rec = fr_ProviderEthAddress prev
     \<and> fr_Sequence prev \<noteq> - 1 \<and> fr_Sequence rec = fr_Sequence prev + 1"

fun streak_loop :: "(bytes \<Rightarrow> bytes \<Rightarrow> bytes \<Rightarrow> bool) \<Rightarrow> bytes \<Rightarrow> FailRecord option \<Rightarrow> FailRecord list \<Rightarrow> bool" where
  "streak_loop ed_verify pk prev [] = True"
| "streak_loop ed_verify pk prev (rec # recs) =
     (if \<not> VerifyFailRecord ed_verify rec pk then False
      else case prev of
        None \<Rightarrow> streak_loop ed_verify pk (Some rec) recs
      | Some p \<Rightarrow> if follows_record p rec then streak_loop ed_verify pk (Some rec) recs else False)"

definition VerifyFailStreak :: "(bytes \<Rightarrow> bytes \<Rightarrow> bytes \<Rightarrow> bool) \<Rightarrow> FailRecord list \<Rightarrow> bytes \<Rightarrow> bool" where
  "VerifyFailStreak ed_verify records publisherPubKey =
     (if records = [] then False else streak_loop ed_verify publisherPubKey None records)"

section \<open>Dispatch\<close>

definition validateResult :: "AvailabilityResult \<Rightarrow> dispatch_error option" where
  "validateResult result =
     (if ar_ContractID result = [] then Some EmptyContractID
      else if ar_ChallengeID result = [] then Some EmptyResultChallengeID
      else case ar_Result result of
        AvailabilityPass \<Rightarrow> None
      | AvailabilityFail \<Rightarrow> None
      | AvailabilityOther s \<Rightarrow> Some (ErrUnknownStatus (AvailabilityOther s)))"

text \<open>The capped addition.\<close>

definition next_cumulative :: "PaymentSchedule \<Rightarrow> u64" where
  "next_cumulative sc =
     (let remaining = sc_MaxPayment sc - sc_CurrentCumulativePayment sc
      in if remaining \<le> sc_PaymentPerPass sc then sc_MaxPayment sc
         else sc_CurrentCumulativePayment sc + sc_PaymentPerPass sc)"

text \<open>The streak with a new record, cut to the last \<open>k\<close>.\<close>

definition next_streak :: "u32 \<Rightarrow> PaymentSchedule \<Rightarrow> FailRecord \<Rightarrow> FailRecord list" where
  "next_streak k sc rec =
     (let newStreak = sc_FailStreak sc @ [rec]
      in if unat k < length newStreak then drop (length newStreak - unat k) newStreak else newStreak)"

definition next_count :: "PaymentSchedule \<Rightarrow> u32" where
  "next_count sc = (if sc_ConsecutiveFailures sc < - 1 then sc_ConsecutiveFailures sc + 1
     else sc_ConsecutiveFailures sc)"

definition DispatchAvailabilityResult ::
    "(bytes \<Rightarrow> bytes \<Rightarrow> bytes) \<Rightarrow> gotime \<Rightarrow> gotime \<Rightarrow> AvailabilityResult
     \<Rightarrow> ('ch AvailabilityPaymentDispatcher, dispatch_error, DispatchResult) stateful" where
  "DispatchAvailabilityResult ed_sign now_c now_d result d =
     (case validateResult result of
        Some e \<Rightarrow> (Inl e, d)
      | None \<Rightarrow>
      (case dp_schedules d (ar_ContractID result) of
        None \<Rightarrow> (Inl (ErrScheduleNotFound (ar_ContractID result)), d)
      | Some sc \<Rightarrow>
          if ar_ChallengeID result \<in> sc_ProcessedChallenges sc
          then (Inl (ErrDuplicateChallenge (ar_ChallengeID result)), d)
          else if sc_Sequence sc = - 1 then (Inl ErrSequenceExhausted, d)
          else
            let nextSequence = sc_Sequence sc + 1;
                done = insert (ar_ChallengeID result) (sc_ProcessedChallenges sc)
            in case ar_Result result of
              AvailabilityPass \<Rightarrow>
                (case CreateAndSignPaymentState now_c result (next_cumulative sc) nextSequence
                        (dp_coordinator d) of
                   (Inl e, c) \<Rightarrow> (Inl (SignPaymentStateFailed e), d\<lparr>dp_coordinator := c\<rparr>)
                 | (Inr signed_state, c) \<Rightarrow>
                     (Inr \<lparr>dr_Kind = DispatchKindPass, dr_PaymentState = Some signed_state,
                           dr_FailRecord = None, dr_ConsecutiveFailures = 0,
                           dr_SlashEligible = False, dr_SlashEvidence = []\<rparr>,
                      d\<lparr>dp_coordinator := c, dp_schedules := (dp_schedules d)(ar_ContractID result \<mapsto>
                          sc\<lparr>sc_Sequence := nextSequence,
                             sc_CurrentCumulativePayment := next_cumulative sc,
                             sc_ProcessedChallenges := done,
                             sc_ConsecutiveFailures := 0, sc_FailStreak := []\<rparr>)\<rparr>))
            | AvailabilityFail \<Rightarrow>
                (case buildAndSignFailRecord ed_sign now_d result (sc_EscrowContractID sc) nextSequence d of
                   Inl e \<Rightarrow> (Inl (SignFailRecordFailed e), d)
                 | Inr rec \<Rightarrow>
                     let newCount = next_count sc;
                         newStreak = next_streak (dp_failureThreshold d) sc rec;
                         slash = dp_failureThreshold d \<le> newCount
                     in (Inr \<lparr>dr_Kind = DispatchKindFail, dr_PaymentState = None,
                              dr_FailRecord = Some rec, dr_ConsecutiveFailures = newCount,
                              dr_SlashEligible = slash,
                              dr_SlashEvidence = (if slash then newStreak else [])\<rparr>,
                         d\<lparr>dp_schedules := (dp_schedules d)(ar_ContractID result \<mapsto>
                             sc\<lparr>sc_Sequence := nextSequence, sc_ProcessedChallenges := done,
                                sc_ConsecutiveFailures := newCount, sc_FailStreak := newStreak\<rparr>)\<rparr>))
            | AvailabilityOther s \<Rightarrow> (Inl (ErrUnknownStatus (AvailabilityOther s)), d)))"

definition GetContractPaymentSchedule ::
    "ContractID \<Rightarrow> 'ch AvailabilityPaymentDispatcher \<Rightarrow> PaymentSchedule option" where
  "GetContractPaymentSchedule contractID d = dp_schedules d contractID"

definition SubmitSettlementOnChain ::
    "gotime \<Rightarrow> ContractID \<Rightarrow> 'ch AvailabilityPaymentDispatcher \<Rightarrow> ('ch, dispatch_error, unit) stateful" where
  "SubmitSettlementOnChain now contractID d ch =
     (case dp_schedules d contractID of
        None \<Rightarrow> (Inl (ErrScheduleNotFound contractID), ch)
      | Some sc \<Rightarrow>
          let escrowKey = id_String (sc_EscrowContractID sc);
              (r, ch') = (case SettleContractOnChain now escrowKey (dp_coordinator d) ch of
                 (Inl NoSettlerConfigured, ch1) \<Rightarrow>
                   SubmitLatestPaymentStateOnChain now escrowKey (dp_coordinator d) ch1
               | other \<Rightarrow> other)
          in (case r of Inl e \<Rightarrow> Inl (OnChainFailed e) | Inr _ \<Rightarrow> Inr (), ch'))"

end
