(* ===== verification/DispatchRuns.thy ===== *)
theory DispatchRuns
  imports Dispatcher
begin

text \<open>
  Sequences of dispatches: the state of a payment schedule as a function of the results accepted
  for its contract, the slashing rule, and the properties of the dispatcher.
\<close>

section \<open>Histories\<close>

text \<open>The accepted results of one contract, oldest first. The failures since the last pass, most
  recent first, and the number of passes.\<close>

definition trailing_fails :: "DispatchResult list \<Rightarrow> DispatchResult list" where
  "trailing_fails h = takeWhile (\<lambda>x. dr_Kind x = DispatchKindFail) (rev h)"

definition passes :: "DispatchResult list \<Rightarrow> nat" where
  "passes h = length (filter (\<lambda>x. dr_Kind x = DispatchKindPass) h)"

lemma trailing_fails_snoc [simp]:
  "trailing_fails (h @ [x]) = (if dr_Kind x = DispatchKindFail then x # trailing_fails h else [])"
  by (simp add: trailing_fails_def)

lemma trailing_fails_Nil [simp]: "trailing_fails [] = []"
  by (simp add: trailing_fails_def)

lemma passes_simps [simp]:
  "passes [] = 0" "passes (h @ [x]) = passes h + (if dr_Kind x = DispatchKindPass then 1 else 0)"
  by (simp_all add: passes_def)

text \<open>The schedule that a history leads to, for the threshold \<open>k\<close>.\<close>

definition sched_inv :: "u32 \<Rightarrow> PaymentSchedule \<Rightarrow> DispatchResult list \<Rightarrow> bool" where
  "sched_inv k sc h \<longleftrightarrow>
     unat (sc_Sequence sc) = length h
     \<and> 0 < sc_PaymentPerPass sc \<and> sc_PaymentPerPass sc \<le> sc_MaxPayment sc
     \<and> unat (sc_CurrentCumulativePayment sc)
         = min (unat (sc_MaxPayment sc)) (unat (sc_PaymentPerPass sc) * passes h)
     \<and> unat (sc_ConsecutiveFailures sc) = min (2 ^ 32 - 1) (length (trailing_fails h))
     \<and> map Some (sc_FailStreak sc) = map dr_FailRecord (rev (take (unat k) (trailing_fails h)))"

lemma sched_inv_new:
  "0 < pp \<Longrightarrow> pp \<le> mx \<Longrightarrow> sched_inv k \<lparr>sc_PaymentPerPass = pp, sc_MaxPayment = mx,
     sc_CurrentCumulativePayment = 0, sc_Sequence = 0, sc_EscrowContractID = e,
     sc_ProcessedChallenges = {}, sc_ConsecutiveFailures = 0, sc_FailStreak = []\<rparr> []"
  by (simp add: sched_inv_def)

lemma capped_addition:
  assumes "unat cur = min (unat mx) (unat pp * n)" and "(0 :: u64) < pp" and "pp \<le> mx"
  shows "unat (if mx - cur \<le> pp then mx else cur + pp) = min (unat mx) (unat pp * (n + 1))"
proof -
  have le: "cur \<le> mx" using assms(1) by (simp add: word_le_nat_alt)
  then have sub: "unat (mx - cur) = unat mx - unat cur" by (rule unat_sub)
  have "unat (cur + pp) = unat cur + unat pp" if "unat cur + unat pp \<le> unat mx"
  proof -
    have "unat cur + unat pp < 2 ^ 64" using that unsigned_less [of mx, where ?'a = nat] by simp
    then show ?thesis by (simp add: unat_word_ariths)
  qed
  then show ?thesis
    using assms(1,3) sub by (auto simp: word_le_nat_alt min_def split: if_splits)
qed

lemma next_cumulative_inv:
  assumes "sched_inv k sc h"
  shows "unat (next_cumulative sc) = min (unat (sc_MaxPayment sc)) (unat (sc_PaymentPerPass sc) * (passes h + 1))"
  using assms capped_addition by (simp add: next_cumulative_def sched_inv_def Let_def)

lemma next_count_unat:
  "unat (next_count sc) = min (2 ^ 32 - 1) (unat (sc_ConsecutiveFailures sc) + 1)"
proof (cases "sc_ConsecutiveFailures sc = - 1")
  case True
  have "unat (- 1 :: u32) = 2 ^ 32 - 1" by (simp add: unsigned_minus_1_eq_mask mask_eq_exp_minus_1)
  with True show ?thesis by (simp add: next_count_def)
next
  case False
  then have "unat (sc_ConsecutiveFailures sc + 1) = unat (sc_ConsecutiveFailures sc) + 1"
    by (rule unat_succ)
  moreover have "sc_ConsecutiveFailures sc < - 1"
    using False by (simp add: order.not_eq_order_implies_strict)
  moreover have "unat (sc_ConsecutiveFailures sc + 1) < 2 ^ 32"
    using unsigned_less [of "sc_ConsecutiveFailures sc + 1", where ?'a = nat] by simp
  ultimately show ?thesis by (simp add: next_count_def min_def)
qed

lemma next_streak_rev:
  "next_streak k sc r = rev (take (unat k) (r # rev (sc_FailStreak sc)))"
proof -
  let ?xs = "r # rev (sc_FailStreak sc)"
  have "sc_FailStreak sc @ [r] = rev ?xs" by simp
  then show ?thesis
    unfolding next_streak_def Let_def by (simp only: length_rev drop_rev) (auto simp: Suc_diff_le)
qed

lemma take_Cons_take: "take n (x # take n xs) = take n (x # xs)"
  by (cases n) (simp_all add: min_def)

lemma map_next_streak:
  assumes "sched_inv k sc h" and "dr_FailRecord out = Some r"
  shows "map Some (next_streak k sc r) = map dr_FailRecord (rev (take (unat k) (out # trailing_fails h)))"
proof -
  have "map Some (rev (sc_FailStreak sc)) = map dr_FailRecord (take (unat k) (trailing_fails h))"
    using assms(1) by (simp add: sched_inv_def rev_map [symmetric])
  then have "map Some (take (unat k) (r # rev (sc_FailStreak sc)))
      = map dr_FailRecord (take (unat k) (out # take (unat k) (trailing_fails h)))"
    using assms(2) by (simp add: take_map [symmetric])
  then show ?thesis by (simp add: next_streak_rev rev_map [symmetric] take_Cons_take)
qed

section \<open>One dispatch\<close>

lemma Dispatch_err:
  assumes "DispatchAvailabilityResult ed_sign nc nd r d = (Inl e, d')"
  shows "d' = d"
  using assms CreateAndSign_err
  by (fastforce simp: DispatchAvailabilityResult_def Let_def
      split: option.splits if_splits AvailabilityStatus.splits prod.splits sum.splits)

text \<open>The schedule after an accepted result.\<close>

definition after_pass :: "AvailabilityResult \<Rightarrow> PaymentSchedule \<Rightarrow> PaymentSchedule" where
  "after_pass r sc = sc\<lparr>sc_Sequence := sc_Sequence sc + 1, sc_CurrentCumulativePayment := next_cumulative sc,
     sc_ProcessedChallenges := insert (ar_ChallengeID r) (sc_ProcessedChallenges sc),
     sc_ConsecutiveFailures := 0, sc_FailStreak := []\<rparr>"

definition after_fail :: "u32 \<Rightarrow> AvailabilityResult \<Rightarrow> FailRecord \<Rightarrow> PaymentSchedule \<Rightarrow> PaymentSchedule" where
  "after_fail k r f sc = sc\<lparr>sc_Sequence := sc_Sequence sc + 1,
     sc_ProcessedChallenges := insert (ar_ChallengeID r) (sc_ProcessedChallenges sc),
     sc_ConsecutiveFailures := next_count sc, sc_FailStreak := next_streak k sc f\<rparr>"

lemma Dispatch_ok:
  assumes "DispatchAvailabilityResult ed_sign nc nd r d = (Inr out, d')"
  obtains (pass) sc p c where "dp_schedules d (ar_ContractID r) = Some sc"
      and "ar_ChallengeID r \<notin> sc_ProcessedChallenges sc" and "sc_Sequence sc \<noteq> - 1"
      and "CreateAndSignPaymentState nc r (next_cumulative sc) (sc_Sequence sc + 1) (dp_coordinator d)
        = (Inr p, c)"
      and "out = \<lparr>dr_Kind = DispatchKindPass, dr_PaymentState = Some p, dr_FailRecord = None,
        dr_ConsecutiveFailures = 0, dr_SlashEligible = False, dr_SlashEvidence = []\<rparr>"
      and "d' = d\<lparr>dp_coordinator := c, dp_schedules := (dp_schedules d)(ar_ContractID r \<mapsto> after_pass r sc)\<rparr>"
  | (fail) sc f where "dp_schedules d (ar_ContractID r) = Some sc"
      and "ar_ChallengeID r \<notin> sc_ProcessedChallenges sc" and "sc_Sequence sc \<noteq> - 1"
      and "buildAndSignFailRecord ed_sign nd r (sc_EscrowContractID sc) (sc_Sequence sc + 1) d = Inr f"
      and "out = \<lparr>dr_Kind = DispatchKindFail, dr_PaymentState = None, dr_FailRecord = Some f,
        dr_ConsecutiveFailures = next_count sc,
        dr_SlashEligible = (dp_failureThreshold d \<le> next_count sc),
        dr_SlashEvidence = (if dp_failureThreshold d \<le> next_count sc
          then next_streak (dp_failureThreshold d) sc f else [])\<rparr>"
      and "d' = d\<lparr>dp_schedules := (dp_schedules d)(ar_ContractID r \<mapsto> after_fail (dp_failureThreshold d) r f sc)\<rparr>"
proof -
  obtain sc where sc: "dp_schedules d (ar_ContractID r) = Some sc"
      "ar_ChallengeID r \<notin> sc_ProcessedChallenges sc" "sc_Sequence sc \<noteq> - 1" "validateResult r = None"
    using assms by (auto simp: DispatchAvailabilityResult_def split: option.splits if_splits)
  show thesis
  proof (cases "ar_Result r")
    case AvailabilityPass
    with assms sc show thesis
      by (auto simp: DispatchAvailabilityResult_def after_pass_def Let_def
          split: prod.splits sum.splits intro!: pass [OF sc(1-3)])
  next
    case AvailabilityFail
    with assms sc show thesis
      by (auto simp: DispatchAvailabilityResult_def after_fail_def Let_def
          split: sum.splits intro!: fail [OF sc(1-3)])
  next
    case (AvailabilityOther x)
    with assms sc show thesis by (simp add: DispatchAvailabilityResult_def)
  qed
qed

section \<open>The schedule as a function of the history\<close>

text \<open>The failure records of a history: numbered by their position, for this escrow contract, and
  signed with this key.\<close>

definition hist_wf :: "(bytes \<Rightarrow> bytes \<Rightarrow> bytes) \<Rightarrow> EscrowContractID \<Rightarrow> bytes \<Rightarrow> DispatchResult list \<Rightarrow> bool" where
  "hist_wf ed_sign e key h \<longleftrightarrow> (\<forall>n < length h. case dr_Kind (h ! n) of
     DispatchKindPass \<Rightarrow> True
   | DispatchKindFail \<Rightarrow> (\<exists>f. dr_FailRecord (h ! n) = Some f \<and> unat (fr_Sequence f) = Suc n
       \<and> fr_EscrowContractID f = id_String e
       \<and> fr_PublisherSignature f = ed_sign key (sha256 (buildFailRecordPayload f))))"

lemma hist_wf_snoc:
  assumes "hist_wf ed_sign e key h"
    and "dr_Kind x = DispatchKindFail \<Longrightarrow> \<exists>f. dr_FailRecord x = Some f \<and> unat (fr_Sequence f) = Suc (length h)
       \<and> fr_EscrowContractID f = id_String e
       \<and> fr_PublisherSignature f = ed_sign key (sha256 (buildFailRecordPayload f))"
  shows "hist_wf ed_sign e key (h @ [x])"
  using assms unfolding hist_wf_def
  by (auto simp: nth_append less_Suc_eq split: DispatchKind.splits)

definition contract_hist ::
    "(bytes \<Rightarrow> bytes \<Rightarrow> bytes) \<Rightarrow> ContractID \<Rightarrow> EscrowContractID \<Rightarrow> u64 \<Rightarrow> u64 \<Rightarrow> u32 \<Rightarrow> bytes
     \<Rightarrow> 'ch AvailabilityPaymentDispatcher \<Rightarrow> DispatchResult list \<Rightarrow> bool" where
  "contract_hist ed_sign i e pp mx k key d h \<longleftrightarrow>
     dp_failureThreshold d = k \<and> dp_signerKey d = key \<and> hist_wf ed_sign e key h
     \<and> (\<exists>sc. dp_schedules d i = Some sc \<and> sc_EscrowContractID sc = e \<and> sc_PaymentPerPass sc = pp
          \<and> sc_MaxPayment sc = mx \<and> sched_inv k sc h)"

lemma buildAndSignFailRecord_ok:
  assumes "buildAndSignFailRecord ed_sign now r e n d = Inr f"
  shows "fr_Sequence f = n \<and> fr_EscrowContractID f = id_String e \<and> fr_ChallengeID f = ar_ChallengeID r
    \<and> fr_PublisherSignature f = ed_sign (dp_signerKey d) (sha256 (buildFailRecordPayload f))"
  using assms
  by (auto simp: buildAndSignFailRecord_def buildFailRecordPayload_def Let_def split: option.splits)

lemma contract_hist_dispatch:
  assumes "contract_hist ed_sign i e pp mx k key d h"
    and "DispatchAvailabilityResult ed_sign nc nd r d = (Inr out, d')" and "ar_ContractID r = i"
  shows "contract_hist ed_sign i e pp mx k key d' (h @ [out])"
proof -
  obtain sc0 where sc0: "dp_schedules d i = Some sc0" "sc_EscrowContractID sc0 = e"
      "sc_PaymentPerPass sc0 = pp" "sc_MaxPayment sc0 = mx" "sched_inv k sc0 h"
      and d: "dp_failureThreshold d = k" "dp_signerKey d = key" "hist_wf ed_sign e key h"
    using assms(1) by (auto simp: contract_hist_def)
  from assms(2) show ?thesis
  proof (cases rule: Dispatch_ok)
    case (pass sc p c)
    then have sc: "sc = sc0" using sc0(1) assms(3) by simp
    have "sched_inv k (after_pass r sc) (h @ [out])"
      using sc0(5) pass(3) next_cumulative_inv [OF sc0(5)] sc
      by (simp add: sched_inv_def after_pass_def pass(5) unat_succ)
    moreover have "hist_wf ed_sign e key (h @ [out])"
      using d(3) by (intro hist_wf_snoc) (simp_all add: pass(5))
    ultimately show ?thesis
      using pass sc0 sc d assms(3) by (auto simp: contract_hist_def after_pass_def)
  next
    case (fail sc f)
    then have sc: "sc = sc0" using sc0(1) assms(3) by simp
    note f = buildAndSignFailRecord_ok [OF fail(4)]
    have out: "dr_Kind out = DispatchKindFail" "dr_FailRecord out = Some f" by (simp_all add: fail(5))
    have "sched_inv k (after_fail k r f sc) (h @ [out])"
      using sc0(5) fail(3) sc map_next_streak [OF sc0(5) out(2)] next_count_unat [of sc0] out
      by (auto simp: sched_inv_def after_fail_def unat_succ)
    moreover have "hist_wf ed_sign e key (h @ [out])"
      using d(3) f out(2) fail(3) sc sc0(2,5) d(2)
      by (intro hist_wf_snoc) (auto simp: unat_succ sched_inv_def)
    ultimately show ?thesis
      using fail sc0 sc d assms(3) by (auto simp: contract_hist_def after_fail_def)
  qed
qed

lemma contract_hist_other:
  assumes "contract_hist ed_sign i e pp mx k key d h"
    and "DispatchAvailabilityResult ed_sign nc nd r d = (res, d')" and "ar_ContractID r \<noteq> i \<or> \<not> is_ok res"
  shows "contract_hist ed_sign i e pp mx k key d' h"
proof (cases res)
  case (Inl err)
  with assms show ?thesis using Dispatch_err by blast
next
  case (Inr out)
  with assms(2) have "DispatchAvailabilityResult ed_sign nc nd r d = (Inr out, d')" by simp
  then show ?thesis using assms(1,3) Inr
    by (cases rule: Dispatch_ok) (auto simp: contract_hist_def)
qed

section \<open>Runs\<close>

text \<open>A run of dispatches with their clock readings: the outcome of every call and the final
  dispatcher.\<close>

fun dispatch_all ::
    "(bytes \<Rightarrow> bytes \<Rightarrow> bytes) \<Rightarrow> (gotime \<times> gotime \<times> AvailabilityResult) list \<Rightarrow> 'ch AvailabilityPaymentDispatcher
     \<Rightarrow> (ContractID \<times> (dispatch_error + DispatchResult)) list \<times> 'ch AvailabilityPaymentDispatcher" where
  "dispatch_all ed_sign [] d = ([], d)"
| "dispatch_all ed_sign ((nc, nd, r) # calls) d =
     (case DispatchAvailabilityResult ed_sign nc nd r d of (res, d') \<Rightarrow>
        (case dispatch_all ed_sign calls d' of (outs, d'') \<Rightarrow> ((ar_ContractID r, res) # outs, d'')))"

fun accepted :: "ContractID \<Rightarrow> (ContractID \<times> (dispatch_error + DispatchResult)) list \<Rightarrow> DispatchResult list" where
  "accepted i [] = []"
| "accepted i ((j, Inr out) # outs) = (if j = i then out # accepted i outs else accepted i outs)"
| "accepted i ((j, Inl err) # outs) = accepted i outs"

lemma contract_hist_run:
  assumes "contract_hist ed_sign i e pp mx k key d h" and "dispatch_all ed_sign calls d = (outs, d')"
  shows "contract_hist ed_sign i e pp mx k key d' (h @ accepted i outs)"
  using assms
proof (induction calls arbitrary: d h outs)
  case (Cons call calls)
  obtain nc nd r where call: "call = (nc, nd, r)" by (cases call) auto
  obtain res d1 where r: "DispatchAvailabilityResult ed_sign nc nd r d = (res, d1)" by fastforce
  with Cons.prems(2) call obtain outs1 where o: "dispatch_all ed_sign calls d1 = (outs1, d')"
    "outs = (ar_ContractID r, res) # outs1" by (auto split: prod.splits)
  show ?case
  proof (cases "ar_ContractID r = i \<and> is_ok res")
    case True
    then obtain out where out: "res = Inr out" by (cases res) auto
    with True r Cons.prems(1) have "contract_hist ed_sign i e pp mx k key d1 (h @ [out])"
      by (intro contract_hist_dispatch) auto
    from Cons.IH [OF this o(1)] o(2) out True show ?thesis by simp
  next
    case False
    then have "contract_hist ed_sign i e pp mx k key d1 h"
      using contract_hist_other [OF Cons.prems(1) r] by blast
    from Cons.IH [OF this o(1)] o(2) False show ?thesis by (cases res) auto
  qed
qed simp

lemma contract_hist_register:
  assumes "RegisterContractSchedule i e pp mx d = (Inr u, d0)"
  shows "contract_hist ed_sign i e pp mx (dp_failureThreshold d) (dp_signerKey d) d0 []"
  using assms sched_inv_new [of pp mx "dp_failureThreshold d" e]
  by (auto simp: RegisterContractSchedule_def contract_hist_def hist_wf_def word_greater_zero_iff not_less
      split: if_splits prod.splits sum.splits)

section \<open>Evidence\<close>

lemma streak_loop_iff:
  "streak_loop ed_verify pk (Some p) recs \<longleftrightarrow>
     list_all (\<lambda>r. VerifyFailRecord ed_verify r pk) recs \<and> successively follows_record (p # recs)"
  by (induction recs arbitrary: p) auto

lemma VerifyFailStreak_iff:
  "VerifyFailStreak ed_verify recs pk \<longleftrightarrow> recs \<noteq> []
     \<and> list_all (\<lambda>r. VerifyFailRecord ed_verify r pk) recs \<and> successively follows_record recs"
  by (cases recs) (auto simp: VerifyFailStreak_def streak_loop_iff)

text \<open>The last \<open>n\<close> results of a history that ends with at least \<open>n\<close> failures.\<close>

lemma take_trailing_fails:
  assumes "n \<le> length (trailing_fails h)"
  shows "rev (take n (trailing_fails h)) = drop (length h - n) h"
    and "\<forall>x \<in> set (drop (length h - n) h). dr_Kind x = DispatchKindFail"
proof -
  have "take n (trailing_fails h) = take n (rev h)"
    using assms unfolding trailing_fails_def by (metis takeWhile_eq_take min.absorb1 take_take)
  moreover have "n \<le> length h"
    using assms length_takeWhile_le [of _ "rev h"] unfolding trailing_fails_def by (metis length_rev order_trans)
  ultimately show "rev (take n (trailing_fails h)) = drop (length h - n) h" by (simp add: rev_take)
  then show "\<forall>x \<in> set (drop (length h - n) h). dr_Kind x = DispatchKindFail"
    unfolding trailing_fails_def by (metis in_set_takeD set_rev set_takeWhileD)
qed

lemma trailing_fails_length_iff:
  "n \<le> length (trailing_fails h) \<longleftrightarrow>
     n \<le> length h \<and> (\<forall>x \<in> set (drop (length h - n) h). dr_Kind x = DispatchKindFail)"
proof
  assume n: "n \<le> length (trailing_fails h)"
  moreover have "length (trailing_fails h) \<le> length h"
    using length_takeWhile_le [of _ "rev h"] by (simp add: trailing_fails_def)
  ultimately show "n \<le> length h \<and> (\<forall>x \<in> set (drop (length h - n) h). dr_Kind x = DispatchKindFail)"
    using take_trailing_fails(2) by simp
next
  assume n: "n \<le> length h \<and> (\<forall>x \<in> set (drop (length h - n) h). dr_Kind x = DispatchKindFail)"
  then have "set (take n (rev h)) = set (drop (length h - n) h)" by (simp add: take_rev)
  with n have "\<forall>x \<in> set (take n (rev h)). dr_Kind x = DispatchKindFail" by simp
  then have "trailing_fails h = take n (rev h) @ takeWhile (\<lambda>x. dr_Kind x = DispatchKindFail) (drop n (rev h))"
    unfolding trailing_fails_def
    using takeWhile_append2 [of "take n (rev h)" _ "drop n (rev h)"] by (simp only: append_take_drop_id)
  then show "n \<le> length (trailing_fails h)" using n by simp
qed

lemma evidence_sequence:
  assumes "hist_wf ed_sign e key h" and "map Some ev = map dr_FailRecord (drop (length h - n) h)"
    and "\<forall>x \<in> set (drop (length h - n) h). dr_Kind x = DispatchKindFail" and "n \<le> length h" and "j < n"
  shows "j < length ev \<and> unat (fr_Sequence (ev ! j)) = Suc (length h - n + j)
    \<and> fr_EscrowContractID (ev ! j) = id_String e
    \<and> fr_PublisherSignature (ev ! j) = ed_sign key (sha256 (buildFailRecordPayload (ev ! j)))"
proof -
  let ?m = "length h - n + j"
  have len: "length ev = n" using assms(4) map_eq_imp_length_eq [OF assms(2)] by simp
  have m: "?m < length h" using assms(4,5) by linarith
  have "Some (ev ! j) = dr_FailRecord (h ! ?m)"
    using arg_cong [OF assms(2), of "\<lambda>xs. xs ! j"] len assms(4,5) by simp
  moreover have "h ! ?m \<in> set (drop (length h - n) h)"
    using assms(4,5) by (metis add_diff_cancel_left' diff_diff_cancel diff_le_self length_drop nth_drop nth_mem)
  then have "dr_Kind (h ! ?m) = DispatchKindFail" using assms(3) by blast
  ultimately show ?thesis using assms(1) m len assms(5) unfolding hist_wf_def by fastforce
qed

lemma evidence_verifies:
  assumes ed: "ed25519_correct valid ed_sign ed_verify" "valid key"
    and h: "hist_wf ed_sign e key h" and ev: "map Some ev = map dr_FailRecord (drop (length h - n) h)"
    and fails: "\<forall>x \<in> set (drop (length h - n) h). dr_Kind x = DispatchKindFail" and n: "0 < n" "n \<le> length h"
    and same: "\<forall>f \<in> set ev. fr_ProviderEthAddress f = addr"
  shows "VerifyFailStreak ed_verify ev (ed_public key)"
proof -
  note seqs = evidence_sequence [OF h ev fails n(2)]
  have len: "length ev = n" using n(2) map_eq_imp_length_eq [OF ev] by simp
  have "VerifyFailRecord ed_verify f (ed_public key)" if f: "f \<in> set ev" for f
  proof -
    obtain j where "j < n" "f = ev ! j" using f len by (metis in_set_conv_nth)
    with seqs [of j] ed25519_correctD [OF ed] show ?thesis by (simp add: VerifyFailRecord_def)
  qed
  moreover have "follows_record (ev ! j) (ev ! Suc j)" if j: "Suc j < n" for j
  proof -
    have s: "unat (fr_Sequence (ev ! j)) = Suc (length h - n + j)"
      "unat (fr_Sequence (ev ! Suc j)) = Suc (length h - n + Suc j)" using seqs [of j] seqs [of "Suc j"] j by auto
    have "fr_Sequence (ev ! j) \<noteq> - 1"
    proof
      assume "fr_Sequence (ev ! j) = - 1"
      then have "unat (fr_Sequence (ev ! j)) = 2 ^ 64 - 1"
        by (simp add: unsigned_minus_1_eq_mask mask_eq_exp_minus_1)
      with s unsigned_less [of "fr_Sequence (ev ! Suc j)", where ?'a = nat] show False by simp
    qed
    moreover from this have "fr_Sequence (ev ! Suc j) = fr_Sequence (ev ! j) + 1"
      using s by (simp add: word_unat_eq_iff unat_succ)
    moreover have "fr_ProviderEthAddress (ev ! Suc j) = fr_ProviderEthAddress (ev ! j)"
      using same len j by (metis Suc_lessD nth_mem)
    ultimately show ?thesis using seqs [of j] seqs [of "Suc j"] j by (simp add: follows_record_def)
  qed
  then have "successively follows_record ev" using len by (simp add: successively_conv_nth)
  ultimately show ?thesis using n(1) len by (auto simp: VerifyFailStreak_iff list_all_iff)
qed

lemma slash_facts:
  assumes hist: "contract_hist ed_sign i e pp mx k key d h" and "k \<noteq> 0"
    and disp: "DispatchAvailabilityResult ed_sign nc nd r d = (Inr out, d')" "ar_ContractID r = i"
  shows "dr_SlashEligible out \<longleftrightarrow> unat k \<le> length (trailing_fails (h @ [out]))"
    and "dr_SlashEligible out \<Longrightarrow>
      map Some (dr_SlashEvidence out) = map dr_FailRecord (drop (length (h @ [out]) - unat k) (h @ [out]))"
proof -
  have k0: "unat k \<noteq> 0" using assms(2) by (simp add: unat_eq_0)
  have kmax: "unat k \<le> 2 ^ 32 - 1" using unsigned_less [of k, where ?'a = nat] by simp
  have *: "(dr_SlashEligible out \<longleftrightarrow> unat k \<le> length (trailing_fails (h @ [out])))
    \<and> (dr_SlashEligible out \<longrightarrow>
      map Some (dr_SlashEvidence out) = map dr_FailRecord (rev (take (unat k) (trailing_fails (h @ [out])))))"
    using disp(1)
  proof (cases rule: Dispatch_ok)
    case (pass sc p c)
    then show ?thesis using k0 by simp
  next
    case (fail sc f)
    with hist disp(2) have sc: "sched_inv k sc h" and k: "dp_failureThreshold d = k"
      by (auto simp: contract_hist_def)
    have out: "dr_Kind out = DispatchKindFail" "dr_FailRecord out = Some f" by (simp_all add: fail(5))
    have "unat (next_count sc) = min (2 ^ 32 - 1) (length (trailing_fails (h @ [out])))"
      using next_count_unat [of sc] sc out by (simp add: sched_inv_def)
    then have "k \<le> next_count sc \<longleftrightarrow> unat k \<le> length (trailing_fails (h @ [out]))"
      using kmax by (simp add: word_le_nat_alt)
    moreover have "dr_SlashEligible out \<longleftrightarrow> k \<le> next_count sc"
      "dr_SlashEligible out \<longrightarrow> dr_SlashEvidence out = next_streak k sc f"
      using k by (simp_all add: fail(5))
    moreover have "trailing_fails (h @ [out]) = out # trailing_fails h" using out(1) by simp
    ultimately show ?thesis using map_next_streak [OF sc out(2)] by metis
  qed
  show el: "dr_SlashEligible out \<longleftrightarrow> unat k \<le> length (trailing_fails (h @ [out]))"
    by (rule conjunct1 [OF *])
  assume s: "dr_SlashEligible out"
  then have "rev (take (unat k) (trailing_fails (h @ [out]))) = drop (length (h @ [out]) - unat k) (h @ [out])"
    using el by (intro take_trailing_fails(1)) simp
  with conjunct2 [OF *] s
  show "map Some (dr_SlashEvidence out) = map dr_FailRecord (drop (length (h @ [out]) - unat k) (h @ [out]))"
    by (simp only: simp_thms)
qed

lemma register_run_hist:
  assumes "RegisterContractSchedule i e pp mx d = (Inr u, d0)" and "dispatch_all ed_sign calls d0 = (outs, d1)"
  shows "contract_hist ed_sign i e pp mx (dp_failureThreshold d) (dp_signerKey d) d1 (accepted i outs)"
  using contract_hist_run [OF contract_hist_register [OF assms(1)] assms(2)] by simp

lemma processed_run:
  assumes "dispatch_all ed_sign calls d = (outs, d')" and "dp_schedules d i = Some sc"
    and "ch \<in> sc_ProcessedChallenges sc"
  shows "\<exists>sc'. dp_schedules d' i = Some sc' \<and> ch \<in> sc_ProcessedChallenges sc'"
  using assms
proof (induction calls arbitrary: d outs sc)
  case (Cons call calls)
  obtain nc nd r where call: "call = (nc, nd, r)" by (cases call) auto
  obtain res d1 where r: "DispatchAvailabilityResult ed_sign nc nd r d = (res, d1)" by fastforce
  with Cons.prems(1) call obtain outs1 where o: "dispatch_all ed_sign calls d1 = (outs1, d')"
    by (auto split: prod.splits)
  have "\<exists>sc1. dp_schedules d1 i = Some sc1 \<and> ch \<in> sc_ProcessedChallenges sc1"
  proof (cases res)
    case (Inl err)
    with r Dispatch_err Cons.prems show ?thesis by blast
  next
    case (Inr out)
    from r [unfolded Inr] Cons.prems(2,3) show ?thesis
      by (cases rule: Dispatch_ok) (auto simp: after_pass_def after_fail_def)
  qed
  with Cons.IH [OF o] show ?case by blast
qed auto

section \<open>A dispatcher for concrete instances\<close>

definition example_dispatcher :: "nat AvailabilityPaymentDispatcher" where
  "example_dispatcher = \<lparr>dp_coordinator = \<lparr>pc_publisherID = ''pub'',
       pc_signer = Ed25519Signer_Sign plain_sign (replicate 64 3), pc_submitter = (\<lambda>k p n. (Inr (), n + 1)),
       pc_paymentStateTTL = 1, pc_settler = None,
       pc_bindings = \<lparr>rg_providers = [''p'' \<mapsto> replicate 20 1], rg_contracts = Map.empty\<rparr>,
       pc_stores = Map.empty\<rparr>,
     dp_schedules = Map.empty, dp_signerKey = replicate 64 3, dp_failureThreshold = 1\<rparr>"

definition example_result :: "ContractID \<Rightarrow> AvailabilityStatus \<Rightarrow> AvailabilityResult" where
  "example_result i st = \<lparr>ar_ContractID = i, ar_ProviderID = ''p'', ar_Period = 1,
     ar_ChallengeID = ''ch'', ar_Result = st, ar_Timestamp = 0\<rparr>"

lemma nonzero_escrow: "replicate 32 7 \<noteq> (replicate 32 0 :: bytes)"
  by (simp add: replicate_eq_replicate)

lemma example_registered:
  obtains d0 where "RegisterContractSchedule ''c1'' (replicate 32 7) 10 25 example_dispatcher = (Inr (), d0)"
    and "dp_schedules d0 ''c1'' = Some \<lparr>sc_PaymentPerPass = 10, sc_MaxPayment = 25,
       sc_CurrentCumulativePayment = 0, sc_Sequence = 0, sc_EscrowContractID = replicate 32 7,
       sc_ProcessedChallenges = {}, sc_ConsecutiveFailures = 0, sc_FailStreak = []\<rparr>"
    and "dp_coordinator d0 = (dp_coordinator example_dispatcher)
       \<lparr>pc_bindings := \<lparr>rg_providers = [''p'' \<mapsto> replicate 20 1], rg_contracts = [''c1'' \<mapsto> replicate 32 7]\<rparr>,
        pc_stores := [id_String (replicate 32 7) \<mapsto> None]\<rparr>"
    and "dp_failureThreshold d0 = 1" and "dp_signerKey d0 = replicate 64 3"
    and "dp_schedules d0 ''c2'' = None"
  using nonzero_escrow
  by (auto simp: RegisterContractSchedule_def RegisterContract_def BindContract_def example_dispatcher_def
      Let_def intro!: that)

lemma next_count_first: "sc_ConsecutiveFailures sc = 0 \<Longrightarrow> next_count sc = 1"
  using next_count_unat [of sc] by (simp add: word_unat_eq_iff)

lemma example_fail:
  obtains d0 out d1 where "RegisterContractSchedule ''c1'' (replicate 32 7) 10 25 example_dispatcher = (Inr (), d0)"
    and "DispatchAvailabilityResult plain_sign 0 0 (example_result ''c1'' AvailabilityFail) d0 = (Inr out, d1)"
    and "dr_SlashEligible out"
proof (rule example_registered)
  fix d0
  assume d0: "RegisterContractSchedule ''c1'' (replicate 32 7) 10 25 example_dispatcher = (Inr (), d0)"
    "dp_schedules d0 ''c1'' = Some \<lparr>sc_PaymentPerPass = 10, sc_MaxPayment = 25,
       sc_CurrentCumulativePayment = 0, sc_Sequence = 0, sc_EscrowContractID = replicate 32 7,
       sc_ProcessedChallenges = {}, sc_ConsecutiveFailures = 0, sc_FailStreak = []\<rparr>"
    "dp_coordinator d0 = (dp_coordinator example_dispatcher)
       \<lparr>pc_bindings := \<lparr>rg_providers = [''p'' \<mapsto> replicate 20 1], rg_contracts = [''c1'' \<mapsto> replicate 32 7]\<rparr>,
        pc_stores := [id_String (replicate 32 7) \<mapsto> None]\<rparr>" "dp_failureThreshold d0 = 1"
  then obtain out d1 where
    "DispatchAvailabilityResult plain_sign 0 0 (example_result ''c1'' AvailabilityFail) d0 = (Inr out, d1)"
    "dr_SlashEligible out"
    by (simp add: DispatchAvailabilityResult_def example_result_def validateResult_def
        buildAndSignFailRecord_def ProviderAddressFor_def ProviderAddress_def next_count_first example_dispatcher_def Let_def)
  with that d0(1) show thesis by blast
qed

lemma example_pass:
  obtains d0 out d1 p where "RegisterContractSchedule ''c1'' (replicate 32 7) 10 25 example_dispatcher = (Inr (), d0)"
    and "DispatchAvailabilityResult plain_sign 0 0 (example_result ''c1'' AvailabilityPass) d0 = (Inr out, d1)"
    and "dr_PaymentState out = Some p"
    and "pc_signer (dp_coordinator d0) = Ed25519Signer_Sign plain_sign (replicate 64 3)"
    and "dp_schedules d0 ''c2'' = None"
proof (rule example_registered)
  fix d0
  assume d0: "RegisterContractSchedule ''c1'' (replicate 32 7) 10 25 example_dispatcher = (Inr (), d0)"
    "dp_schedules d0 ''c1'' = Some \<lparr>sc_PaymentPerPass = 10, sc_MaxPayment = 25,
       sc_CurrentCumulativePayment = 0, sc_Sequence = 0, sc_EscrowContractID = replicate 32 7,
       sc_ProcessedChallenges = {}, sc_ConsecutiveFailures = 0, sc_FailStreak = []\<rparr>"
    "dp_coordinator d0 = (dp_coordinator example_dispatcher)
       \<lparr>pc_bindings := \<lparr>rg_providers = [''p'' \<mapsto> replicate 20 1], rg_contracts = [''c1'' \<mapsto> replicate 32 7]\<rparr>,
        pc_stores := [id_String (replicate 32 7) \<mapsto> None]\<rparr>" "dp_schedules d0 ''c2'' = None"
  have sg: "plain_sign k m \<noteq> []" if "length k = 64" for k m
    using ed25519_correctD(3) [OF plain_correct that, of m] by auto
  have ne: "id_String x \<noteq> []" for x by (simp add: id_String_def)
  from d0 ne sg [of "replicate 64 3"] obtain out d1 p where
    "DispatchAvailabilityResult plain_sign 0 0 (example_result ''c1'' AvailabilityPass) d0 = (Inr out, d1)"
    "dr_PaymentState out = Some p"
    by (simp add: DispatchAvailabilityResult_def example_result_def validateResult_def
        CreateAndSignPaymentState_def EscrowID_def ProviderAddress_def CreatePaymentState_def
        Ed25519Signer_Sign_def SignPaymentState_def StorePaymentState_def stale_check_def
        example_dispatcher_def Let_def)
  moreover have "pc_signer (dp_coordinator d0) = Ed25519Signer_Sign plain_sign (replicate 64 3)"
    by (simp add: d0(3) example_dispatcher_def)
  ultimately show thesis using that d0(1,4) by blast
qed

lemma example_shared:
  obtains d0 d1 out d2 p
  where "RegisterContractSchedule ''c1'' (replicate 32 7) 10 25 example_dispatcher = (Inr (), d0)"
    and "RegisterContractSchedule ''c2'' (replicate 32 7) 10 25 d0 = (Inr (), d1)"
    and "DispatchAvailabilityResult plain_sign 0 0 (example_result ''c1'' AvailabilityPass) d1 = (Inr out, d2)"
    and "dr_PaymentState out = Some p"
    and "ProviderAddress ''p'' (pc_bindings (dp_coordinator d2)) = Some (replicate 20 1)"
proof (rule example_registered)
  fix d0
  assume d0: "RegisterContractSchedule ''c1'' (replicate 32 7) 10 25 example_dispatcher = (Inr (), d0)"
    "dp_schedules d0 ''c1'' = Some \<lparr>sc_PaymentPerPass = 10, sc_MaxPayment = 25,
       sc_CurrentCumulativePayment = 0, sc_Sequence = 0, sc_EscrowContractID = replicate 32 7,
       sc_ProcessedChallenges = {}, sc_ConsecutiveFailures = 0, sc_FailStreak = []\<rparr>"
    "dp_coordinator d0 = (dp_coordinator example_dispatcher)
       \<lparr>pc_bindings := \<lparr>rg_providers = [''p'' \<mapsto> replicate 20 1], rg_contracts = [''c1'' \<mapsto> replicate 32 7]\<rparr>,
        pc_stores := [id_String (replicate 32 7) \<mapsto> None]\<rparr>" "dp_schedules d0 ''c2'' = None"
  then obtain d1 where d1: "RegisterContractSchedule ''c2'' (replicate 32 7) 10 25 d0 = (Inr (), d1)"
      "dp_schedules d1 ''c1'' = dp_schedules d0 ''c1''"
      "dp_coordinator d1 = (dp_coordinator example_dispatcher)
       \<lparr>pc_bindings := \<lparr>rg_providers = [''p'' \<mapsto> replicate 20 1],
          rg_contracts = [''c1'' \<mapsto> replicate 32 7, ''c2'' \<mapsto> replicate 32 7]\<rparr>,
        pc_stores := [id_String (replicate 32 7) \<mapsto> None]\<rparr>"
    using nonzero_escrow
    by (simp add: RegisterContractSchedule_def RegisterContract_def BindContract_def example_dispatcher_def Let_def)
  have sg: "plain_sign k m \<noteq> []" if "length k = 64" for k m
    using ed25519_correctD(3) [OF plain_correct that, of m] by auto
  have ne: "id_String x \<noteq> []" for x by (simp add: id_String_def)
  from d1 d0(2) ne sg [of "replicate 64 3"] obtain out d2 p where
    "DispatchAvailabilityResult plain_sign 0 0 (example_result ''c1'' AvailabilityPass) d1 = (Inr out, d2)"
    "dr_PaymentState out = Some p" "ProviderAddress ''p'' (pc_bindings (dp_coordinator d2)) = Some (replicate 20 1)"
    by (simp add: DispatchAvailabilityResult_def example_result_def validateResult_def
        CreateAndSignPaymentState_def EscrowID_def ProviderAddress_def CreatePaymentState_def
        Ed25519Signer_Sign_def SignPaymentState_def StorePaymentState_def stale_check_def
        example_dispatcher_def Let_def)
  with that d0(1) d1(1) show thesis by blast
qed

section \<open>Properties\<close>

lemma Dispatch_signer:
  assumes "DispatchAvailabilityResult ed_sign nc nd r d = (res, d')"
  shows "pc_signer (dp_coordinator d') = pc_signer (dp_coordinator d)"
proof (cases res)
  case (Inl err)
  with assms Dispatch_err show ?thesis by blast
next
  case (Inr out)
  with assms have "DispatchAvailabilityResult ed_sign nc nd r d = (Inr out, d')" by simp
  then show ?thesis
    by (cases rule: Dispatch_ok) (auto elim: CreateAndSign_ok)
qed

lemma run_signer:
  "dispatch_all ed_sign calls d = (outs, d') \<Longrightarrow> pc_signer (dp_coordinator d') = pc_signer (dp_coordinator d)"
  by (induction ed_sign calls d arbitrary: outs rule: dispatch_all.induct)
    (auto split: prod.splits simp: Dispatch_signer)

lemma register_signer:
  "RegisterContractSchedule i e pp mx d = (res, d') \<Longrightarrow> pc_signer (dp_coordinator d') = pc_signer (dp_coordinator d)"
  by (auto simp: RegisterContractSchedule_def RegisterContract_def Let_def
      split: if_splits prod.splits sum.splits)

lemma dispatch_voucher:
  assumes "DispatchAvailabilityResult ed_sign nc nd r d = (Inr out, d')" and "dr_PaymentState out = Some p"
    and "pc_signer (dp_coordinator d) = Ed25519Signer_Sign sg key"
  obtains sc where "dp_schedules d (ar_ContractID r) = Some sc" and "sc_Sequence sc \<noteq> - 1"
    and "ps_Sequence p = sc_Sequence sc + 1" and "ps_CumulativePayment p = next_cumulative sc"
    and "ps_LastChallengeID p = ar_ChallengeID r"
  using assms(1)
proof (cases rule: Dispatch_ok)
  case (pass sc q c)
  from pass(4) assms(3) have "ps_Sequence q = sc_Sequence sc + 1 \<and> ps_CumulativePayment q = next_cumulative sc
      \<and> ps_LastChallengeID q = ar_ChallengeID r"
    by (auto simp: Ed25519Signer_Sign_def SignPaymentState_def elim!: CreateAndSign_ok split: if_splits)
  then show thesis using that pass assms(2) by simp
qed (use assms(2) in simp)

text \<open>C6. After any run of dispatches for any contracts, the voucher for the next accepted pass of a contract
  carries as its sequence number one more than the number of results accepted for the contract, and
  as its amount the price of all its accepted passes, capped at the maximum of the schedule: no 64-bit
  overflow is reachable, failures pay nothing, and other contracts have no influence.\<close>

theorem voucher_pays_every_pass_up_to_cap:
  assumes "RegisterContractSchedule i e pp mx d = (Inr u, d0)"
    and "pc_signer (dp_coordinator d) = Ed25519Signer_Sign sg key"
    and "dispatch_all ed_sign calls d0 = (outs, d1)"
    and "DispatchAvailabilityResult ed_sign nc nd r d1 = (Inr out, d2)" and "ar_ContractID r = i"
    and "dr_PaymentState out = Some p"
  shows "unat (ps_Sequence p) = length (accepted i outs) + 1
    \<and> unat (ps_CumulativePayment p) = min (unat mx) (unat pp * (passes (accepted i outs) + 1))
    \<and> ps_LastChallengeID p = ar_ChallengeID r"
proof -
  have "pc_signer (dp_coordinator d1) = Ed25519Signer_Sign sg key"
    using assms(2) run_signer [OF assms(3)] register_signer [OF assms(1)] by simp
  then obtain sc where sc: "dp_schedules d1 (ar_ContractID r) = Some sc" "sc_Sequence sc \<noteq> - 1"
      "ps_Sequence p = sc_Sequence sc + 1" "ps_CumulativePayment p = next_cumulative sc"
      "ps_LastChallengeID p = ar_ChallengeID r"
    using dispatch_voucher [OF assms(4,6)] by blast
  then have "sched_inv (dp_failureThreshold d) sc (accepted i outs)" "sc_PaymentPerPass sc = pp" "sc_MaxPayment sc = mx"
    using register_run_hist [OF assms(1,3)] assms(5) by (auto simp: contract_hist_def)
  with sc next_cumulative_inv show ?thesis by (simp add: sched_inv_def unat_succ)
qed

theorem voucher_pays_every_pass_up_to_cap_witness:
  "\<exists>d0 out d1 p. RegisterContractSchedule ''c1'' (replicate 32 7) 10 25 example_dispatcher = (Inr (), d0)
     \<and> DispatchAvailabilityResult plain_sign 0 0 (example_result ''c1'' AvailabilityPass) d0 = (Inr out, d1)
     \<and> dr_PaymentState out = Some p \<and> ps_Sequence p = 1 \<and> ps_CumulativePayment p = 10"
proof (rule example_pass)
  fix d0 out d1 p
  assume a: "RegisterContractSchedule ''c1'' (replicate 32 7) 10 25 example_dispatcher = (Inr (), d0)"
    "DispatchAvailabilityResult plain_sign 0 0 (example_result ''c1'' AvailabilityPass) d0 = (Inr out, d1)"
    "dr_PaymentState out = Some p"
  have "unat (ps_Sequence p) = 1 \<and> unat (ps_CumulativePayment p) = 10"
    using voucher_pays_every_pass_up_to_cap [OF a(1) _ _ a(2), where calls = "[]" and outs = "[]"
        and sg = plain_sign and key = "replicate 64 3"] a(3)
    by (simp add: example_dispatcher_def example_result_def)
  then show ?thesis using a by (auto simp: word_unat_eq_iff)
qed

text \<open>C7. The slashing rule: after any run, an accepted result is flagged as slashable exactly when it and
  the results accepted for the contract just before it include \<open>K\<close> failures in a row, \<open>K\<close> being the
  threshold of the dispatcher; the evidence then is the failure records of the last \<open>K\<close> results. If they
  name one provider, the evidence passes the streak verification with the publisher's public key.\<close>

theorem slashing_needs_K_failures_and_evidence_verifies:
  assumes "RegisterContractSchedule i e pp mx d = (Inr u, d0)" and "dp_failureThreshold d \<noteq> 0"
    and "ed25519_correct valid ed_sign ed_verify" and "valid (dp_signerKey d)"
    and "dispatch_all ed_sign calls d0 = (outs, d1)"
    and "DispatchAvailabilityResult ed_sign nc nd r d1 = (Inr out, d2)" and "ar_ContractID r = i"
  shows "let h = accepted i outs @ [out]; K = unat (dp_failureThreshold d) in
    (dr_SlashEligible out \<longleftrightarrow> K \<le> length h \<and> (\<forall>x \<in> set (drop (length h - K) h). dr_Kind x = DispatchKindFail))
    \<and> (dr_SlashEligible out \<longrightarrow>
         map Some (dr_SlashEvidence out) = map dr_FailRecord (drop (length h - K) h)
         \<and> ((\<forall>f \<in> set (dr_SlashEvidence out). fr_ProviderEthAddress f = addr) \<longrightarrow>
              VerifyFailStreak ed_verify (dr_SlashEvidence out) (ed_public (dp_signerKey d))))"
proof -
  let ?h = "accepted i outs @ [out]" let ?K = "unat (dp_failureThreshold d)"
  note hist = register_run_hist [OF assms(1,5)]
  note slash = slash_facts [OF hist assms(2,6,7)]
  have K: "0 < ?K" using assms(2) by (simp add: unat_gt_0)
  have wf: "hist_wf ed_sign e (dp_signerKey d) ?h"
    using contract_hist_dispatch [OF hist assms(6,7)] by (simp add: contract_hist_def)
  have iff: "dr_SlashEligible out \<longleftrightarrow>
      ?K \<le> length ?h \<and> (\<forall>x \<in> set (drop (length ?h - ?K) ?h). dr_Kind x = DispatchKindFail)"
    unfolding slash(1) by (rule trailing_fails_length_iff)
  have "VerifyFailStreak ed_verify (dr_SlashEvidence out) (ed_public (dp_signerKey d))"
    if "dr_SlashEligible out" "\<forall>f \<in> set (dr_SlashEvidence out). fr_ProviderEthAddress f = addr"
    using evidence_verifies [OF assms(3,4) wf slash(2) [OF that(1)] _ K _ that(2)] iff that(1) by blast
  with iff slash(2) show ?thesis unfolding Let_def by blast
qed

theorem slashing_needs_K_failures_and_evidence_verifies_witness:
  "\<exists>d0 out d1. RegisterContractSchedule ''c1'' (replicate 32 7) 10 25 example_dispatcher = (Inr (), d0)
     \<and> DispatchAvailabilityResult plain_sign 0 0 (example_result ''c1'' AvailabilityFail) d0 = (Inr out, d1)
     \<and> dr_SlashEligible out
     \<and> VerifyFailStreak plain_verify (dr_SlashEvidence out) (ed_public (replicate 64 3))"
proof (rule example_fail)
  fix d0 out d1
  assume a: "RegisterContractSchedule ''c1'' (replicate 32 7) 10 25 example_dispatcher = (Inr (), d0)"
    "DispatchAvailabilityResult plain_sign 0 0 (example_result ''c1'' AvailabilityFail) d0 = (Inr out, d1)"
    "dr_SlashEligible out"
  let ?f = "the (dr_FailRecord out)"
  note main = slashing_needs_K_failures_and_evidence_verifies [OF a(1) _ plain_correct _ _ a(2),
      where calls = "[]" and outs = "[]" and addr = "fr_ProviderEthAddress ?f"]
  have "map Some (dr_SlashEvidence out) = [dr_FailRecord out]"
    using main a(3) by (simp add: example_dispatcher_def example_result_def Let_def)
  then have "dr_SlashEvidence out = [?f]" by (auto dest: sym)
  with main a(3) have "VerifyFailStreak plain_verify (dr_SlashEvidence out) (ed_public (replicate 64 3))"
    by (simp add: example_dispatcher_def example_result_def Let_def)
  with a show ?thesis by blast
qed

text \<open>C26. A challenge is dispatched once: after its result was accepted, every later dispatch of a
  result for the same challenge and contract, whatever happened in between, is refused as a duplicate and
  changes nothing.\<close>

theorem challenge_dispatched_once:
  assumes "DispatchAvailabilityResult ed_sign nc nd r d = (Inr out, d1)"
    and "dispatch_all ed_sign calls d1 = (outs, d2)"
    and "ar_ContractID r' = ar_ContractID r" and "ar_ChallengeID r' = ar_ChallengeID r"
    and "validateResult r' = None"
  shows "DispatchAvailabilityResult ed_sign nc' nd' r' d2 = (Inl (ErrDuplicateChallenge (ar_ChallengeID r)), d2)"
proof -
  have "\<exists>sc. dp_schedules d1 (ar_ContractID r) = Some sc \<and> ar_ChallengeID r \<in> sc_ProcessedChallenges sc"
    using assms(1) by (cases rule: Dispatch_ok) (simp_all add: after_pass_def after_fail_def)
  then obtain sc where "dp_schedules d2 (ar_ContractID r) = Some sc" "ar_ChallengeID r \<in> sc_ProcessedChallenges sc"
    using processed_run [OF assms(2)] by blast
  with assms(3-5) show ?thesis by (simp add: DispatchAvailabilityResult_def)
qed

theorem challenge_dispatched_once_witness:
  "\<exists>d0 out d1. DispatchAvailabilityResult plain_sign 0 0 (example_result ''c1'' AvailabilityFail) d0 = (Inr out, d1)
     \<and> DispatchAvailabilityResult plain_sign 5 5 (example_result ''c1'' AvailabilityPass) (d1 :: nat AvailabilityPaymentDispatcher)
         = (Inl (ErrDuplicateChallenge ''ch''), d1)"
proof (rule example_fail)
  fix out and d0 d1 :: "nat AvailabilityPaymentDispatcher"
  assume a: "DispatchAvailabilityResult plain_sign 0 0 (example_result ''c1'' AvailabilityFail) d0 = (Inr out, d1)"
  have "DispatchAvailabilityResult plain_sign 5 5 (example_result ''c1'' AvailabilityPass) d1
      = (Inl (ErrDuplicateChallenge ''ch''), d1)"
    using challenge_dispatched_once [OF a, where calls = "[]" and outs = "[]"
        and r' = "example_result ''c1'' AvailabilityPass" and nc' = 5 and nd' = 5]
    by (simp add: example_result_def validateResult_def)
  with a show ?thesis by blast
qed

definition fail_len64 :: "FailRecord \<Rightarrow> bool" where
  "fail_len64 f \<longleftrightarrow> len64 (fr_EscrowContractID f) \<and> len64 (fr_ProviderEthAddress f)
     \<and> len64 (fr_ChallengeID f) \<and> - (2 ^ 63) \<le> fr_IssuedAt f \<and> fr_IssuedAt f < 2 ^ 63"

lemma u64_of_int_inject:
  assumes "- (2 ^ 63) \<le> a" "a < 2 ^ 63" "- (2 ^ 63) \<le> b" "b < (2 ^ 63 :: int)"
    and "(of_int a :: u64) = of_int b"
  shows "a = b"
proof -
  have "signed_take_bit 63 a = signed_take_bit 63 b"
    using arg_cong [OF assms(5), of sint] by (simp add: signed_of_int)
  with assms(1-4) show ?thesis by (simp add: signed_take_bit_int_eq_self)
qed

text \<open>The signed bytes of a failure record determine its contract, provider, challenge, period,
  sequence number and time of issue, and they are never the signed bytes of a payment state of a contract whose
  identifier is not the domain tag: one signature cannot serve for the other.\<close>

lemma fail_record_bytes_unambiguous:
  assumes "fail_len64 f" and "fail_len64 g" and "payment_len64 p"
  shows "(buildFailRecordPayload f = buildFailRecordPayload g \<longrightarrow>
      g = f\<lparr>fr_PublisherSignature := fr_PublisherSignature g\<rparr>)
    \<and> (ps_ContractID p \<noteq> failRecordDomainTag \<longrightarrow> buildFailRecordPayload f \<noteq> payment_payload p)"
proof (intro conjI impI notI)
  assume "buildFailRecordPayload f = buildFailRecordPayload g"
  with assms(1,2) have fields: "fr_EscrowContractID f = fr_EscrowContractID g"
      "fr_ProviderEthAddress f = fr_ProviderEthAddress g" "fr_ChallengeID f = fr_ChallengeID g"
      "fr_Period f = fr_Period g" "fr_Sequence f = fr_Sequence g"
      "(of_int (fr_IssuedAt f) :: u64) = of_int (fr_IssuedAt g)"
    by (simp_all add: buildFailRecordPayload_def fail_len64_def string_field.cancel_iff u64_field.cancel_iff
        u64_field.enc_inj string_field.enc_inj)
  have "fr_IssuedAt f = fr_IssuedAt g"
    using assms(1,2) by (intro u64_of_int_inject fields(6)) (simp_all add: fail_len64_def)
  with fields show "g = f\<lparr>fr_PublisherSignature := fr_PublisherSignature g\<rparr>" by simp
next
  assume "ps_ContractID p \<noteq> failRecordDomainTag" and "buildFailRecordPayload f = payment_payload p"
  with assms(3) show False
    by (simp add: buildFailRecordPayload_def payment_payload_def payment_len64_def failRecordDomainTag_def
        string_field.cancel_iff)
qed

lemma fail_record_bytes_unambiguous_witness:
  "buildFailRecordPayload \<lparr>fr_EscrowContractID = ''e'', fr_ProviderEthAddress = ''a'', fr_ChallengeID = ''ch'',
       fr_Period = 1, fr_Sequence = 1, fr_IssuedAt = 5, fr_PublisherSignature = []\<rparr>
     \<noteq> payment_payload (example_state 5)"
  using fail_record_bytes_unambiguous [of "\<lparr>fr_EscrowContractID = ''e'', fr_ProviderEthAddress = ''a'',
      fr_ChallengeID = ''ch'', fr_Period = 1, fr_Sequence = 1, fr_IssuedAt = 5, fr_PublisherSignature = []\<rparr>"
      "\<lparr>fr_EscrowContractID = ''e'', fr_ProviderEthAddress = ''a'',
      fr_ChallengeID = ''ch'', fr_Period = 1, fr_Sequence = 1, fr_IssuedAt = 5, fr_PublisherSignature = []\<rparr>"
      "example_state 5"]
  by (simp add: fail_len64_def payment_len64_def example_state_def failRecordDomainTag_def)

definition new_schedule :: "u64 \<Rightarrow> u64 \<Rightarrow> EscrowContractID \<Rightarrow> PaymentSchedule" where
  "new_schedule pp mx e = \<lparr>sc_PaymentPerPass = pp, sc_MaxPayment = mx, sc_CurrentCumulativePayment = 0,
     sc_Sequence = 0, sc_EscrowContractID = e, sc_ProcessedChallenges = {}, sc_ConsecutiveFailures = 0,
     sc_FailStreak = []\<rparr>"

lemma register_facts:
  assumes "RegisterContractSchedule i e pp mx d = (Inr u, d')"
  shows "dp_schedules d i = None" and "dp_schedules d' = (dp_schedules d)(i \<mapsto> new_schedule pp mx e)"
    and "rg_contracts (pc_bindings (dp_coordinator d')) = (rg_contracts (pc_bindings (dp_coordinator d)))(i \<mapsto> e)"
proof -
  obtain c where c: "RegisterContract i e (dp_coordinator d) = (Inr (), c)" "dp_schedules d i = None"
      "d' = d\<lparr>dp_coordinator := c, dp_schedules := (dp_schedules d)(i \<mapsto> new_schedule pp mx e)\<rparr>"
    using assms by (auto simp: RegisterContractSchedule_def new_schedule_def split: if_splits prod.splits sum.splits)
  then show "dp_schedules d i = None" "dp_schedules d' = (dp_schedules d)(i \<mapsto> new_schedule pp mx e)" by simp_all
  from c(1) have "rg_contracts (pc_bindings c) = (rg_contracts (pc_bindings (dp_coordinator d)))(i \<mapsto> e)"
    by (auto simp: RegisterContract_def BindContract_def Let_def split: if_splits prod.splits sum.splits option.splits)
  with c(3) show "rg_contracts (pc_bindings (dp_coordinator d')) = (rg_contracts (pc_bindings (dp_coordinator d)))(i \<mapsto> e)"
    by simp
qed

text \<open>Two availability contracts can be registered for one escrow contract, and then they compete: when
  the first pass of one of them was paid, the first pass of the other is refused as stale, because the
  store of payment states is shared and each schedule counts on its own.\<close>

lemma shared_escrow_starves_second_contract:
  assumes "RegisterContractSchedule i e pp mx d = (Inr u, d0)" and "RegisterContractSchedule j e pp' mx' d0 = (Inr u', d1)"
    and "pc_signer (dp_coordinator d) = Ed25519Signer_Sign sg key"
    and "DispatchAvailabilityResult ed_sign nc nd r d1 = (Inr out, d2)" and "ar_ContractID r = i"
    and "dr_PaymentState out = Some p"
    and "validateResult r' = None" and "ar_Result r' = AvailabilityPass" and "ar_ContractID r' = j"
    and "ProviderAddress (ar_ProviderID r') (pc_bindings (dp_coordinator d2)) = Some a"
  shows "\<exists>x y. DispatchAvailabilityResult ed_sign nc' nd' r' d2
    = (Inl (SignPaymentStateFailed (ErrStaleState 1 x 1 y)), d2)"
proof -
  note first = register_facts [OF assms(1)] and second = register_facts [OF assms(2)]
  have ij: "i \<noteq> j" using first(2) second(1) by auto
  have bound: "rg_contracts (pc_bindings (dp_coordinator d1)) i = Some e"
      "rg_contracts (pc_bindings (dp_coordinator d1)) j = Some e"
    using first(3) second(3) ij by simp_all
  have zero: "dp_schedules d1 i = Some (new_schedule pp mx e)" "dp_schedules d1 j = Some (new_schedule pp' mx' e)"
    using first(2) second(2) ij by simp_all
  have sg: "pc_signer (dp_coordinator d1) = Ed25519Signer_Sign sg key"
    using assms(3) register_signer [OF assms(1)] register_signer [OF assms(2)] by simp
  from assms(4) show ?thesis
  proof (cases rule: Dispatch_ok)
    case (pass sc q c)
    have "sc_Sequence sc = 0" using pass(1) assms(5) zero(1) by (auto simp: new_schedule_def)
    with pass(4) sg bound(1) assms(5) have c: "pc_stores c (id_String e) = Some (Some q)"
        "ps_Sequence q = 1" "pc_bindings c = pc_bindings (dp_coordinator d1)"
        "pc_paymentStateTTL c = pc_paymentStateTTL (dp_coordinator d1)"
      by (auto simp: Ed25519Signer_Sign_def SignPaymentState_def EscrowID_def
          elim!: CreateAndSign_ok split: if_splits)
    have "dp_schedules d2 j = Some (new_schedule pp' mx' e)" using pass(6) zero(2) ij assms(5) by simp
    moreover have "0 < pc_paymentStateTTL (dp_coordinator d1)"
      using pass(4) by (simp add: CreateAndSignPaymentState_def not_le split: if_splits)
    ultimately show ?thesis using c bound(2) pass(6) assms(7-10)
      by (simp add: new_schedule_def DispatchAvailabilityResult_def CreateAndSignPaymentState_def EscrowID_def stale_check_def Let_def)
  qed (use assms(6) in simp)
qed

lemma shared_escrow_starves_second_contract_witness:
  "\<exists>d0 d1 out d2 x y. RegisterContractSchedule ''c1'' (replicate 32 7) 10 25 example_dispatcher = (Inr (), d0)
     \<and> RegisterContractSchedule ''c2'' (replicate 32 7) 10 25 d0 = (Inr (), d1)
     \<and> DispatchAvailabilityResult plain_sign 0 0 (example_result ''c1'' AvailabilityPass) d1 = (Inr out, d2)
     \<and> DispatchAvailabilityResult plain_sign 0 0 (example_result ''c2'' AvailabilityPass) d2
         = (Inl (SignPaymentStateFailed (ErrStaleState 1 x 1 y)), d2)"
proof (rule example_shared)
  fix d0 d1 d2 :: "nat AvailabilityPaymentDispatcher" and out p
  assume a: "RegisterContractSchedule ''c1'' (replicate 32 7) 10 25 example_dispatcher = (Inr (), d0)"
    "RegisterContractSchedule ''c2'' (replicate 32 7) 10 25 d0 = (Inr (), d1)"
    "DispatchAvailabilityResult plain_sign 0 0 (example_result ''c1'' AvailabilityPass) d1 = (Inr out, d2)"
    "dr_PaymentState out = Some p" "ProviderAddress ''p'' (pc_bindings (dp_coordinator d2)) = Some (replicate 20 1)"
  from shared_escrow_starves_second_contract [OF a(1,2) _ a(3) _ a(4), where r' = "example_result ''c2'' AvailabilityPass"
      and sg = plain_sign and key = "replicate 64 3" and nc' = 0 and nd' = 0 and a = "replicate 20 1"] a
  show ?thesis by (simp add: example_result_def validateResult_def example_dispatcher_def)
qed

end
