(* ===== verification/CoordinatorBridge.thy ===== *)
theory CoordinatorBridge
  imports DispatchRuns
begin

text \<open>
  The bridge between the node's identities and the payment coordinator, \<open>integration/availability/coordinator_bridge.go\<close>. The
  bridge and its dispatcher share one coordinator, which is the dispatcher's. From go-ethereum, the hexadecimal forms of addresses and hashes,
  \<open>crypto.Keccak256\<close>, \<open>crypto.SigToPub\<close> and \<open>crypto.PubkeyToAddress\<close> are arguments.
\<close>

record 'ch CoordinatorBridge =
  cb_publisherID :: string
  cb_publisherEthKey :: "bytes option"
  cb_publisherEdKey :: bytes
  cb_dispatcher :: "'ch AvailabilityPaymentDispatcher"
  cb_submitter :: "'ch chain_call"

record 'ch CoordinatorBridgeConfig =
  cf_PublisherPeerID :: string
  cf_PublisherEthKey :: "bytes option"
  cf_PublisherEdKey :: bytes
  cf_EscrowSubmitter :: "'ch chain_call option"
  cf_FailureThreshold :: u32

datatype cbridge_error =
    PeerIDRequired
  | EdKeyRequired
  | CreateCoordinator coordinator_error
  | CreateDispatcher dispatch_error
  | ParseAddress binding_error
  | BridgeProvider coordinator_error
  | ParseEscrow binding_error
  | BridgeSchedule dispatch_error

definition NoopEscrowSubmitter :: "'ch chain_call" where
  "NoopEscrowSubmitter contractID state ch = (Inr (), ch)"

definition NewCoordinatorBridge ::
    "(bytes \<Rightarrow> bytes \<Rightarrow> bytes) \<Rightarrow> 'ch CoordinatorBridgeConfig \<Rightarrow> cbridge_error + 'ch CoordinatorBridge" where
  "NewCoordinatorBridge ed_sign cfg =
     (if cf_PublisherPeerID cfg = [] then Inl PeerIDRequired
      else if length (cf_PublisherEdKey cfg) \<noteq> 64 then Inl EdKeyRequired
      else
        let submitter = (case cf_EscrowSubmitter cfg of None \<Rightarrow> NoopEscrowSubmitter | Some s \<Rightarrow> s) in
        (case NewPublisherCoordinator (cf_PublisherPeerID cfg) (Some (Ed25519Signer_Sign ed_sign (cf_PublisherEdKey cfg))) (Some submitter) of
           Inl e \<Rightarrow> Inl (CreateCoordinator e)
         | Inr pubCoord \<Rightarrow>
             let threshold = (if cf_FailureThreshold cfg = 0 then DefaultFailureThreshold else cf_FailureThreshold cfg) in
             (case NewAvailabilityPaymentDispatcher (Some pubCoord) (cf_PublisherEdKey cfg) [threshold] of
                Inl e \<Rightarrow> Inl (CreateDispatcher e)
              | Inr disp \<Rightarrow> Inr \<lparr>cb_publisherID = cf_PublisherPeerID cfg, cb_publisherEthKey = cf_PublisherEthKey cfg,
                    cb_publisherEdKey = cf_PublisherEdKey cfg, cb_dispatcher = disp, cb_submitter = submitter\<rparr>)))"

definition bridge_RegisterProvider ::
    "(bytes \<Rightarrow> string) \<Rightarrow> string \<Rightarrow> bytes \<Rightarrow> ('ch CoordinatorBridge, cbridge_error, unit) stateful" where
  "bridge_RegisterProvider address_hex peerID ethAddr b =
     (case ParseEthereumAddress (address_hex ethAddr) of
        Inl e \<Rightarrow> (Inl (ParseAddress e), b)
      | Inr ethBinding \<Rightarrow>
          (case RegisterProvider peerID ethBinding (dp_coordinator (cb_dispatcher b)) of (x, c) \<Rightarrow>
             (case x of Inl e \<Rightarrow> Inl (BridgeProvider e) | Inr _ \<Rightarrow> Inr (),
              b\<lparr>cb_dispatcher := (cb_dispatcher b)\<lparr>dp_coordinator := c\<rparr>\<rparr>)))"

definition bridge_RegisterContractSchedule ::
    "(bytes \<Rightarrow> string) \<Rightarrow> ContractID \<Rightarrow> bytes \<Rightarrow> u64 \<Rightarrow> u64 \<Rightarrow> ('ch CoordinatorBridge, cbridge_error, unit) stateful" where
  "bridge_RegisterContractSchedule hash_hex contractID escrowAgreementID paymentPerPass maxPayment b =
     (case ParseEscrowContractID (hash_hex escrowAgreementID) of
        Inl e \<Rightarrow> (Inl (ParseEscrow e), b)
      | Inr escrowBinding \<Rightarrow>
          (case RegisterContractSchedule contractID escrowBinding paymentPerPass maxPayment (cb_dispatcher b) of (x, d) \<Rightarrow>
             (case x of Inl e \<Rightarrow> Inl (BridgeSchedule e) | Inr _ \<Rightarrow> Inr (), b\<lparr>cb_dispatcher := d\<rparr>)))"

definition bridge_Dispatch ::
    "(bytes \<Rightarrow> bytes \<Rightarrow> bytes) \<Rightarrow> gotime \<Rightarrow> gotime \<Rightarrow> AvailabilityResult \<Rightarrow> ('ch CoordinatorBridge, dispatch_error, DispatchResult) stateful" where
  "bridge_Dispatch ed_sign now_c now_d res b =
     (case DispatchAvailabilityResult ed_sign now_c now_d res (cb_dispatcher b) of (x, d) \<Rightarrow> (x, b\<lparr>cb_dispatcher := d\<rparr>))"

definition VerifyPaymentVoucher ::
    "(bytes \<Rightarrow> bytes \<Rightarrow> bytes \<Rightarrow> bool) \<Rightarrow> (bytes \<Rightarrow> bytes) \<Rightarrow> (bytes \<Rightarrow> bytes \<Rightarrow> 'pub option) \<Rightarrow> ('pub \<Rightarrow> bytes)
     \<Rightarrow> PaymentState \<Rightarrow> bytes \<Rightarrow> bytes \<Rightarrow> bool" where
  "VerifyPaymentVoucher ed_verify keccak sigToPub pubkeyToAddress voucher pubEdKey pubEthAddr =
     (if length (ps_PublisherSignature voucher) = 0 then False
      else if length pubEdKey = 32 \<and> VerifyPaymentState ed_verify voucher pubEdKey then True
      else if pubEthAddr \<noteq> replicate 20 0 \<and> length (ps_PublisherSignature voucher) = 65
      then (case sigToPub (keccak (str_bytes (ps_ContractID voucher))) (ps_PublisherSignature voucher) of
              None \<Rightarrow> False
            | Some recoveredPub \<Rightarrow> pubkeyToAddress recoveredPub = pubEthAddr)
      else False)"

section \<open>Runs of a bridge\<close>

inductive bridge_step ::
    "(bytes \<Rightarrow> bytes \<Rightarrow> bytes) \<Rightarrow> (bytes \<Rightarrow> string) \<Rightarrow> (bytes \<Rightarrow> string) \<Rightarrow> 'ch CoordinatorBridge \<Rightarrow> 'ch CoordinatorBridge \<Rightarrow> bool"
  for ed_sign address_hex hash_hex where
  bs_provider: "bridge_RegisterProvider address_hex p a b = (x, b') \<Longrightarrow> bridge_step ed_sign address_hex hash_hex b b'"
| bs_schedule: "bridge_RegisterContractSchedule hash_hex i e pp mx b = (x, b') \<Longrightarrow> bridge_step ed_sign address_hex hash_hex b b'"
| bs_dispatch: "bridge_Dispatch ed_sign nc nd r b = (y, b') \<Longrightarrow> bridge_step ed_sign address_hex hash_hex b b'"

definition bridge_init :: "(bytes \<Rightarrow> bytes \<Rightarrow> bytes) \<Rightarrow> bytes \<Rightarrow> 'ch CoordinatorBridge \<Rightarrow> bool" where
  "bridge_init ed_sign key b \<longleftrightarrow> (\<exists>cfg. cf_PublisherEdKey cfg = key \<and> NewCoordinatorBridge ed_sign cfg = Inr b)"

definition bridge_inv :: "(bytes \<Rightarrow> bytes \<Rightarrow> bytes) \<Rightarrow> bytes \<Rightarrow> 'ch CoordinatorBridge \<Rightarrow> bool" where
  "bridge_inv ed_sign key b \<longleftrightarrow> pc_signer (dp_coordinator (cb_dispatcher b)) = Ed25519Signer_Sign ed_sign key
     \<and> dp_signerKey (cb_dispatcher b) = key"

lemma Dispatch_key:
  assumes "DispatchAvailabilityResult ed_sign nc nd r d = (x, d')"
  shows "dp_signerKey d' = dp_signerKey d"
proof (cases x)
  case (Inl e)
  with assms Dispatch_err show ?thesis by blast
next
  case (Inr out)
  with assms have "DispatchAvailabilityResult ed_sign nc nd r d = (Inr out, d')" by simp
  then show ?thesis by (cases rule: Dispatch_ok) auto
qed

lemma register_key: "RegisterContractSchedule i e pp mx d = (x, d') \<Longrightarrow> dp_signerKey d' = dp_signerKey d"
  by (auto simp: RegisterContractSchedule_def split: if_splits prod.splits sum.splits)

interpretation bridge_sys: invariant_system "bridge_init ed_sign key" "bridge_step ed_sign address_hex hash_hex" "bridge_inv ed_sign key"
  for ed_sign key address_hex hash_hex
proof unfold_locales
  fix b :: "'a CoordinatorBridge"
  assume "bridge_init ed_sign key b"
  then show "bridge_inv ed_sign key b"
    by (auto simp: bridge_init_def bridge_inv_def NewCoordinatorBridge_def NewPublisherCoordinator_def
        NewAvailabilityPaymentDispatcher_def WithFailureThreshold_def Let_def split: if_splits sum.splits)
next
  fix b b' :: "'a CoordinatorBridge"
  assume b: "bridge_inv ed_sign key b" and "bridge_step ed_sign address_hex hash_hex b b'"
  from this(2) show "bridge_inv ed_sign key b'"
  proof cases
    case (bs_provider p a x)
    with b show ?thesis
      by (auto simp: bridge_inv_def bridge_RegisterProvider_def RegisterProvider_def split: sum.splits prod.splits)
  next
    case (bs_schedule i e pp mx x)
    with b show ?thesis
      by (auto simp: bridge_inv_def bridge_RegisterContractSchedule_def register_signer register_key split: sum.splits prod.splits)
  next
    case (bs_dispatch nc nd r y)
    with b show ?thesis
      by (auto simp: bridge_inv_def bridge_Dispatch_def Dispatch_signer Dispatch_key split: prod.splits)
  qed
qed

section \<open>Properties\<close>

text \<open>What a bridge hands out verifies: after any sequence of registrations and dispatches, a voucher returned for a
  pass is accepted by \<open>VerifyPaymentVoucher\<close> with the publisher's Ed25519 key, whatever Ethereum address is given, and a
  failure record returned for a failure is accepted by \<open>VerifyFailRecord\<close> with that key.\<close>

lemma bridge_results_verify:
  assumes "ed25519_correct valid ed_sign ed_verify" and "valid key"
    and "reach (bridge_init ed_sign key) (bridge_step ed_sign address_hex hash_hex) b"
    and "bridge_Dispatch ed_sign now_c now_d r b = (Inr out, b')"
  shows "(\<exists>p. dr_Kind out = DispatchKindPass \<and> dr_PaymentState out = Some p
        \<and> VerifyPaymentVoucher ed_verify keccak sigToPub pubkeyToAddress p (ed_public key) addr)
    \<or> (\<exists>f. dr_Kind out = DispatchKindFail \<and> dr_FailRecord out = Some f \<and> VerifyFailRecord ed_verify f (ed_public key))"
proof -
  have inv: "bridge_inv ed_sign key b" using assms(3) by (rule bridge_sys.inv_reach)
  note k = ed25519_correctD [OF assms(1,2)]
  obtain d' where "DispatchAvailabilityResult ed_sign now_c now_d r (cb_dispatcher b) = (Inr out, d')"
    using assms(4) by (auto simp: bridge_Dispatch_def split: prod.splits)
  then show ?thesis
  proof (cases rule: Dispatch_ok)
    case (pass sc p c)
    from pass(4) obtain st where "SignPaymentState ed_sign st key = Inr p"
      using inv by (auto simp: bridge_inv_def Ed25519Signer_Sign_def elim!: CreateAndSign_ok)
    from SignPaymentState_verifies(1) [OF assms(1,2) this] have "VerifyPaymentState ed_verify p (ed_public key)" .
    then show ?thesis using pass(5) by (auto simp: VerifyPaymentVoucher_def VerifyPaymentState_def)
  next
    case (fail sc f)
    have "VerifyFailRecord ed_verify f (ed_public key)"
      using buildAndSignFailRecord_ok [OF fail(4)] k inv by (simp add: VerifyFailRecord_def bridge_inv_def)
    then show ?thesis using fail(5) by simp
  qed
qed

definition example_config :: "nat CoordinatorBridgeConfig" where
  "example_config = \<lparr>cf_PublisherPeerID = ''pub'', cf_PublisherEthKey = None, cf_PublisherEdKey = replicate 64 3,
     cf_EscrowSubmitter = None, cf_FailureThreshold = 0\<rparr>"

lemma example_bridge:
  obtains b0 b1 b2 out b3 where "NewCoordinatorBridge plain_sign example_config = Inr b0"
    and "bridge_RegisterProvider id_String ''p'' (replicate 20 1) b0 = (Inr (), b1)"
    and "bridge_RegisterContractSchedule id_String ''c1'' (replicate 32 7) 10 25 b1 = (Inr (), b2)"
    and "bridge_Dispatch plain_sign 0 0 (example_result ''c1'' AvailabilityPass) b2 = (Inr out, b3)"
    and "dr_Kind out = DispatchKindPass"
proof -
  have sg: "plain_sign k m \<noteq> []" if "length k = 64" for k m
    using ed25519_correctD(3) [OF plain_correct that, of m] by auto
  have ne: "id_String x \<noteq> []" for x by (simp add: id_String_def)
  have pa: "ParseEthereumAddress (id_String (replicate 20 1)) = Inr (replicate 20 1)"
    "ParseEscrowContractID (id_String (replicate 32 7)) = Inr (replicate 32 7)"
    by (simp_all add: ParseEthereumAddress_def ParseEscrowContractID_def strip_0x_def id_String_def del: replicate.simps)
  obtain b0 where b0: "NewCoordinatorBridge plain_sign example_config = Inr b0"
      "pc_bindings (dp_coordinator (cb_dispatcher b0)) = NewRegistry" "pc_stores (dp_coordinator (cb_dispatcher b0)) = Map.empty"
      "dp_schedules (cb_dispatcher b0) = Map.empty" "pc_paymentStateTTL (dp_coordinator (cb_dispatcher b0)) = 24 * 3600 * 10 ^ 9"
      "pc_publisherID (dp_coordinator (cb_dispatcher b0)) = ''pub''"
      "pc_signer (dp_coordinator (cb_dispatcher b0)) = Ed25519Signer_Sign plain_sign (replicate 64 3)"
    by (simp add: NewCoordinatorBridge_def example_config_def NewPublisherCoordinator_def NewAvailabilityPaymentDispatcher_def
        WithFailureThreshold_def DefaultFailureThreshold_def Let_def)
  let ?c = "dp_coordinator (cb_dispatcher b0)"
  let ?b1 = "b0\<lparr>cb_dispatcher := (cb_dispatcher b0)\<lparr>dp_coordinator := ?c\<lparr>pc_bindings :=
    \<lparr>rg_providers = [''p'' \<mapsto> replicate 20 1], rg_contracts = Map.empty\<rparr>\<rparr>\<rparr>\<rparr>"
  have b1: "bridge_RegisterProvider id_String ''p'' (replicate 20 1) b0 = (Inr (), ?b1)"
    using b0(2) pa by (simp add: bridge_RegisterProvider_def RegisterProvider_def BindProvider_def NewRegistry_def del: replicate.simps)
  obtain b2 where b2: "bridge_RegisterContractSchedule id_String ''c1'' (replicate 32 7) 10 25 ?b1 = (Inr (), b2)"
      "dp_coordinator (cb_dispatcher b2) = ?c\<lparr>pc_bindings := \<lparr>rg_providers = [''p'' \<mapsto> replicate 20 1],
         rg_contracts = [''c1'' \<mapsto> replicate 32 7]\<rparr>, pc_stores := [id_String (replicate 32 7) \<mapsto> None]\<rparr>"
      "dp_schedules (cb_dispatcher b2) ''c1'' = Some \<lparr>sc_PaymentPerPass = 10, sc_MaxPayment = 25,
         sc_CurrentCumulativePayment = 0, sc_Sequence = 0, sc_EscrowContractID = replicate 32 7,
         sc_ProcessedChallenges = {}, sc_ConsecutiveFailures = 0, sc_FailStreak = []\<rparr>"
    using b0(3,4) pa nonzero_escrow
    by (simp add: bridge_RegisterContractSchedule_def RegisterContractSchedule_def RegisterContract_def BindContract_def
        Let_def del: replicate.simps)
  obtain out b3 where "bridge_Dispatch plain_sign 0 0 (example_result ''c1'' AvailabilityPass) b2 = (Inr out, b3)"
      "dr_Kind out = DispatchKindPass"
    using b2(2,3) b0(5-7) ne sg [of "replicate 64 3"]
    by (simp add: bridge_Dispatch_def DispatchAvailabilityResult_def example_result_def validateResult_def
        CreateAndSignPaymentState_def EscrowID_def ProviderAddress_def CreatePaymentState_def
        Ed25519Signer_Sign_def SignPaymentState_def StorePaymentState_def stale_check_def Let_def del: replicate.simps)
  with that b0(1) b1 b2(1) show thesis by blast
qed

lemma example_bridge_reach:
  obtains b out b' p where "reach (bridge_init plain_sign (replicate 64 3)) (bridge_step plain_sign id_String id_String) (b :: nat CoordinatorBridge)"
    and "bridge_Dispatch plain_sign 0 0 (example_result ''c1'' AvailabilityPass) b = (Inr out, b')" and "dr_PaymentState out = Some p"
proof (rule example_bridge)
  fix b0 b1 b2 out b3
  assume b: "NewCoordinatorBridge plain_sign example_config = Inr b0"
    "bridge_RegisterProvider id_String ''p'' (replicate 20 1) b0 = (Inr (), b1)"
    "bridge_RegisterContractSchedule id_String ''c1'' (replicate 32 7) 10 25 b1 = (Inr (), b2)"
    "bridge_Dispatch plain_sign 0 0 (example_result ''c1'' AvailabilityPass) b2 = (Inr out, b3)"
    "dr_Kind out = DispatchKindPass"
  let ?R = "reach (bridge_init plain_sign (replicate 64 3)) (bridge_step plain_sign id_String id_String)"
  have "?R b0"
    by (rule reach_init [where init = "bridge_init plain_sign (replicate 64 3)"])
      (use b(1) in \<open>auto simp: bridge_init_def intro!: exI [of _ example_config], simp add: example_config_def\<close>)
  then have r: "?R b2" by (metis reach_step bs_provider bs_schedule b(2,3))
  obtain d' where "DispatchAvailabilityResult plain_sign 0 0 (example_result ''c1'' AvailabilityPass) (cb_dispatcher b2) = (Inr out, d')"
    using b(4) by (auto simp: bridge_Dispatch_def split: prod.splits)
  then obtain p where "dr_PaymentState out = Some p" using b(5) by (cases rule: Dispatch_ok) auto
  with that r b(4) show thesis by blast
qed

lemma bridge_results_verify_witness:
  "\<exists>b out b' p. reach (bridge_init plain_sign (replicate 64 3)) (bridge_step plain_sign id_String id_String) (b :: nat CoordinatorBridge)
     \<and> bridge_Dispatch plain_sign 0 0 (example_result ''c1'' AvailabilityPass) b = (Inr out, b')
     \<and> dr_PaymentState out = Some p
     \<and> VerifyPaymentVoucher plain_verify (\<lambda>b. b) (\<lambda>h s. None) (\<lambda>pub :: unit. []) p (ed_public (replicate 64 3)) (replicate 20 0)"
proof (rule example_bridge_reach)
  fix b out b' p
  assume b: "reach (bridge_init plain_sign (replicate 64 3)) (bridge_step plain_sign id_String id_String) (b :: nat CoordinatorBridge)"
    "bridge_Dispatch plain_sign 0 0 (example_result ''c1'' AvailabilityPass) b = (Inr out, b')" "dr_PaymentState out = Some p"
  have "dr_Kind out = DispatchKindPass \<or> dr_Kind out = DispatchKindFail \<and> dr_PaymentState out = None"
    using b(2) by (auto simp: bridge_Dispatch_def split: prod.splits elim: Dispatch_ok)
  with b bridge_results_verify [OF plain_correct _ b(1,2), of "\<lambda>b. b" "\<lambda>h s. None" "\<lambda>pub :: unit. []" "replicate 20 0"]
  show ?thesis by (auto simp del: replicate.simps)
qed

text \<open>On the Ethereum path only the contract ID is covered by the signature: a 65-byte signature that makes one voucher of a
  contract acceptable makes every voucher with that contract ID acceptable, for any amount, sequence number, provider and
  expiry.\<close>

lemma ethereum_signature_covers_contract_id_only:
  assumes "VerifyPaymentVoucher ed_verify keccak sigToPub pubkeyToAddress v pubEdKey addr"
    and "length (ps_PublisherSignature v) = 65"
    and "ps_ContractID v' = ps_ContractID v" and "ps_PublisherSignature v' = ps_PublisherSignature v"
  shows "VerifyPaymentVoucher ed_verify keccak sigToPub pubkeyToAddress v' pubEdKey addr"
  using assms by (auto simp: VerifyPaymentVoucher_def VerifyPaymentState_def split: if_splits option.splits)

definition contract_voucher :: "u64 \<Rightarrow> PaymentState" where
  "contract_voucher amount = \<lparr>ps_ContractID = ''k'', ps_Publisher = ''pub'', ps_Provider = ''prov'', ps_Sequence = 1,
     ps_Period = 1, ps_CumulativePayment = amount, ps_LastChallengeID = ''ch'', ps_ValidUntil = 9,
     ps_Status = AvailabilityPass, ps_PublisherSignature = replicate 65 2\<rparr>"

lemma ethereum_signature_covers_contract_id_only_witness:
  "VerifyPaymentVoucher plain_verify (\<lambda>b. b) (\<lambda>h s. if h = str_bytes ''k'' \<and> s = replicate 65 2 then Some () else None)
       (\<lambda>_. replicate 20 5) (contract_voucher 1) [] (replicate 20 5)
   \<and> VerifyPaymentVoucher plain_verify (\<lambda>b. b) (\<lambda>h s. if h = str_bytes ''k'' \<and> s = replicate 65 2 then Some () else None)
       (\<lambda>_. replicate 20 5) (contract_voucher 1000000) [] (replicate 20 5)"
proof -
  let ?V = "\<lambda>n. VerifyPaymentVoucher plain_verify (\<lambda>b. b) (\<lambda>h s. if h = str_bytes ''k'' \<and> s = replicate 65 2 then Some () else None)
       (\<lambda>_. replicate 20 5) (contract_voucher n) [] (replicate 20 5)"
  have "replicate 20 (5 :: u8) \<noteq> replicate 20 0" by simp
  then have "?V 1" by (simp add: VerifyPaymentVoucher_def contract_voucher_def del: replicate.simps)
  with ethereum_signature_covers_contract_id_only [OF this, of "contract_voucher 1000000"] show ?thesis
    by (simp add: contract_voucher_def del: replicate.simps)
qed

end
