(* ===== verification/EthereumAdapter.thy ===== *)
theory EthereumAdapter
  imports EscrowRuns CoordinatorBridge
begin

text \<open>
  The Ethereum side of the payments, \<open>availability/escrow-payment/ethereum\<close>: the voucher signer (\<open>signer.go\<close>) and the
  adapter through which the coordinator calls the escrow contract (\<open>escrow_adapter.go\<close>). What they use of go-ethereum is
  in the record \<open>geth\<close>; the bound contract is a record of the calls that reach the chain, which the last section fills in with
  the model of the contract.
\<close>

section \<open>The library\<close>

datatype abi_arg =
    AbiAddress address
  | AbiUint256 int
  | AbiBytes32 bytes32
  | AbiUint64 u64
  | AbiUint8 u8

record 'k geth =
  ge_hexToAddress :: "string \<Rightarrow> address"
  ge_hexToHash :: "string \<Rightarrow> bytes32"
  ge_keccak :: "bytes \<Rightarrow> bytes32"
  ge_pack :: "abi_arg list \<Rightarrow> string + bytes"
  ge_textHash :: "bytes32 \<Rightarrow> bytes32"
  ge_pubkeyToAddress :: "'k \<Rightarrow> address"
  ge_sign :: "bytes32 \<Rightarrow> 'k \<Rightarrow> string + bytes"

section \<open>The signer\<close>

record 'k Signer =
  sg_privateKey :: 'k
  sg_escrowContract :: address
  sg_chainID :: int

datatype eth_error =
    SignerArguments
  | ValidUntilRequired
  | PublisherMismatch
  | InvalidEthereumValues
  | GethFailed string
  | SignatureIndexPanic

definition NewSigner :: "'k option \<Rightarrow> address \<Rightarrow> int option \<Rightarrow> eth_error + 'k Signer" where
  "NewSigner privateKey escrowContract chainID = (case (privateKey, chainID) of
     (Some k, Some c) \<Rightarrow>
       if escrowContract = 0 \<or> c \<le> 0 then Inl SignerArguments
       else Inr \<lparr>sg_privateKey = k, sg_escrowContract = escrowContract, sg_chainID = c\<rparr>
   | _ \<Rightarrow> Inl SignerArguments)"

definition statusCode :: "string \<Rightarrow> u8" where
  "statusCode status = (if status = ''PASS'' then 1 else 2)"

definition eth_paymentStateDigest :: "'k geth \<Rightarrow> address \<Rightarrow> int \<Rightarrow> PaymentState \<Rightarrow> eth_error + bytes32" where
  "eth_paymentStateDigest G escrowContract chainID state =
     (let contractID = ge_hexToHash G (ps_ContractID state);
          publisher = ge_hexToAddress G (ps_Publisher state);
          provider = ge_hexToAddress G (ps_Provider state)
      in if contractID = 0 \<or> publisher = 0 \<or> provider = 0 then Inl InvalidEthereumValues
         else case ge_pack G [AbiAddress escrowContract, AbiUint256 chainID, AbiBytes32 contractID, AbiAddress publisher,
                AbiAddress provider, AbiUint64 (ps_Sequence state), AbiUint64 (ps_Period state),
                AbiUint256 (uint (ps_CumulativePayment state)), AbiBytes32 (ge_keccak G (str_bytes (ps_LastChallengeID state))),
                AbiUint64 (ps_ValidUntil state), AbiUint8 (statusCode (status_string (ps_Status state)))] of
           Inl e \<Rightarrow> Inl (GethFailed e)
         | Inr packed \<Rightarrow> Inr (ge_keccak G packed))"

definition Signer_Sign :: "'k geth \<Rightarrow> 'k Signer \<Rightarrow> PaymentState \<Rightarrow> eth_error + PaymentState" where
  "Signer_Sign G s state =
     (if ps_ValidUntil state = 0 then Inl ValidUntilRequired
      else
        let publisher = ge_hexToAddress G (ps_Publisher state) in
        if publisher = 0 \<or> publisher \<noteq> ge_pubkeyToAddress G (sg_privateKey s) then Inl PublisherMismatch
        else (case eth_paymentStateDigest G (sg_escrowContract s) (sg_chainID s) state of
                Inl e \<Rightarrow> Inl e
              | Inr digest \<Rightarrow>
                  (case ge_sign G (ge_textHash G digest) (sg_privateKey s) of
                     Inl e \<Rightarrow> Inl (GethFailed e)
                   | Inr signature \<Rightarrow>
                       if length signature \<le> 64 then Inl SignatureIndexPanic
                       else Inr (state\<lparr>ps_PublisherSignature := signature[64 := signature ! 64 + 27]\<rparr>))))"

section \<open>The adapter\<close>

text \<open>The static calls of the adapter and their results, as they come back from the ABI decoder.\<close>

datatype abi_query = QCreate escrow_call | QState bytes32 | QBalance bytes32 | QCollateral bytes32

datatype abi_result = ResBytes32 bytes32 | ResUint8 u8 | ResBig int | ResOther

record 'ch binding =
  bd_transact :: "address \<Rightarrow> int \<Rightarrow> escrow_call \<Rightarrow> 'ch \<Rightarrow> (string + unit) \<times> 'ch"
  bd_call :: "abi_query \<Rightarrow> 'ch \<Rightarrow> string + abi_result list"

record 'ch EscrowAdapter =
  ea_contract :: "'ch binding option"
  ea_auth :: "address option"

datatype adapter_error =
    AdapterArguments
  | NotEthereumCompatible
  | ChainFailed string
  | EmptyResult
  | CastFailed

text \<open>The adapter may be nil; with its contract and its account it can send transactions.\<close>

definition usable_adapter :: "'ch EscrowAdapter option \<Rightarrow> ('ch binding \<times> address) option" where
  "usable_adapter a = (case a of
     None \<Rightarrow> None
   | Some x \<Rightarrow> (case (ea_contract x, ea_auth x) of (Some b, Some auth) \<Rightarrow> Some (b, auth) | _ \<Rightarrow> None))"

definition transact :: "'ch binding \<times> address \<Rightarrow> int \<Rightarrow> escrow_call \<Rightarrow> ('ch, adapter_error, unit) stateful" where
  "transact a value call ch = (case bd_transact (fst a) (snd a) value call ch of
     (Inl e, ch') \<Rightarrow> (Inl (ChainFailed e), ch')
   | (Inr _, ch') \<Rightarrow> (Inr (), ch'))"

definition convertPaymentStateToSolidity :: "'k geth \<Rightarrow> bytes32 \<Rightarrow> PaymentState \<Rightarrow> adapter_error + SolPaymentState" where
  "convertPaymentStateToSolidity G parsedContractID state =
     (let publisher = ge_hexToAddress G (ps_Publisher state);
          provider = ge_hexToAddress G (ps_Provider state)
      in if parsedContractID = 0 \<or> publisher = 0 \<or> provider = 0 \<or> length (ps_PublisherSignature state) \<noteq> 65
            \<or> ps_ValidUntil state = 0 then Inl NotEthereumCompatible
         else Inr \<lparr>sp_contractID = parsedContractID, sp_publisher = publisher, sp_provider = provider,
                sp_sequence = ps_Sequence state, sp_period = ps_Period state,
                sp_cumulativePayment = ucast (ps_CumulativePayment state),
                sp_lastChallengeID = ge_keccak G (str_bytes (ps_LastChallengeID state)), sp_validUntil = ps_ValidUntil state,
                sp_status = statusCode (status_string (ps_Status state)), sp_signature = ps_PublisherSignature state\<rparr>)"

text \<open>\<open>SubmitPaymentState\<close>, \<open>SettleContract\<close> and \<open>DisputeFailure\<close> differ in the function they call.\<close>

definition with_voucher ::
    "'k geth \<Rightarrow> (bytes32 \<Rightarrow> SolPaymentState \<Rightarrow> escrow_call) \<Rightarrow> 'ch EscrowAdapter option \<Rightarrow> string \<Rightarrow> PaymentState
     \<Rightarrow> ('ch, adapter_error, unit) stateful" where
  "with_voucher G mk a contractID state ch = (case usable_adapter a of
     None \<Rightarrow> (Inl AdapterArguments, ch)
   | Some b \<Rightarrow>
       if contractID \<noteq> ps_ContractID state then (Inl AdapterArguments, ch)
       else (case convertPaymentStateToSolidity G (ge_hexToHash G contractID) state of
               Inl e \<Rightarrow> (Inl e, ch)
             | Inr solidityState \<Rightarrow> transact b 0 (mk (ge_hexToHash G contractID) solidityState) ch))"

definition adapter_SubmitPaymentState ::
    "'k geth \<Rightarrow> 'ch EscrowAdapter option \<Rightarrow> string \<Rightarrow> PaymentState \<Rightarrow> ('ch, adapter_error, unit) stateful" where
  "adapter_SubmitPaymentState G = with_voucher G SubmitPayment"

definition adapter_SettleContract ::
    "'k geth \<Rightarrow> 'ch EscrowAdapter option \<Rightarrow> string \<Rightarrow> PaymentState \<Rightarrow> ('ch, adapter_error, unit) stateful" where
  "adapter_SettleContract G = with_voucher G SettleContract"

definition adapter_DisputeFailure ::
    "'k geth \<Rightarrow> 'ch EscrowAdapter option \<Rightarrow> string \<Rightarrow> PaymentState \<Rightarrow> ('ch, adapter_error, unit) stateful" where
  "adapter_DisputeFailure G = with_voucher G DisputeFailure"

text \<open>The other transactions check the adapter and the contract ID, and some of them an argument.\<close>

definition with_contract ::
    "'k geth \<Rightarrow> (bytes32 \<Rightarrow> escrow_call) \<Rightarrow> int \<Rightarrow> bool \<Rightarrow> 'ch EscrowAdapter option \<Rightarrow> string \<Rightarrow> ('ch, adapter_error, unit) stateful" where
  "with_contract G mk value args_ok a contractID ch = (case usable_adapter a of
     None \<Rightarrow> (Inl AdapterArguments, ch)
   | Some b \<Rightarrow>
       if ge_hexToHash G contractID = 0 \<or> \<not> args_ok then (Inl AdapterArguments, ch)
       else transact b value (mk (ge_hexToHash G contractID)) ch)"

text \<open>The number of a failure reason; a number outside the enumeration makes the transaction fail in the ABI decoder of the
  contract.\<close>

definition failure_reason :: "u8 \<Rightarrow> FailureReason option" where
  "failure_reason reason = (if reason = 0 then Some FrNone else if reason = 1 then Some AvailabilityFailure
     else if reason = 2 then Some DeadlineMissed else if reason = 3 then Some PaymentStateInvalid
     else if reason = 4 then Some FrOther else None)"

definition MarkFailureWithReason ::
    "'k geth \<Rightarrow> 'ch EscrowAdapter option \<Rightarrow> string \<Rightarrow> u8 \<Rightarrow> ('ch, adapter_error, unit) stateful" where
  "MarkFailureWithReason G a contractID reason ch =
     (if usable_adapter a = None \<or> ge_hexToHash G contractID = 0 \<or> reason = 0 then (Inl AdapterArguments, ch)
      else (case failure_reason reason of
              None \<Rightarrow> (Inl (ChainFailed ''execution reverted''), ch)
            | Some fr \<Rightarrow> with_contract G (\<lambda>i. MarkFailure i fr) 0 True a contractID ch))"

definition adapter_MarkFailure :: "'k geth \<Rightarrow> 'ch EscrowAdapter option \<Rightarrow> string \<Rightarrow> ('ch, adapter_error, unit) stateful" where
  "adapter_MarkFailure G a contractID = MarkFailureWithReason G a contractID 1"

definition adapter_SlashCollateral ::
    "'k geth \<Rightarrow> 'ch EscrowAdapter option \<Rightarrow> string \<Rightarrow> u64 \<Rightarrow> ('ch, adapter_error, unit) stateful" where
  "adapter_SlashCollateral G a contractID penalty =
     with_contract G (\<lambda>i. SlashCollateral i (ucast penalty)) 0 (penalty \<noteq> 0) a contractID"

text \<open>Amounts are \<open>big.Int\<close> pointers, which may be nil. As an argument of a call the packer reduces them to 256 bits.\<close>

definition positive :: "int option \<Rightarrow> bool" where
  "positive amount = (case amount of None \<Rightarrow> False | Some v \<Rightarrow> 0 < v)"

definition big_value :: "int option \<Rightarrow> int" where
  "big_value amount = (case amount of None \<Rightarrow> 0 | Some v \<Rightarrow> v)"

definition adapter_FundEscrow ::
    "'k geth \<Rightarrow> 'ch EscrowAdapter option \<Rightarrow> string \<Rightarrow> int option \<Rightarrow> ('ch, adapter_error, unit) stateful" where
  "adapter_FundEscrow G a contractID amount = with_contract G FundEscrow (big_value amount) (positive amount) a contractID"

definition adapter_DepositCollateral ::
    "'k geth \<Rightarrow> 'ch EscrowAdapter option \<Rightarrow> string \<Rightarrow> int option \<Rightarrow> ('ch, adapter_error, unit) stateful" where
  "adapter_DepositCollateral G a contractID amount = with_contract G DepositCollateral (big_value amount) (positive amount) a contractID"

definition adapter_ActivateContract :: "'k geth \<Rightarrow> 'ch EscrowAdapter option \<Rightarrow> string \<Rightarrow> ('ch, adapter_error, unit) stateful" where
  "adapter_ActivateContract G = with_contract G ActivateContract 0 True"

definition adapter_RefundPublisher :: "'k geth \<Rightarrow> 'ch EscrowAdapter option \<Rightarrow> string \<Rightarrow> ('ch, adapter_error, unit) stateful" where
  "adapter_RefundPublisher G = with_contract G RefundPublisher 0 True"

definition adapter_ReturnCollateral :: "'k geth \<Rightarrow> 'ch EscrowAdapter option \<Rightarrow> string \<Rightarrow> ('ch, adapter_error, unit) stateful" where
  "adapter_ReturnCollateral G = with_contract G ReturnCollateral 0 True"

definition adapter_TerminateExpiredContract :: "'k geth \<Rightarrow> 'ch EscrowAdapter option \<Rightarrow> string \<Rightarrow> ('ch, adapter_error, unit) stateful" where
  "adapter_TerminateExpiredContract G = with_contract G TerminateExpired 0 True"

definition adapter_CreateContract ::
    "'ch EscrowAdapter option \<Rightarrow> address \<Rightarrow> bytes32 \<Rightarrow> int option \<Rightarrow> u64 \<Rightarrow> u64 \<Rightarrow> bytes32 \<Rightarrow> int option
     \<Rightarrow> ('ch, adapter_error, bytes32) stateful" where
  "adapter_CreateContract a provider fileID reward periods duration rulesHash collateralRequired ch = (case usable_adapter a of
     None \<Rightarrow> (Inl AdapterArguments, ch)
   | Some b \<Rightarrow>
       if provider = 0 \<or> fileID = 0 \<or> \<not> positive reward \<or> periods = 0 \<or> duration = 0 then (Inl AdapterArguments, ch)
       else
         let call = CreateContract provider fileID (word_of_int (big_value reward)) periods duration rulesHash
               (word_of_int (big_value collateralRequired)) in
         (case bd_call (fst b) (QCreate call) ch of
            Inl e \<Rightarrow> (Inl (ChainFailed e), ch)
          | Inr [] \<Rightarrow> (Inl EmptyResult, ch)
          | Inr (ResBytes32 contractID # _) \<Rightarrow>
              (case transact b 0 call ch of
                 (Inl e, ch') \<Rightarrow> (Inl e, ch')
               | (Inr _, ch') \<Rightarrow> (Inr contractID, ch'))
          | Inr _ \<Rightarrow> (Inl CastFailed, ch)))"

text \<open>The queries need the contract but not the account.\<close>

definition query ::
    "'k geth \<Rightarrow> (bytes32 \<Rightarrow> abi_query) \<Rightarrow> 'ch EscrowAdapter option \<Rightarrow> string \<Rightarrow> 'ch \<Rightarrow> adapter_error + abi_result" where
  "query G q a contractID ch = (case a of
     None \<Rightarrow> Inl AdapterArguments
   | Some x \<Rightarrow> (case ea_contract x of
       None \<Rightarrow> Inl AdapterArguments
     | Some b \<Rightarrow>
         if ge_hexToHash G contractID = 0 then Inl AdapterArguments
         else (case bd_call b (q (ge_hexToHash G contractID)) ch of
                 Inl e \<Rightarrow> Inl (ChainFailed e)
               | Inr [] \<Rightarrow> Inl EmptyResult
               | Inr (res # _) \<Rightarrow> Inr res)))"

definition GetContractState :: "'k geth \<Rightarrow> 'ch EscrowAdapter option \<Rightarrow> string \<Rightarrow> 'ch \<Rightarrow> adapter_error + u8" where
  "GetContractState G a contractID ch = (case query G QState a contractID ch of
     Inl e \<Rightarrow> Inl e
   | Inr (ResUint8 state) \<Rightarrow> Inr state
   | Inr _ \<Rightarrow> Inl CastFailed)"

definition GetEscrowBalance :: "'k geth \<Rightarrow> 'ch EscrowAdapter option \<Rightarrow> string \<Rightarrow> 'ch \<Rightarrow> adapter_error + int" where
  "GetEscrowBalance G a contractID ch = (case query G QBalance a contractID ch of
     Inl e \<Rightarrow> Inl e
   | Inr (ResBig balance) \<Rightarrow> Inr balance
   | Inr _ \<Rightarrow> Inl CastFailed)"

definition GetCollateral :: "'k geth \<Rightarrow> 'ch EscrowAdapter option \<Rightarrow> string \<Rightarrow> 'ch \<Rightarrow> adapter_error + int" where
  "GetCollateral G a contractID ch = (case query G QCollateral a contractID ch of
     Inl e \<Rightarrow> Inl e
   | Inr (ResBig collateral) \<Rightarrow> Inr collateral
   | Inr _ \<Rightarrow> Inl CastFailed)"


section \<open>The binding to the contract\<close>

text \<open>A chain with the escrow contract, and the timestamps of the blocks to come. A transaction that would revert fails when its gas
  is estimated and is not sent; another one is mined in the next block.\<close>

record chain =
  cn_escrow :: EscrowContract
  cn_blocks :: "u256 list"

definition escrow_transact :: "evm \<Rightarrow> address \<Rightarrow> int \<Rightarrow> escrow_call \<Rightarrow> chain \<Rightarrow> (string + unit) \<times> chain" where
  "escrow_transact E auth v call ch = (case cn_blocks ch of
     [] \<Rightarrow> (Inl ''context deadline exceeded'', ch)
   | now # later \<Rightarrow>
       if v < 0 \<or> 2 ^ 256 \<le> v then (Inl ''invalid value'', ch)
       else (case exec E \<lparr>tx_sender = auth, tx_value = word_of_int v, tx_timestamp = now\<rparr> call (cn_escrow ch) of
               Inl e \<Rightarrow> (Inl ''execution reverted'', ch)
             | Inr s \<Rightarrow> (Inr (), \<lparr>cn_escrow = s, cn_blocks = later\<rparr>)))"

definition state_number :: "EscrowState \<Rightarrow> u8" where
  "state_number x = (case x of EsCreated \<Rightarrow> 0 | EsFunded \<Rightarrow> 1 | EsActive \<Rightarrow> 2 | EsFailed \<Rightarrow> 3 | EsSettled \<Rightarrow> 4 | EsRefunded \<Rightarrow> 5
     | EsTerminated \<Rightarrow> 6)"

text \<open>A static call runs on the current state and returns the values of the function.\<close>

definition returns :: "('a \<Rightarrow> abi_result) \<Rightarrow> escrow_error + 'a \<Rightarrow> string + abi_result list" where
  "returns f x = (case x of Inl e \<Rightarrow> Inl ''execution reverted'' | Inr v \<Rightarrow> Inr [f v])"

definition escrow_call_static :: "evm \<Rightarrow> address \<Rightarrow> abi_query \<Rightarrow> chain \<Rightarrow> string + abi_result list" where
  "escrow_call_static E auth q ch = (case q of
     QCreate (CreateContract p f r n d h c) \<Rightarrow>
       returns (ResBytes32 \<circ> fst)
         (createContract E p f r n d h c \<lparr>tx_sender = auth, tx_value = 0, tx_timestamp = 0\<rparr> (cn_escrow ch))
   | QCreate _ \<Rightarrow> Inr []
   | QState i \<Rightarrow> returns (ResUint8 \<circ> state_number) (getContractState i (cn_escrow ch))
   | QBalance i \<Rightarrow> returns (ResBig \<circ> uint) (getEscrowBalance i (cn_escrow ch))
   | QCollateral i \<Rightarrow> returns (ResBig \<circ> uint) (getCollateral i (cn_escrow ch)))"

definition escrow_adapter :: "evm \<Rightarrow> address \<Rightarrow> chain EscrowAdapter" where
  "escrow_adapter E auth = \<lparr>ea_contract = Some \<lparr>bd_transact = escrow_transact E, bd_call = escrow_call_static E auth\<rparr>,
     ea_auth = Some auth\<rparr>"

text \<open>The adapter as the submitter and the settler of a coordinator.\<close>

definition as_chain_call ::
    "(chain EscrowAdapter option \<Rightarrow> string \<Rightarrow> PaymentState \<Rightarrow> (chain, adapter_error, unit) stateful) \<Rightarrow> chain EscrowAdapter
     \<Rightarrow> chain chain_call" where
  "as_chain_call f a contractID state ch = (case f (Some a) contractID state ch of
     (Inl (ChainFailed e), ch') \<Rightarrow> (Inl e, ch')
   | (Inl _, ch') \<Rightarrow> (Inl ''adapter'', ch')
   | (Inr _, ch') \<Rightarrow> (Inr (), ch'))"

section \<open>What the code relies on in go-ethereum\<close>

fun abi_arg_bytes :: "abi_arg \<Rightarrow> bytes" where
  "abi_arg_bytes (AbiAddress a) = abi_word a"
| "abi_arg_bytes (AbiUint256 i) = abi_word (word_of_int i :: u256)"
| "abi_arg_bytes (AbiBytes32 w) = abi_word w"
| "abi_arg_bytes (AbiUint64 w) = abi_word w"
| "abi_arg_bytes (AbiUint8 w) = abi_word w"

text \<open>The library computes what the chain computes: the same hash, the packing of \<open>abi.encode\<close>, the prefix of EIP-191, and
  signatures of 65 bytes with a recovery number of 0 or 1 and the lower of the two values of \<open>s\<close>, from which \<open>ecrecover\<close>
  finds the address of the key.\<close>

definition geth_agrees :: "evm \<Rightarrow> 'k geth \<Rightarrow> bool" where
  "geth_agrees E G \<longleftrightarrow> ge_keccak G = ev_keccak E \<and> ge_textHash G = eip191_hash (ev_keccak E)
     \<and> (\<forall>args. ge_pack G args = Inr (concat (map abi_arg_bytes args)))
     \<and> (\<forall>h k sig. ge_sign G h k = Inr sig \<longrightarrow> length sig = 65 \<and> (sig ! 64 = 0 \<or> sig ! 64 = 1)
          \<and> bytes_word (take 32 (drop 32 sig)) \<le> 0x7fffffffffffffffffffffffffffffff5d576e7357a4501ddfe92f46681b20a0
          \<and> ev_ecrecover E h (sig ! 64 + 27) (bytes_word (take 32 sig)) (bytes_word (take 32 (drop 32 sig)))
              = ge_pubkeyToAddress G k)"

section \<open>Signed vouchers recover to the publisher\<close>

lemma unat_ucast64: "unat (ucast (w :: u64) :: u256) = unat w"
proof -
  have "unat w < 2 ^ 64" using unsigned_less [of w, where ?'a = nat] by simp
  then have "unat w < 2 ^ 256" by simp
  then show ?thesis by (simp add: unsigned_ucast_eq take_bit_nat_eq_self)
qed

lemma abi_word_ucast64: "abi_word (word_of_int (uint w) :: u256) = abi_word (w :: u64)"
  "abi_word (ucast w :: u256) = abi_word w"
  by (simp_all add: abi_word_def unat_ucast64 flip: ucast_eq)

lemma digest_agrees:
  assumes "geth_agrees E G" and "eth_paymentStateDigest G (ev_this E) (uint (ev_chainid E)) st = Inr h"
    and "convertPaymentStateToSolidity G (ge_hexToHash G (ps_ContractID st)) (st\<lparr>ps_PublisherSignature := sig\<rparr>) = Inr p"
  shows "payment_digest E p = h"
  using assms
  by (auto simp: eth_paymentStateDigest_def convertPaymentStateToSolidity_def payment_digest_def geth_agrees_def Let_def
      abi_word_ucast64 split: if_splits)

lemma signed_voucher_recovers:
  assumes "geth_agrees E G" and "sg_escrowContract sg = ev_this E" and "sg_chainID sg = uint (ev_chainid E)"
    and "Signer_Sign G sg st = Inr v"
  shows "\<exists>p. convertPaymentStateToSolidity G (ge_hexToHash G (ps_ContractID v)) v = Inr p
    \<and> recoverPaymentSigner E p = ge_hexToAddress G (ps_Publisher v)"
proof -
  let ?k = "sg_privateKey sg"
  from assms(4) obtain h sig where v: "ps_ValidUntil st \<noteq> 0" "ge_hexToAddress G (ps_Publisher st) = ge_pubkeyToAddress G ?k"
      "eth_paymentStateDigest G (ev_this E) (uint (ev_chainid E)) st = Inr h" "ge_sign G (ge_textHash G h) ?k = Inr sig"
      "v = st\<lparr>ps_PublisherSignature := sig[64 := sig ! 64 + 27]\<rparr>"
    using assms(2,3) by (auto simp: Signer_Sign_def Let_def split: if_splits sum.splits)
  have s: "length sig = 65" "sig ! 64 = 0 \<or> sig ! 64 = 1"
    "bytes_word (take 32 (drop 32 sig)) \<le> 0x7fffffffffffffffffffffffffffffff5d576e7357a4501ddfe92f46681b20a0"
    "ev_ecrecover E (eip191_hash (ev_keccak E) h) (sig ! 64 + 27) (bytes_word (take 32 sig)) (bytes_word (take 32 (drop 32 sig)))
       = ge_pubkeyToAddress G ?k"
    using assms(1) v(4) by (auto simp: geth_agrees_def)
  obtain p where p: "convertPaymentStateToSolidity G (ge_hexToHash G (ps_ContractID v)) v = Inr p"
      "sp_signature p = sig[64 := sig ! 64 + 27]"
    using v s(1) by (auto simp: convertPaymentStateToSolidity_def eth_paymentStateDigest_def Let_def split: if_splits)
  have "payment_digest E p = h" using digest_agrees [OF assms(1) v(3)] p(1) v(5) by auto
  then have "recoverPaymentSigner E p = ge_pubkeyToAddress G ?k"
    using p(2) s by (auto simp: recoverPaymentSigner_def Let_def drop_update_swap)
  with p(1) v(2,5) show ?thesis by auto
qed

section \<open>Settlement from the coordinator to the contract\<close>

lemma transact_escrow:
  assumes "usable_adapter (Some (escrow_adapter E auth)) = Some b" and "cn_blocks ch = now # later"
    and "exec E \<lparr>tx_sender = auth, tx_value = 0, tx_timestamp = now\<rparr> call (cn_escrow ch) = Inr s"
  shows "transact b 0 call ch = (Inr (), \<lparr>cn_escrow = s, cn_blocks = later\<rparr>)"
  using assms by (auto simp: usable_adapter_def escrow_adapter_def transact_def escrow_transact_def)

lemma voucher_call:
  assumes "ps_ContractID v = k" and "convertPaymentStateToSolidity G (ge_hexToHash G k) v = Inr p"
    and "exec E \<lparr>tx_sender = auth, tx_value = 0, tx_timestamp = now\<rparr> (mk (ge_hexToHash G k) p) s = Inr s'"
  shows "as_chain_call (with_voucher G mk) (escrow_adapter E auth) k v \<lparr>cn_escrow = s, cn_blocks = now # later\<rparr>
    = (Inr (), \<lparr>cn_escrow = s', cn_blocks = later\<rparr>)"
proof -
  obtain b where b: "usable_adapter (Some (escrow_adapter E auth)) = Some b"
    by (simp add: usable_adapter_def escrow_adapter_def)
  with transact_escrow [OF b, of "\<lparr>cn_escrow = s, cn_blocks = now # later\<rparr>" now later] assms show ?thesis
    by (simp add: as_chain_call_def with_voucher_def)
qed

text \<open>C1. From the signer to the money: take a voucher that the Ethereum signer of the publisher signed for an agreement, stored by the
  coordinator under the ID of the agreement and not expired. If the agreement is active, its window is open and the voucher
  goes beyond what the contract has seen within the reward, then \<open>SettleContractOnChain\<close> with the adapter as submitter and settler
  succeeds. The provider is paid the amount in the voucher, the publisher the rest of the reward, nobody else
  anything, and the agreement is settled.\<close>

theorem signed_voucher_settles_on_chain:
  assumes "geth_agrees E G" and "NewSigner (Some key) (ev_this E) (Some (uint (ev_chainid E))) = Inr sg"
    and "Signer_Sign G sg st = Inr v"
    and "pc_submitter c = as_chain_call (adapter_SubmitPaymentState G) (escrow_adapter E auth)"
    and "pc_settler c = Some (as_chain_call (adapter_SettleContract G) (escrow_adapter E auth))"
    and "ps_ContractID v = k" and "k \<noteq> []" and "pc_stores c k = Some (Some v)" and "of_int (unix_seconds now) < ps_ValidUntil v"
    and "reach escrow_init (escrow_step E anyone) s" and "auth \<noteq> 0"
    and "ec_agreements s (ge_hexToHash G k) = Some a" and "ag_state a = EsActive"
    and "ag_publisher a = ge_hexToAddress G (ps_Publisher v)" and "ag_provider a = ge_hexToAddress G (ps_Provider v)"
    and "window_end a = Some w" and "t1 \<le> w" and "t1 \<le> ucast (ps_ValidUntil v)"
    and "ag_latestSequence a < ps_Sequence v" and "ag_latestCumulativePayment a \<le> ucast (ps_CumulativePayment v)"
    and "ucast (ps_CumulativePayment v) \<le> ag_reward a"
    and "ev_accepts E (ag_provider a)" and "ev_accepts E (ag_publisher a)"
  shows "\<exists>s'. SettleContractOnChain now k c \<lparr>cn_escrow = s, cn_blocks = [t1, t2]\<rparr> = (Inr (), \<lparr>cn_escrow = s', cn_blocks = []\<rparr>)
    \<and> (\<forall>x. ec_paid s' x = ec_paid s x + (if x = ag_provider a then unat (ps_CumulativePayment v) else 0)
         + (if x = ag_publisher a then unat (ag_reward a) - unat (ps_CumulativePayment v) else 0))
    \<and> getContractState (ge_hexToHash G k) s' = Inr EsSettled"
proof -
  let ?i = "ge_hexToHash G k" and ?tx = "\<lambda>t. \<lparr>tx_sender = auth, tx_value = 0, tx_timestamp = t\<rparr>"
  have "sg_escrowContract sg = ev_this E" "sg_chainID sg = uint (ev_chainid E)"
    using assms(2) by (auto simp: NewSigner_def split: if_splits)
  from signed_voucher_recovers [OF assms(1) this assms(3)] obtain p where
      p: "convertPaymentStateToSolidity G ?i v = Inr p" "recoverPaymentSigner E p = ag_publisher a"
    using assms(6,14) by auto
  then have f: "sp_contractID p = ?i" "sp_publisher p = ag_publisher a" "sp_provider p = ag_provider a"
      "sp_sequence p = ps_Sequence v" "sp_cumulativePayment p = ucast (ps_CumulativePayment v)" "sp_validUntil p = ps_ValidUntil v"
      "ps_PublisherSignature v \<noteq> []"
    using assms(14,15) by (auto simp: convertPaymentStateToSolidity_def Let_def split: if_splits)
  have inv: "escrow_inv E s" using assms(10) by (rule escrow_sys.inv_reach)
  have ex: "ag_exists a" using escrow_invD(1) [OF inv assms(12)] by (simp add: agreement_ok_def)
  let ?s1 = "accept_voucher ?i p a s"
  let ?b = "a\<lparr>ag_latestSequence := sp_sequence p, ag_latestCumulativePayment := sp_cumulativePayment p, ag_hasPaymentState := True\<rparr>"
  have sub: "exec E (?tx t1) (SubmitPayment ?i p) s = Inr ?s1"
    using assms(12,13,16-21) p(2) f ex
    by (simp add: exec_def submitPaymentState_def agreement_of_def check_voucher_def isNextPaymentState_def not_less)
  have "reach escrow_init (escrow_step E anyone) ?s1"
    by (rule reach_exec [OF assms(10) sub]) (simp_all add: assms(11) no_collision_def)
  then have inv1: "escrow_inv E ?s1" by (rule escrow_sys.inv_reach)
  have s1: "ec_agreements ?s1 ?i = Some ?b" "ec_latestPaymentStates ?s1 ?i = Some p" "ec_paid ?s1 = ec_paid s"
    by (simp_all add: accept_voucher_def)
  obtain s2 where s2: "settleContract E ?i p (?tx t2) ?s1 = Inr s2"
      "\<forall>x. ec_paid s2 x = ec_paid s x + (if x = ag_provider a then unat (sp_cumulativePayment p) else 0)
         + (if x = ag_publisher a then unat (ag_reward a) - unat (sp_cumulativePayment p) else 0)"
      "ec_agreements s2 ?i = Some (?b\<lparr>ag_escrowBalance := 0, ag_state := EsSettled\<rparr>)"
    using settle_pays [OF inv1 s1(1) _ s1(2), of "?tx t2"] assms(13,22,23) s1(3) by auto
  then have set: "exec E (?tx t2) (SettleContract ?i p) ?s1 = Inr s2" by (simp add: exec_def)
  have u: "unat (sp_cumulativePayment p) = unat (ps_CumulativePayment v)"
    using f(5) by (simp add: unat_ucast64)
  show ?thesis
    using s2(2,3) ex assms(4-9) f(7) u voucher_call [where mk = SubmitPayment, OF assms(6) p(1) sub]
      voucher_call [where mk = SettleContract, OF assms(6) p(1) set]
    by (simp add: SettleContractOnChain_def SubmitPaymentState_def adapter_SubmitPaymentState_def adapter_SettleContract_def
        getContractState_def agreement_of_def not_le)
qed

definition example_geth :: "unit geth" where
  "example_geth = \<lparr>ge_hexToAddress = (\<lambda>x. if x = ''pub'' then 11 else 22), ge_hexToHash = (\<lambda>_. 7), ge_keccak = ev_keccak example_evm,
     ge_pack = (\<lambda>args. Inr (concat (map abi_arg_bytes args))), ge_textHash = eip191_hash (ev_keccak example_evm),
     ge_pubkeyToAddress = (\<lambda>_. 11), ge_sign = (\<lambda>_ _. Inr (replicate 65 0))\<rparr>"

definition example_payment :: PaymentState where
  "example_payment = \<lparr>ps_ContractID = ''k'', ps_Publisher = ''pub'', ps_Provider = ''prov'', ps_Sequence = 1, ps_Period = 1,
     ps_CumulativePayment = 60, ps_LastChallengeID = ''ch'', ps_ValidUntil = 2000, ps_Status = AvailabilityPass,
     ps_PublisherSignature = []\<rparr>"

definition example_coordinator :: "PaymentState \<Rightarrow> chain PublisherCoordinator" where
  "example_coordinator v = \<lparr>pc_publisherID = ''pub'', pc_signer = Inr,
     pc_submitter = as_chain_call (adapter_SubmitPaymentState example_geth) (escrow_adapter example_evm 22), pc_paymentStateTTL = 10,
     pc_settler = Some (as_chain_call (adapter_SettleContract example_geth) (escrow_adapter example_evm 22)),
     pc_bindings = NewRegistry, pc_stores = [''k'' \<mapsto> Some v]\<rparr>"

lemma example_geth_agrees: "geth_agrees example_evm example_geth"
  by (simp add: geth_agrees_def example_geth_def example_evm_def bytes_word_def del: replicate.simps)

theorem signed_voucher_settles_on_chain_witness:
  "\<exists>sg v s'. NewSigner (Some ()) (ev_this example_evm) (Some 1) = Inr sg \<and> Signer_Sign example_geth sg example_payment = Inr v
     \<and> SettleContractOnChain 0 ''k'' (example_coordinator v) \<lparr>cn_escrow = example_active, cn_blocks = [1000, 1001]\<rparr>
         = (Inr (), \<lparr>cn_escrow = s', cn_blocks = []\<rparr>)
     \<and> ec_paid s' 22 = 60 \<and> ec_paid s' 11 = 40 \<and> getContractState 7 s' = Inr EsSettled"
proof -
  let ?sg = "\<lparr>sg_privateKey = (), sg_escrowContract = 1, sg_chainID = 1\<rparr>"
  let ?v = "example_payment\<lparr>ps_PublisherSignature := (replicate 65 0)[64 := 27]\<rparr>"
  have sg: "NewSigner (Some ()) (ev_this example_evm) (Some (uint (ev_chainid example_evm))) = Inr ?sg"
    by (simp add: NewSigner_def example_evm_def)
  have v: "Signer_Sign example_geth ?sg example_payment = Inr ?v"
    by (simp add: Signer_Sign_def eth_paymentStateDigest_def example_geth_def example_payment_def Let_def del: replicate.simps)
  have paid: "ec_paid example_active x = 0" for x by (simp add: example_active_def example_funded_def)
  show ?thesis
    using signed_voucher_settles_on_chain [OF example_geth_agrees sg v, where c = "example_coordinator ?v" and k = "''k''" and now = 0
        and s = example_active and auth = 22 and a = "the (ec_agreements example_active 7)" and ?t1.0 = 1000 and ?t2.0 = 1001 and w = "87450"]
      sg v paid example_active_reach
    by (auto simp: example_coordinator_def example_payment_def example_geth_def example_agreements example_agreement_def window_end_def
        add64_def SETTLEMENT_WINDOW_def unix_seconds_def example_evm_def simp del: replicate.simps)
qed

text \<open>C37. A coordinator bridge cannot be paid on chain: the bridge signs with Ed25519, whose signatures have 64 bytes, and the adapter
  takes only those of 65 bytes. Every voucher that a bridge issues is refused by each method of the adapter that takes a
  voucher, before anything reaches the chain.\<close>

theorem bridge_vouchers_refused_by_adapter:
  assumes "ed25519_correct valid ed_sign ed_verify" and "valid key"
    and "reach (bridge_init ed_sign key) (bridge_step ed_sign address_hex hash_hex) b"
    and "bridge_Dispatch ed_sign now_c now_d r b = (Inr out, b')" and "dr_PaymentState out = Some p"
  shows "(\<exists>e. adapter_SubmitPaymentState G a k p ch = (Inl e, ch)) \<and> (\<exists>e. adapter_SettleContract G a k p ch = (Inl e, ch))
    \<and> (\<exists>e. adapter_DisputeFailure G a k p ch = (Inl e, ch))"
proof -
  have inv: "bridge_inv ed_sign key b" using assms(3) by (rule bridge_sys.inv_reach)
  obtain d' where "DispatchAvailabilityResult ed_sign now_c now_d r (cb_dispatcher b) = (Inr out, d')"
    using assms(4) by (auto simp: bridge_Dispatch_def split: prod.splits)
  then have "length (ps_PublisherSignature p) = 64"
  proof (cases rule: Dispatch_ok)
    case (pass sc q c)
    from pass(4) obtain st where "SignPaymentState ed_sign st key = Inr q"
      using inv by (auto simp: bridge_inv_def Ed25519Signer_Sign_def elim!: CreateAndSign_ok)
    with pass(5) assms(5) ed25519_correctD(3) [OF assms(1,2)] show ?thesis by (auto simp: SignPaymentState_def split: if_splits)
  next
    case (fail sc f)
    with assms(5) show ?thesis by simp
  qed
  then have "\<exists>e. with_voucher G m a k p ch = (Inl e, ch)" for m
    by (auto simp: with_voucher_def convertPaymentStateToSolidity_def Let_def split: option.splits)
  then show ?thesis
    by (simp_all add: adapter_SubmitPaymentState_def adapter_SettleContract_def adapter_DisputeFailure_def)
qed

theorem bridge_vouchers_refused_by_adapter_witness:
  "\<exists>b out b' p e. reach (bridge_init plain_sign (replicate 64 3)) (bridge_step plain_sign id_String id_String) (b :: nat CoordinatorBridge)
     \<and> bridge_Dispatch plain_sign 0 0 (example_result ''c1'' AvailabilityPass) b = (Inr out, b')
     \<and> dr_PaymentState out = Some p
     \<and> adapter_SubmitPaymentState example_geth (Some (escrow_adapter example_evm 22)) (ps_ContractID p) p
          \<lparr>cn_escrow = example_active, cn_blocks = [1000]\<rparr> = (Inl e, \<lparr>cn_escrow = example_active, cn_blocks = [1000]\<rparr>)"
proof (rule example_bridge_reach)
  fix b out b' p
  assume b: "reach (bridge_init plain_sign (replicate 64 3)) (bridge_step plain_sign id_String id_String) (b :: nat CoordinatorBridge)"
    "bridge_Dispatch plain_sign 0 0 (example_result ''c1'' AvailabilityPass) b = (Inr out, b')" "dr_PaymentState out = Some p"
  with bridge_vouchers_refused_by_adapter [OF plain_correct _ b, of example_geth "Some (escrow_adapter example_evm 22)"
      "ps_ContractID p" "\<lparr>cn_escrow = example_active, cn_blocks = [1000]\<rparr>"]
  show ?thesis by (auto simp del: replicate.simps)
qed

end
