(* ===== verification/Scheduler.thy ===== *)
theory Scheduler
  imports ChunkExchange Distribution
begin

text \<open>
  The scheduler of downloads from several providers, \<open>network/transfer/scheduler\<close>: \<open>queue.go\<close>, \<open>worker.go\<close> and
  \<open>scheduler.go\<close>. One goroutine for each connected source works off a shared queue and reports through a buffered channel to
  the loop of \<open>Run\<close>. A goroutine is a program counter with its client; every access to the queue, the channel, the network or the
  store is one step, and any interleaving of steps is possible. How a client fetches a chunk is an argument, which
  \<open>client_fetch\<close> instantiates with \<open>FetchChunk\<close>. Times are not modelled.
\<close>

section \<open>The queue\<close>

record ChunkTask =
  ct_Index :: int
  ct_ChunkID :: ChunkID
  ct_Attempts :: int
  ct_MissedPeers :: "peerID set"

type_synonym ChunkQueue = "ChunkTask list"

definition NewChunkQueue :: "ChunkTask list \<Rightarrow> ChunkQueue" where
  "NewChunkQueue tasks = tasks"

definition queue_Next :: "ChunkQueue \<Rightarrow> ChunkTask option \<times> ChunkQueue" where
  "queue_Next q = (case q of [] \<Rightarrow> (None, []) | t # ts \<Rightarrow> (Some t, ts))"

definition queue_Push :: "ChunkTask \<Rightarrow> ChunkQueue \<Rightarrow> ChunkQueue" where
  "queue_Push t q = q @ [t]"

section \<open>Workers\<close>

type_synonym fetch_error = "storage_error client_error"

datatype result_error =
    WorkerDone
  | FetchError fetch_error
  | PutError storage_error

record WorkerResult =
  res_Task :: ChunkTask
  res_Error :: "result_error option"
  res_PeerID :: peerID
  res_BytesTransferred :: int

definition zero_task :: ChunkTask where
  "zero_task = \<lparr>ct_Index = 0, ct_ChunkID = replicate 32 0, ct_Attempts = 0, ct_MissedPeers = {}\<rparr>"

definition worker_done :: WorkerResult where
  "worker_done = \<lparr>res_Task = zero_task, res_Error = Some WorkerDone, res_PeerID = [], res_BytesTransferred = 0\<rparr>"

text \<open>Where a worker is: before \<open>queue.Next\<close>, waiting after it put a task back, before \<open>FetchChunk\<close>, before
  \<open>PutChunk\<close>, before it sends a result, before it sends \<open>worker_done\<close>, or finished.\<close>

datatype worker_pc =
    AtNext
  | Yielding
  | Fetching ChunkTask
  | Storing ChunkTask Chunk
  | Reporting WorkerResult
  | Leaving
  | Exited

record 'c worker =
  wk_peer :: peerID
  wk_client :: 'c
  wk_pc :: worker_pc

datatype run_error =
    NoActiveWorkers
  | ContextDone
  | NotFoundAnywhere ChunkID
  | FailedAfterAttempts ChunkID result_error
  | AllWorkersDied int

text \<open>The state of a run: the shared queue, the channel of results, the workers, the store of the engine, the state behind the ticket
  generator, the context, and the variables of the loop with what it has sent to \<open>completions\<close> and, once it has, what it has
  returned.\<close>

record ('c, 'g) run =
  rn_queue :: ChunkQueue
  rn_results :: "WorkerResult list"
  rn_workers :: "'c worker list"
  rn_store :: FSStorage
  rn_tickets :: 'g
  rn_cancelled :: bool
  rn_completions :: "WorkerResult list"
  rn_pending :: int
  rn_active :: int
  rn_return :: "(run_error option) option"

definition result_of :: "'c worker \<Rightarrow> ChunkTask \<Rightarrow> result_error option \<Rightarrow> int \<Rightarrow> WorkerResult" where
  "result_of w t e n = \<lparr>res_Task = t, res_Error = e, res_PeerID = wk_peer w, res_BytesTransferred = n\<rparr>"

text \<open>The next action of a worker; \<open>None\<close> when it waits for room in the channel or has finished.\<close>

definition runWorker ::
    "(ChunkID \<Rightarrow> 'c \<times> 'g \<Rightarrow> (fetch_error + Chunk) \<times> ('c \<times> 'g)) \<Rightarrow> nat \<Rightarrow> 'c worker \<Rightarrow> ('c, 'g) run
     \<Rightarrow> ('c worker \<times> ('c, 'g) run) option" where
  "runWorker fetch cap w s = (case wk_pc w of
     AtNext \<Rightarrow>
       (case queue_Next (rn_queue s) of
          (None, q) \<Rightarrow> Some (w\<lparr>wk_pc := Leaving\<rparr>, s)
        | (Some task, q) \<Rightarrow>
            if wk_peer w \<in> ct_MissedPeers task
            then Some (w\<lparr>wk_pc := Yielding\<rparr>, s\<lparr>rn_queue := queue_Push task q\<rparr>)
            else Some (w\<lparr>wk_pc := Fetching task\<rparr>, s\<lparr>rn_queue := q\<rparr>))
   | Yielding \<Rightarrow> Some (w\<lparr>wk_pc := if rn_cancelled s then Leaving else AtNext\<rparr>, s)
   | Fetching task \<Rightarrow>
       (case fetch (ct_ChunkID task) (wk_client w, rn_tickets s) of
          (Inl e, (c, g)) \<Rightarrow>
            Some (w\<lparr>wk_client := c, wk_pc := Reporting (result_of w task (Some (FetchError e)) 0)\<rparr>, s\<lparr>rn_tickets := g\<rparr>)
        | (Inr chunkData, (c, g)) \<Rightarrow> Some (w\<lparr>wk_client := c, wk_pc := Storing task chunkData\<rparr>, s\<lparr>rn_tickets := g\<rparr>))
   | Storing task chunkData \<Rightarrow>
       (case PutChunk chunkData (rn_store s) of
          (Inl e, st) \<Rightarrow> Some (w\<lparr>wk_pc := Reporting (result_of w task (Some (PutError e)) 0)\<rparr>, s\<lparr>rn_store := st\<rparr>)
        | (Inr _, st) \<Rightarrow>
            Some (w\<lparr>wk_pc := Reporting (result_of w task None (int (length (ck_Data chunkData))))\<rparr>, s\<lparr>rn_store := st\<rparr>))
   | Reporting r \<Rightarrow>
       if cap \<le> length (rn_results s) then None
       else Some (w\<lparr>wk_pc := AtNext\<rparr>, s\<lparr>rn_results := rn_results s @ [r]\<rparr>)
   | Leaving \<Rightarrow>
       if cap \<le> length (rn_results s) then None
       else Some (w\<lparr>wk_pc := Exited\<rparr>, s\<lparr>rn_results := rn_results s @ [worker_done]\<rparr>)
   | Exited \<Rightarrow> None)"

text \<open>The client of the chunk protocol as a worker uses it.\<close>

definition client_fetch ::
    "('tk \<Rightarrow> string + bytes) \<Rightarrow> (ChunkID \<Rightarrow> 'g \<Rightarrow> (string + 'tk option) \<times> 'g) option
     \<Rightarrow> ChunkID \<Rightarrow> stream \<times> 'g \<Rightarrow> (fetch_error + Chunk) \<times> (stream \<times> 'g)" where
  "client_fetch marshal gen chunkID cg =
     (case FetchChunk marshal gen chunkID \<lparr>cl_engine = (), cl_tickets = snd cg, cl_stream = fst cg\<rparr> of
        (r, c) \<Rightarrow> (r, (cl_stream c, cl_tickets c)))"

section \<open>The loop\<close>

record Source =
  so_PeerID :: peerID
  so_Available :: "ChunkID set option"

text \<open>The condition of the loop, and the result of \<open>Run\<close> once it fails.\<close>

definition loop_check :: "('c, 'g) run \<Rightarrow> ('c, 'g) run" where
  "loop_check s =
     (if 0 < rn_pending s \<and> 0 < rn_active s then s
      else s\<lparr>rn_return := Some (if 0 < rn_pending s then Some (AllWorkersDied (rn_pending s)) else None)\<rparr>)"

definition handle_result :: "int \<Rightarrow> nat \<Rightarrow> WorkerResult \<Rightarrow> ('c, 'g) run \<Rightarrow> ('c, 'g) run" where
  "handle_result maxAttempts nsources res s = (case res_Error res of
     None \<Rightarrow> loop_check (s\<lparr>rn_completions := rn_completions s @ [res], rn_pending := rn_pending s - 1\<rparr>)
   | Some WorkerDone \<Rightarrow> loop_check (s\<lparr>rn_active := rn_active s - 1\<rparr>)
   | Some e \<Rightarrow>
       if e = FetchError ErrRemoteChunkNotFound
       then
         let t = (res_Task res)\<lparr>ct_MissedPeers := insert (res_PeerID res) (ct_MissedPeers (res_Task res))\<rparr> in
         if card (ct_MissedPeers t) < nsources then loop_check (s\<lparr>rn_queue := queue_Push t (rn_queue s)\<rparr>)
         else s\<lparr>rn_return := Some (Some (NotFoundAnywhere (ct_ChunkID t)))\<rparr>
       else
         let t = (res_Task res)\<lparr>ct_Attempts := ct_Attempts (res_Task res) + 1\<rparr> in
         if ct_Attempts t < maxAttempts then loop_check (s\<lparr>rn_queue := queue_Push t (rn_queue s)\<rparr>)
         else s\<lparr>rn_return := Some (Some (FailedAfterAttempts (ct_ChunkID t) e))\<rparr>)"

text \<open>The beginning of \<open>Run\<close>: \<open>connect\<close> gives the client for a source, or none if the connection fails.\<close>

definition run_start ::
    "(peerID \<Rightarrow> 'c option) \<Rightarrow> ChunkTask list \<Rightarrow> Source list \<Rightarrow> FSStorage \<Rightarrow> 'g \<Rightarrow> run_error + ('c, 'g) run" where
  "run_start connect tasks sources store g =
     (let workers = List.map_filter (\<lambda>src. map_option (\<lambda>c. \<lparr>wk_peer = so_PeerID src, wk_client = c, wk_pc = AtNext\<rparr>)
            (connect (so_PeerID src))) sources
      in if workers = [] then Inl NoActiveWorkers
         else Inr (loop_check \<lparr>rn_queue = NewChunkQueue tasks, rn_results = [], rn_workers = workers, rn_store = store, rn_tickets = g,
                rn_cancelled = False, rn_completions = [], rn_pending = int (length tasks), rn_active = int (length workers),
                rn_return = None\<rparr>))"

text \<open>Steps of a run with \<open>n\<close> sources: the channel has room for twice as many results. Workers that are left behind when \<open>Run\<close>
  returns go on. A worker that waits may go on when its timer fires even if the context is cancelled: the \<open>select\<close> then has two
  cases that are ready.\<close>

inductive sched_step ::
    "(ChunkID \<Rightarrow> 'c \<times> 'g \<Rightarrow> (fetch_error + Chunk) \<times> ('c \<times> 'g)) \<Rightarrow> int \<Rightarrow> nat \<Rightarrow> ('c, 'g) run \<Rightarrow> ('c, 'g) run \<Rightarrow> bool"
  for fetch maxAttempts n where
  ss_worker: "i < length (rn_workers s) \<Longrightarrow> runWorker fetch (2 * n) (rn_workers s ! i) s = Some (w, s') \<Longrightarrow>
    sched_step fetch maxAttempts n s (s'\<lparr>rn_workers := (rn_workers s)[i := w]\<rparr>)"
| ss_timer: "i < length (rn_workers s) \<Longrightarrow> wk_pc (rn_workers s ! i) = Yielding \<Longrightarrow>
    sched_step fetch maxAttempts n s (s\<lparr>rn_workers := (rn_workers s)[i := (rn_workers s ! i)\<lparr>wk_pc := AtNext\<rparr>]\<rparr>)"
| ss_main: "rn_return s = None \<Longrightarrow> rn_results s = res # rest \<Longrightarrow>
    sched_step fetch maxAttempts n s (handle_result maxAttempts n res (s\<lparr>rn_results := rest\<rparr>))"

text \<open>The context may be cancelled at any time, which the loop may notice.\<close>

inductive cancel_step :: "('c, 'g) run \<Rightarrow> ('c, 'g) run \<Rightarrow> bool" where
  cs_cancel: "cancel_step s (s\<lparr>rn_cancelled := True\<rparr>)"
| cs_main: "rn_return s = None \<Longrightarrow> rn_cancelled s \<Longrightarrow> cancel_step s (s\<lparr>rn_return := Some (Some ContextDone)\<rparr>)"

definition any_step ::
    "(ChunkID \<Rightarrow> 'c \<times> 'g \<Rightarrow> (fetch_error + Chunk) \<times> ('c \<times> 'g)) \<Rightarrow> int \<Rightarrow> nat \<Rightarrow> ('c, 'g) run \<Rightarrow> ('c, 'g) run \<Rightarrow> bool" where
  "any_step fetch maxAttempts n s t \<longleftrightarrow> sched_step fetch maxAttempts n s t \<or> cancel_step s t"

end
