(* ===== verification/SchedulerRuns.thy ===== *)
theory SchedulerRuns
  imports Scheduler "HOL-Library.Multiset"
begin

text \<open>
  Runs of the scheduler under every interleaving: no task is lost or done twice, what is reported as done is in the store, the
  loop never waits for a worker that will not answer, and with sources that answer every request it returns after a bounded
  number of steps.
\<close>

section \<open>Where the tasks are\<close>

definition task_key :: "ChunkTask \<Rightarrow> int \<times> ChunkID" where
  "task_key t = (ct_Index t, ct_ChunkID t)"

definition res_keys :: "WorkerResult \<Rightarrow> (int \<times> ChunkID) multiset" where
  "res_keys r = (if res_Error r = Some WorkerDone then {#} else {#task_key (res_Task r)#})"

definition pc_keys :: "worker_pc \<Rightarrow> (int \<times> ChunkID) multiset" where
  "pc_keys p = (case p of Fetching t \<Rightarrow> {#task_key t#} | Storing t _ \<Rightarrow> {#task_key t#} | Reporting r \<Rightarrow> res_keys r | _ \<Rightarrow> {#})"

definition all_keys :: "('c, 'g) run \<Rightarrow> (int \<times> ChunkID) multiset" where
  "all_keys s = mset (map task_key (rn_queue s)) + sum_list (map (\<lambda>w. pc_keys (wk_pc w)) (rn_workers s))
     + sum_list (map res_keys (rn_results s)) + mset (map (\<lambda>r. task_key (res_Task r)) (rn_completions s))"

definition alive :: "'c worker \<Rightarrow> nat" where
  "alive w = (if wk_pc w = Exited then 0 else 1)"

definition is_done :: "WorkerResult \<Rightarrow> nat" where
  "is_done r = (if res_Error r = Some WorkerDone then 1 else 0)"

text \<open>The variables of the loop agree with the rest of the state.\<close>

definition loop_inv :: "nat \<Rightarrow> ('c, 'g) run \<Rightarrow> bool" where
  "loop_inv ntasks s \<longleftrightarrow> rn_pending s = int ntasks - int (length (rn_completions s))
     \<and> (rn_return s = None \<longrightarrow> 0 < rn_pending s \<and> 0 < rn_active s
          \<and> rn_active s = int (sum_list (map alive (rn_workers s)) + sum_list (map is_done (rn_results s))))
     \<and> (rn_return s = Some None \<longrightarrow> rn_pending s \<le> 0)"

definition failed :: "('c, 'g) run \<Rightarrow> bool" where
  "failed s \<longleftrightarrow> (\<exists>e. rn_return s = Some (Some e))"

definition keys_inv :: "ChunkTask list \<Rightarrow> ('c, 'g) run \<Rightarrow> bool" where
  "keys_inv tasks s \<longleftrightarrow> (\<not> failed s \<longrightarrow> all_keys s = mset (map task_key tasks))
     \<and> (\<forall>w \<in> set (rn_workers s). \<forall>r. wk_pc w = Reporting r \<longrightarrow> res_Error r \<noteq> Some WorkerDone)"

text \<open>What is reported as done is in the store, which holds only chunks whose data hash to their ID.\<close>

definition pc_stored :: "FSStorage \<Rightarrow> worker_pc \<Rightarrow> bool" where
  "pc_stored st p = (case p of
     Storing t ch \<Rightarrow> sha256 (ck_Data ch) = ct_ChunkID t \<and> hd_ID (ck_Header ch) = ct_ChunkID t \<and> header_wf (ck_Header ch)
   | Reporting r \<Rightarrow> res_Error r = None \<longrightarrow> holds_chunk st (ct_ChunkID (res_Task r))
   | _ \<Rightarrow> True)"

definition fetched_inv :: "('c, 'g) run \<Rightarrow> bool" where
  "fetched_inv s \<longleftrightarrow> cas_files (rn_store s) \<and> (\<forall>w \<in> set (rn_workers s). pc_stored (rn_store s) (wk_pc w))
     \<and> (\<forall>r \<in> set (rn_results s). res_Error r = None \<longrightarrow> holds_chunk (rn_store s) (ct_ChunkID (res_Task r)))
     \<and> (\<forall>r \<in> set (rn_completions s). res_Error r = None \<and> holds_chunk (rn_store s) (ct_ChunkID (res_Task r)))"

section \<open>Steps\<close>

lemma sum_list_update_cancel:
  fixes f :: "'a \<Rightarrow> 'b :: comm_monoid_add"
  shows "i < length xs \<Longrightarrow> sum_list (map f (xs[i := y])) + f (xs ! i) = sum_list (map f xs) + f y"
proof (induction xs arbitrary: i)
  case (Cons x xs)
  then show ?case by (cases i) (simp_all add: ac_simps)
qed simp

lemma exchange_cancel:
  fixes A :: "'a multiset"
  assumes "A + p = B + q" and "Q' + q + R' = Q + p + R"
  shows "Q' + A + R' = Q + B + R"
proof (rule multiset_eqI)
  fix x
  have "count A x + count p x = count B x + count q x" using arg_cong [OF assms(1), of "\<lambda>m. count m x"] by simp
  moreover have "count Q' x + count q x + count R' x = count Q x + count p x + count R x"
    using arg_cong [OF assms(2), of "\<lambda>m. count m x"] by simp
  ultimately show "count (Q' + A + R') x = count (Q + B + R) x" by simp
qed

lemma loop_check_simps [simp]:
  "rn_queue (loop_check s) = rn_queue s" "rn_results (loop_check s) = rn_results s" "rn_workers (loop_check s) = rn_workers s"
  "rn_store (loop_check s) = rn_store s" "rn_completions (loop_check s) = rn_completions s" "rn_pending (loop_check s) = rn_pending s"
  "rn_active (loop_check s) = rn_active s" "all_keys (loop_check s) = all_keys s" "rn_tickets (loop_check s) = rn_tickets s"
  "rn_cancelled (loop_check s) = rn_cancelled s"
  by (simp_all add: loop_check_def all_keys_def)

lemma result_of_simps [simp]: "res_Task (result_of w t e n) = t" "res_Error (result_of w t e n) = e" "res_PeerID (result_of w t e n) = wk_peer w"
  by (simp_all add: result_of_def)

lemma worker_done_simps [simp]: "res_Error worker_done = Some WorkerDone" "res_keys worker_done = {#}" "is_done worker_done = 1"
  by (simp_all add: worker_done_def res_keys_def is_done_def)

lemmas worker_defs = runWorker_def queue_Next_def queue_Push_def

text \<open>A worker changes only the shared queue, channel, store and tickets.\<close>

lemma runWorker_frame:
  "runWorker fetch cap w s = Some (w', s') \<Longrightarrow> rn_workers s' = rn_workers s \<and> rn_completions s' = rn_completions s
     \<and> rn_pending s' = rn_pending s \<and> rn_active s' = rn_active s \<and> rn_return s' = rn_return s \<and> rn_cancelled s' = rn_cancelled s"
  by (auto simp: worker_defs split: worker_pc.splits list.splits if_splits prod.splits sum.splits)

lemma runWorker_alive:
  "runWorker fetch cap w s = Some (w', s') \<Longrightarrow> \<forall>r. wk_pc w = Reporting r \<longrightarrow> res_Error r \<noteq> Some WorkerDone \<Longrightarrow>
   alive w + sum_list (map is_done (rn_results s)) = alive w' + sum_list (map is_done (rn_results s'))"
  by (auto simp: worker_defs alive_def is_done_def split: worker_pc.splits list.splits if_splits prod.splits sum.splits)

lemma runWorker_keys:
  "runWorker fetch cap w s = Some (w', s') \<Longrightarrow>
   mset (map task_key (rn_queue s')) + pc_keys (wk_pc w') + sum_list (map res_keys (rn_results s'))
     = mset (map task_key (rn_queue s)) + pc_keys (wk_pc w) + sum_list (map res_keys (rn_results s))"
  by (auto simp: worker_defs pc_keys_def res_keys_def split: worker_pc.splits list.splits if_splits prod.splits sum.splits)

lemma runWorker_reporting:
  "runWorker fetch cap w s = Some (w', s') \<Longrightarrow> wk_pc w' = Reporting r \<Longrightarrow> res_Error r \<noteq> Some WorkerDone"
  by (auto simp: worker_defs split: worker_pc.splits list.splits if_splits prod.splits sum.splits)

lemma handle_result_frame [simp]:
  "rn_workers (handle_result m n r s) = rn_workers s" "rn_results (handle_result m n r s) = rn_results s"
  "rn_store (handle_result m n r s) = rn_store s"
  by (simp_all add: handle_result_def Let_def split: option.splits result_error.splits)

lemma loop_inv_worker:
  assumes "loop_inv k s" and "keys_inv tasks s" and "i < length (rn_workers s)" and "runWorker fetch cap (rn_workers s ! i) s = Some (w, s')"
  shows "loop_inv k (s'\<lparr>rn_workers := (rn_workers s)[i := w]\<rparr>)"
proof -
  have "rn_workers s ! i \<in> set (rn_workers s)" using assms(3) by simp
  then have "alive (rn_workers s ! i) + sum_list (map is_done (rn_results s)) = alive w + sum_list (map is_done (rn_results s'))"
    using assms(2) by (intro runWorker_alive [OF assms(4)]) (auto simp: keys_inv_def)
  with sum_list_update_cancel [OF assms(3), of alive w]
  have "sum_list (map alive ((rn_workers s)[i := w])) + sum_list (map is_done (rn_results s'))
    = sum_list (map alive (rn_workers s)) + sum_list (map is_done (rn_results s))" by linarith
  then show ?thesis using assms(1) runWorker_frame [OF assms(4)] by (auto simp: loop_inv_def simp del: of_nat_add)
qed

lemma loop_inv_main:
  assumes "loop_inv k s" and "rn_return s = None" and "rn_results s = r # rest"
  shows "loop_inv k (handle_result m n r (s\<lparr>rn_results := rest\<rparr>))"
  using assms
  by (auto simp: loop_inv_def handle_result_def loop_check_def is_done_def Let_def split: option.splits result_error.splits if_splits)

lemma keys_inv_worker:
  assumes "keys_inv tasks s" and "i < length (rn_workers s)" and "runWorker fetch cap (rn_workers s ! i) s = Some (w, s')"
  shows "keys_inv tasks (s'\<lparr>rn_workers := (rn_workers s)[i := w]\<rparr>)"
proof -
  have "sum_list (map (\<lambda>w. pc_keys (wk_pc w)) ((rn_workers s)[i := w])) + pc_keys (wk_pc (rn_workers s ! i))
      = sum_list (map (\<lambda>w. pc_keys (wk_pc w)) (rn_workers s)) + pc_keys (wk_pc w)"
    by (rule sum_list_update_cancel [OF assms(2)])
  from exchange_cancel [OF this runWorker_keys [OF assms(3)]] runWorker_frame [OF assms(3)]
  have "all_keys (s'\<lparr>rn_workers := (rn_workers s)[i := w]\<rparr>) = all_keys s" by (simp add: all_keys_def)
  moreover have "\<forall>v \<in> set ((rn_workers s)[i := w]). \<forall>r. wk_pc v = Reporting r \<longrightarrow> res_Error r \<noteq> Some WorkerDone"
    using assms(1) runWorker_reporting [OF assms(3)] set_update_subset_insert [of "rn_workers s" i w]
    by (auto simp: keys_inv_def)
  ultimately show ?thesis using assms(1) runWorker_frame [OF assms(3)] by (simp add: keys_inv_def failed_def)
qed

lemma keys_inv_main:
  assumes "keys_inv tasks s" and "rn_return s = None" and "rn_results s = r # rest"
  shows "keys_inv tasks (handle_result m n r (s\<lparr>rn_results := rest\<rparr>))"
  using assms
  by (auto simp: keys_inv_def failed_def handle_result_def all_keys_def res_keys_def queue_Push_def task_key_def Let_def
      split: option.splits result_error.splits if_splits)

section \<open>The interface of a client\<close>

text \<open>A fetched chunk is the one that was asked for. \<open>FetchChunk\<close> checks it, whatever the provider sends.\<close>

locale chunk_fetcher =
  fixes fetch :: "ChunkID \<Rightarrow> 'c \<times> 'g \<Rightarrow> (fetch_error + Chunk) \<times> ('c \<times> 'g)"
  assumes fetched: "fetch i c = (Inr ch, c') \<Longrightarrow> sha256 (ck_Data ch) = i \<and> hd_ID (ck_Header ch) = i \<and> header_wf (ck_Header ch)"
begin

lemma runWorker_stored:
  assumes "runWorker fetch cap w s = Some (w', s')" and "cas_files (rn_store s)" and "pc_stored (rn_store s) (wk_pc w)"
  shows "cas_files (rn_store s')" and "holds_chunk (rn_store s) i \<Longrightarrow> holds_chunk (rn_store s') i"
    and "pc_stored (rn_store s') (wk_pc w')"
    and "r \<in> set (rn_results s') \<Longrightarrow> r \<in> set (rn_results s) \<or> wk_pc w = Reporting r \<or> r = worker_done"
proof -
  have put: "cas_files st \<and> (holds_chunk (rn_store s) i \<longrightarrow> holds_chunk st i) \<and> (x = Inr u \<longrightarrow> holds_chunk st (ct_ChunkID t))"
    if "wk_pc w = Storing t ch" "PutChunk ch (rn_store s) = (x, st)" for t ch x u st
    using that assms(2,3) fs_addressed.put_good [of "rn_store s" ch x st] holds_chunk_put [OF that(2)]
    by (auto simp: pc_stored_def)
  show "cas_files (rn_store s')" "holds_chunk (rn_store s) i \<Longrightarrow> holds_chunk (rn_store s') i"
    using assms(1,2) put by (auto simp: worker_defs split: worker_pc.splits list.splits if_splits prod.splits sum.splits)
  show "pc_stored (rn_store s') (wk_pc w')"
    using assms(1,3) put fetched
    by (auto simp: worker_defs pc_stored_def split: worker_pc.splits list.splits if_splits prod.splits sum.splits)
  show "r \<in> set (rn_results s') \<Longrightarrow> r \<in> set (rn_results s) \<or> wk_pc w = Reporting r \<or> r = worker_done"
    using assms(1) by (auto simp: worker_defs split: worker_pc.splits list.splits if_splits prod.splits sum.splits)
qed

lemma pc_stored_mono: "(\<And>i. holds_chunk st i \<Longrightarrow> holds_chunk st' i) \<Longrightarrow> pc_stored st p \<Longrightarrow> pc_stored st' p"
  by (auto simp: pc_stored_def split: worker_pc.splits)

lemma fetched_inv_worker:
  assumes "fetched_inv s" and "i < length (rn_workers s)" and "runWorker fetch cap (rn_workers s ! i) s = Some (w, s')"
  shows "fetched_inv (s'\<lparr>rn_workers := (rn_workers s)[i := w]\<rparr>)"
proof -
  have "rn_workers s ! i \<in> set (rn_workers s)" using assms(2) by simp
  then have st: "cas_files (rn_store s)" "pc_stored (rn_store s) (wk_pc (rn_workers s ! i))" using assms(1) by (simp_all add: fetched_inv_def)
  note w = runWorker_stored [OF assms(3) st]
  have "pc_stored (rn_store s') (wk_pc v)" if "v \<in> set ((rn_workers s)[i := w])" for v
    using that set_update_subset_insert [of "rn_workers s" i w] w(2,3) assms(1) pc_stored_mono [of "rn_store s" "rn_store s'"]
    by (auto simp: fetched_inv_def)
  moreover have "holds_chunk (rn_store s') (ct_ChunkID (res_Task r))" if "r \<in> set (rn_results s')" "res_Error r = None" for r
    using w(4) [OF that(1)] that(2) w(2) assms(1) st(2) by (auto simp: fetched_inv_def pc_stored_def)
  ultimately show ?thesis using w(1,2) assms(1) runWorker_frame [OF assms(3)] by (auto simp: fetched_inv_def)
qed

end

lemma fetched_inv_main:
  assumes "fetched_inv s" and "rn_results s = r # rest"
  shows "fetched_inv (handle_result m n r (s\<lparr>rn_results := rest\<rparr>))"
  using assms by (auto simp: fetched_inv_def handle_result_def Let_def split: option.splits result_error.splits)

interpretation client: chunk_fetcher "client_fetch marshal gen" for marshal gen
proof
  fix i c ch c'
  assume "client_fetch marshal gen i c = (Inr ch, c')"
  then show "sha256 (ck_Data ch) = i \<and> hd_ID (ck_Header ch) = i \<and> header_wf (ck_Header ch)"
    by (auto simp: client_fetch_def split: prod.splits dest: FetchChunk_ok)
qed

section \<open>Invariants of runs\<close>

definition run_inv :: "ChunkTask list \<Rightarrow> ('c, 'g) run \<Rightarrow> bool" where
  "run_inv tasks s \<longleftrightarrow> loop_inv (length tasks) s \<and> keys_inv tasks s \<and> fetched_inv s"

definition sched_init :: "nat \<Rightarrow> ChunkTask list \<Rightarrow> ('c, 'g) run \<Rightarrow> bool" where
  "sched_init n tasks s \<longleftrightarrow> (\<exists>connect sources store g. length sources = n \<and> cas_files store
     \<and> run_start connect tasks sources store g = Inr s)"

lemma run_start_ok:
  assumes "run_start connect tasks sources store g = Inr s"
  shows "\<forall>w \<in> set (rn_workers s). wk_pc w = AtNext" and "rn_workers s \<noteq> []" and "length (rn_workers s) \<le> length sources"
    and "rn_queue s = tasks" and "rn_results s = []" and "rn_completions s = []" and "rn_store s = store"
    and "rn_pending s = int (length tasks)" and "rn_active s = int (length (rn_workers s))"
    and "rn_return s = (if tasks = [] then Some None else None)"
  using assms length_filter_le
  by (auto simp: run_start_def map_filter_def loop_check_def NewChunkQueue_def Let_def split: if_splits)

lemma sum_list_const: "\<forall>x \<in> set xs. f x = (c :: nat) \<Longrightarrow> sum_list (map f xs) = length xs * c"
  by (induction xs) simp_all

lemma sum_list_empty: "\<forall>x \<in> set xs. f x = {#} \<Longrightarrow> sum_list (map f xs) = {#}"
  by (induction xs) simp_all

lemma run_inv_start:
  assumes "sched_init n tasks s"
  shows "run_inv tasks s"
proof -
  obtain connect sources store g where s: "run_start connect tasks sources store g = Inr s" "cas_files store"
    using assms by (auto simp: sched_init_def)
  note ok = run_start_ok [OF s(1)]
  have "sum_list (map alive (rn_workers s)) = length (rn_workers s)"
    using sum_list_const [of "rn_workers s" alive 1] ok(1) by (simp add: alive_def)
  moreover have "sum_list (map (\<lambda>w. pc_keys (wk_pc w)) (rn_workers s)) = {#}"
    using ok(1) by (intro sum_list_empty) (simp add: pc_keys_def)
  ultimately show ?thesis
    using ok s(2) by (auto simp: run_inv_def loop_inv_def keys_inv_def fetched_inv_def all_keys_def pc_stored_def)
qed

lemma run_inv_cancel: "run_inv tasks s \<Longrightarrow> cancel_step s t \<Longrightarrow> run_inv tasks t"
  by (erule cancel_step.cases) (auto simp: run_inv_def loop_inv_def keys_inv_def fetched_inv_def failed_def all_keys_def)

lemma run_inv_cancelled [simp]: "run_inv tasks (s\<lparr>rn_cancelled := b\<rparr>) = run_inv tasks s"
  unfolding run_inv_def loop_inv_def keys_inv_def fetched_inv_def failed_def all_keys_def by simp

context chunk_fetcher
begin

lemma run_inv_timer:
  fixes s :: "('c, 'g) run"
  assumes "run_inv tasks s" and "i < length (rn_workers s)" and "wk_pc (rn_workers s ! i) = Yielding"
  shows "run_inv tasks (s\<lparr>rn_workers := (rn_workers s)[i := (rn_workers s ! i)\<lparr>wk_pc := AtNext\<rparr>]\<rparr>)"
proof -
  let ?u = "s\<lparr>rn_cancelled := False\<rparr>"
  have "runWorker fetch 0 (rn_workers ?u ! i) ?u = Some ((rn_workers s ! i)\<lparr>wk_pc := AtNext\<rparr>, ?u)"
    using assms(3) by (simp add: runWorker_def)
  moreover have "run_inv tasks ?u" using assms(1) by simp
  ultimately have "run_inv tasks (?u\<lparr>rn_workers := (rn_workers s)[i := (rn_workers s ! i)\<lparr>wk_pc := AtNext\<rparr>]\<rparr>)"
    using assms(2) loop_inv_worker [of _ ?u] keys_inv_worker [of _ ?u] fetched_inv_worker [of ?u] by (fastforce simp: run_inv_def)
  moreover have "?u\<lparr>rn_workers := x\<rparr> = s\<lparr>rn_workers := x\<rparr>\<lparr>rn_cancelled := False\<rparr>" for x by simp
  ultimately show ?thesis by (metis run_inv_cancelled)
qed

lemma run_inv_step: "run_inv tasks s \<Longrightarrow> sched_step fetch m n s t \<Longrightarrow> run_inv tasks t"
  by (erule sched_step.cases)
    (auto simp: run_inv_timer, auto simp: run_inv_def intro: loop_inv_worker keys_inv_worker fetched_inv_worker loop_inv_main keys_inv_main fetched_inv_main)

end

context chunk_fetcher
begin

lemma step_holds:
  assumes "run_inv tasks s" and "any_step fetch m n s t" and "holds_chunk (rn_store s) i"
  shows "holds_chunk (rn_store t) i"
  using assms(2) unfolding any_step_def
proof
  assume "sched_step fetch m n s t"
  then show ?thesis
  proof cases
    case (ss_worker j w s')
    have "rn_workers s ! j \<in> set (rn_workers s)" using ss_worker(2) by simp
    then show ?thesis using runWorker_stored(2) [OF ss_worker(3)] assms(1,3) ss_worker(1) by (simp add: run_inv_def fetched_inv_def)
  qed (use assms(3) in simp_all)
qed (use assms(3) in \<open>auto elim: cancel_step.cases\<close>)

lemma run_holds:
  assumes "run_inv tasks s" and "(any_step fetch m n)\<^sup>*\<^sup>* s t" and "holds_chunk (rn_store s) i"
  shows "holds_chunk (rn_store t) i"
  using assms(2)
proof (induction rule: rtranclp_induct)
  case base
  show ?case by (rule assms(3))
next
  case (step t u)
  have "run_inv tasks t"
    using step(1) assms(1) by (induction rule: rtranclp_induct) (auto simp: any_step_def intro: run_inv_step run_inv_cancel)
  with step show ?case by (blast intro: step_holds)
qed

end

sublocale chunk_fetcher \<subseteq> runs: invariant_system "sched_init n tasks" "any_step fetch m n" "run_inv tasks" for n tasks m
  by unfold_locales (auto simp: any_step_def intro: run_inv_start run_inv_step run_inv_cancel)

text \<open>A run that is not over can go on without outside help.\<close>

lemma run_enabled:
  assumes "loop_inv k s" and "rn_return s = None" and "0 < n"
  shows "\<exists>t. sched_step fetch m n s t"
proof (cases "rn_results s")
  case (Cons r rest)
  then show ?thesis using assms(2) by (blast intro: ss_main)
next
  case Nil
  have "0 < int (sum_list (map alive (rn_workers s)))" using assms(1,2) Nil unfolding loop_inv_def by simp
  then have "\<not> (\<forall>w \<in> set (rn_workers s). alive w = 0)"
    using sum_list_const [of "rn_workers s" alive 0] by linarith
  then obtain w where "w \<in> set (rn_workers s)" "wk_pc w \<noteq> Exited" by (auto simp: alive_def split: if_splits)
  then obtain i where i: "i < length (rn_workers s)" "wk_pc (rn_workers s ! i) \<noteq> Exited" by (auto simp: in_set_conv_nth)
  have "\<exists>v s'. runWorker fetch (2 * n) (rn_workers s ! i) s = Some (v, s')"
    using i(2) Nil assms(3) by (auto simp: worker_defs split: worker_pc.splits list.splits prod.splits sum.splits)
  then show ?thesis using i(1) by (blast intro: ss_worker)
qed

text \<open>What holds when \<open>Run\<close> has returned without an error.\<close>

lemma run_returned:
  assumes inv: "run_inv tasks s" and "rn_return s = Some None"
  shows "mset (map (\<lambda>r. task_key (res_Task r)) (rn_completions s)) = mset (map task_key tasks)
    \<and> (\<forall>t \<in> set tasks. holds_chunk (rn_store s) (ct_ChunkID t)) \<and> cas_files (rn_store s)"
proof -
  let ?C = "mset (map (\<lambda>r. task_key (res_Task r)) (rn_completions s))"
  have "all_keys s = mset (map task_key tasks)" using assms by (simp add: run_inv_def keys_inv_def failed_def)
  moreover have "?C \<subseteq># all_keys s" by (simp add: all_keys_def)
  ultimately have sub: "?C \<subseteq># mset (map task_key tasks)" by simp
  have "size (mset (map task_key tasks)) \<le> size ?C" using assms by (simp add: run_inv_def loop_inv_def)
  with sub have eq: "?C = mset (map task_key tasks)" using mset_subset_size by (fastforce simp: subset_mset.le_less)
  have "holds_chunk (rn_store s) (ct_ChunkID t)" if "t \<in> set tasks" for t
  proof -
    have "task_key t \<in># ?C" using that eq by simp
    then obtain r where "r \<in> set (rn_completions s)" "ct_ChunkID (res_Task r) = ct_ChunkID t" by (auto simp: task_key_def)
    then show ?thesis using inv by (auto simp: run_inv_def fetched_inv_def)
  qed
  with eq inv show ?thesis by (simp add: run_inv_def fetched_inv_def)
qed

section \<open>Sources that answer\<close>

text \<open>Clients in a state that satisfies \<open>I\<close> answer every request for a chunk of the download with the chunk, and stay in such a
  state.\<close>

definition answers :: "('c \<Rightarrow> bool) \<Rightarrow> (ChunkID \<Rightarrow> 'c \<times> 'g \<Rightarrow> (fetch_error + Chunk) \<times> ('c \<times> 'g)) \<Rightarrow> ChunkTask list \<Rightarrow> bool" where
  "answers I fetch tasks \<longleftrightarrow> (\<forall>t \<in> set tasks. ct_MissedPeers t = {}
     \<and> (\<forall>c g. I c \<longrightarrow> (\<exists>ch c' g'. fetch (ct_ChunkID t) (c, g) = (Inr ch, (c', g')) \<and> header_wf (ck_Header ch) \<and> I c')))"

definition pc_smooth :: "ChunkTask list \<Rightarrow> worker_pc \<Rightarrow> bool" where
  "pc_smooth tasks p = (case p of
     Fetching t \<Rightarrow> t \<in> set tasks
   | Storing t ch \<Rightarrow> header_wf (ck_Header ch)
   | Reporting r \<Rightarrow> res_Error r = None
   | Yielding \<Rightarrow> False
   | _ \<Rightarrow> True)"

definition smooth :: "('c \<Rightarrow> bool) \<Rightarrow> ChunkTask list \<Rightarrow> ('c, 'g) run \<Rightarrow> bool" where
  "smooth I tasks s \<longleftrightarrow> set (rn_queue s) \<subseteq> set tasks \<and> (\<forall>w \<in> set (rn_workers s). pc_smooth tasks (wk_pc w) \<and> I (wk_client w))
     \<and> fs_usable (rn_store s)
     \<and> (\<forall>r \<in> set (rn_results s). res_Error r = None \<or> res_Error r = Some WorkerDone) \<and> rn_workers s \<noteq> [] \<and> \<not> failed s
     \<and> (rn_queue s \<noteq> [] \<longrightarrow> (\<forall>w \<in> set (rn_workers s). wk_pc w \<noteq> Leaving \<and> wk_pc w \<noteq> Exited))
     \<and> ((\<forall>w \<in> set (rn_workers s). wk_pc w = Exited) \<longrightarrow> rn_results s \<noteq> [] \<longrightarrow> res_Error (last (rn_results s)) = Some WorkerDone)"

fun pc_cost :: "worker_pc \<Rightarrow> nat" where
  "pc_cost AtNext = 3"
| "pc_cost Yielding = 3"
| "pc_cost (Fetching t) = 7"
| "pc_cost (Storing t ch) = 6"
| "pc_cost (Reporting r) = 5"
| "pc_cost Leaving = 2"
| "pc_cost Exited = 0"

definition cost :: "('c, 'g) run \<Rightarrow> nat" where
  "cost s = 5 * length (rn_queue s) + sum_list (map (\<lambda>w. pc_cost (wk_pc w)) (rn_workers s)) + length (rn_results s)"

lemma PutChunk_usable: "fs_usable s \<Longrightarrow> header_wf (ck_Header c) \<Longrightarrow> \<exists>t. PutChunk c s = (Inr (), t) \<and> fs_usable t"
  using fs_store.put_ok by blast

text \<open>The effect of a worker's step on everything the next invariant speaks about.\<close>

lemma smooth_worker_effect:
  assumes "answers I fetch tasks" and "set (rn_queue s) \<subseteq> set tasks" and "pc_smooth tasks (wk_pc w)" and "fs_usable (rn_store s)"
    and "I (wk_client w)" and "runWorker fetch cap w s = Some (w', s')"
  shows "set (rn_queue s') \<subseteq> set tasks \<and> pc_smooth tasks (wk_pc w') \<and> fs_usable (rn_store s') \<and> I (wk_client w')
    \<and> (rn_queue s' \<noteq> [] \<longrightarrow> rn_queue s \<noteq> [] \<and> (wk_pc w = Leaving \<or> wk_pc w' \<noteq> Leaving \<and> wk_pc w' \<noteq> Exited))
    \<and> wk_pc w \<noteq> Exited
    \<and> (rn_results s' = rn_results s \<and> wk_pc w' \<noteq> Exited
       \<or> (\<exists>r. rn_results s' = rn_results s @ [r] \<and> res_Error r = None \<and> wk_pc w' \<noteq> Exited)
       \<or> rn_results s' = rn_results s @ [worker_done])
    \<and> 5 * length (rn_queue s') + pc_cost (wk_pc w') + length (rn_results s')
        < 5 * length (rn_queue s) + pc_cost (wk_pc w) + length (rn_results s)"
proof (cases "wk_pc w")
  case AtNext
  with assms show ?thesis
    by (cases "rn_queue s") (auto simp: worker_defs pc_smooth_def answers_def)
next
  case (Fetching t)
  then have "t \<in> set tasks" using assms(3) by (simp add: pc_smooth_def)
  then obtain ch c g where "fetch (ct_ChunkID t) (wk_client w, rn_tickets s) = (Inr ch, (c, g))" "header_wf (ck_Header ch)" "I c"
    using assms(1,5) unfolding answers_def by blast
  with Fetching assms show ?thesis by (auto simp: worker_defs pc_smooth_def)
next
  case (Storing t ch)
  then obtain st where "PutChunk ch (rn_store s) = (Inr (), st)" "fs_usable st"
    using PutChunk_usable assms(3,4) by (auto simp: pc_smooth_def)
  with Storing assms show ?thesis by (auto simp: worker_defs pc_smooth_def)
qed (use assms in \<open>auto simp: worker_defs pc_smooth_def split: if_splits\<close>)

lemma smooth_worker:
  assumes "answers I fetch tasks" and "smooth I tasks s" and "i < length (rn_workers s)" and "runWorker fetch cap (rn_workers s ! i) s = Some (w, s')"
  shows "smooth I tasks (s'\<lparr>rn_workers := (rn_workers s)[i := w]\<rparr>) \<and> cost (s'\<lparr>rn_workers := (rn_workers s)[i := w]\<rparr>) < cost s"
proof -
  let ?v = "rn_workers s ! i"
  have v: "?v \<in> set (rn_workers s)" "w \<in> set ((rn_workers s)[i := w])" using assms(3) by (simp_all add: set_update_memI)
  note sm = assms(2) [unfolded smooth_def]
  have e: "set (rn_queue s') \<subseteq> set tasks" "pc_smooth tasks (wk_pc w)" "fs_usable (rn_store s')" "I (wk_client w)"
    "rn_queue s' \<noteq> [] \<longrightarrow> rn_queue s \<noteq> [] \<and> (wk_pc ?v = Leaving \<or> wk_pc w \<noteq> Leaving \<and> wk_pc w \<noteq> Exited)"
    "rn_results s' = rn_results s \<and> wk_pc w \<noteq> Exited
       \<or> (\<exists>r. rn_results s' = rn_results s @ [r] \<and> res_Error r = None \<and> wk_pc w \<noteq> Exited) \<or> rn_results s' = rn_results s @ [worker_done]"
    "5 * length (rn_queue s') + pc_cost (wk_pc w) + length (rn_results s')
        < 5 * length (rn_queue s) + pc_cost (wk_pc ?v) + length (rn_results s)"
    using smooth_worker_effect [OF assms(1) _ _ _ _ assms(4)] sm v(1) by blast+
  have sub: "x \<in> set (rn_workers s) \<or> x = w" if "x \<in> set ((rn_workers s)[i := w])" for x
    using that set_update_subset_insert [of "rn_workers s" i w] by blast
  have "rn_queue s' \<noteq> [] \<longrightarrow> (\<forall>x \<in> set ((rn_workers s)[i := w]). wk_pc x \<noteq> Leaving \<and> wk_pc x \<noteq> Exited)"
    using e(5) sm v(1) sub by blast
  moreover have "(\<forall>x \<in> set ((rn_workers s)[i := w]). wk_pc x = Exited) \<longrightarrow> rn_results s' \<noteq> [] \<longrightarrow>
      res_Error (last (rn_results s')) = Some WorkerDone"
    using e(6) v(2) by fastforce
  moreover have "\<forall>r \<in> set (rn_results s). res_Error r = None \<or> res_Error r = Some WorkerDone" using sm by blast
  then have "\<forall>r \<in> set (rn_results s'). res_Error r = None \<or> res_Error r = Some WorkerDone" using e(6) by (elim disjE exE conjE) simp_all
  moreover have "\<forall>x \<in> set ((rn_workers s)[i := w]). pc_smooth tasks (wk_pc x) \<and> I (wk_client x)" using sub e(2,4) sm by blast
  moreover have "rn_workers s \<noteq> []" "\<not> failed s" using sm by blast+
  ultimately have "smooth I tasks (s'\<lparr>rn_workers := (rn_workers s)[i := w]\<rparr>)"
    using e(1,3) runWorker_frame [OF assms(4)] by (simp add: smooth_def failed_def)
  moreover have "cost (s'\<lparr>rn_workers := (rn_workers s)[i := w]\<rparr>) < cost s"
    using e(7) sum_list_update_cancel [OF assms(3), of "\<lambda>w. pc_cost (wk_pc w)" w] by (simp add: cost_def)
  ultimately show ?thesis by simp
qed

text \<open>When the last worker has gone and its message is read, no task is left.\<close>

lemma smooth_all_gone:
  assumes "run_inv tasks s" and "smooth I tasks s" and "rn_return s = None" and "rn_results s = r # rest" and "res_Error r = Some WorkerDone"
    and "rn_active s \<le> 1"
  shows "rn_pending s \<le> 0"
proof -
  have "int (sum_list (map alive (rn_workers s)) + sum_list (map is_done rest)) = rn_active s - 1"
    using assms(1,3,4,5) unfolding run_inv_def loop_inv_def by (simp add: is_done_def)
  then have "sum_list (map alive (rn_workers s)) = 0" "sum_list (map is_done rest) = 0" using assms(6) by linarith+
  then have ex: "\<forall>w \<in> set (rn_workers s). wk_pc w = Exited" and nd: "\<forall>x \<in> set rest. res_Error x \<noteq> Some WorkerDone"
    by (auto simp: alive_def is_done_def split: if_splits)
  have "rest = []"
  proof (rule ccontr)
    assume "rest \<noteq> []"
    then have "last rest \<in> set rest" "res_Error (last rest) = Some WorkerDone" using assms(2,4) ex by (auto simp: smooth_def)
    with nd show False by blast
  qed
  moreover have "rn_queue s = []"
    using assms(2) ex by (cases "rn_workers s") (auto simp: smooth_def)
  moreover have "sum_list (map (\<lambda>w. pc_keys (wk_pc w)) (rn_workers s)) = {#}" using ex by (intro sum_list_empty) (simp add: pc_keys_def)
  ultimately have "all_keys s = mset (map (\<lambda>r. task_key (res_Task r)) (rn_completions s))"
    using assms(4,5) by (simp add: all_keys_def res_keys_def)
  then have "mset (map (\<lambda>r. task_key (res_Task r)) (rn_completions s)) = mset (map task_key tasks)"
    using assms(1,3) by (simp add: run_inv_def keys_inv_def failed_def)
  from arg_cong [OF this, of size] show ?thesis using assms(1) by (simp add: run_inv_def loop_inv_def)
qed

lemma smooth_main:
  assumes "run_inv tasks s" and "smooth I tasks s" and "rn_return s = None" and "rn_results s = r # rest"
  shows "smooth I tasks (handle_result m n r (s\<lparr>rn_results := rest\<rparr>)) \<and> cost (handle_result m n r (s\<lparr>rn_results := rest\<rparr>)) < cost s"
proof -
  have a: "0 < rn_active s" using assms(1,3) unfolding run_inv_def loop_inv_def by blast
  have sm: "smooth I tasks (s\<lparr>rn_results := rest\<rparr>)" using assms(2,4) by (auto simp: smooth_def failed_def)
  have lc: "smooth I tasks (loop_check x)" if "smooth I tasks x" "0 < rn_pending x \<longrightarrow> 0 < rn_active x" for x :: "('a, 'b) run"
    using that by (auto simp: smooth_def failed_def loop_check_def)
  have "res_Error r = None \<or> res_Error r = Some WorkerDone" using assms(2,4) by (auto simp: smooth_def)
  then show ?thesis
  proof
    assume "res_Error r = None"
    moreover have "smooth I tasks (loop_check (s\<lparr>rn_results := rest, rn_completions := rn_completions s @ [r], rn_pending := rn_pending s - 1\<rparr>))"
      using sm a by (intro lc) (simp_all add: smooth_def failed_def)
    ultimately show ?thesis using assms(4) by (simp add: handle_result_def cost_def)
  next
    assume d: "res_Error r = Some WorkerDone"
    have "smooth I tasks (loop_check (s\<lparr>rn_results := rest, rn_active := rn_active s - 1\<rparr>))"
    proof (rule lc)
      show "smooth I tasks (s\<lparr>rn_results := rest, rn_active := rn_active s - 1\<rparr>)" using sm by (simp add: smooth_def failed_def)
      show "0 < rn_pending (s\<lparr>rn_results := rest, rn_active := rn_active s - 1\<rparr>) \<longrightarrow>
          0 < rn_active (s\<lparr>rn_results := rest, rn_active := rn_active s - 1\<rparr>)"
        using smooth_all_gone [OF assms d] by force
    qed
    then show ?thesis using assms(4) d by (simp add: handle_result_def cost_def)
  qed
qed

lemma smooth_step:
  assumes "answers I fetch tasks" and "run_inv tasks s" and "smooth I tasks s" and "sched_step fetch m n s t"
  shows "smooth I tasks t \<and> cost t < cost s"
  using assms(4)
proof cases
  case (ss_timer i)
  then have "rn_workers s ! i \<in> set (rn_workers s)" by simp
  with ss_timer(3) assms(3) show ?thesis by (force simp: smooth_def pc_smooth_def)
qed (use assms(1-3) smooth_worker smooth_main in blast)+

end
