(* ===== verification/SchedulerFaults.thy ===== *)
theory SchedulerFaults
  imports SchedulerRuns
begin

text \<open>
  The properties of scheduler runs, and two ways in which a run fails to use a provider or never ends. A schedule, a list
  of moves, fixes the interleaving of a concrete run.
\<close>

section \<open>Schedules\<close>

datatype move = Work nat | Handle

definition make_move ::
    "(ChunkID \<Rightarrow> 'c \<times> 'g \<Rightarrow> (fetch_error + Chunk) \<times> ('c \<times> 'g)) \<Rightarrow> int \<Rightarrow> nat \<Rightarrow> move \<Rightarrow> ('c, 'g) run \<Rightarrow> ('c, 'g) run option" where
  "make_move fetch m n mv s = (case mv of
     Work i \<Rightarrow> if i < length (rn_workers s)
       then map_option (\<lambda>(w, s'). s'\<lparr>rn_workers := (rn_workers s)[i := w]\<rparr>) (runWorker fetch (2 * n) (rn_workers s ! i) s) else None
   | Handle \<Rightarrow> (case rn_results s of
       [] \<Rightarrow> None
     | r # rest \<Rightarrow> if rn_return s = None then Some (handle_result m n r (s\<lparr>rn_results := rest\<rparr>)) else None))"

fun make_moves ::
    "(ChunkID \<Rightarrow> 'c \<times> 'g \<Rightarrow> (fetch_error + Chunk) \<times> ('c \<times> 'g)) \<Rightarrow> int \<Rightarrow> nat \<Rightarrow> move list \<Rightarrow> ('c, 'g) run \<Rightarrow> ('c, 'g) run option" where
  "make_moves fetch m n [] s = Some s"
| "make_moves fetch m n (mv # mvs) s = (case make_move fetch m n mv s of None \<Rightarrow> None | Some t \<Rightarrow> make_moves fetch m n mvs t)"

lemma make_move_step: "make_move fetch m n mv s = Some t \<Longrightarrow> sched_step fetch m n s t"
  by (auto simp: make_move_def intro: ss_worker ss_main split: move.splits list.splits if_splits)

lemma make_moves_relpow: "make_moves fetch m n mvs s = Some t \<Longrightarrow> (sched_step fetch m n ^^ length mvs) s t"
proof (induction mvs arbitrary: s)
  case (Cons mv mvs)
  then obtain u where "make_move fetch m n mv s = Some u" "make_moves fetch m n mvs u = Some t"
    by (auto split: option.splits)
  with Cons.IH make_move_step show ?case by (metis length_Cons relpowp_Suc_I2)
qed simp

lemma make_moves_steps: "make_moves fetch m n mvs s = Some t \<Longrightarrow> (sched_step fetch m n)\<^sup>*\<^sup>* s t"
  by (rule relpowp_imp_rtranclp [OF make_moves_relpow])

section \<open>Providers\<close>

text \<open>A provider that answers the first request with \<open>ErrChunkNotFound\<close>, and one that serves a chunk.\<close>

definition missing :: stream where
  "missing = fresh_stream (frame (BuildError ErrChunkNotFound ''not found'')) []"

definition serving :: "Chunk \<Rightarrow> stream" where
  "serving ch = fresh_stream (frame (BuildChunk ch)) []"

lemma fetch_missing:
  assumes "length i = 32"
  shows "client_fetch ma None i (missing, g)
    = (Inl ErrRemoteChunkNotFound, (fresh_stream [] (frame (BuildRequestChunk i)), g))"
proof -
  let ?e = "BuildError ErrChunkNotFound ''not found''"
  have e: "frame_fits ?e" "ms_Type ?e = MsgError" "remote_error (ms_Payload ?e) = (ErrChunkNotFound, ''not found'')"
    by (simp_all add: frame_fits_def BuildError_def limit_defs remote_error_def ParseError_def)
  have "ReadMessage (bytes_reader (frame ?e)) = (Inr ?e, bytes_reader [])" using ReadMessage_bytes [OF e(1), of "[]"] by simp
  with e assms show ?thesis
    by (simp add: client_fetch_def missing_def FetchChunk_def cl_simps(1) cl_recv_def)
qed

lemma fetch_serving:
  assumes "servable i ch"
  shows "client_fetch ma None i (serving ch, g) = (Inr ch, (fresh_stream [] (request_and_ack i), g))"
proof -
  have "FetchChunk ma None i \<lparr>cl_engine = (), cl_tickets = g, cl_stream = serving ch\<rparr>
      = (Inr ch :: fetch_error + Chunk, \<lparr>cl_engine = (), cl_tickets = g, cl_stream = fresh_stream [] (request_and_ack i)\<rparr>)"
    by (subst FetchChunk_served [OF assms, where rest = "[]" and out = "[]"]) (simp_all add: serving_def)
  then show ?thesis by (simp add: client_fetch_def)
qed

section \<open>Properties\<close>

text \<open>C12. No task is lost or done twice, under every interleaving and whatever the providers send: when \<open>Run\<close> returns without an error,
  the completions are exactly the tasks, every chunk of the download is in the store, and the store still holds only chunks
  whose data hash to their ID.\<close>

theorem scheduler_loses_no_task:
  assumes "cas_files store" and "run_start connect tasks sources store g = Inr s0"
    and "(any_step (client_fetch marshal gen) m (length sources))\<^sup>*\<^sup>* s0 s" and "rn_return s = Some None"
  shows "mset (map (\<lambda>r. task_key (res_Task r)) (rn_completions s)) = mset (map task_key tasks)
    \<and> (\<forall>t \<in> set tasks. holds_chunk (rn_store s) (ct_ChunkID t)) \<and> cas_files (rn_store s)"
proof -
  have "run_inv tasks s0" using assms(1,2) by (intro run_inv_start [of "length sources"]) (auto simp: sched_init_def)
  then have inv: "run_inv tasks s" using assms(3) by (rule client.runs.inv_steps)
  from run_returned [OF inv assms(4)] show ?thesis .
qed

lemma run_start_clients:
  assumes "run_start connect tasks sources store g = Inr s" and "w \<in> set (rn_workers s)"
  shows "\<exists>p. connect p = Some (wk_client w)"
  using assms by (auto simp: run_start_def map_filter_def loop_check_def Let_def split: if_splits) blast+

context chunk_fetcher
begin

lemma answered_run_completes:
  assumes "answers I fetch tasks" and "cas_files store" and "fs_usable store" and "\<And>p c. connect p = Some c \<Longrightarrow> I c"
    and "run_start connect tasks sources store g = Inr s0" and "(sched_step fetch m (length sources) ^^ k) s0 s"
  shows "k \<le> 5 * length tasks + 3 * length sources
    \<and> (rn_return s = None \<longrightarrow> (\<exists>t. sched_step fetch m (length sources) s t))
    \<and> (rn_return s \<noteq> None \<longrightarrow> rn_return s = Some None \<and> (\<forall>t \<in> set tasks. holds_chunk (rn_store s) (ct_ChunkID t)))"
proof -
  let ?n = "length sources"
  note ok = run_start_ok [OF assms(5)]
  have n: "0 < ?n" using ok(2,3) by (cases "rn_workers s0") auto
  have "run_inv tasks s0" using assms(2,5) by (intro run_inv_start [of ?n]) (auto simp: sched_init_def)
  moreover have "\<forall>w \<in> set (rn_workers s0). I (wk_client w)" using run_start_clients [OF assms(5)] assms(4) by blast
  then have "smooth I tasks s0" using ok assms(3) by (auto simp: smooth_def pc_smooth_def failed_def)
  ultimately have "run_inv tasks s \<and> smooth I tasks s \<and> k + cost s \<le> cost s0"
    using assms(6)
  proof (induction k arbitrary: s)
    case (Suc k)
    then obtain u where u: "(sched_step fetch m ?n ^^ k) s0 u" "sched_step fetch m ?n u s" by auto
    with Suc have "run_inv tasks u" "smooth I tasks u" "k + cost u \<le> cost s0" by blast+
    with smooth_step [OF assms(1) _ _ u(2)] run_inv_step [OF _ u(2)] show ?case by fastforce
  qed simp
  then have s: "run_inv tasks s" "smooth I tasks s" "k \<le> cost s0" by simp_all
  have "cost s0 = 5 * length tasks + 3 * length (rn_workers s0)"
    using ok sum_list_const [of "rn_workers s0" "\<lambda>w. pc_cost (wk_pc w)" 3] by (simp add: cost_def)
  then have "k \<le> 5 * length tasks + 3 * ?n" using s(3) ok(3) by linarith
  moreover have "rn_return s = None \<longrightarrow> (\<exists>t. sched_step fetch m ?n s t)"
    using run_enabled [OF _ _ n] s(1) unfolding run_inv_def by blast
  moreover have "rn_return s \<noteq> None \<longrightarrow> rn_return s = Some None" using s(2) by (auto simp: smooth_def failed_def)
  ultimately show ?thesis using run_returned [OF s(1)] by blast
qed

end

text \<open>A client with the handler of a provider at the other end of its stream: the handler reads the request and replies, the client
  reads the reply, and the handler then reads all that the client has written.\<close>

definition linked_fetch ::
    "('tk' \<Rightarrow> string + bytes) \<Rightarrow> (bytes \<Rightarrow> string + 'tk) \<Rightarrow> ('tk \<Rightarrow> 'p \<Rightarrow> (string + unit) \<times> 'p) option
     \<Rightarrow> ChunkID \<Rightarrow> (FSStorage, 'p) StreamHandler \<times> 'g \<Rightarrow> (fetch_error + Chunk) \<times> ((FSStorage, 'p) StreamHandler \<times> 'g)" where
  "linked_fetch marshal unmarshal ticketHandler chunkID hg =
     (let handle = (\<lambda>input. handleStream GetManifestBytes GetChunk unmarshal ticketHandler ((fst hg)\<lparr>sh_stream := fresh_stream input []\<rparr>));
          reply = wr_out (sm_out (sh_stream (handle (frame (BuildRequestChunk chunkID)))))
      in case client_fetch marshal None chunkID (fresh_stream reply [], snd hg) of
        (r, (st, g)) \<Rightarrow> (r, (handle (wr_out (sm_out st)), g)))"

interpretation linked: chunk_fetcher "linked_fetch marshal unmarshal ticketHandler" for marshal unmarshal ticketHandler
proof
  fix i c ch c'
  assume "linked_fetch marshal unmarshal ticketHandler i c = (Inr ch, c')"
  then show "sha256 (ck_Data ch) = i \<and> hd_ID (ck_Header ch) = i \<and> header_wf (ck_Header ch)"
    by (auto simp: linked_fetch_def Let_def split: prod.splits dest: client.fetched)
qed

text \<open>The handler of a provider that has the chunks of the download and whose reads are not made to fail.\<close>

definition serves :: "ChunkTask list \<Rightarrow> (FSStorage, 'p) StreamHandler \<Rightarrow> bool" where
  "serves tasks h \<longleftrightarrow> sh_draws h = []
     \<and> (\<forall>t \<in> set tasks. \<exists>ch. servable (ct_ChunkID t) ch \<and> GetChunk (ct_ChunkID t) (sh_engine h) = (Inr ch, sh_engine h))"

lemma handle_request_only:
  assumes "servable i ch" and "get i (sh_engine h) = (Inr ch, sh_engine h)" and "sh_draws h = []"
    and "sh_stream h = fresh_stream (frame (BuildRequestChunk i)) []"
  shows "wr_out (sm_out (sh_stream (handleStream gm get um th h))) = frame (BuildChunk ch)"
proof -
  let ?t = "\<lambda>b. h\<lparr>sh_stream := fresh_stream [] b\<rparr>"
  note ch = servable_facts [OF assms(1)]
  have r: "sh_recv h = (Inr (BuildRequestChunk i), ?t [])"
    using sh_simps(2) [of h "BuildRequestChunk i" "[]" "[]"] assms(4) ch(1) by simp
  have "handleStream gm get um th h = handleStream gm get um th (?t (frame (BuildChunk ch)))"
    by (subst handleStream.simps)
      (simp add: r ch(1) assms(2,3) handleRequestChunk_def sh_draw_def sh_simps await_ack_def ch(2,5))
  also have "\<dots> = ?t (frame (BuildChunk ch))"
    using handle_run [of "[]" _ _ "?t (frame (BuildChunk ch))" "frame (BuildChunk ch)"] assms(3) by simp
  finally show ?thesis by simp
qed

text \<open>Both ends agree: the handler, having read all that the client wrote, has written the reply that the client read.\<close>

lemma linked_fetch_served:
  assumes "servable i ch" and "GetChunk i (sh_engine h) = (Inr ch, sh_engine h)" and "sh_draws h = []"
  shows "linked_fetch marshal unmarshal ticketHandler i (h, g) = (Inr ch, (h\<lparr>sh_stream := fresh_stream [] (frame (BuildChunk ch))\<rparr>, g))"
proof -
  have "wr_out (sm_out (sh_stream (handleStream GetManifestBytes GetChunk unmarshal ticketHandler
      (h\<lparr>sh_stream := fresh_stream (frame (BuildRequestChunk i)) []\<rparr>)))) = frame (BuildChunk ch)"
    by (rule handle_request_only [where get = GetChunk and i = i]) (use assms in simp_all)
  moreover have "handleStream GetManifestBytes GetChunk unmarshal ticketHandler (h\<lparr>sh_stream := fresh_stream (request_and_ack i) []\<rparr>)
      = h\<lparr>sh_stream := fresh_stream [] (frame (BuildChunk ch))\<rparr>"
    using handle_run [of "[i]" "\<lambda>_. ch" GetChunk "h\<lparr>sh_stream := fresh_stream (request_and_ack i) []\<rparr>" "[]"] assms by simp
  ultimately show ?thesis
    using fetch_serving [OF assms(1), of marshal g] by (simp add: linked_fetch_def serving_def)
qed

lemma linked_fetch_serves:
  assumes "t \<in> set tasks" and "serves tasks h"
  shows "\<exists>ch h' g'. linked_fetch marshal unmarshal ticketHandler (ct_ChunkID t) (h, g) = (Inr ch, (h', g'))
    \<and> header_wf (ck_Header ch) \<and> serves tasks h'"
proof -
  from assms obtain ch where ch: "servable (ct_ChunkID t) ch" "GetChunk (ct_ChunkID t) (sh_engine h) = (Inr ch, sh_engine h)"
    and d: "sh_draws h = []" by (auto simp: serves_def)
  have "serves tasks (h\<lparr>sh_stream := fresh_stream [] (frame (BuildChunk ch))\<rparr>)" using assms(2) by (simp add: serves_def)
  with linked_fetch_served [OF ch d, of marshal unmarshal ticketHandler g] ch(1) show ?thesis unfolding servable_def by blast
qed

lemma serves_answers:
  "\<forall>t \<in> set tasks. ct_MissedPeers t = {} \<Longrightarrow> answers (serves tasks) (linked_fetch marshal unmarshal ticketHandler) tasks"
  unfolding answers_def by (intro ballI conjI allI impI linked_fetch_serves) blast+

text \<open>C13. With providers that have the chunks the download ends. The worker of each connected source fetches with \<open>FetchChunk\<close> from
  that provider's \<open>handleStream\<close>, which has every chunk of the download in its store and injects no faults; no tickets are used, and
  the own store works. Then a run takes at most five steps for each task and three for each source, it can go on as long as \<open>Run\<close>
  has not returned, and \<open>Run\<close> returns without an error, with every chunk in the store.\<close>

theorem scheduler_completes:
  assumes "\<forall>t \<in> set tasks. ct_MissedPeers t = {}" and "\<forall>p h. connect p = Some h \<longrightarrow> serves tasks h"
    and "cas_files store" and "fs_usable store" and "run_start connect tasks sources store g = Inr s0"
    and "(sched_step (linked_fetch marshal unmarshal ticketHandler) m (length sources) ^^ k) s0 s"
  shows "k \<le> 5 * length tasks + 3 * length sources
    \<and> (rn_return s = None \<longrightarrow> (\<exists>t. sched_step (linked_fetch marshal unmarshal ticketHandler) m (length sources) s t))
    \<and> (rn_return s \<noteq> None \<longrightarrow> rn_return s = Some None \<and> (\<forall>t \<in> set tasks. holds_chunk (rn_store s) (ct_ChunkID t)))"
  using linked.answered_run_completes [OF serves_answers [OF assms(1)] assms(3,4) _ assms(5,6)] assms(2) by blast

section \<open>Runs that fail\<close>

definition fresh_task :: "ChunkID \<Rightarrow> ChunkTask" where
  "fresh_task i = \<lparr>ct_Index = 0, ct_ChunkID = i, ct_Attempts = 0, ct_MissedPeers = {}\<rparr>"

definition source :: "peerID \<Rightarrow> Source" where
  "source p = \<lparr>so_PeerID = p, so_Available = None\<rparr>"

lemma start_two:
  assumes "a \<noteq> b"
  shows "run_start (\<lambda>p. if p = a then Some ca else if p = b then Some cb else None) [fresh_task i] [source a, source b] store g
    = Inr \<lparr>rn_queue = [fresh_task i], rn_results = [],
        rn_workers = [\<lparr>wk_peer = a, wk_client = ca, wk_pc = AtNext\<rparr>, \<lparr>wk_peer = b, wk_client = cb, wk_pc = AtNext\<rparr>],
        rn_store = store, rn_tickets = g, rn_cancelled = False, rn_completions = [], rn_pending = 1, rn_active = 2, rn_return = None\<rparr>"
  using assms by (simp add: run_start_def source_def List.map_filter_simps NewChunkQueue_def loop_check_def)

lemmas move_defs = make_move_def runWorker_def queue_Next_def queue_Push_def handle_result_def loop_check_def result_of_def

text \<open>Whether a download succeeds depends on the interleaving: of two connected providers one has the chunk and the other one answers
  that it does not. In one run the chunk is stored and \<open>Run\<close> returns without an error. In another one the worker of the provider
  with the chunk finds the queue empty while the other worker still asks, both workers leave, and \<open>Run\<close> gives up with the task back in
  the queue and the provider never asked.\<close>

lemma outcome_depends_on_interleaving:
  assumes "a \<noteq> b" and "servable i ch" and "fs_usable store"
    and "run_start (\<lambda>p. if p = a then Some missing else if p = b then Some (serving ch) else None) [fresh_task i] [source a, source b] store g
      = Inr s0"
  shows "(\<exists>s. (sched_step (client_fetch marshal None) m 2)\<^sup>*\<^sup>* s0 s \<and> rn_return s = Some None \<and> holds_chunk (rn_store s) i)
    \<and> (\<exists>s. (sched_step (client_fetch marshal None) m 2)\<^sup>*\<^sup>* s0 s \<and> rn_return s = Some (Some (AllWorkersDied 1))
         \<and> wk_client (rn_workers s ! 1) = serving ch)"
proof -
  let ?f = "client_fetch marshal None"
  note s0 = start_two [OF assms(1), of missing "serving ch" i store g, unfolded assms(4), simplified]
  note len = servable_facts(1) [OF assms(2)]
  have wf: "header_wf (ck_Header ch)" "hd_ID (ck_Header ch) = i" using assms(2) by (simp_all add: servable_def)
  obtain st where st: "PutChunk ch store = (Inr (), st)" using PutChunk_usable [OF assms(3) wf(1)] by blast
  have h: "holds_chunk st i" using holds_chunk_put(2) [OF st] assms(2) wf by (simp add: servable_def)
  have "\<exists>s. make_moves ?f m 2 [Work 1, Work 1, Work 1, Work 1, Handle] s0 = Some s \<and> rn_return s = Some None \<and> rn_store s = st"
    by (simp add: s0 move_defs fresh_task_def fetch_serving [OF assms(2)] st)
  moreover have "\<exists>s. make_moves ?f m 2 [Work 0, Work 1, Work 1, Work 0, Work 0, Work 0, Work 0, Handle, Handle, Handle] s0 = Some s
      \<and> rn_return s = Some (Some (AllWorkersDied 1)) \<and> wk_client (rn_workers s ! 1) = serving ch"
    by (simp add: s0 move_defs fresh_task_def fetch_missing [OF len] worker_done_def)
  ultimately show ?thesis using h make_moves_steps by blast
qed

text \<open>A provider that cannot be reached can keep \<open>Run\<close> from ever returning: of two providers one is not connected and the other one does not
  have the chunk. There is a run after which the only worker takes the task and puts it back for ever, and unless the context is
  cancelled no continuation returns.\<close>

lemma unreachable_source_livelock:
  assumes "a \<noteq> b" and "length i = 32"
    and "run_start (\<lambda>p. if p = a then Some missing else None) [fresh_task i] [source a, source b] store g = Inr s0"
  shows "\<exists>s. (sched_step (client_fetch marshal None) m 2)\<^sup>*\<^sup>* s0 s
    \<and> (\<forall>t. (sched_step (client_fetch marshal None) m 2)\<^sup>*\<^sup>* s t \<longrightarrow> rn_return t = None)"
proof -
  let ?f = "client_fetch marshal None"
  let ?t = "(fresh_task i)\<lparr>ct_MissedPeers := {a}\<rparr>"
  let ?trap = "\<lambda>s. rn_return s = None \<and> rn_results s = [] \<and> rn_queue s = [?t] \<and> \<not> rn_cancelled s
    \<and> (\<exists>w. rn_workers s = [w] \<and> wk_peer w = a \<and> wk_pc w \<in> {AtNext, Yielding})"
  have s0: "s0 = \<lparr>rn_queue = [fresh_task i], rn_results = [], rn_workers = [\<lparr>wk_peer = a, wk_client = missing, wk_pc = AtNext\<rparr>],
        rn_store = store, rn_tickets = g, rn_cancelled = False, rn_completions = [], rn_pending = 1, rn_active = 1, rn_return = None\<rparr>"
    using assms(1,3) by (simp add: run_start_def source_def List.map_filter_simps NewChunkQueue_def loop_check_def)
  have "\<exists>s. make_moves ?f m 2 [Work 0, Work 0, Work 0, Handle] s0 = Some s \<and> ?trap s"
    by (simp add: s0 move_defs fresh_task_def fetch_missing [OF assms(2)])
  moreover have "rn_return t = None" if "?trap s" "(sched_step ?f m 2)\<^sup>*\<^sup>* s t" for s t
  proof -
    have "?trap t" using that(2,1)
    proof (induction rule: rtranclp_induct)
      case (step t u)
      from step(2) show ?case
        by cases (use step(3) [OF step(4)] in \<open>auto simp: runWorker_def queue_Next_def queue_Push_def fresh_task_def\<close>)
    qed
    then show ?thesis by simp
  qed
  ultimately show ?thesis using make_moves_steps by blast
qed

section \<open>Witnesses\<close>

definition example_task :: ChunkTask where
  "example_task = fresh_task (sha256 [1, 2])"

definition example_start :: "'c \<Rightarrow> ('c, unit) run" where
  "example_start c = \<lparr>rn_queue = [example_task], rn_results = [], rn_workers = [\<lparr>wk_peer = ''b'', wk_client = c, wk_pc = AtNext\<rparr>],
     rn_store = empty_fs, rn_tickets = (), rn_cancelled = False, rn_completions = [], rn_pending = 1, rn_active = 1, rn_return = None\<rparr>"

lemma example_run_start: "run_start (\<lambda>p. Some c) [example_task] [source ''b''] empty_fs () = Inr (example_start c)"
  by (simp add: run_start_def source_def List.map_filter_simps NewChunkQueue_def loop_check_def example_start_def)

lemma example_moves:
  assumes "fetch (sha256 [1, 2]) (d, ()) = (Inr example_chunk, c')"
  shows "\<exists>s. make_moves fetch 3 1 [Work 0, Work 0, Work 0, Work 0, Handle] (example_start d) = Some s \<and> rn_return s = Some None"
proof -
  obtain st where "PutChunk example_chunk empty_fs = (Inr (), st)"
    using PutChunk_usable [OF empty_fs_usable, of example_chunk] example_chunk_servable by (auto simp: servable_def)
  then show ?thesis
    by (cases c') (simp add: example_start_def example_task_def move_defs fresh_task_def assms)
qed

lemma cas_empty_fs: "cas_files empty_fs"
  by (simp add: cas_files_def empty_fs_def)

theorem scheduler_loses_no_task_witness:
  "\<exists>s. (any_step (client_fetch (\<lambda>_ :: nat. Inr []) None) 3 1)\<^sup>*\<^sup>* (example_start (serving example_chunk)) s
     \<and> rn_return s = Some None \<and> holds_chunk (rn_store s) (sha256 [1, 2])"
proof -
  let ?f = "client_fetch (\<lambda>_ :: nat. Inr []) None"
  obtain s where s: "make_moves ?f 3 1 [Work 0, Work 0, Work 0, Work 0, Handle] (example_start (serving example_chunk)) = Some s"
      "rn_return s = Some None"
    using example_moves [where fetch = ?f, OF fetch_serving [OF example_chunk_servable]] by blast
  have "(any_step ?f 3 (length [source ''b'']))\<^sup>*\<^sup>* (example_start (serving example_chunk)) s"
    by (rule rtranclp_mono [THEN predicate2D, OF _ make_moves_steps [OF s(1)], simplified]) (auto simp: any_step_def)
  with scheduler_loses_no_task [OF cas_empty_fs example_run_start this s(2)] s(2) show ?thesis
    by (auto simp: example_task_def fresh_task_def)
qed

definition example_provider :: "FSStorage \<Rightarrow> (FSStorage, unit) StreamHandler" where
  "example_provider st = \<lparr>sh_engine = st, sh_tickets = (), sh_draws = [], sh_stream = fresh_stream [] []\<rparr>"

theorem scheduler_completes_witness:
  "\<exists>st s. GetChunk (sha256 [1, 2]) st = (Inr example_chunk, st)
     \<and> (sched_step (linked_fetch (\<lambda>_ :: nat. Inr []) (\<lambda>_. Inr (0 :: nat)) None) 3 1 ^^ 5) (example_start (example_provider st)) s
     \<and> rn_return s = Some None \<and> holds_chunk (rn_store s) (sha256 [1, 2])"
proof (rule example_store)
  fix st
  let ?f = "linked_fetch (\<lambda>_ :: nat. Inr []) (\<lambda>_. Inr (0 :: nat)) None"
  let ?h = "example_provider st"
  assume st: "GetChunk (sha256 [1, 2]) st = (Inr example_chunk, st)"
  then have "?f (sha256 [1, 2]) (?h, ()) = (Inr example_chunk, (?h\<lparr>sh_stream := fresh_stream [] (frame (BuildChunk example_chunk))\<rparr>, ()))"
    by (intro linked_fetch_served example_chunk_servable) (simp_all add: example_provider_def)
  then obtain s where s: "make_moves ?f 3 1 [Work 0, Work 0, Work 0, Work 0, Handle] (example_start ?h) = Some s" "rn_return s = Some None"
    using example_moves [where fetch = ?f and d = ?h] by blast
  have k: "(sched_step ?f 3 (length [source ''b'']) ^^ 5) (example_start ?h) s"
    using make_moves_relpow [OF s(1)] by (simp add: eval_nat_numeral)
  have "\<forall>t \<in> set [example_task]. ct_MissedPeers t = {}" by (simp add: example_task_def fresh_task_def)
  moreover have "\<forall>p h. Some ?h = Some h \<longrightarrow> serves [example_task] h"
    using st example_chunk_servable by (auto simp: serves_def example_provider_def example_task_def fresh_task_def)
  ultimately have "rn_return s \<noteq> None \<longrightarrow> rn_return s = Some None \<and> (\<forall>t \<in> set [example_task]. holds_chunk (rn_store s) (ct_ChunkID t))"
    using scheduler_completes [OF _ _ cas_empty_fs empty_fs_usable example_run_start k] by blast
  with s(2) k st show ?thesis by (auto simp: example_task_def fresh_task_def)
qed

lemma outcome_depends_on_interleaving_witness:
  "\<exists>s0 s. run_start (\<lambda>p. if p = ''a'' then Some missing else if p = ''b'' then Some (serving example_chunk) else None) [example_task]
       [source ''a'', source ''b''] empty_fs () = Inr s0
     \<and> (sched_step (client_fetch (\<lambda>_ :: nat. Inr []) None) 3 2)\<^sup>*\<^sup>* s0 s \<and> rn_return s = Some (Some (AllWorkersDied 1))"
proof -
  obtain s0 where s0: "run_start (\<lambda>p. if p = ''a'' then Some missing else if p = ''b'' then Some (serving example_chunk) else None)
      [fresh_task (sha256 [1, 2])] [source ''a'', source ''b''] empty_fs () = Inr s0"
    by (simp add: run_start_def source_def List.map_filter_simps)
  from outcome_depends_on_interleaving [OF _ example_chunk_servable empty_fs_usable this, of "\<lambda>_ :: nat. Inr []" 3] s0
  show ?thesis by (auto simp: example_task_def)
qed

lemma unreachable_source_livelock_witness:
  "\<exists>s0 s. run_start (\<lambda>p. if p = ''a'' then Some missing else None) [example_task] [source ''a'', source ''b''] empty_fs () = Inr s0
     \<and> (sched_step (client_fetch (\<lambda>_ :: nat. Inr []) None) 3 2)\<^sup>*\<^sup>* s0 s
     \<and> (\<forall>t. (sched_step (client_fetch (\<lambda>_ :: nat. Inr []) None) 3 2)\<^sup>*\<^sup>* s t \<longrightarrow> rn_return t = None)"
proof -
  obtain s0 where s0: "run_start (\<lambda>p. if p = ''a'' then Some missing else None) [fresh_task (sha256 [1, 2])] [source ''a'', source ''b'']
      empty_fs () = Inr s0"
    by (simp add: run_start_def source_def List.map_filter_simps)
  from unreachable_source_livelock [OF _ _ this, of "\<lambda>_ :: nat. Inr []" 3] s0 show ?thesis by (auto simp: example_task_def)
qed

end
