(* ===== verification/Sessions.thy ===== *)
theory Sessions
  imports ContentAddressed
begin

text \<open>
  The sessions of downloads and the retry policy, \<open>network/transfer/manager/session.go\<close> and \<open>retry.go\<close>. A session is a
  JSON file in a directory; the directory is a file system with a script of faults as in \<open>Storage\<close>, and \<open>encoding/json\<close> at the type
  of sessions is a pair of arguments.
\<close>

section \<open>Sessions\<close>

datatype SessionStatus = StatusInProgress | StatusPaused | StatusCompleted | StatusFailed

record TransferSession =
  ts_ContentID :: ContentID
  ts_TargetPeer :: string
  ts_Completed :: "bool list"
  ts_TotalChunks :: int
  ts_StartedAt :: gotime
  ts_UpdatedAt :: gotime
  ts_Status :: SessionStatus

definition CompletedCount :: "TransferSession \<Rightarrow> nat" where
  "CompletedCount s = length (filter (\<lambda>c. c) (ts_Completed s))"

type_synonym FileSessionManager = FSStorage

datatype session_error =
    SessionRead
  | SessionDecode string
  | SessionEncode string
  | SessionWrite
  | SessionRename
  | SessionRemove
  | SessionReadDir

definition getPath :: "FileSessionManager \<Rightarrow> ContentID \<Rightarrow> string" where
  "getPath m i = join2 (fs_baseDir m) (hex_encode i @ ''.json'')"

text \<open>A session that is not on disk is no error.\<close>

definition session_Open ::
    "(bytes \<Rightarrow> string + TransferSession) \<Rightarrow> ContentID \<Rightarrow> (FileSessionManager, session_error, TransferSession option) stateful" where
  "session_Open unmarshal i m = (case next_fault m of (f, m') \<Rightarrow>
     (case fs_files m' (getPath m' i) of
        None \<Rightarrow> (Inr None, m')
      | Some b \<Rightarrow>
          if f \<noteq> NoFault then (Inl SessionRead, m')
          else (case unmarshal b of
                  Inl e \<Rightarrow> (Inl (SessionDecode e), m')
                | Inr s \<Rightarrow> (Inr (Some s), m'))))"

text \<open>\<open>Save\<close> stamps the session, which its caller keeps, writes a temporary file and renames it. Fault 0 is a failure to create the file,
  1 a failure of the rename, and \<open>n + 2\<close> a write that stops after \<open>n\<close> bytes.\<close>

definition session_Save ::
    "(TransferSession \<Rightarrow> string + bytes) \<Rightarrow> gotime \<Rightarrow> TransferSession \<Rightarrow> FileSessionManager
     \<Rightarrow> (session_error + unit) \<times> TransferSession \<times> FileSessionManager" where
  "session_Save marshal now session m =
     (let s = session\<lparr>ts_UpdatedAt := now\<rparr> in
      (case marshal s of
        Inl e \<Rightarrow> (Inl (SessionEncode e), s, m)
      | Inr b \<Rightarrow>
          (case next_fault m of (f, m') \<Rightarrow>
             let path = getPath m' (ts_ContentID s);
                 tmpPath = path @ ''.tmp''
             in (case f of
                  NoFault \<Rightarrow> (Inr (), s, m'\<lparr>fs_files := (fs_files m')(tmpPath := None, path \<mapsto> b)\<rparr>)
                | FailAt 0 \<Rightarrow> (Inl SessionWrite, s, m')
                | FailAt (Suc 0) \<Rightarrow> (Inl SessionRename, s, m'\<lparr>fs_files := (fs_files m')(tmpPath \<mapsto> b)\<rparr>)
                | FailAt (Suc (Suc n)) \<Rightarrow> (Inl SessionWrite, s, m'\<lparr>fs_files := (fs_files m')(tmpPath \<mapsto> take n b)\<rparr>)))))"

definition session_Close :: "ContentID \<Rightarrow> (FileSessionManager, session_error, unit) stateful" where
  "session_Close i m = (Inr (), m)"

definition session_Delete :: "ContentID \<Rightarrow> (FileSessionManager, session_error, unit) stateful" where
  "session_Delete i m = (case next_fault m of (f, m') \<Rightarrow>
     (case fs_files m' (getPath m' i) of
        None \<Rightarrow> (Inr (), m')
      | Some _ \<Rightarrow>
          if f \<noteq> NoFault then (Inl SessionRemove, m')
          else (Inr (), m'\<lparr>fs_files := (fs_files m')(getPath m' i := None)\<rparr>)))"

text \<open>Files that cannot be read or decoded are left out.\<close>

fun read_sessions ::
    "(bytes \<Rightarrow> string + TransferSession) \<Rightarrow> (string \<times> bool) list \<Rightarrow> FileSessionManager \<Rightarrow> TransferSession list \<times> FileSessionManager" where
  "read_sessions unmarshal [] m = ([], m)"
| "read_sessions unmarshal ((name, isDir) # entries) m =
     (if isDir \<or> file_ext name \<noteq> ''.json'' then read_sessions unmarshal entries m
      else case next_fault m of (f, m') \<Rightarrow>
        (case read_sessions unmarshal entries m' of (rest, m'') \<Rightarrow>
          (case fs_files m' (join2 (fs_baseDir m') name) of
             None \<Rightarrow> (rest, m'')
           | Some b \<Rightarrow>
               if f \<noteq> NoFault then (rest, m'')
               else (case unmarshal b of Inl _ \<Rightarrow> (rest, m'') | Inr s \<Rightarrow> (s # rest, m'')))))"

definition session_List ::
    "(bytes \<Rightarrow> string + TransferSession) \<Rightarrow> dir_listing \<Rightarrow> (FileSessionManager, session_error, TransferSession list) stateful" where
  "session_List unmarshal listing m = (case listing of
     DirMissing \<Rightarrow> (Inr [], m)
   | DirFailed \<Rightarrow> (Inl SessionReadDir, m)
   | DirEntries entries \<Rightarrow> (case read_sessions unmarshal entries m of (ss, m') \<Rightarrow> (Inr ss, m')))"

section \<open>Retries\<close>

record RetryPolicy =
  rp_MaxRetries :: int
  rp_RetryDelay :: duration
  rp_Backoff :: "duration \<Rightarrow> duration"

text \<open>The multiplication of a delay with the factor of the policy is a field, since it goes through \<open>float64\<close>. The operation, the state of the
  context and waiting act on a state of their own; \<open>wait\<close> returns the error of the context if it ends during the wait.\<close>

fun retry_loop ::
    "('s \<Rightarrow> 'e option) \<Rightarrow> (duration \<Rightarrow> 's \<Rightarrow> 'e option \<times> 's) \<Rightarrow> ('s \<Rightarrow> 'e option \<times> 's) \<Rightarrow> (duration \<Rightarrow> duration) \<Rightarrow> nat
     \<Rightarrow> duration \<Rightarrow> 's \<Rightarrow> 'e option \<times> 's" where
  "retry_loop ctx_err wait op backoff n delay s = (case ctx_err s of
     Some e \<Rightarrow> (Some e, s)
   | None \<Rightarrow>
       (case op s of
          (None, s1) \<Rightarrow> (None, s1)
        | (Some e, s1) \<Rightarrow>
            (case n of
               0 \<Rightarrow> (Some e, s1)
             | Suc k \<Rightarrow>
                 (case wait delay s1 of
                    (Some c, s2) \<Rightarrow> (Some c, s2)
                  | (None, s2) \<Rightarrow> retry_loop ctx_err wait op backoff k (backoff delay) s2))))"

definition ExecuteWithRetry ::
    "('s \<Rightarrow> 'e option) \<Rightarrow> (duration \<Rightarrow> 's \<Rightarrow> 'e option \<times> 's) \<Rightarrow> RetryPolicy \<Rightarrow> ('s \<Rightarrow> 'e option \<times> 's) \<Rightarrow> 's \<Rightarrow> 'e option \<times> 's" where
  "ExecuteWithRetry ctx_err wait policy op s =
     (if rp_MaxRetries policy < 0 then (None, s)
      else retry_loop ctx_err wait op (rp_Backoff policy) (nat (rp_MaxRetries policy)) (rp_RetryDelay policy) s)"

section \<open>What sessions guarantee\<close>

lemma getPath_inject: "getPath m i = getPath m j \<longleftrightarrow> i = j"
  by (simp add: getPath_def join2_def hex_encode_inject)

lemma getPath_tmp [simp]: "getPath m i @ ''.tmp'' \<noteq> getPath m j"
proof
  assume "getPath m i @ ''.tmp'' = getPath m j"
  then have "last (getPath m i @ ''.tmp'') = last (getPath m j)" by simp
  then show False by (simp add: getPath_def join2_def)
qed

lemma session_Save_cases:
  assumes "session_Save marshal now session m = (r, s, m')"
  shows "s = session\<lparr>ts_UpdatedAt := now\<rparr>" and "fs_baseDir m' = fs_baseDir m"
    and "j \<noteq> ts_ContentID session \<or> r \<noteq> Inr () \<Longrightarrow> fs_files m' (getPath m' j) = fs_files m (getPath m j)"
    and "r = Inr () \<Longrightarrow> \<exists>b. marshal s = Inr b \<and> fs_files m' (getPath m' (ts_ContentID session)) = Some b"
proof -
  obtain f m1 where f: "next_fault m = (f, m1)" by fastforce
  note ff = next_fault_files [OF f]
  have p: "getPath m1 = getPath m" "getPath (m1\<lparr>fs_files := x\<rparr>) = getPath m" for x using ff by (auto simp: getPath_def)
  note * = assms [unfolded session_Save_def Let_def]
  show "s = session\<lparr>ts_UpdatedAt := now\<rparr>" "fs_baseDir m' = fs_baseDir m"
    using * f ff by (auto split: sum.splits fault.splits nat.splits)
  show "fs_files m' (getPath m' j) = fs_files m (getPath m j)" if "j \<noteq> ts_ContentID session \<or> r \<noteq> Inr ()"
    using * that f ff p getPath_tmp [of m "ts_ContentID session" j, symmetric] by (auto simp: getPath_inject split: sum.splits fault.splits nat.splits)
  show "\<exists>b. marshal s = Inr b \<and> fs_files m' (getPath m' (ts_ContentID session)) = Some b" if "r = Inr ()"
    using * that f ff p by (auto split: sum.splits fault.splits nat.splits)
qed

text \<open>Saving a session is atomic: after a successful save the next reading of the session returns it, and after a failed one, wherever it
  failed, what was there before. Other sessions are not affected either way.\<close>

lemma session_save_atomic:
  assumes "\<And>x b. marshal x = Inr b \<Longrightarrow> unmarshal b = Inr x" and "session_Save marshal now session m = (r, s, m')" and "fs_faults m' = []"
  shows "fst (session_Open unmarshal j m') = (if r = Inr () \<and> j = ts_ContentID session then Inr (Some (session\<lparr>ts_UpdatedAt := now\<rparr>))
     else fst (session_Open unmarshal j (m\<lparr>fs_faults := []\<rparr>)))"
proof -
  note c = session_Save_cases [OF assms(2)]
  have nf: "next_fault m' = (NoFault, m')" "next_fault (m\<lparr>fs_faults := []\<rparr>) = (NoFault, m\<lparr>fs_faults := []\<rparr>)"
    using assms(3) by (simp_all add: next_fault_def)
  have p: "getPath (m\<lparr>fs_faults := []\<rparr>) = getPath m" by (simp add: fun_eq_iff getPath_def)
  show ?thesis
  proof (cases "r = Inr () \<and> j = ts_ContentID session")
    case True
    with c(4) obtain b where "marshal s = Inr b" "fs_files m' (getPath m' j) = Some b" by blast
    with True assms(1) c(1) nf show ?thesis by (simp add: session_Open_def)
  next
    case False
    then have "fs_files m' (getPath m' j) = fs_files m (getPath m j)" using c(3) by blast
    with False nf p show ?thesis by (cases "fs_files m (getPath m j)") (auto simp: session_Open_def split: sum.splits)
  qed
qed

text \<open>A negative number of retries reports success without running the operation.\<close>

lemma negative_retries_succeed: "rp_MaxRetries policy < 0 \<Longrightarrow> ExecuteWithRetry ctx_err wait policy op s = (None, s)"
  by (simp add: ExecuteWithRetry_def)

text \<open>The operation runs at most \<open>MaxRetries + 1\<close> times.\<close>

lemma retry_loop_bounded:
  assumes "\<And>s. calls (snd (op s)) \<le> calls s + (1 :: nat)" and "\<And>d s. calls (snd (wait d s)) = calls s"
  shows "calls (snd (retry_loop ctx_err wait op backoff n delay s)) \<le> calls s + n + 1"
proof (induction n arbitrary: s delay)
  case 0
  then show ?case using assms(1) [of s] by (auto split: option.splits prod.splits)
next
  case (Suc n)
  obtain r s1 where o: "op s = (r, s1)" by fastforce
  obtain c s2 where w: "wait delay s1 = (c, s2)" by fastforce
  have "calls s2 \<le> calls s + 1" using assms(1) [of s] assms(2) [of delay s1] o w by simp
  with Suc.IH [of "backoff delay" s2] o w assms(1) [of s] show ?case
    by (auto split: option.splits prod.splits)
qed

end
