(* ===== verification/TransferManager.thy ===== *)
theory TransferManager
  imports SchedulerFaults Sessions
begin

text \<open>
  Downloads of a content from several peers, \<open>network/transfer/manager/transfer.go\<close>, and the lookup of its manifest,
  \<open>network/retrieval/resolver.go\<close>. A download opens or resumes a session, schedules what is missing and records what the scheduler
  reports. The scheduler runs concurrently with the recording, but the two share no state, so the record is made from the completions
  of a whole run. The clock is a function from the number of the reading to the time; logging and the table of metrics are not modelled.
\<close>

section \<open>Preparing a download\<close>

record TransferManager =
  tm_sessions :: FileSessionManager
  tm_store :: FSStorage

datatype transfer_error =
    NoPeers
  | OpenSession session_error
  | SaveNewSession session_error
  | SaveResumedSession session_error
  | CompletedIndexPanic
  | TransferFailed run_error

text \<open>The chunks that are neither marked as completed nor in the store, with their positions. An error of \<open>HasChunk\<close> counts as a missing
  chunk. \<open>None\<close> is the panic of an index out of range.\<close>

fun plan_tasks :: "nat \<Rightarrow> ChunkID list \<Rightarrow> bool list \<Rightarrow> FSStorage \<Rightarrow> (ChunkTask list \<times> bool list \<times> nat) option \<times> FSStorage" where
  "plan_tasks i [] completed st = (Some ([], completed, 0), st)"
| "plan_tasks i (chunkID # ids) completed st =
     (if i < length completed \<and> completed ! i
      then (case plan_tasks (Suc i) ids completed st of
              (None, st') \<Rightarrow> (None, st')
            | (Some (tasks, c, n), st') \<Rightarrow> (Some (tasks, c, Suc n), st'))
      else (case HasChunk chunkID st of (has, st1) \<Rightarrow>
              if has = Inr True
              then (if i < length completed
                    then (case plan_tasks (Suc i) ids (completed[i := True]) st1 of
                            (None, st') \<Rightarrow> (None, st')
                          | (Some (tasks, c, n), st') \<Rightarrow> (Some (tasks, c, Suc n), st'))
                    else (None, st1))
              else (case plan_tasks (Suc i) ids completed st1 of
                      (None, st') \<Rightarrow> (None, st')
                    | (Some (tasks, c, n), st') \<Rightarrow>
                        (Some (\<lparr>ct_Index = int i, ct_ChunkID = chunkID, ct_Attempts = 0, ct_MissedPeers = {}\<rparr> # tasks, c, n), st'))))"

definition new_session :: "gotime \<Rightarrow> ContentID \<Rightarrow> ChunkID list \<Rightarrow> peerID list \<Rightarrow> TransferSession" where
  "new_session now contentID chunkIDs peers = \<lparr>ts_ContentID = contentID, ts_TargetPeer = hd peers,
     ts_Completed = replicate (length chunkIDs) False, ts_TotalChunks = int (length chunkIDs), ts_StartedAt = now,
     ts_UpdatedAt = 0, ts_Status = StatusInProgress\<rparr>"

definition resume_session :: "ChunkID list \<Rightarrow> TransferSession \<Rightarrow> TransferSession" where
  "resume_session chunkIDs sess =
     (if ts_Completed sess = []
      then sess\<lparr>ts_Completed := replicate (length chunkIDs) False, ts_TotalChunks := int (length chunkIDs), ts_Status := StatusInProgress\<rparr>
      else sess\<lparr>ts_Status := StatusInProgress\<rparr>)"

definition setup_session ::
    "(TransferSession \<Rightarrow> string + bytes) \<Rightarrow> (bytes \<Rightarrow> string + TransferSession) \<Rightarrow> (nat \<Rightarrow> gotime) \<Rightarrow> ContentID \<Rightarrow> ChunkID list
     \<Rightarrow> peerID list \<Rightarrow> (FileSessionManager, transfer_error, TransferSession) stateful" where
  "setup_session marshal unmarshal clock contentID chunkIDs peers m =
     (case session_Open unmarshal contentID m of
        (Inl e, m1) \<Rightarrow> (Inl (OpenSession e), m1)
      | (Inr None, m1) \<Rightarrow>
          (case session_Save marshal (clock 1) (new_session (clock 0) contentID chunkIDs peers) m1 of
             (Inl e, _, m2) \<Rightarrow> (Inl (SaveNewSession e), m2)
           | (Inr _, sess, m2) \<Rightarrow> (Inr sess, m2))
      | (Inr (Some s), m1) \<Rightarrow>
          (case session_Save marshal (clock 1) (resume_session chunkIDs s) m1 of
             (Inl e, _, m2) \<Rightarrow> (Inl (SaveResumedSession e), m2)
           | (Inr _, sess, m2) \<Rightarrow> (Inr sess, m2)))"

text \<open>Everything up to the start of the scheduler: the session with what is already there, and the tasks.\<close>

definition start_download ::
    "(TransferSession \<Rightarrow> string + bytes) \<Rightarrow> (bytes \<Rightarrow> string + TransferSession) \<Rightarrow> (nat \<Rightarrow> gotime) \<Rightarrow> ContentID \<Rightarrow> ChunkID list
     \<Rightarrow> peerID list \<Rightarrow> (TransferManager, transfer_error, TransferSession \<times> ChunkTask list) stateful" where
  "start_download marshal unmarshal clock contentID chunkIDs peers tm =
     (if peers = [] then (Inl NoPeers, tm)
      else (case setup_session marshal unmarshal clock contentID chunkIDs peers (tm_sessions tm) of
              (Inl e, m) \<Rightarrow> (Inl e, tm\<lparr>tm_sessions := m\<rparr>)
            | (Inr sess, m) \<Rightarrow>
                (case plan_tasks 0 chunkIDs (ts_Completed sess) (tm_store tm) of
                   (None, st) \<Rightarrow> (Inl CompletedIndexPanic, \<lparr>tm_sessions = m, tm_store = st\<rparr>)
                 | (Some (tasks, completed, n), st) \<Rightarrow>
                     (case session_Save marshal (clock 2) (sess\<lparr>ts_Completed := completed\<rparr>) m of
                        (_, sess', m') \<Rightarrow> (Inr (sess', tasks), \<lparr>tm_sessions = m', tm_store = st\<rparr>)))))"

section \<open>Recording the result\<close>

fun record_completions ::
    "(TransferSession \<Rightarrow> string + bytes) \<Rightarrow> (nat \<Rightarrow> gotime) \<Rightarrow> nat \<Rightarrow> WorkerResult list \<Rightarrow> TransferSession \<Rightarrow> FileSessionManager
     \<Rightarrow> TransferSession \<times> FileSessionManager" where
  "record_completions marshal clock k [] sess m = (sess, m)"
| "record_completions marshal clock k (res # rs) sess m =
     (let i = nat (ct_Index (res_Task res));
          marked = (if i < length (ts_Completed sess) then sess\<lparr>ts_Completed := (ts_Completed sess)[i := True]\<rparr> else sess)
      in case session_Save marshal (clock k) marked m of
           (_, sess', m') \<Rightarrow> record_completions marshal clock (Suc k) rs sess' m')"

definition finish_download ::
    "(TransferSession \<Rightarrow> string + bytes) \<Rightarrow> (nat \<Rightarrow> gotime) \<Rightarrow> WorkerResult list \<Rightarrow> run_error option \<Rightarrow> TransferSession
     \<Rightarrow> (FileSessionManager, transfer_error, unit) stateful" where
  "finish_download marshal clock completions schedErr sess m =
     (case record_completions marshal clock 3 completions sess m of (sess', m') \<Rightarrow>
        (case schedErr of
           Some e \<Rightarrow> (Inl (TransferFailed e),
             snd (snd (session_Save marshal (clock (3 + length completions)) (sess'\<lparr>ts_Status := StatusFailed\<rparr>) m')))
         | None \<Rightarrow> (Inr (),
             snd (snd (session_Save marshal (clock (3 + length completions)) (sess'\<lparr>ts_Status := StatusCompleted\<rparr>) m')))))"

definition sources_of :: "peerID list \<Rightarrow> Source list" where
  "sources_of peers = map (\<lambda>p. \<lparr>so_PeerID = p, so_Available = None\<rparr>) peers"

text \<open>\<open>Download\<close> as a relation, since its outcome depends on the run of the scheduler, which makes at most three attempts for each chunk.\<close>

inductive tm_Download ::
    "(ChunkID \<Rightarrow> 'c \<times> 'g \<Rightarrow> (fetch_error + Chunk) \<times> ('c \<times> 'g)) \<Rightarrow> (peerID \<Rightarrow> 'c option) \<Rightarrow> 'g
     \<Rightarrow> (TransferSession \<Rightarrow> string + bytes) \<Rightarrow> (bytes \<Rightarrow> string + TransferSession) \<Rightarrow> (nat \<Rightarrow> gotime)
     \<Rightarrow> ContentID \<Rightarrow> ChunkID list \<Rightarrow> peerID list \<Rightarrow> TransferManager \<Rightarrow> transfer_error + unit \<Rightarrow> TransferManager \<Rightarrow> bool"
  for fetch connect g marshal unmarshal clock contentID chunkIDs peers tm where
  td_refused: "start_download marshal unmarshal clock contentID chunkIDs peers tm = (Inl e, tm') \<Longrightarrow>
    tm_Download fetch connect g marshal unmarshal clock contentID chunkIDs peers tm (Inl e) tm'"
| td_nothing: "start_download marshal unmarshal clock contentID chunkIDs peers tm = (Inr (sess, []), tm1) \<Longrightarrow>
    session_Save marshal (clock 3) (sess\<lparr>ts_Status := StatusCompleted\<rparr>) (tm_sessions tm1) = (x, s, m) \<Longrightarrow>
    tm_Download fetch connect g marshal unmarshal clock contentID chunkIDs peers tm (Inr ()) (tm1\<lparr>tm_sessions := m\<rparr>)"
| td_unconnected: "start_download marshal unmarshal clock contentID chunkIDs peers tm = (Inr (sess, tasks), tm1) \<Longrightarrow> tasks \<noteq> [] \<Longrightarrow>
    run_start connect tasks (sources_of peers) (tm_store tm1) g = Inl e \<Longrightarrow>
    finish_download marshal clock [] (Some e) sess (tm_sessions tm1) = (r, m) \<Longrightarrow>
    tm_Download fetch connect g marshal unmarshal clock contentID chunkIDs peers tm r (tm1\<lparr>tm_sessions := m\<rparr>)"
| td_run: "start_download marshal unmarshal clock contentID chunkIDs peers tm = (Inr (sess, tasks), tm1) \<Longrightarrow> tasks \<noteq> [] \<Longrightarrow>
    run_start connect tasks (sources_of peers) (tm_store tm1) g = Inr s0 \<Longrightarrow> (any_step fetch 3 (length peers))\<^sup>*\<^sup>* s0 s \<Longrightarrow>
    rn_return s = Some err \<Longrightarrow> finish_download marshal clock (rn_completions s) err sess (tm_sessions tm1) = (r, m) \<Longrightarrow>
    tm_Download fetch connect g marshal unmarshal clock contentID chunkIDs peers tm r \<lparr>tm_sessions = m, tm_store = rn_store s\<rparr>"

section \<open>Finding the manifest\<close>

datatype resolve_error =
    NoProviderTried
  | ConnectFailed peerID
  | ResolveFailed fetch_error
  | InvalidManifest peerID

fun ResolveManifest ::
    "(peerID \<Rightarrow> stream option) \<Rightarrow> (bytes \<Rightarrow> Manifest option) \<Rightarrow> ContentID \<Rightarrow> peerID list \<Rightarrow> resolve_error \<Rightarrow> resolve_error + Manifest" where
  "ResolveManifest connect deserialize cid [] lastErr = Inl lastErr"
| "ResolveManifest connect deserialize cid (provider # providers) lastErr = (case connect provider of
     None \<Rightarrow> ResolveManifest connect deserialize cid providers (ConnectFailed provider)
   | Some strm \<Rightarrow>
       (case Resolve cid \<lparr>cl_engine = (), cl_tickets = (), cl_stream = strm\<rparr> of
          (Inl e, _) \<Rightarrow> ResolveManifest connect deserialize cid providers (ResolveFailed e)
        | (Inr manifestData, _) \<Rightarrow>
            (case deserialize manifestData of
               None \<Rightarrow> ResolveManifest connect deserialize cid providers (InvalidManifest provider)
             | Some m \<Rightarrow> Inr m)))"

section \<open>What a successful download means\<close>

lemma plan_tasks_ok:
  assumes "plan_tasks i ids completed st = (Some (tasks, c, n), st')"
  shows "fs_files st' = fs_files st \<and> fs_baseDir st' = fs_baseDir st \<and> length c = length completed
    \<and> (\<forall>j < length ids. i + j < length completed \<and> completed ! (i + j)
         \<or> fs_files st (pathForChunk st (ids ! j)) \<noteq> None \<or> (\<exists>t \<in> set tasks. ct_ChunkID t = ids ! j))"
  using assms
proof (induction ids arbitrary: i completed st tasks c n st')
  case (Cons x ids)
  have shift: "(\<forall>j < length (x # ids). P j) \<longleftrightarrow> P 0 \<and> (\<forall>j < length ids. P (Suc j))" for P
    by (auto simp: less_Suc_eq_0_disj)
  show ?case
  proof (cases "i < length completed \<and> completed ! i")
    case True
    then obtain tasks1 n1 where "plan_tasks (Suc i) ids completed st = (Some (tasks1, c, n1), st')" "tasks = tasks1"
      using Cons.prems by (auto split: prod.splits option.splits)
    with Cons.IH [OF this(1)] True show ?thesis unfolding shift by simp
  next
    case False
    obtain has st1 where h: "HasChunk x st = (has, st1)" by fastforce
    note hf = HasChunk_files [OF h]
    have p: "pathForChunk st1 = pathForChunk st" using hf(2) by (simp add: fun_eq_iff pathForChunk_def Let_def)
    show ?thesis
    proof (cases "has = Inr True")
      case True
      with Cons.prems False h obtain n1 where i: "i < length completed"
          "plan_tasks (Suc i) ids (completed[i := True]) st1 = (Some (tasks, c, n1), st')"
        by (auto split: prod.splits option.splits if_splits)
      have "(completed[i := True]) ! (Suc i + j) = completed ! (Suc i + j)" for j by (simp add: nth_list_update)
      with Cons.IH [OF i(2)] hf p True i(1) show ?thesis unfolding shift by simp
    next
      case False
      with Cons.prems h \<open>\<not> (i < length completed \<and> completed ! i)\<close> obtain tasks1 n1 where
          "plan_tasks (Suc i) ids completed st1 = (Some (tasks1, c, n1), st')"
          "tasks = \<lparr>ct_Index = int i, ct_ChunkID = x, ct_Attempts = 0, ct_MissedPeers = {}\<rparr> # tasks1"
        by (auto split: prod.splits option.splits if_splits)
      with Cons.IH [OF this(1)] hf p show ?thesis unfolding shift by auto
    qed
  qed
qed simp

lemma chunk_files_cas: "chunk_files s \<Longrightarrow> cas_files s"
  by (fastforce simp: chunk_files_def cas_files_def holds_chunk_def)

lemma start_download_fresh:
  assumes "fs_files (tm_sessions tm) (getPath (tm_sessions tm) contentID) = None"
    and "start_download marshal unmarshal clock contentID chunkIDs peers tm = (Inr (sess, tasks), tm1)"
  shows "fs_files (tm_store tm1) = fs_files (tm_store tm) \<and> fs_baseDir (tm_store tm1) = fs_baseDir (tm_store tm)
    \<and> (\<forall>i \<in> set chunkIDs. fs_files (tm_store tm) (pathForChunk (tm_store tm) i) \<noteq> None \<or> (\<exists>t \<in> set tasks. ct_ChunkID t = i))"
proof -
  let ?m = "tm_sessions tm"
  obtain f m' where f: "next_fault ?m = (f, m')" by fastforce
  have "session_Open unmarshal contentID ?m = (Inr None, m')"
    using assms(1) f next_fault_files [OF f] by (simp add: session_Open_def getPath_def)
  then obtain c n where s: "plan_tasks 0 chunkIDs (replicate (length chunkIDs) False) (tm_store tm) = (Some (tasks, c, n), tm_store tm1)"
    using assms(2) by (auto simp: start_download_def setup_session_def new_session_def dest!: session_Save_cases(1)
        split: if_splits sum.splits prod.splits option.splits)
  from plan_tasks_ok [OF s] show ?thesis by (simp add: all_set_conv_all_nth)
qed

text \<open>C14. A download that reports success has the content: without an earlier session, and in a store that holds only whole chunks, once
  \<open>Download\<close> has returned without an error every chunk that was asked for is in the store, under every interleaving of the workers, whatever the
  providers sent and whatever system calls failed.\<close>

theorem successful_download_has_all_chunks:
  assumes "chunk_files (tm_store tm)" and "\<forall>i \<in> set chunkIDs. length i = 32"
    and "fs_files (tm_sessions tm) (getPath (tm_sessions tm) contentID) = None"
    and "tm_Download (client_fetch ma gen) connect g marshal unmarshal clock contentID chunkIDs peers tm (Inr ()) tm'"
  shows "\<forall>i \<in> set chunkIDs. holds_chunk (tm_store tm') i"
proof
  fix i
  assume i: "i \<in> set chunkIDs"
  have start: "holds_chunk (tm_store tm1) i \<or> (\<exists>t \<in> set tasks. ct_ChunkID t = i)" and cas: "cas_files (tm_store tm1)"
    if "start_download marshal unmarshal clock contentID chunkIDs peers tm = (Inr (sess, tasks), tm1)" for sess tasks tm1
  proof -
    note st = start_download_fresh [OF assms(3) that]
    have same: "fs_files (tm_store tm1) (pathForChunk (tm_store tm1) j) = fs_files (tm_store tm) (pathForChunk (tm_store tm) j)" for j
      using st path_base [of "tm_store tm1" "tm_store tm" j] by simp
    note cf = chunk_files_same [of "tm_store tm1" "tm_store tm", OF same]
    show "holds_chunk (tm_store tm1) i \<or> (\<exists>t \<in> set tasks. ct_ChunkID t = i)"
      using st cf(1) i assms(1,2) unfolding chunk_files_def by blast
    show "cas_files (tm_store tm1)" using chunk_files_cas [OF cf(2) [OF assms(1)]] .
  qed
  from assms(4) show "holds_chunk (tm_store tm') i"
  proof cases
    case (td_nothing sess tm1 x s m)
    with start show ?thesis by fastforce
  next
    case (td_unconnected sess tasks tm1 e m)
    then show ?thesis by (simp add: finish_download_def split: prod.splits)
  next
    case (td_run sess tasks tm1 s0 s err m)
    have "length (sources_of peers) = length peers" by (simp add: sources_of_def)
    then have "sched_init (length peers) tasks s0" using td_run(4) cas [OF td_run(2)] unfolding sched_init_def by blast
    then have "run_inv tasks s0" by (rule run_inv_start)
    then have inv: "run_inv tasks s" using td_run(5) by (rule client.runs.inv_steps)
    have "rn_return s = Some None" using td_run(6,7) by (auto simp: finish_download_def split: prod.splits option.splits)
    from run_returned [OF inv this] client.run_holds [OF \<open>run_inv tasks s0\<close> td_run(5)] start [OF td_run(2)] run_start_ok(7) [OF td_run(4)]
    show ?thesis using td_run(1) by auto
  qed
qed

lemma finish_download_None: "\<exists>m'. finish_download marshal clock rs None sess m = (Inr (), m')"
  by (simp add: finish_download_def split: prod.split)

theorem successful_download_has_all_chunks_witness:
  "\<exists>tm'. tm_Download (client_fetch (\<lambda>_ :: nat. Inr []) None) (\<lambda>_. Some (serving example_chunk)) () (\<lambda>_. Inr []) (\<lambda>_. Inl []) (\<lambda>n. int n)
       (replicate 32 5) [sha256 [1, 2]] [''b''] \<lparr>tm_sessions = empty_fs, tm_store = empty_fs\<rparr> (Inr ()) tm'
     \<and> holds_chunk (tm_store tm') (sha256 [1, 2])"
proof -
  let ?f = "client_fetch (\<lambda>_ :: nat. Inr []) None" and ?tm = "\<lparr>tm_sessions = empty_fs, tm_store = empty_fs\<rparr>"
  let ?start = "start_download (\<lambda>_. Inr []) (\<lambda>_. Inl []) (\<lambda>n. int n) (replicate 32 5) [sha256 [1, 2]] [''b''] ?tm"
  have nf: "next_fault (empty_fs\<lparr>fs_files := x\<rparr>) = (NoFault, empty_fs\<lparr>fs_files := x\<rparr>)" "next_fault empty_fs = (NoFault, empty_fs)" for x
    by (simp_all add: next_fault_def empty_fs_def)
  have e: "fs_files empty_fs p = None" for p by (simp add: empty_fs_def)
  obtain sess tm1 where s: "?start = (Inr (sess, [example_task]), tm1)" "tm_store tm1 = empty_fs"
    by (simp add: start_download_def setup_session_def session_Open_def session_Save_def HasChunk_def nf e new_session_def Let_def
        example_task_def fresh_task_def)
  obtain t where t: "make_moves ?f 3 1 [Work 0, Work 0, Work 0, Work 0, Handle] (example_start (serving example_chunk)) = Some t"
      "rn_return t = Some None"
    using example_moves [where fetch = ?f, OF fetch_serving [OF example_chunk_servable]] by blast
  have steps: "(any_step ?f 3 (length [''b'']))\<^sup>*\<^sup>* (example_start (serving example_chunk)) t"
    by (rule rtranclp_mono [THEN predicate2D, OF _ make_moves_steps [OF t(1)], simplified]) (auto simp: any_step_def)
  have st: "run_start (\<lambda>_. Some (serving example_chunk)) [example_task] (sources_of [''b'']) (tm_store tm1) ()
      = Inr (example_start (serving example_chunk))"
    using example_run_start s(2) by (simp add: sources_of_def source_def)
  obtain m where "finish_download (\<lambda>_. Inr []) (\<lambda>n. int n) (rn_completions t) None sess (tm_sessions tm1) = (Inr (), m)"
    using finish_download_None by blast
  from td_run [OF s(1) _ st steps t(2) this]
  have "tm_Download ?f (\<lambda>_. Some (serving example_chunk)) () (\<lambda>_. Inr []) (\<lambda>_. Inl []) (\<lambda>n. int n) (replicate 32 5) [sha256 [1, 2]]
      [''b''] ?tm (Inr ()) \<lparr>tm_sessions = m, tm_store = rn_store t\<rparr>" by simp
  with successful_download_has_all_chunks [OF _ _ _ this] show ?thesis
    by (auto simp: chunk_files_def e)
qed

section \<open>Where a resumed session goes wrong\<close>

text \<open>The flags of a stored session are believed: if they are all set, \<open>Download\<close> reports success without looking at the store.\<close>

lemma resumed_session_is_believed:
  assumes "\<And>x. \<exists>b. marshal x = Inr b" and "fs_faults (tm_sessions tm) = []" and "peers \<noteq> []"
    and "fs_files (tm_sessions tm) (getPath (tm_sessions tm) contentID) = Some b" and "unmarshal b = Inr s"
    and "ts_Completed s = replicate (length chunkIDs) True" and "chunkIDs \<noteq> []"
  shows "\<exists>tm'. tm_Download fetch connect g marshal unmarshal clock contentID chunkIDs peers tm (Inr ()) tm' \<and> tm_store tm' = tm_store tm"
proof -
  have plan: "plan_tasks i ids (replicate n True) st = (Some ([], replicate n True, length ids), st)" if "i + length ids \<le> n" for i n ids st
    using that by (induction ids arbitrary: i) simp_all
  have save: "\<exists>m'. session_Save marshal c x m = (Inr (), x\<lparr>ts_UpdatedAt := c\<rparr>, m') \<and> fs_faults m' = []" if "fs_faults m = []" for c x m
    using assms(1) [of "x\<lparr>ts_UpdatedAt := c\<rparr>"] that by (auto simp: session_Save_def next_fault_def Let_def)
  have "session_Open unmarshal contentID (tm_sessions tm) = (Inr (Some s), tm_sessions tm)"
    using assms(2,4,5) by (simp add: session_Open_def next_fault_def)
  then obtain m s' where "setup_session marshal unmarshal clock contentID chunkIDs peers (tm_sessions tm) = (Inr s', m)"
      "fs_faults m = []" "ts_Completed s' = replicate (length chunkIDs) True"
    using save [OF assms(2), of "clock 1" "resume_session chunkIDs s"] assms(6,7) by (auto simp: setup_session_def resume_session_def)
  moreover obtain m2 where "session_Save marshal (clock 2) (s'\<lparr>ts_Completed := replicate (length chunkIDs) True\<rparr>) m
      = (Inr (), s'\<lparr>ts_Completed := replicate (length chunkIDs) True, ts_UpdatedAt := clock 2\<rparr>, m2)"
    using save [OF calculation(2), of "clock 2" "s'\<lparr>ts_Completed := replicate (length chunkIDs) True\<rparr>"] by auto
  ultimately obtain sess tm1 where st: "start_download marshal unmarshal clock contentID chunkIDs peers tm = (Inr (sess, []), tm1)"
      "tm_store tm1 = tm_store tm"
    using plan [of 0 chunkIDs] assms(3) by (simp add: start_download_def)
  obtain x s2 m3 where "session_Save marshal (clock 3) (sess\<lparr>ts_Status := StatusCompleted\<rparr>) (tm_sessions tm1) = (x, s2, m3)"
    by (metis prod_cases3)
  from td_nothing [OF st(1) this] st(2) show ?thesis by fastforce
qed

section \<open>Manifests\<close>

text \<open>What a provider answers to a request for the manifest of a content.\<close>

definition manifest_answer :: "(peerID \<Rightarrow> stream option) \<Rightarrow> (bytes \<Rightarrow> Manifest option) \<Rightarrow> ContentID \<Rightarrow> peerID \<Rightarrow> Manifest option" where
  "manifest_answer connect deserialize cid p = (case connect p of
     None \<Rightarrow> None
   | Some strm \<Rightarrow> (case Resolve cid \<lparr>cl_engine = (), cl_tickets = (), cl_stream = strm\<rparr> :: (fetch_error + bytes) \<times> (unit, unit) Client of
       (Inl _, _) \<Rightarrow> None
     | (Inr b, _) \<Rightarrow> deserialize b))"

lemma ResolveManifest_Cons:
  "\<exists>e'. ResolveManifest connect deserialize cid (p # ps) e = (case manifest_answer connect deserialize cid p of
     None \<Rightarrow> ResolveManifest connect deserialize cid ps e' | Some m \<Rightarrow> Inr m)"
  by (auto simp: manifest_answer_def split: option.splits prod.splits sum.splits)

text \<open>The manifest is that of the first provider that gives one, whatever content the manifest itself claims to describe.\<close>

lemma ResolveManifest_first:
  "ResolveManifest connect deserialize cid ps e = Inr m \<longleftrightarrow>
     (\<exists>k < length ps. (\<forall>j < k. manifest_answer connect deserialize cid (ps ! j) = None)
        \<and> manifest_answer connect deserialize cid (ps ! k) = Some m)"
proof (induction ps arbitrary: e)
  case (Cons p ps)
  obtain e' where e: "ResolveManifest connect deserialize cid (p # ps) e = (case manifest_answer connect deserialize cid p of
      None \<Rightarrow> ResolveManifest connect deserialize cid ps e' | Some x \<Rightarrow> Inr x)"
    using ResolveManifest_Cons by blast
  show ?case unfolding e using Cons.IH [of e'] by (cases "manifest_answer connect deserialize cid p") (auto simp: All_less_Suc2 Ex_less_Suc2)
qed simp


end
