(* ===== verification/FileTransfer.thy ===== *)
theory FileTransfer
  imports Storage Wire
begin

text \<open>
  The transfer of a whole file over a stream, \<open>network/transfer\<close>: \<open>header.go\<close>, \<open>sender.go\<close> and \<open>receiver.go\<close>, with what they use of
  \<open>path/filepath\<close>. A fault says at which system call an operation fails. \<open>io.Copy\<close> writes block by block; since the blocks go to the same
  writer it appears as one write, which may stop after any number of bytes. Progress and throughput are only logged.
\<close>

section \<open>Paths\<close>

fun split_path :: "string \<Rightarrow> string list" where
  "split_path [] = [[]]"
| "split_path (c # cs) = (if c = CHR ''/'' then [] # split_path cs
     else (case split_path cs of [] \<Rightarrow> [[c]] | x # xs \<Rightarrow> (c # x) # xs))"

fun join_path :: "string list \<Rightarrow> string" where
  "join_path [] = []"
| "join_path [x] = x"
| "join_path (x # xs) = x @ ''/'' @ join_path xs"

text \<open>The elements of a cleaned path; the stack is kept in reverse.\<close>

fun clean_elems :: "bool \<Rightarrow> string list \<Rightarrow> string list \<Rightarrow> string list" where
  "clean_elems rooted st [] = rev st"
| "clean_elems rooted st (x # xs) =
     (if x = [] \<or> x = ''.'' then clean_elems rooted st xs
      else if x = ''..''
      then (if st \<noteq> [] \<and> hd st \<noteq> ''..'' then clean_elems rooted (tl st) xs
            else if rooted then clean_elems rooted st xs
            else clean_elems rooted (''..'' # st) xs)
      else clean_elems rooted (x # st) xs)"

definition filepath_Clean :: "string \<Rightarrow> string" where
  "filepath_Clean p =
     (if p = [] then ''.''
      else
        let rooted = (hd p = CHR ''/'');
            out = join_path (clean_elems rooted [] (split_path p))
        in if rooted then CHR ''/'' # out else if out = [] then ''.'' else out)"

definition filepath_Join :: "string \<Rightarrow> string \<Rightarrow> string" where
  "filepath_Join a b =
     (if a = [] then (if b = [] then [] else filepath_Clean b)
      else if b = [] then filepath_Clean a else filepath_Clean (a @ ''/'' @ b))"

definition filepath_Base :: "string \<Rightarrow> string" where
  "filepath_Base p =
     (if p = [] then ''.''
      else
        let q = rev (dropWhile (\<lambda>c. c = CHR ''/'') (rev p));
            b = rev (takeWhile (\<lambda>c. c \<noteq> CHR ''/'') (rev q))
        in if b = [] then ''/'' else b)"

section \<open>Headers\<close>

record Header =
  th_Version :: byte
  th_Type :: byte
  th_Filename :: string
  th_FileSize :: u64
  th_Checksum :: bytes

definition ProtocolVersion1 :: byte where
  "ProtocolVersion1 = 1"

definition MsgTypeFileTransfer :: byte where
  "MsgTypeFileTransfer = 1"

datatype transfer_failure =
    HeaderField nat io_error
  | FileOpen
  | FileStat
  | FileHash
  | FileRewind
  | SendData io_error
  | ReadData
  | Unsupported byte byte
  | DownloadsDir
  | FileCreate
  | FileWrite
  | ReceiveData io_error
  | SizeMismatch u64 nat

fun write_fields :: "nat \<Rightarrow> bytes list \<Rightarrow> (writer, transfer_failure, unit) stateful" where
  "write_fields i [] w = (Inr (), w)"
| "write_fields i (b # bs) w = (case Write b w of
     (Inl e, w') \<Rightarrow> (Inl (HeaderField i e), w')
   | (Inr _, w') \<Rightarrow> write_fields (Suc i) bs w')"

definition Header_WriteTo :: "Header \<Rightarrow> (writer, transfer_failure, unit) stateful" where
  "Header_WriteTo h =
     (let filenameBytes = str_bytes (th_Filename h) in
      write_fields 1 [[th_Version h], [th_Type h], put_u16_be (of_nat (length filenameBytes)), filenameBytes,
        put_u64_be (th_FileSize h), th_Checksum h])"

definition Header_ReadFrom :: "(reader, transfer_failure, Header) stateful" where
  "Header_ReadFrom r0 =
     (case ReadFull 1 r0 of
        (Inl e, r) \<Rightarrow> (Inl (HeaderField 1 e), r)
      | (Inr v, r1) \<Rightarrow>
     (case ReadFull 1 r1 of
        (Inl e, r) \<Rightarrow> (Inl (HeaderField 2 e), r)
      | (Inr ty, r2) \<Rightarrow>
     (case ReadFull 2 r2 of
        (Inl e, r) \<Rightarrow> (Inl (HeaderField 3 e), r)
      | (Inr len, r3) \<Rightarrow>
     (case ReadFull (unat (get_u16_be len)) r3 of
        (Inl e, r) \<Rightarrow> (Inl (HeaderField 4 e), r)
      | (Inr name, r4) \<Rightarrow>
     (case ReadFull 8 r4 of
        (Inl e, r) \<Rightarrow> (Inl (HeaderField 5 e), r)
      | (Inr sz, r5) \<Rightarrow>
     (case ReadFull 32 r5 of
        (Inl e, r) \<Rightarrow> (Inl (HeaderField 6 e), r)
      | (Inr checksum, r6) \<Rightarrow>
          (Inr \<lparr>th_Version = hd v, th_Type = hd ty, th_Filename = bytes_str name, th_FileSize = get_u64_be sz,
             th_Checksum = checksum\<rparr>, r6)))))))"

section \<open>Sending\<close>

text \<open>System calls: 0 opens the file, 1 asks for its size, 2 reads it for the checksum, 3 rewinds it, and from 4 on the reading for the transfer
  stops after so many bytes less 4.\<close>

definition Send :: "(string \<rightharpoonup> bytes) \<Rightarrow> fault \<Rightarrow> string \<Rightarrow> (writer, transfer_failure, unit) stateful" where
  "Send files f filePath w = (case files filePath of
     None \<Rightarrow> (Inl FileOpen, w)
   | Some content \<Rightarrow>
       if f = FailAt 0 then (Inl FileOpen, w)
       else if f = FailAt 1 then (Inl FileStat, w)
       else if f = FailAt 2 then (Inl FileHash, w)
       else if f = FailAt 3 then (Inl FileRewind, w)
       else
         (case Header_WriteTo \<lparr>th_Version = ProtocolVersion1, th_Type = MsgTypeFileTransfer, th_Filename = filepath_Base filePath,
              th_FileSize = of_nat (length content), th_Checksum = sha256 content\<rparr> w of
            (Inl e, w1) \<Rightarrow> (Inl e, w1)
          | (Inr _, w1) \<Rightarrow>
              (case Write (case f of FailAt n \<Rightarrow> take (n - 4) content | NoFault \<Rightarrow> content) w1 of
                 (Inl e, w2) \<Rightarrow> (Inl (SendData e), w2)
               | (Inr _, w2) \<Rightarrow> if f = NoFault then (Inr (), w2) else (Inl ReadData, w2))))"

section \<open>Receiving\<close>

text \<open>The bytes an \<open>io.LimitReader\<close> lets through: its limit is a signed 64-bit integer, and none get through if that is negative.\<close>

definition limit :: "u64 \<Rightarrow> nat" where
  "limit sz = nat (wrap64 (uint sz))"

text \<open>System calls: 0 creates the directory, 1 the file, and from 2 on the writing stops after so many bytes less 2. A checksum that does not match
  is only logged.\<close>

definition Receive :: "fault \<Rightarrow> reader \<Rightarrow> (string \<rightharpoonup> bytes, transfer_failure, unit) stateful" where
  "Receive f r files = (case Header_ReadFrom r of
     (Inl e, _) \<Rightarrow> (Inl e, files)
   | (Inr h, r1) \<Rightarrow>
       if th_Version h \<noteq> ProtocolVersion1 \<or> th_Type h \<noteq> MsgTypeFileTransfer then (Inl (Unsupported (th_Version h) (th_Type h)), files)
       else if f = FailAt 0 then (Inl DownloadsDir, files)
       else if f = FailAt 1 then (Inl FileCreate, files)
       else
         let outPath = filepath_Join ''downloads'' (th_Filename h);
             data = take (limit (th_FileSize h)) (rd_data r1);
             written = files(outPath \<mapsto> data)
         in (case f of
               FailAt n \<Rightarrow> (Inl FileWrite, files(outPath \<mapsto> take (n - 2) data))
             | NoFault \<Rightarrow>
                 if length (rd_data r1) < limit (th_FileSize h) \<and> rd_end r1 \<noteq> EOF then (Inl (ReceiveData (rd_end r1)), written)
                 else if length data \<noteq> unat (th_FileSize h) then (Inl (SizeMismatch (th_FileSize h) (length data)), written)
                 else (Inr (), written)))"

section \<open>Lemmas\<close>

lemma split_path_plain: "CHR ''/'' \<notin> set s \<Longrightarrow> split_path s = [s]"
  by (induction s) auto

lemma split_path_append: "CHR ''/'' \<notin> set s \<Longrightarrow> split_path (s @ ''/'' @ t) = s # split_path t"
  by (induction s) auto

definition plain_name :: "string \<Rightarrow> bool" where
  "plain_name s \<longleftrightarrow> CHR ''/'' \<notin> set s \<and> s \<notin> {[], ''.'', ''..''}"

lemma Join_plain: "plain_name s \<Longrightarrow> filepath_Join ''downloads'' s = ''downloads/'' @ s"
  using split_path_append [of "''downloads''" s] split_path_plain [of s]
  by (simp add: filepath_Join_def filepath_Clean_def plain_name_def Let_def)

text \<open>A file name that leads out of the directory.\<close>

lemma Join_escapes: "plain_name s \<Longrightarrow> filepath_Join ''downloads'' (''../'' @ s) = s"
  using split_path_append [of "''downloads''" "''../'' @ s"] split_path_append [of "''..''" s] split_path_plain [of s]
  by (simp add: filepath_Join_def filepath_Clean_def plain_name_def Let_def)

lemma limit_small:
  assumes "unat sz < 2 ^ 63"
  shows "limit sz = unat sz"
proof -
  have "int (unat sz) < int (2 ^ 63)" using assms by linarith
  then have "uint sz < 2 ^ 63" by simp
  moreover have "- (2 ^ 63) \<le> uint sz" by (rule order_trans [of _ 0]) simp_all
  ultimately have "wrap64 (uint sz) = uint sz" by (intro wrap64_id) (simp only: in_int64_def)
  then show ?thesis by (simp only: limit_def unat_eq_nat_uint)
qed

definition header_bytes :: "Header \<Rightarrow> bytes" where
  "header_bytes h = [th_Version h, th_Type h] @ put_u16_be (of_nat (length (th_Filename h))) @ str_bytes (th_Filename h)
     @ put_u64_be (th_FileSize h) @ th_Checksum h"

lemma WriteTo_good: "Header_WriteTo h (good_writer out) = (Inr (), good_writer (out @ header_bytes h))"
  by (simp add: Header_WriteTo_def header_bytes_def Let_def)

lemma ReadFrom_header:
  assumes "length (th_Filename h) < 2 ^ 16" and "length (th_Checksum h) = 32"
  shows "Header_ReadFrom \<lparr>rd_data = header_bytes h @ rest, rd_end = e\<rparr> = (Inr h, \<lparr>rd_data = rest, rd_end = e\<rparr>)"
proof -
  have "unat (of_nat (length (th_Filename h)) :: u16) = length (th_Filename h)"
    using assms(1) by (simp add: unat_of_nat take_bit_nat_eq_self)
  then show ?thesis
    using assms(2) ReadFull_append [of "[th_Version h]" 1] ReadFull_append [of "[th_Type h]" 1]
    by (simp add: Header_ReadFrom_def header_bytes_def)
qed

section \<open>Properties\<close>

text \<open>C29. A file arrives as it was sent: if \<open>Send\<close> runs without a fault, \<open>Receive\<close> of the bytes it wrote stores the same content in the
  download directory under the base name of the path, whatever follows on the stream.\<close>

theorem file_transfer_roundtrip:
  assumes "files path = Some content" and "plain_name (filepath_Base path)" and "length (filepath_Base path) < 2 ^ 16"
    and "length content < 2 ^ 63"
  shows "\<exists>b. Send files NoFault path (good_writer []) = (Inr (), good_writer b)
    \<and> Receive NoFault \<lparr>rd_data = b @ rest, rd_end = e\<rparr> other = (Inr (), other(''downloads/'' @ filepath_Base path \<mapsto> content))"
proof -
  let ?h = "\<lparr>th_Version = ProtocolVersion1, th_Type = MsgTypeFileTransfer, th_Filename = filepath_Base path,
    th_FileSize = of_nat (length content), th_Checksum = sha256 content\<rparr>"
  have len: "unat (of_nat (length content) :: u64) = length content"
    using assms(4) by (simp add: unat_of_nat take_bit_nat_eq_self)
  have rd: "Header_ReadFrom \<lparr>rd_data = header_bytes ?h @ content @ rest, rd_end = e\<rparr> = (Inr ?h, \<lparr>rd_data = content @ rest, rd_end = e\<rparr>)"
    using assms(3) by (intro ReadFrom_header) simp_all
  have "limit (of_nat (length content)) = length content" using limit_small [of "of_nat (length content)"] len assms(4) by simp
  with rd len have "Receive NoFault \<lparr>rd_data = (header_bytes ?h @ content) @ rest, rd_end = e\<rparr> other
      = (Inr (), other(''downloads/'' @ filepath_Base path \<mapsto> content))"
    by (simp add: Receive_def Let_def Join_plain [OF assms(2)])
  moreover have "Send files NoFault path (good_writer []) = (Inr (), good_writer (header_bytes ?h @ content))"
    using assms(1) by (simp add: Send_def WriteTo_good)
  ultimately show ?thesis by blast
qed

theorem file_transfer_roundtrip_witness:
  "\<exists>b. Send [''a/f'' \<mapsto> [1, 2]] NoFault ''a/f'' (good_writer []) = (Inr (), good_writer b)
     \<and> Receive NoFault \<lparr>rd_data = b, rd_end = EOF\<rparr> Map.empty = (Inr (), [''downloads/f'' \<mapsto> [1, 2]])"
proof -
  have b: "filepath_Base ''a/f'' = ''f''" by (simp add: filepath_Base_def Let_def)
  show ?thesis
    using file_transfer_roundtrip [of "[''a/f'' \<mapsto> [1, 2]]" "''a/f''" "[1, 2]" "[]" EOF Map.empty] by (simp add: b plain_name_def)
qed

text \<open>The receiver keeps whatever the sender says: any data of the announced length are stored and reported as received, whatever the checksum
  in the header, and a file name that starts with \<open>../\<close> puts the file outside the download directory, over a file that may be there.\<close>

lemma receiver_stores_unverified_data:
  assumes "plain_name name" and "length name + 3 < 2 ^ 16" and "length data < 2 ^ 63" and "length checksum = 32"
    and "h = \<lparr>th_Version = ProtocolVersion1, th_Type = MsgTypeFileTransfer, th_Filename = ''../'' @ name, th_FileSize = of_nat (length data),
      th_Checksum = checksum\<rparr>"
  shows "Receive NoFault \<lparr>rd_data = header_bytes h @ data, rd_end = e\<rparr> files = (Inr (), files(name \<mapsto> data))"
proof -
  have len: "unat (of_nat (length data) :: u64) = length data"
    using assms(3) by (simp add: unat_of_nat take_bit_nat_eq_self)
  have rd: "Header_ReadFrom \<lparr>rd_data = header_bytes h @ data, rd_end = e\<rparr> = (Inr h, \<lparr>rd_data = data, rd_end = e\<rparr>)"
    using assms(2,4,5) by (intro ReadFrom_header) simp_all
  have "limit (of_nat (length data)) = length data" using limit_small [of "of_nat (length data)"] len assms(3) by simp
  with rd len assms(5) show ?thesis using Join_escapes [OF assms(1)] by (simp add: Receive_def Let_def)
qed

lemma receiver_stores_unverified_data_witness:
  "\<exists>b. Receive NoFault \<lparr>rd_data = b, rd_end = EOF\<rparr> [''key'' \<mapsto> [7]] = (Inr (), [''key'' \<mapsto> [1, 2]])"
  using receiver_stores_unverified_data [of "''key''" "[1, 2]" "replicate 32 0" _ EOF "[''key'' \<mapsto> [7]]", OF _ _ _ _ refl]
  by (auto simp: plain_name_def)

end
