(* ===== verification/Tickets.thy ===== *)
theory Tickets
  imports Escrow
begin

text \<open>
  Payment tickets: the signer in the node, \<open>network/payments/signer.go\<close>, and on the chain the raffle and the source of randomness,
  \<open>payments/src/randomness/RaffleMath.sol\<close> and \<open>CommitRevealEntropy.sol\<close>. What the signer uses of go-ethereum is in the record
  \<open>ticket_crypto\<close>; what the contracts use of the EVM and of OpenZeppelin (\<open>EIP712._hashTypedDataV4\<close> and
  \<open>ECDSA.recover\<close>) is in the record \<open>pay_env\<close>.
\<close>

section \<open>The signer\<close>

record RoundTicket =
  tk_Sender :: address
  tk_Recipient :: address
  tk_RoundID :: int
  tk_LocalIndex :: int
  tk_FaceValue :: int
  tk_WinProb :: int
  tk_SenderNonce :: int

record SignedTicket =
  st_Ticket :: RoundTicket
  st_Signature :: bytes

record ('k, 'p) ticket_crypto =
  tc_keccak :: "bytes \<Rightarrow> bytes32"
  tc_public :: "'k \<Rightarrow> 'p"
  tc_pubkeyToAddress :: "'p \<Rightarrow> address"
  tc_sign :: "bytes32 \<Rightarrow> 'k \<Rightarrow> string + bytes"
  tc_sigToPub :: "bytes32 \<Rightarrow> bytes \<Rightarrow> 'p option"

text \<open>\<open>math.PaddedBigBytes\<close>: the absolute value in big-endian order, with leading zeros up to the width and more bytes if they are needed.\<close>

fun byte_len :: "nat \<Rightarrow> nat" where
  "byte_len n = (if n = 0 then 0 else Suc (byte_len (n div 256)))"

declare byte_len.simps [simp del]

definition PaddedBigBytes :: "int \<Rightarrow> nat \<Rightarrow> bytes" where
  "PaddedBigBytes n w = (let m = nat \<bar>n\<bar> in rev (le_bytes (max w (byte_len m)) m))"

definition EIP712DomainType :: string where
  "EIP712DomainType = ''EIP712Domain(string name,string version,uint256 chainId,address verifyingContract)''"

definition RoundTicketType :: string where
  "RoundTicketType = ''RoundTicket(address sender,address recipient,uint256 roundId,uint256 localIndex,uint256 faceValue,uint256 winProb,uint256 senderNonce)''"

definition ProtocolName :: string where
  "ProtocolName = ''CIPHER Payment Protocol''"

definition ProtocolVersion :: string where
  "ProtocolVersion = ''1.0.0''"

definition ComputeDomainSeparator :: "('k, 'p) ticket_crypto \<Rightarrow> int \<Rightarrow> address \<Rightarrow> bytes32" where
  "ComputeDomainSeparator C chainID verifyingContract =
     tc_keccak C (abi_word (tc_keccak C (str_bytes EIP712DomainType)) @ abi_word (tc_keccak C (str_bytes ProtocolName))
       @ abi_word (tc_keccak C (str_bytes ProtocolVersion)) @ PaddedBigBytes chainID 32 @ abi_word verifyingContract)"

definition HashRoundTicket :: "('k, 'p) ticket_crypto \<Rightarrow> RoundTicket \<Rightarrow> bytes32" where
  "HashRoundTicket C t =
     tc_keccak C (abi_word (tc_keccak C (str_bytes RoundTicketType)) @ abi_word (tk_Sender t) @ abi_word (tk_Recipient t)
       @ PaddedBigBytes (tk_RoundID t) 32 @ PaddedBigBytes (tk_LocalIndex t) 32 @ PaddedBigBytes (tk_FaceValue t) 32
       @ PaddedBigBytes (tk_WinProb t) 32 @ PaddedBigBytes (tk_SenderNonce t) 32)"

definition HashTypedData :: "('k, 'p) ticket_crypto \<Rightarrow> bytes32 \<Rightarrow> bytes32 \<Rightarrow> bytes32" where
  "HashTypedData C domainSeparator structHash = tc_keccak C ([0x19, 0x01] @ abi_word domainSeparator @ abi_word structHash)"

record 'k TicketSigner =
  sn_ChainID :: int
  sn_VerifyingContract :: address
  sn_DomainSeparator :: bytes32
  sn_PrivateKey :: "'k option"
  sn_Address :: address

definition NewTicketSigner :: "('k, 'p) ticket_crypto \<Rightarrow> 'k option \<Rightarrow> int \<Rightarrow> address \<Rightarrow> 'k TicketSigner" where
  "NewTicketSigner C privKey chainID verifyingContract =
     \<lparr>sn_ChainID = chainID, sn_VerifyingContract = verifyingContract, sn_DomainSeparator = ComputeDomainSeparator C chainID verifyingContract,
      sn_PrivateKey = privKey,
      sn_Address = (case privKey of None \<Rightarrow> 0 | Some k \<Rightarrow> tc_pubkeyToAddress C (tc_public C k))\<rparr>"

definition ticket_Digest :: "('k, 'p) ticket_crypto \<Rightarrow> 'k TicketSigner \<Rightarrow> RoundTicket \<Rightarrow> bytes32" where
  "ticket_Digest C s t = HashTypedData C (sn_DomainSeparator s) (HashRoundTicket C t)"

datatype ticket_error =
    NoPrivateKey
  | TicketSignFailed string
  | TicketSignaturePanic
  | SignatureLength nat
  | NoPublicKey

definition SignTicket :: "('k, 'p) ticket_crypto \<Rightarrow> 'k TicketSigner \<Rightarrow> RoundTicket \<Rightarrow> ticket_error + bytes" where
  "SignTicket C s t = (case sn_PrivateKey s of
     None \<Rightarrow> Inl NoPrivateKey
   | Some k \<Rightarrow>
       (case tc_sign C (ticket_Digest C s t) k of
          Inl e \<Rightarrow> Inl (TicketSignFailed e)
        | Inr sig \<Rightarrow>
            if length sig \<le> 64 then Inl TicketSignaturePanic
            else Inr (if sig ! 64 < 27 then sig[64 := sig ! 64 + 27] else sig)))"

definition RecoverSigner :: "('k, 'p) ticket_crypto \<Rightarrow> 'k TicketSigner \<Rightarrow> RoundTicket \<Rightarrow> bytes \<Rightarrow> ticket_error + address" where
  "RecoverSigner C s t sig =
     (if length sig \<noteq> 65 then Inl (SignatureLength (length sig))
      else
        let sigCopy = (if 27 \<le> sig ! 64 then sig[64 := sig ! 64 - 27] else sig) in
        (case tc_sigToPub C (ticket_Digest C s t) sigCopy of
           None \<Rightarrow> Inl NoPublicKey
         | Some pubKey \<Rightarrow> Inr (tc_pubkeyToAddress C pubKey)))"

definition ticket_Verify :: "('k, 'p) ticket_crypto \<Rightarrow> 'k TicketSigner \<Rightarrow> RoundTicket \<Rightarrow> bytes \<Rightarrow> address \<Rightarrow> bool" where
  "ticket_Verify C s t sig expectedSigner = (case RecoverSigner C s t sig of
     Inl _ \<Rightarrow> False
   | Inr recovered \<Rightarrow> recovered = expectedSigner)"

section \<open>The contracts' view\<close>

record pay_env =
  pe_keccak :: "bytes \<Rightarrow> bytes32"
  pe_blockhash :: "u256 \<Rightarrow> u256 \<Rightarrow> bytes32"
  pe_hashTypedDataV4 :: "bytes32 \<Rightarrow> bytes32"
  pe_recover :: "bytes32 \<Rightarrow> bytes \<Rightarrow> address option"
  pe_accepts :: "address \<Rightarrow> bool"
  pe_engine :: address
  pe_resolver :: address
  pe_otherPending :: "address \<Rightarrow> address \<Rightarrow> address \<Rightarrow> u256 \<Rightarrow> bool"

record SolRoundTicket =
  rt_sender :: address
  rt_recipient :: address
  rt_roundId :: u256
  rt_localIndex :: u256
  rt_faceValue :: u256
  rt_winProb :: u256
  rt_senderNonce :: u256

datatype pay_error =
    UnauthorizedCaller
  | EnforcedPause
  | ExpectedPause
  | ZeroDeposit
  | UnlockAlreadyInitiated
  | UnlockNotInitiated
  | UnlockNotComplete
  | NothingToWithdraw
  | InsufficientChannelBalance
  | PayTransferFailed
  | InsufficientStake
  | NotRegistered
  | UnstakeAlreadyRequested
  | UnstakeNotRequested
  | UnbondingNotComplete
  | InvalidAmount
  | InvalidRoundParams
  | RoundAlreadyCommitted
  | RoundNotCommitted
  | RoundIsVoided
  | RoundNotOpen
  | RoundDisputePending
  | RoundNotStaleEnough
  | RoundNotPartial
  | TicketAlreadyUsed
  | PayInvalidSignature
  | InvalidSecret
  | NotWinningIndex
  | ArrayLengthMismatch
  | RoundNotYetDrawable
  | RoundDrawExpired
  | BlockhashUnavailable
  | DisputeAlreadyOpen
  | DisputeNotOpen
  | DisputeWindowElapsed
  | DisputeWindowNotElapsed
  | InvalidMerkleProof
  | RecoverReverted
  | RequireFailed
  | PayNotPayable
  | PayPanic

text \<open>Checked arithmetic of \<open>uint256\<close>.\<close>

definition add256 :: "u256 \<Rightarrow> u256 \<Rightarrow> u256 option" where
  "add256 a b = (if unat a + unat b < 2 ^ 256 then Some (a + b) else None)"

definition sub256 :: "u256 \<Rightarrow> u256 \<Rightarrow> u256 option" where
  "sub256 a b = (if b \<le> a then Some (a - b) else None)"

definition mul256 :: "u256 \<Rightarrow> u256 \<Rightarrow> u256 option" where
  "mul256 a b = (if unat a * unat b < 2 ^ 256 then Some (a * b) else None)"

section \<open>The raffle\<close>

definition computeWinnerIndex :: "pay_env \<Rightarrow> bytes32 \<Rightarrow> bytes32 \<Rightarrow> u256 \<Rightarrow> u256 \<Rightarrow> pay_error + u256" where
  "computeWinnerIndex E bh secret roundId tau =
     (if tau = 0 then Inl RequireFailed else Inr (pe_keccak E (abi_word bh @ abi_word secret @ abi_word roundId) mod tau))"

fun merkle_fold :: "pay_env \<Rightarrow> bytes32 \<Rightarrow> bytes32 list \<Rightarrow> bytes32" where
  "merkle_fold E h [] = h"
| "merkle_fold E h (p # ps) =
     merkle_fold E (if h \<le> p then pe_keccak E (abi_word h @ abi_word p) else pe_keccak E (abi_word p @ abi_word h)) ps"

definition chunk_leaf :: "pay_env \<Rightarrow> bytes \<Rightarrow> u256 \<Rightarrow> bytes32" where
  "chunk_leaf E chunk localIndex = pe_keccak E (abi_word (pe_keccak E (abi_word localIndex @ chunk)))"

definition raffle_verifyMerkleProof :: "pay_env \<Rightarrow> bytes \<Rightarrow> u256 \<Rightarrow> bytes32 list \<Rightarrow> bytes32 \<Rightarrow> bool" where
  "raffle_verifyMerkleProof E chunk localIndex proof root \<longleftrightarrow> merkle_fold E (chunk_leaf E chunk localIndex) proof = root"

definition isFallbackWinner :: "pay_env \<Rightarrow> bytes32 \<Rightarrow> u256 \<Rightarrow> bytes32 \<Rightarrow> u256 \<Rightarrow> bool" where
  "isFallbackWinner E bh senderNonce secret winProb \<longleftrightarrow> pe_keccak E (abi_word bh @ abi_word senderNonce @ abi_word secret) < winProb"

section \<open>Randomness and signatures\<close>

definition CONFIRMATION_DELAY :: u256 where "CONFIRMATION_DELAY = 15"
definition MAX_BLOCKHASH_WINDOW :: u256 where "MAX_BLOCKHASH_WINDOW = 256"

definition entropy_computeWinnerIndex :: "pay_env \<Rightarrow> u256 \<Rightarrow> u256 \<Rightarrow> bytes32 \<Rightarrow> u256 \<Rightarrow> u256 \<Rightarrow> pay_error + u256 \<times> bytes32" where
  "entropy_computeWinnerIndex E now commitBlock secret roundId tau =
     (case (add256 commitBlock CONFIRMATION_DELAY, add256 commitBlock MAX_BLOCKHASH_WINDOW) of
        (Some targetBlock, Some lastBlock) \<Rightarrow>
          if now < targetBlock then Inl RoundNotYetDrawable
          else if lastBlock < now then Inl RoundDrawExpired
          else
            let targetBlockhash = pe_blockhash E now targetBlock in
            if targetBlockhash = 0 then Inl BlockhashUnavailable
            else (case computeWinnerIndex E targetBlockhash secret roundId tau of
                    Inl e \<Rightarrow> Inl e
                  | Inr winnerIndex \<Rightarrow> Inr (winnerIndex, targetBlockhash))
      | (Some targetBlock, None) \<Rightarrow> if now < targetBlock then Inl RoundNotYetDrawable else Inl PayPanic
      | _ \<Rightarrow> Inl PayPanic)"

definition roundTicketHash :: "pay_env \<Rightarrow> SolRoundTicket \<Rightarrow> bytes32" where
  "roundTicketHash E t = pe_hashTypedDataV4 E (pe_keccak E (abi_word (pe_keccak E (str_bytes RoundTicketType)) @ abi_word (rt_sender t)
     @ abi_word (rt_recipient t) @ abi_word (rt_roundId t) @ abi_word (rt_localIndex t) @ abi_word (rt_faceValue t)
     @ abi_word (rt_winProb t) @ abi_word (rt_senderNonce t)))"

definition recoverSigner :: "pay_env \<Rightarrow> bytes32 \<Rightarrow> bytes \<Rightarrow> pay_error + address" where
  "recoverSigner E ticketHash sig = (case pe_recover E ticketHash sig of None \<Rightarrow> Inl RecoverReverted | Some a \<Rightarrow> Inr a)"

definition verifySecretCommitment :: "pay_env \<Rightarrow> bytes32 \<Rightarrow> bytes32 \<Rightarrow> bool" where
  "verifySecretCommitment E secret committedHash \<longleftrightarrow> pe_keccak E (abi_word secret) = committedHash"

end
