(* ===== verification/PaymentContracts.thy ===== *)
theory PaymentContracts
  imports Tickets
begin

text \<open>
  The payment contracts of \<open>payments/src\<close>: \<open>PaymentChannel.sol\<close>, \<open>ProviderRegistry.sol\<close>,
  \<open>SettlementEngine.sol\<close>, \<open>ChunkDisputeResolver.sol\<close> and the constants of \<open>ProtocolConfig.sol\<close>, deployed
  together: each contract's references to the others are to the contracts of the same record \<open>payments\<close>, with
  \<open>pe_engine\<close> and \<open>pe_resolver\<close> the addresses of the last two. A function takes the caller and the state and
  returns the error it reverts with or the new state; a revert in a called contract reverts the caller, since no caller catches
  it. A mapping is a map, and a key without a value has the zero value. A call that a recipient makes while it is being
  paid is modelled as a later transaction; for \<open>settleRoundBatch\<close>, which pays more than once, this leaves out calls
  between two of its payments. Events are not modelled.
\<close>

section \<open>State\<close>

definition MIN_PROVIDER_STAKE :: u256 where "MIN_PROVIDER_STAKE = 1000000000000000000"
definition UNBONDING_PERIOD :: u256 where "UNBONDING_PERIOD = 7200"
definition CHANNEL_UNLOCK_PERIOD :: u256 where "CHANNEL_UNLOCK_PERIOD = 7200"
definition DISPUTE_RESPONSE_WINDOW :: u256 where "DISPUTE_RESPONSE_WINDOW = 1200"
definition ROUND_STALE_TIMEOUT :: u256 where "ROUND_STALE_TIMEOUT = 3600"
definition MAX_ROUND_SIZE :: u256 where "MAX_ROUND_SIZE = 10000"
definition SLASH_BPS :: u256 where "SLASH_BPS = 2000"

text \<open>The tunable copies of three constants. The other contracts read the constants.\<close>

record ProtocolConfig =
  pg_owner :: address
  pg_disputeWindow :: u256
  pg_roundStaleTimeout :: u256
  pg_slashBps :: u256

definition new_ProtocolConfig :: "address \<Rightarrow> ProtocolConfig" where
  "new_ProtocolConfig initialOwner = \<lparr>pg_owner = initialOwner, pg_disputeWindow = DISPUTE_RESPONSE_WINDOW,
     pg_roundStaleTimeout = ROUND_STALE_TIMEOUT, pg_slashBps = SLASH_BPS\<rparr>"

definition setParameters :: "u256 \<Rightarrow> u256 \<Rightarrow> u256 \<Rightarrow> address \<Rightarrow> ProtocolConfig \<Rightarrow> pay_error + ProtocolConfig" where
  "setParameters disputeWindow roundStaleTimeout slashBps sender c =
     (if sender \<noteq> pg_owner c then Inl UnauthorizedCaller
      else if 10000 < slashBps then Inl RequireFailed
      else if disputeWindow = 0 then Inl RequireFailed
      else if roundStaleTimeout = 0 then Inl RequireFailed
      else Inr (c\<lparr>pg_disputeWindow := disputeWindow, pg_roundStaleTimeout := roundStaleTimeout, pg_slashBps := slashBps\<rparr>))"

record Channel =
  hl_totalDeposited :: u256
  hl_settledAmount :: u256
  hl_withdrawnAmount :: u256
  hl_unlockBlock :: u256

record PaymentChannel =
  cc_channels :: "bytes32 \<rightharpoonup> Channel"
  cc_authorizedPayoutEngine :: "address \<Rightarrow> bool"
  cc_owner :: address
  cc_paused :: bool
  cc_balance :: nat

record Provider =
  pv_stake :: u256
  pv_unstakeReleaseBlock :: u256
  pv_pendingUnstakeAmount :: u256
  pv_registered :: bool

record ProviderRegistry =
  rg_providers :: "address \<rightharpoonup> Provider"
  rg_authorizedSlashers :: "address \<Rightarrow> bool"
  rg_owner :: address
  rg_balance :: nat

datatype RoundStatus = RsUncommitted | RsOpen | RsSettled | RsPartialFallback | RsVoided

record Round =
  ro_tau :: u256
  ro_faceValue :: u256
  ro_recipientRandHash :: bytes32
  ro_commitBlock :: u256
  ro_status :: RoundStatus

record SettlementEngine =
  se_disputeResolver :: address
  se_rounds :: "bytes32 \<rightharpoonup> Round"
  se_usedTickets :: "bytes32 \<Rightarrow> bool"
  se_usedFallbackTickets :: "bytes32 \<Rightarrow> bool"
  se_owner :: address
  se_paused :: bool

datatype DisputeStatus = DsNone | DsOpen | DsResolvedHonest | DsResolvedSlashed

record Dispute =
  dp_status :: DisputeStatus
  dp_evidenceHash :: bytes32
  dp_raisedBlock :: u256
  dp_deadlineBlock :: u256

record ChunkDisputeResolver =
  cd_disputes :: "bytes32 \<rightharpoonup> Dispute"
  cd_pendingDisputeCount :: "bytes32 \<Rightarrow> u256"

text \<open>The contracts, the number of the current block, and what the contracts have paid to each address.\<close>

record payments =
  py_channel :: PaymentChannel
  py_registry :: ProviderRegistry
  py_engine :: SettlementEngine
  py_resolver :: ChunkDisputeResolver
  py_block :: u256
  py_paid :: "address \<Rightarrow> nat"

type_synonym pay_result = "pay_error + payments"

definition zero_channel :: Channel where
  "zero_channel = \<lparr>hl_totalDeposited = 0, hl_settledAmount = 0, hl_withdrawnAmount = 0, hl_unlockBlock = 0\<rparr>"

definition zero_provider :: Provider where
  "zero_provider = \<lparr>pv_stake = 0, pv_unstakeReleaseBlock = 0, pv_pendingUnstakeAmount = 0, pv_registered = False\<rparr>"

definition zero_round :: Round where
  "zero_round = \<lparr>ro_tau = 0, ro_faceValue = 0, ro_recipientRandHash = 0, ro_commitBlock = 0, ro_status = RsUncommitted\<rparr>"

definition zero_dispute :: Dispute where
  "zero_dispute = \<lparr>dp_status = DsNone, dp_evidenceHash = 0, dp_raisedBlock = 0, dp_deadlineBlock = 0\<rparr>"

definition at :: "'v \<Rightarrow> ('k \<rightharpoonup> 'v) \<Rightarrow> 'k \<Rightarrow> 'v" where
  "at zero m k = (case m k of None \<Rightarrow> zero | Some v \<Rightarrow> v)"

abbreviation channel_at :: "payments \<Rightarrow> bytes32 \<Rightarrow> Channel" where
  "channel_at w k \<equiv> at zero_channel (cc_channels (py_channel w)) k"

abbreviation provider_at :: "payments \<Rightarrow> address \<Rightarrow> Provider" where
  "provider_at w a \<equiv> at zero_provider (rg_providers (py_registry w)) a"

abbreviation round_at :: "payments \<Rightarrow> bytes32 \<Rightarrow> Round" where
  "round_at w k \<equiv> at zero_round (se_rounds (py_engine w)) k"

abbreviation dispute_at :: "payments \<Rightarrow> bytes32 \<Rightarrow> Dispute" where
  "dispute_at w k \<equiv> at zero_dispute (cd_disputes (py_resolver w)) k"

definition set_channel :: "bytes32 \<Rightarrow> Channel \<Rightarrow> payments \<Rightarrow> payments" where
  "set_channel k c w = w\<lparr>py_channel := (py_channel w)\<lparr>cc_channels := (cc_channels (py_channel w))(k \<mapsto> c)\<rparr>\<rparr>"

definition set_provider :: "address \<Rightarrow> Provider \<Rightarrow> payments \<Rightarrow> payments" where
  "set_provider a p w = w\<lparr>py_registry := (py_registry w)\<lparr>rg_providers := (rg_providers (py_registry w))(a \<mapsto> p)\<rparr>\<rparr>"

definition set_round :: "bytes32 \<Rightarrow> Round \<Rightarrow> payments \<Rightarrow> payments" where
  "set_round k r w = w\<lparr>py_engine := (py_engine w)\<lparr>se_rounds := (se_rounds (py_engine w))(k \<mapsto> r)\<rparr>\<rparr>"

definition set_dispute :: "bytes32 \<Rightarrow> Dispute \<Rightarrow> payments \<Rightarrow> payments" where
  "set_dispute k d w = w\<lparr>py_resolver := (py_resolver w)\<lparr>cd_disputes := (cd_disputes (py_resolver w))(k \<mapsto> d)\<rparr>\<rparr>"

text \<open>\<open>abi.encodePacked\<close> of an address: 20 bytes.\<close>

definition packed_address :: "address \<Rightarrow> bytes" where
  "packed_address a = rev (le_bytes 20 (unat a))"

section \<open>PaymentChannel\<close>

definition setPayoutEngine :: "address \<Rightarrow> bool \<Rightarrow> address \<Rightarrow> payments \<Rightarrow> pay_result" where
  "setPayoutEngine engine authorized sender w =
     (if sender \<noteq> cc_owner (py_channel w) then Inl UnauthorizedCaller
      else Inr (w\<lparr>py_channel := (py_channel w)\<lparr>cc_authorizedPayoutEngine := (cc_authorizedPayoutEngine (py_channel w))(engine := authorized)\<rparr>\<rparr>))"

definition channel_pause :: "address \<Rightarrow> payments \<Rightarrow> pay_result" where
  "channel_pause sender w =
     (if sender \<noteq> cc_owner (py_channel w) then Inl UnauthorizedCaller
      else if cc_paused (py_channel w) then Inl EnforcedPause
      else Inr (w\<lparr>py_channel := (py_channel w)\<lparr>cc_paused := True\<rparr>\<rparr>))"

definition channel_unpause :: "address \<Rightarrow> payments \<Rightarrow> pay_result" where
  "channel_unpause sender w =
     (if sender \<noteq> cc_owner (py_channel w) then Inl UnauthorizedCaller
      else if \<not> cc_paused (py_channel w) then Inl ExpectedPause
      else Inr (w\<lparr>py_channel := (py_channel w)\<lparr>cc_paused := False\<rparr>\<rparr>))"

definition getChannelKey :: "pay_env \<Rightarrow> address \<Rightarrow> address \<Rightarrow> bytes32" where
  "getChannelKey E sender recipient = pe_keccak E (packed_address sender @ packed_address recipient)"

definition depositToChannel :: "pay_env \<Rightarrow> address \<Rightarrow> address \<Rightarrow> u256 \<Rightarrow> payments \<Rightarrow> pay_result" where
  "depositToChannel E recipient sender v w =
     (if cc_paused (py_channel w) then Inl EnforcedPause
      else if v = 0 then Inl ZeroDeposit
      else
        let key = getChannelKey E sender recipient; ch = channel_at w key in
        (case add256 (hl_totalDeposited ch) v of
           None \<Rightarrow> Inl PayPanic
         | Some deposited \<Rightarrow>
             Inr (set_channel key (ch\<lparr>hl_totalDeposited := deposited\<rparr>)
               (w\<lparr>py_channel := (py_channel w)\<lparr>cc_balance := cc_balance (py_channel w) + unat v\<rparr>\<rparr>))))"

text \<open>The same code as \<open>depositToChannel\<close>, with another event.\<close>

definition openChannel :: "pay_env \<Rightarrow> address \<Rightarrow> address \<Rightarrow> u256 \<Rightarrow> payments \<Rightarrow> pay_result" where
  "openChannel E recipient sender v w =
     (if cc_paused (py_channel w) then Inl EnforcedPause
      else if v = 0 then Inl ZeroDeposit
      else
        let key = getChannelKey E sender recipient; ch = channel_at w key in
        (case add256 (hl_totalDeposited ch) v of
           None \<Rightarrow> Inl PayPanic
         | Some deposited \<Rightarrow>
             Inr (set_channel key (ch\<lparr>hl_totalDeposited := deposited\<rparr>)
               (w\<lparr>py_channel := (py_channel w)\<lparr>cc_balance := cc_balance (py_channel w) + unat v\<rparr>\<rparr>))))"

definition initiateChannelUnlock :: "pay_env \<Rightarrow> address \<Rightarrow> address \<Rightarrow> payments \<Rightarrow> pay_result" where
  "initiateChannelUnlock E recipient sender w =
     (if cc_paused (py_channel w) then Inl EnforcedPause
      else
        let key = getChannelKey E sender recipient; ch = channel_at w key in
        if hl_unlockBlock ch \<noteq> 0 then Inl UnlockAlreadyInitiated
        else (case add256 (py_block w) CHANNEL_UNLOCK_PERIOD of
                None \<Rightarrow> Inl PayPanic
              | Some b \<Rightarrow> Inr (set_channel key (ch\<lparr>hl_unlockBlock := b\<rparr>) w)))"

definition channel_remaining :: "Channel \<Rightarrow> u256 option" where
  "channel_remaining ch = (case sub256 (hl_totalDeposited ch) (hl_settledAmount ch) of
     None \<Rightarrow> None
   | Some x \<Rightarrow> sub256 x (hl_withdrawnAmount ch))"

text \<open>A transfer out of the contract \<open>PaymentChannel\<close>.\<close>

definition channel_send :: "pay_env \<Rightarrow> address \<Rightarrow> u256 \<Rightarrow> payments \<Rightarrow> pay_result" where
  "channel_send E recipient amount w =
     (if cc_balance (py_channel w) < unat amount \<or> \<not> pe_accepts E recipient then Inl PayTransferFailed
      else Inr (w\<lparr>py_channel := (py_channel w)\<lparr>cc_balance := cc_balance (py_channel w) - unat amount\<rparr>,
                  py_paid := (py_paid w)(recipient := py_paid w recipient + unat amount)\<rparr>))"

definition withdrawChannel :: "pay_env \<Rightarrow> address \<Rightarrow> address \<Rightarrow> payments \<Rightarrow> pay_result" where
  "withdrawChannel E recipient sender w =
     (if cc_paused (py_channel w) then Inl EnforcedPause
      else
        let key = getChannelKey E sender recipient; ch = channel_at w key in
        if hl_unlockBlock ch = 0 then Inl UnlockNotInitiated
        else if py_block w < hl_unlockBlock ch then Inl UnlockNotComplete
        else (case channel_remaining ch of
                None \<Rightarrow> Inl PayPanic
              | Some remaining \<Rightarrow>
                  if remaining = 0 then Inl NothingToWithdraw
                  else (case add256 (hl_withdrawnAmount ch) remaining of
                          None \<Rightarrow> Inl PayPanic
                        | Some x \<Rightarrow> channel_send E sender remaining (set_channel key (ch\<lparr>hl_withdrawnAmount := x\<rparr>) w))))"

definition payoutProvider :: "pay_env \<Rightarrow> address \<Rightarrow> address \<Rightarrow> u256 \<Rightarrow> address \<Rightarrow> payments \<Rightarrow> pay_result" where
  "payoutProvider E sender recipient amount caller w =
     (if \<not> cc_authorizedPayoutEngine (py_channel w) caller then Inl UnauthorizedCaller
      else if cc_paused (py_channel w) then Inl EnforcedPause
      else
        let key = getChannelKey E sender recipient; ch = channel_at w key in
        (case channel_remaining ch of
           None \<Rightarrow> Inl PayPanic
         | Some available \<Rightarrow>
             if available < amount then Inl InsufficientChannelBalance
             else (case add256 (hl_settledAmount ch) amount of
                     None \<Rightarrow> Inl PayPanic
                   | Some x \<Rightarrow> channel_send E recipient amount (set_channel key (ch\<lparr>hl_settledAmount := x\<rparr>) w))))"

definition channelBalance :: "pay_env \<Rightarrow> address \<Rightarrow> address \<Rightarrow> payments \<Rightarrow> pay_error + u256" where
  "channelBalance E sender recipient w = (case channel_remaining (channel_at w (getChannelKey E sender recipient)) of
     None \<Rightarrow> Inl PayPanic
   | Some x \<Rightarrow> Inr x)"

definition isUnlockInitiated :: "pay_env \<Rightarrow> address \<Rightarrow> address \<Rightarrow> payments \<Rightarrow> bool" where
  "isUnlockInitiated E sender recipient w \<longleftrightarrow> hl_unlockBlock (channel_at w (getChannelKey E sender recipient)) \<noteq> 0"

section \<open>ProviderRegistry\<close>

definition setSlasher :: "address \<Rightarrow> bool \<Rightarrow> address \<Rightarrow> payments \<Rightarrow> pay_result" where
  "setSlasher slasher authorized sender w =
     (if sender \<noteq> rg_owner (py_registry w) then Inl UnauthorizedCaller
      else Inr (w\<lparr>py_registry := (py_registry w)\<lparr>rg_authorizedSlashers := (rg_authorizedSlashers (py_registry w))(slasher := authorized)\<rparr>\<rparr>))"

definition registerProvider :: "address \<Rightarrow> u256 \<Rightarrow> payments \<Rightarrow> pay_result" where
  "registerProvider sender v w =
     (let p = provider_at w sender in
      (case add256 (pv_stake p) v of
         None \<Rightarrow> Inl PayPanic
       | Some stake \<Rightarrow>
           if stake < MIN_PROVIDER_STAKE then Inl InsufficientStake
           else Inr (set_provider sender (p\<lparr>pv_stake := stake, pv_registered := True\<rparr>)
                  (w\<lparr>py_registry := (py_registry w)\<lparr>rg_balance := rg_balance (py_registry w) + unat v\<rparr>\<rparr>))))"

definition requestUnstake :: "address \<Rightarrow> payments \<Rightarrow> pay_result" where
  "requestUnstake sender w =
     (let p = provider_at w sender in
      if \<not> pv_registered p then Inl NotRegistered
      else if pv_unstakeReleaseBlock p \<noteq> 0 then Inl UnstakeAlreadyRequested
      else (case add256 (py_block w) UNBONDING_PERIOD of
              None \<Rightarrow> Inl PayPanic
            | Some b \<Rightarrow> Inr (set_provider sender (p\<lparr>pv_pendingUnstakeAmount := pv_stake p, pv_unstakeReleaseBlock := b\<rparr>) w)))"

definition requestPartialUnstake :: "u256 \<Rightarrow> address \<Rightarrow> payments \<Rightarrow> pay_result" where
  "requestPartialUnstake amount sender w =
     (let p = provider_at w sender in
      if \<not> pv_registered p then Inl NotRegistered
      else if pv_unstakeReleaseBlock p \<noteq> 0 then Inl UnstakeAlreadyRequested
      else if amount = 0 \<or> pv_stake p < amount then Inl InvalidAmount
      else if pv_stake p - amount < MIN_PROVIDER_STAKE then Inl InsufficientStake
      else (case add256 (py_block w) UNBONDING_PERIOD of
              None \<Rightarrow> Inl PayPanic
            | Some b \<Rightarrow> Inr (set_provider sender (p\<lparr>pv_pendingUnstakeAmount := amount, pv_unstakeReleaseBlock := b\<rparr>) w)))"

definition registry_send :: "pay_env \<Rightarrow> address \<Rightarrow> u256 \<Rightarrow> payments \<Rightarrow> pay_result" where
  "registry_send E recipient amount w =
     (if rg_balance (py_registry w) < unat amount \<or> \<not> pe_accepts E recipient then Inl PayTransferFailed
      else Inr (w\<lparr>py_registry := (py_registry w)\<lparr>rg_balance := rg_balance (py_registry w) - unat amount\<rparr>,
                  py_paid := (py_paid w)(recipient := py_paid w recipient + unat amount)\<rparr>))"

definition withdrawStake :: "pay_env \<Rightarrow> address \<Rightarrow> payments \<Rightarrow> pay_result" where
  "withdrawStake E sender w =
     (let p = provider_at w sender in
      if pv_unstakeReleaseBlock p = 0 then Inl UnstakeNotRequested
      else if py_block w < pv_unstakeReleaseBlock p then Inl UnbondingNotComplete
      else
        let amount = pv_pendingUnstakeAmount p in
        if amount = 0 \<or> pv_stake p < amount then Inl InsufficientStake
        else
          let stake = pv_stake p - amount in
          registry_send E sender amount (set_provider sender
            (p\<lparr>pv_stake := stake, pv_pendingUnstakeAmount := 0, pv_unstakeReleaseBlock := 0,
               pv_registered := (\<not> stake < MIN_PROVIDER_STAKE \<and> pv_registered p)\<rparr>) w))"

definition slashProvider :: "address \<Rightarrow> u256 \<Rightarrow> address \<Rightarrow> payments \<Rightarrow> pay_error + u256 \<times> payments" where
  "slashProvider provider amount caller w =
     (if \<not> rg_authorizedSlashers (py_registry w) caller then Inl UnauthorizedCaller
      else
        let p = provider_at w provider in
        if pv_stake p = 0 then Inr (0, w)
        else
          let slashedAmount = (if pv_stake p < amount then pv_stake p else amount);
              stake = pv_stake p - slashedAmount
          in Inr (slashedAmount, set_provider provider
               (p\<lparr>pv_stake := stake, pv_registered := (\<not> stake < MIN_PROVIDER_STAKE \<and> pv_registered p)\<rparr>) w))"

definition isProviderActive :: "address \<Rightarrow> payments \<Rightarrow> bool" where
  "isProviderActive provider w \<longleftrightarrow> (let p = provider_at w provider in
     pv_registered p \<and> MIN_PROVIDER_STAKE \<le> pv_stake p \<and> pv_unstakeReleaseBlock p = 0)"

definition getProviderStake :: "address \<Rightarrow> payments \<Rightarrow> u256" where
  "getProviderStake provider w = pv_stake (provider_at w provider)"

section \<open>SettlementEngine\<close>

definition setDisputeResolver :: "address \<Rightarrow> address \<Rightarrow> payments \<Rightarrow> pay_result" where
  "setDisputeResolver r sender w =
     (if sender \<noteq> se_owner (py_engine w) then Inl UnauthorizedCaller
      else Inr (w\<lparr>py_engine := (py_engine w)\<lparr>se_disputeResolver := r\<rparr>\<rparr>))"

definition engine_pause :: "address \<Rightarrow> payments \<Rightarrow> pay_result" where
  "engine_pause sender w =
     (if sender \<noteq> se_owner (py_engine w) then Inl UnauthorizedCaller
      else if se_paused (py_engine w) then Inl EnforcedPause
      else Inr (w\<lparr>py_engine := (py_engine w)\<lparr>se_paused := True\<rparr>\<rparr>))"

definition engine_unpause :: "address \<Rightarrow> payments \<Rightarrow> pay_result" where
  "engine_unpause sender w =
     (if sender \<noteq> se_owner (py_engine w) then Inl UnauthorizedCaller
      else if \<not> se_paused (py_engine w) then Inl ExpectedPause
      else Inr (w\<lparr>py_engine := (py_engine w)\<lparr>se_paused := False\<rparr>\<rparr>))"

definition roundKey :: "pay_env \<Rightarrow> bytes32 \<Rightarrow> u256 \<Rightarrow> bytes32" where
  "roundKey E channelKey roundId = pe_keccak E (abi_word channelKey @ abi_word roundId)"

abbreviation round_key :: "pay_env \<Rightarrow> address \<Rightarrow> address \<Rightarrow> u256 \<Rightarrow> bytes32" where
  "round_key E sender recipient roundId \<equiv> roundKey E (getChannelKey E sender recipient) roundId"

definition commitRoundSecret ::
    "pay_env \<Rightarrow> address \<Rightarrow> u256 \<Rightarrow> u256 \<Rightarrow> u256 \<Rightarrow> bytes32 \<Rightarrow> address \<Rightarrow> payments \<Rightarrow> pay_result" where
  "commitRoundSecret E sender roundId tau faceValue recipientRandHash recipient w =
     (if se_paused (py_engine w) then Inl EnforcedPause
      else if tau = 0 \<or> MAX_ROUND_SIZE < tau \<or> faceValue = 0 then Inl InvalidRoundParams
      else
        let k = round_key E sender recipient roundId in
        if ro_status (round_at w k) \<noteq> RsUncommitted then Inl RoundAlreadyCommitted
        else Inr (set_round k \<lparr>ro_tau = tau, ro_faceValue = faceValue, ro_recipientRandHash = recipientRandHash,
                    ro_commitBlock = py_block w, ro_status = RsOpen\<rparr> w))"

definition roundDisputeKey :: "pay_env \<Rightarrow> address \<Rightarrow> address \<Rightarrow> u256 \<Rightarrow> bytes32" where
  "roundDisputeKey E sender recipient roundId = pe_keccak E (packed_address sender @ packed_address recipient @ abi_word roundId)"

definition isDisputePending :: "pay_env \<Rightarrow> address \<Rightarrow> address \<Rightarrow> u256 \<Rightarrow> payments \<Rightarrow> bool" where
  "isDisputePending E sender recipient roundId w \<longleftrightarrow>
     0 < cd_pendingDisputeCount (py_resolver w) (roundDisputeKey E sender recipient roundId)"

text \<open>The call \<open>disputeResolver.isDisputePending\<close>: to the resolver of this deployment, or to another contract the owner has set.\<close>

definition dispute_blocks :: "pay_env \<Rightarrow> address \<Rightarrow> address \<Rightarrow> u256 \<Rightarrow> payments \<Rightarrow> bool" where
  "dispute_blocks E sender recipient roundId w \<longleftrightarrow> (let r = se_disputeResolver (py_engine w) in
     r \<noteq> 0 \<and> (if r = pe_resolver E then isDisputePending E sender recipient roundId w
                else pe_otherPending E r sender recipient roundId))"

definition settleRoundInternal :: "pay_env \<Rightarrow> SolRoundTicket \<Rightarrow> bytes \<Rightarrow> bytes32 \<Rightarrow> payments \<Rightarrow> pay_result" where
  "settleRoundInternal E ticket senderSig secret w =
     (let k = round_key E (rt_sender ticket) (rt_recipient ticket) (rt_roundId ticket);
          r = round_at w k;
          tHash = roundTicketHash E ticket
      in if ro_status r = RsUncommitted then Inl RoundNotCommitted
         else if ro_status r = RsVoided then Inl RoundIsVoided
         else if ro_status r \<noteq> RsOpen then Inl RoundNotOpen
         else if dispute_blocks E (rt_sender ticket) (rt_recipient ticket) (rt_roundId ticket) w then Inl RoundDisputePending
         else if rt_faceValue ticket \<noteq> ro_faceValue r \<or> ro_tau r \<le> rt_localIndex ticket then Inl InvalidRoundParams
         else if se_usedTickets (py_engine w) tHash then Inl TicketAlreadyUsed
         else
           (case recoverSigner E tHash senderSig of
              Inl e \<Rightarrow> Inl e
            | Inr signer \<Rightarrow>
                if rt_sender ticket \<noteq> signer then Inl PayInvalidSignature
                else if \<not> verifySecretCommitment E secret (ro_recipientRandHash r) then Inl InvalidSecret
                else
                  (case entropy_computeWinnerIndex E (py_block w) (ro_commitBlock r) secret (rt_roundId ticket) (ro_tau r) of
                     Inl e \<Rightarrow> Inl e
                   | Inr (winnerIndex, _) \<Rightarrow>
                       if rt_localIndex ticket \<noteq> winnerIndex then Inl NotWinningIndex
                       else
                         let w1 = set_round k (r\<lparr>ro_status := RsSettled\<rparr>) w;
                             w2 = w1\<lparr>py_engine := (py_engine w1)\<lparr>se_usedTickets := (se_usedTickets (py_engine w1))(tHash := True)\<rparr>\<rparr>
                         in payoutProvider E (rt_sender ticket) (rt_recipient ticket) (rt_faceValue ticket) (pe_engine E) w2)))"

definition settleRound :: "pay_env \<Rightarrow> SolRoundTicket \<Rightarrow> bytes \<Rightarrow> bytes32 \<Rightarrow> payments \<Rightarrow> pay_result" where
  "settleRound E ticket senderSig secret w =
     (if se_paused (py_engine w) then Inl EnforcedPause else settleRoundInternal E ticket senderSig secret w)"

fun settle_all :: "pay_env \<Rightarrow> (SolRoundTicket \<times> bytes \<times> bytes32) list \<Rightarrow> payments \<Rightarrow> pay_result" where
  "settle_all E [] w = Inr w"
| "settle_all E ((ticket, sig, secret) # rest) w = (case settleRoundInternal E ticket sig secret w of
     Inl e \<Rightarrow> Inl e
   | Inr w' \<Rightarrow> settle_all E rest w')"

definition settleRoundBatch :: "pay_env \<Rightarrow> SolRoundTicket list \<Rightarrow> bytes list \<Rightarrow> bytes32 list \<Rightarrow> payments \<Rightarrow> pay_result" where
  "settleRoundBatch E tickets senderSigs secrets w =
     (if se_paused (py_engine w) then Inl EnforcedPause
      else if length tickets \<noteq> length senderSigs \<or> length tickets \<noteq> length secrets then Inl ArrayLengthMismatch
      else settle_all E (zip tickets (zip senderSigs secrets)) w)"

definition markRoundPartial :: "pay_env \<Rightarrow> address \<Rightarrow> u256 \<Rightarrow> address \<Rightarrow> payments \<Rightarrow> pay_result" where
  "markRoundPartial E sender roundId recipient w =
     (if se_paused (py_engine w) then Inl EnforcedPause
      else
        let k = round_key E sender recipient roundId; r = round_at w k in
        if ro_status r \<noteq> RsOpen then Inl RoundNotOpen
        else (case add256 (ro_commitBlock r) ROUND_STALE_TIMEOUT of
                None \<Rightarrow> Inl PayPanic
              | Some b \<Rightarrow>
                  if \<not> isUnlockInitiated E sender recipient w \<and> \<not> b < py_block w then Inl RoundNotStaleEnough
                  else Inr (set_round k (r\<lparr>ro_status := RsPartialFallback\<rparr>) w)))"

definition claimFallbackTicket :: "pay_env \<Rightarrow> SolRoundTicket \<Rightarrow> bytes \<Rightarrow> bytes32 \<Rightarrow> payments \<Rightarrow> pay_result" where
  "claimFallbackTicket E ticket senderSig secret w =
     (let k = round_key E (rt_sender ticket) (rt_recipient ticket) (rt_roundId ticket);
          r = round_at w k;
          tHash = roundTicketHash E ticket
      in if se_paused (py_engine w) then Inl EnforcedPause
         else if ro_status r \<noteq> RsPartialFallback then Inl RoundNotPartial
         else if se_usedFallbackTickets (py_engine w) tHash then Inl TicketAlreadyUsed
         else
           (case recoverSigner E tHash senderSig of
              Inl e \<Rightarrow> Inl e
            | Inr signer \<Rightarrow>
                if rt_sender ticket \<noteq> signer then Inl PayInvalidSignature
                else if \<not> verifySecretCommitment E secret (ro_recipientRandHash r) then Inl InvalidSecret
                else
                  (case add256 (ro_commitBlock r) CONFIRMATION_DELAY of
                     None \<Rightarrow> Inl PayPanic
                   | Some targetBlockNumber \<Rightarrow>
                       let bh = pe_blockhash E (py_block w) targetBlockNumber in
                       if bh = 0 then Inl BlockhashUnavailable
                       else if \<not> isFallbackWinner E bh (rt_senderNonce ticket) secret (rt_winProb ticket) then Inl NotWinningIndex
                       else payoutProvider E (rt_sender ticket) (rt_recipient ticket) (rt_faceValue ticket) (pe_engine E)
                              (w\<lparr>py_engine := (py_engine w)\<lparr>se_usedFallbackTickets := (se_usedFallbackTickets (py_engine w))(tHash := True)\<rparr>\<rparr>))))"

definition voidRound :: "pay_env \<Rightarrow> address \<Rightarrow> address \<Rightarrow> u256 \<Rightarrow> address \<Rightarrow> payments \<Rightarrow> pay_result" where
  "voidRound E sender recipient roundId caller w =
     (if se_disputeResolver (py_engine w) \<noteq> 0 \<and> caller \<noteq> se_disputeResolver (py_engine w) then Inl UnauthorizedCaller
      else
        let k = round_key E sender recipient roundId in
        Inr (set_round k ((round_at w k)\<lparr>ro_status := RsVoided\<rparr>) w))"

definition getRoundStatus :: "pay_env \<Rightarrow> address \<Rightarrow> address \<Rightarrow> u256 \<Rightarrow> payments \<Rightarrow> RoundStatus" where
  "getRoundStatus E sender recipient roundId w = ro_status (round_at w (round_key E sender recipient roundId))"

definition previewWinnerIndex :: "pay_env \<Rightarrow> address \<Rightarrow> address \<Rightarrow> u256 \<Rightarrow> bytes32 \<Rightarrow> payments \<Rightarrow> pay_error + u256" where
  "previewWinnerIndex E sender recipient roundId secret w =
     (let r = round_at w (round_key E sender recipient roundId) in
      if ro_status r = RsUncommitted then Inl RoundNotCommitted
      else if \<not> verifySecretCommitment E secret (ro_recipientRandHash r) then Inl InvalidSecret
      else (case entropy_computeWinnerIndex E (py_block w) (ro_commitBlock r) secret roundId (ro_tau r) of
              Inl e \<Rightarrow> Inl e
            | Inr (winnerIndex, _) \<Rightarrow> Inr winnerIndex))"

section \<open>ChunkDisputeResolver\<close>

definition disputeKey :: "pay_env \<Rightarrow> address \<Rightarrow> address \<Rightarrow> u256 \<Rightarrow> u256 \<Rightarrow> bytes32" where
  "disputeKey E sender recipient roundId localIndex =
     pe_keccak E (packed_address sender @ packed_address recipient @ abi_word roundId @ abi_word localIndex)"

definition set_pending :: "bytes32 \<Rightarrow> u256 \<Rightarrow> payments \<Rightarrow> payments" where
  "set_pending k n w = w\<lparr>py_resolver := (py_resolver w)\<lparr>cd_pendingDisputeCount := (cd_pendingDisputeCount (py_resolver w))(k := n)\<rparr>\<rparr>"

definition raiseChunkDispute :: "pay_env \<Rightarrow> address \<Rightarrow> u256 \<Rightarrow> u256 \<Rightarrow> bytes32 \<Rightarrow> address \<Rightarrow> payments \<Rightarrow> pay_result" where
  "raiseChunkDispute E recipient roundId localIndex evidenceHash sender w =
     (let dKey = disputeKey E sender recipient roundId localIndex; rdKey = roundDisputeKey E sender recipient roundId in
      if dp_status (dispute_at w dKey) \<noteq> DsNone then Inl DisputeAlreadyOpen
      else if getRoundStatus E sender recipient roundId w \<noteq> RsOpen then Inl UnauthorizedCaller
      else (case (add256 (py_block w) DISPUTE_RESPONSE_WINDOW, add256 (cd_pendingDisputeCount (py_resolver w) rdKey) 1) of
              (Some deadline, Some n) \<Rightarrow>
                Inr (set_pending rdKey n (set_dispute dKey
                  \<lparr>dp_status = DsOpen, dp_evidenceHash = evidenceHash, dp_raisedBlock = py_block w, dp_deadlineBlock = deadline\<rparr> w))
            | _ \<Rightarrow> Inl PayPanic))"

definition less_pending :: "bytes32 \<Rightarrow> payments \<Rightarrow> payments" where
  "less_pending k w =
     (let n = cd_pendingDisputeCount (py_resolver w) k in if 0 < n then set_pending k (n - 1) w else w)"

definition respondToDispute ::
    "pay_env \<Rightarrow> address \<Rightarrow> u256 \<Rightarrow> u256 \<Rightarrow> bytes \<Rightarrow> bytes32 list \<Rightarrow> bytes32 \<Rightarrow> address \<Rightarrow> payments \<Rightarrow> pay_result" where
  "respondToDispute E sender roundId localIndex chunk merkleProof merkleRoot recipient w =
     (let dKey = disputeKey E sender recipient roundId localIndex; d = dispute_at w dKey in
      if dp_status d \<noteq> DsOpen then Inl DisputeNotOpen
      else if dp_deadlineBlock d < py_block w then Inl DisputeWindowElapsed
      else if \<not> raffle_verifyMerkleProof E chunk localIndex merkleProof merkleRoot then Inl InvalidMerkleProof
      else Inr (less_pending (roundDisputeKey E sender recipient roundId)
             (set_dispute dKey (d\<lparr>dp_status := DsResolvedHonest\<rparr>) w)))"

definition resolveExpiredDispute :: "pay_env \<Rightarrow> address \<Rightarrow> address \<Rightarrow> u256 \<Rightarrow> u256 \<Rightarrow> payments \<Rightarrow> pay_result" where
  "resolveExpiredDispute E sender recipient roundId localIndex w =
     (let dKey = disputeKey E sender recipient roundId localIndex; d = dispute_at w dKey in
      if dp_status d \<noteq> DsOpen then Inl DisputeNotOpen
      else if py_block w \<le> dp_deadlineBlock d then Inl DisputeWindowNotElapsed
      else
        let w1 = less_pending (roundDisputeKey E sender recipient roundId) (set_dispute dKey (d\<lparr>dp_status := DsResolvedSlashed\<rparr>) w) in
        (case mul256 (getProviderStake recipient w1) SLASH_BPS of
           None \<Rightarrow> Inl PayPanic
         | Some x \<Rightarrow>
             (case slashProvider recipient (x div 10000) (pe_resolver E) w1 of
                Inl e \<Rightarrow> Inl e
              | Inr (_, w2) \<Rightarrow> voidRound E sender recipient roundId (pe_resolver E) w2)))"

definition getDisputeStatus :: "pay_env \<Rightarrow> address \<Rightarrow> address \<Rightarrow> u256 \<Rightarrow> u256 \<Rightarrow> payments \<Rightarrow> DisputeStatus" where
  "getDisputeStatus E sender recipient roundId localIndex w = dp_status (dispute_at w (disputeKey E sender recipient roundId localIndex))"

section \<open>Transactions\<close>

datatype pay_call =
    SetPayoutEngine address bool
  | ChannelPause
  | ChannelUnpause
  | OpenChannel address
  | DepositToChannel address
  | InitiateChannelUnlock address
  | WithdrawChannel address
  | PayoutProvider address address u256
  | SetSlasher address bool
  | RegisterProvider
  | RequestUnstake
  | RequestPartialUnstake u256
  | WithdrawStake
  | SlashProvider address u256
  | SetDisputeResolver address
  | EnginePause
  | EngineUnpause
  | CommitRoundSecret address u256 u256 u256 bytes32
  | SettleRound SolRoundTicket bytes bytes32
  | SettleRoundBatch "SolRoundTicket list" "bytes list" "bytes32 list"
  | MarkRoundPartial address u256
  | ClaimFallbackTicket SolRoundTicket bytes bytes32
  | VoidRound address address u256
  | RaiseChunkDispute address u256 u256 bytes32
  | RespondToDispute address u256 u256 bytes "bytes32 list" bytes32
  | ResolveExpiredDispute address address u256 u256

fun pay_run :: "pay_env \<Rightarrow> address \<Rightarrow> u256 \<Rightarrow> pay_call \<Rightarrow> payments \<Rightarrow> pay_result" where
  "pay_run E a v (SetPayoutEngine e b) w = setPayoutEngine e b a w"
| "pay_run E a v ChannelPause w = channel_pause a w"
| "pay_run E a v ChannelUnpause w = channel_unpause a w"
| "pay_run E a v (OpenChannel r) w = openChannel E r a v w"
| "pay_run E a v (DepositToChannel r) w = depositToChannel E r a v w"
| "pay_run E a v (InitiateChannelUnlock r) w = initiateChannelUnlock E r a w"
| "pay_run E a v (WithdrawChannel r) w = withdrawChannel E r a w"
| "pay_run E a v (PayoutProvider s r x) w = payoutProvider E s r x a w"
| "pay_run E a v (SetSlasher s b) w = setSlasher s b a w"
| "pay_run E a v RegisterProvider w = registerProvider a v w"
| "pay_run E a v RequestUnstake w = requestUnstake a w"
| "pay_run E a v (RequestPartialUnstake x) w = requestPartialUnstake x a w"
| "pay_run E a v WithdrawStake w = withdrawStake E a w"
| "pay_run E a v (SlashProvider p x) w = map_sum id snd (slashProvider p x a w)"
| "pay_run E a v (SetDisputeResolver r) w = setDisputeResolver r a w"
| "pay_run E a v EnginePause w = engine_pause a w"
| "pay_run E a v EngineUnpause w = engine_unpause a w"
| "pay_run E a v (CommitRoundSecret s n tau fv h) w = commitRoundSecret E s n tau fv h a w"
| "pay_run E a v (SettleRound t sig x) w = settleRound E t sig x w"
| "pay_run E a v (SettleRoundBatch ts sigs xs) w = settleRoundBatch E ts sigs xs w"
| "pay_run E a v (MarkRoundPartial s n) w = markRoundPartial E s n a w"
| "pay_run E a v (ClaimFallbackTicket t sig x) w = claimFallbackTicket E t sig x w"
| "pay_run E a v (VoidRound s r n) w = voidRound E s r n a w"
| "pay_run E a v (RaiseChunkDispute r n i h) w = raiseChunkDispute E r n i h a w"
| "pay_run E a v (RespondToDispute s n i c p root) w = respondToDispute E s n i c p root a w"
| "pay_run E a v (ResolveExpiredDispute s r n i) w = resolveExpiredDispute E s r n i w"

fun pay_payable :: "pay_call \<Rightarrow> bool" where
  "pay_payable (OpenChannel r) = True"
| "pay_payable (DepositToChannel r) = True"
| "pay_payable RegisterProvider = True"
| "pay_payable c = False"

definition pay_exec :: "pay_env \<Rightarrow> address \<Rightarrow> u256 \<Rightarrow> pay_call \<Rightarrow> payments \<Rightarrow> pay_result" where
  "pay_exec E a v c w = (if v \<noteq> 0 \<and> \<not> pay_payable c then Inl PayNotPayable else pay_run E a v c w)"

text \<open>A step is a transaction from an account that is not one of the contracts, a new block, or money that arrives
  without a call.\<close>

inductive pay_step :: "pay_env \<Rightarrow> payments \<Rightarrow> payments \<Rightarrow> bool" for E where
  ps_tx: "pay_exec E a v c w = Inr w' \<Longrightarrow> a \<notin> {0, pe_engine E, pe_resolver E} \<Longrightarrow> pay_step E w w'"
| ps_block: "py_block w < b \<Longrightarrow> pay_step E w (w\<lparr>py_block := b\<rparr>)"
| ps_force: "pay_step E w (w\<lparr>py_channel := (py_channel w)\<lparr>cc_balance := cc_balance (py_channel w) + m\<rparr>,
    py_registry := (py_registry w)\<lparr>rg_balance := rg_balance (py_registry w) + n\<rparr>\<rparr>)"

inductive_cases pay_stepE: "pay_step E w w'"

text \<open>The contracts just after their deployment by \<open>deployer\<close>.\<close>

definition new_payments :: "address \<Rightarrow> u256 \<Rightarrow> payments" where
  "new_payments deployer b =
     \<lparr>py_channel = \<lparr>cc_channels = Map.empty, cc_authorizedPayoutEngine = (\<lambda>_. False), cc_owner = deployer, cc_paused = False, cc_balance = 0\<rparr>,
      py_registry = \<lparr>rg_providers = Map.empty, rg_authorizedSlashers = (\<lambda>_. False), rg_owner = deployer, rg_balance = 0\<rparr>,
      py_engine = \<lparr>se_disputeResolver = 0, se_rounds = Map.empty, se_usedTickets = (\<lambda>_. False),
        se_usedFallbackTickets = (\<lambda>_. False), se_owner = deployer, se_paused = False\<rparr>,
      py_resolver = \<lparr>cd_disputes = Map.empty, cd_pendingDisputeCount = (\<lambda>_. 0)\<rparr>,
      py_block = b, py_paid = (\<lambda>_. 0)\<rparr>"

definition pay_init :: "payments \<Rightarrow> bool" where
  "pay_init w \<longleftrightarrow> (\<exists>deployer b. w = new_payments deployer b)"

end
