(* ===== verification/PaymentRuns.thy ===== *)
theory PaymentRuns
  imports PaymentContracts Prelude
begin

text \<open>
  Runs of the payment contracts: the contracts hold the money they owe in every reachable state, and what only moves
  forward.
\<close>

section \<open>Sums over mappings\<close>

lemma sum_map_update:
  fixes f :: "'v \<Rightarrow> nat"
  assumes "finite (dom m)" and "f zero = 0"
  shows "(\<Sum>j \<in> dom (m(k \<mapsto> b)). f (the ((m(k \<mapsto> b)) j))) + f (at zero m k) = (\<Sum>j \<in> dom m. f (the (m j))) + f b"
proof -
  let ?D = "dom m - {k}"
  have "(\<Sum>j \<in> ?D. f (the ((m(k \<mapsto> b)) j))) = (\<Sum>j \<in> ?D. f (the (m j)))" by (rule sum.cong) auto
  moreover have d: "dom (m(k \<mapsto> b)) = insert k ?D" by auto
  have "(\<Sum>j \<in> dom (m(k \<mapsto> b)). f (the ((m(k \<mapsto> b)) j))) = f b + (\<Sum>j \<in> ?D. f (the ((m(k \<mapsto> b)) j)))"
    unfolding d by (subst sum.insert) (use assms(1) in auto)
  ultimately have l: "(\<Sum>j \<in> dom (m(k \<mapsto> b)). f (the ((m(k \<mapsto> b)) j))) = f b + (\<Sum>j \<in> ?D. f (the (m j)))"
    by (rule back_subst [rotated, where P = "\<lambda>x. _ = f b + x"])
  show ?thesis
  proof (cases "m k")
    case None
    then have "?D = dom m" by auto
    with None l assms(2) show ?thesis by (simp add: at_def)
  next
    case (Some a)
    then have "(\<Sum>j \<in> dom m. f (the (m j))) = f a + (\<Sum>j \<in> ?D. f (the (m j)))"
      using sum.remove [OF assms(1), of k "\<lambda>j. f (the (m j))"] by auto
    with Some l show ?thesis by (simp add: at_def)
  qed
qed

lemma at_update [simp]: "at zero (m(k \<mapsto> v)) j = (if j = k then v else at zero m j)"
  by (simp add: at_def)

lemma at_empty [simp]: "at zero Map.empty k = zero"
  by (simp add: at_def)

lemmas setters = set_channel_def set_provider_def set_round_def set_dispute_def set_pending_def

section \<open>Checked arithmetic\<close>

lemma add256_Some: "add256 a b = Some c \<Longrightarrow> unat c = unat a + unat b"
  by (auto simp: add256_def split: if_splits intro!: unat_add_lem [THEN iffD1])

lemma sub256_Some: "sub256 a b = Some c \<Longrightarrow> unat c + unat b = unat a"
  by (auto simp: sub256_def unat_sub word_le_nat_alt split: if_splits)

lemma sub256_None: "sub256 a b = None \<longleftrightarrow> unat a < unat b"
  by (auto simp: sub256_def word_le_nat_alt split: if_splits)

section \<open>Solvency\<close>

definition channel_ok :: "Channel \<Rightarrow> bool" where
  "channel_ok c \<longleftrightarrow> unat (hl_settledAmount c) + unat (hl_withdrawnAmount c) \<le> unat (hl_totalDeposited c)"

definition rest :: "Channel \<Rightarrow> nat" where
  "rest c = unat (hl_totalDeposited c) - (unat (hl_settledAmount c) + unat (hl_withdrawnAmount c))"

definition chan_inv :: "PaymentChannel \<Rightarrow> bool" where
  "chan_inv C \<longleftrightarrow> finite (dom (cc_channels C)) \<and> (\<forall>k c. cc_channels C k = Some c \<longrightarrow> channel_ok c)
     \<and> (\<Sum>k \<in> dom (cc_channels C). rest (the (cc_channels C k))) \<le> cc_balance C"

definition reg_inv :: "ProviderRegistry \<Rightarrow> bool" where
  "reg_inv R \<longleftrightarrow> finite (dom (rg_providers R))
     \<and> (\<Sum>a \<in> dom (rg_providers R). unat (pv_stake (the (rg_providers R a)))) \<le> rg_balance R"

definition pay_inv :: "payments \<Rightarrow> bool" where
  "pay_inv w \<longleftrightarrow> chan_inv (py_channel w) \<and> reg_inv (py_registry w)"

lemma channel_remaining_Some: "channel_remaining c = Some x \<Longrightarrow> unat x = rest c"
  by (auto simp: channel_remaining_def rest_def split: option.splits dest!: sub256_Some)

lemma channel_remaining_ok: "channel_ok c \<Longrightarrow> \<exists>x. channel_remaining c = Some x"
  by (auto simp: channel_remaining_def channel_ok_def sub256_None not_None_eq [symmetric] simp del: not_None_eq
      split: option.splits dest!: sub256_Some)

lemma chan_ok_at:
  assumes "chan_inv C"
  shows "channel_ok (at zero_channel (cc_channels C) k)"
  using assms by (auto simp: chan_inv_def at_def channel_ok_def zero_channel_def split: option.splits)

lemma rest_zero: "rest zero_channel = 0"
  by (simp add: rest_def zero_channel_def)

lemma chan_change:
  assumes "chan_inv C" and "cc_channels C' = (cc_channels C)(k \<mapsto> b)" and "channel_ok b"
    and "cc_balance C + rest b \<le> cc_balance C' + rest (at zero_channel (cc_channels C) k)"
  shows "chan_inv C'"
proof -
  have "(\<Sum>j \<in> dom (cc_channels C'). rest (the (cc_channels C' j))) + rest (at zero_channel (cc_channels C) k)
      = (\<Sum>j \<in> dom (cc_channels C). rest (the (cc_channels C j))) + rest b"
    unfolding assms(2) by (rule sum_map_update) (use assms(1) in \<open>simp_all add: chan_inv_def rest_zero\<close>)
  with assms show ?thesis by (auto simp: chan_inv_def)
qed

lemma reg_change:
  assumes "reg_inv R" and "rg_providers R' = (rg_providers R)(a \<mapsto> p)"
    and "rg_balance R + unat (pv_stake p) \<le> rg_balance R' + unat (pv_stake (at zero_provider (rg_providers R) a))"
  shows "reg_inv R'"
proof -
  have "(\<Sum>j \<in> dom (rg_providers R'). unat (pv_stake (the (rg_providers R' j)))) + unat (pv_stake (at zero_provider (rg_providers R) a))
      = (\<Sum>j \<in> dom (rg_providers R). unat (pv_stake (the (rg_providers R j)))) + unat (pv_stake p)"
    unfolding assms(2)
    by (rule sum_map_update [where f = "\<lambda>p. unat (pv_stake p)"]) (use assms(1) in \<open>simp_all add: reg_inv_def zero_provider_def\<close>)
  with assms show ?thesis by (auto simp: reg_inv_def)
qed

lemma rest_pay:
  assumes "channel_ok c" and "unat y = unat (hl_settledAmount c) + unat x" and "unat x \<le> rest c"
  shows "channel_ok (c\<lparr>hl_settledAmount := y\<rparr>)" "rest (c\<lparr>hl_settledAmount := y\<rparr>) + unat x = rest c"
  using assms by (auto simp: channel_ok_def rest_def)

lemma rest_withdraw:
  assumes "channel_ok c" and "unat y = unat (hl_withdrawnAmount c) + rest c"
  shows "channel_ok (c\<lparr>hl_withdrawnAmount := y\<rparr>)" "rest (c\<lparr>hl_withdrawnAmount := y\<rparr>) = 0"
  using assms by (auto simp: channel_ok_def rest_def)

lemma channel_send_Inr:
  "channel_send E r x w = Inr w' \<longleftrightarrow> unat x \<le> cc_balance (py_channel w) \<and> pe_accepts E r
     \<and> w' = w\<lparr>py_channel := (py_channel w)\<lparr>cc_balance := cc_balance (py_channel w) - unat x\<rparr>,
               py_paid := (py_paid w)(r := py_paid w r + unat x)\<rparr>"
  by (auto simp: channel_send_def)

text \<open>What a successful payment from a channel does.\<close>

lemma payout_Inr:
  assumes "payoutProvider E s r x a w = Inr w'"
  defines "k \<equiv> getChannelKey E s r"
  obtains y where "unat x \<le> rest (channel_at w k)" and "unat y = unat (hl_settledAmount (channel_at w k)) + unat x"
    and "unat x \<le> cc_balance (py_channel w)"
    and "w' = w\<lparr>py_channel := (py_channel w)\<lparr>cc_channels := (cc_channels (py_channel w))(k \<mapsto> (channel_at w k)\<lparr>hl_settledAmount := y\<rparr>),
               cc_balance := cc_balance (py_channel w) - unat x\<rparr>, py_paid := (py_paid w)(r := py_paid w r + unat x)\<rparr>"
  using assms by (auto simp: payoutProvider_def channel_send_Inr setters Let_def word_less_nat_alt
    dest!: channel_remaining_Some add256_Some split: if_splits option.splits)

lemma payout_frame:
  assumes "payoutProvider E s r x a w = Inr w'"
  shows "py_registry w' = py_registry w" "py_engine w' = py_engine w" "py_resolver w' = py_resolver w" "py_block w' = py_block w"
    "hl_unlockBlock (channel_at w' k) = hl_unlockBlock (channel_at w k)"
  using assms by (auto elim!: payout_Inr)

lemma payout_chan:
  assumes "payoutProvider E s r x a w = Inr w'" and "chan_inv (py_channel w)"
  shows "chan_inv (py_channel w')"
  using assms(1)
proof (rule payout_Inr)
  fix y
  let ?k = "getChannelKey E s r" let ?c = "channel_at w ?k"
  assume x: "unat x \<le> rest ?c" "unat y = unat (hl_settledAmount ?c) + unat x" "unat x \<le> cc_balance (py_channel w)"
    and w': "w' = w\<lparr>py_channel := (py_channel w)\<lparr>cc_channels := (cc_channels (py_channel w))(?k \<mapsto> ?c\<lparr>hl_settledAmount := y\<rparr>),
               cc_balance := cc_balance (py_channel w) - unat x\<rparr>, py_paid := (py_paid w)(r := py_paid w r + unat x)\<rparr>"
  note p = rest_pay [OF chan_ok_at [OF assms(2)] x(2,1)]
  show ?thesis by (rule chan_change [OF assms(2), where k = ?k]) (use p x w' in auto)
qed

lemma withdraw_chan:
  assumes "withdrawChannel E r a w = Inr w'" and "chan_inv (py_channel w)"
  shows "chan_inv (py_channel w')"
proof -
  let ?k = "getChannelKey E a r" let ?c = "channel_at w ?k"
  from assms(1) obtain y where x: "unat y = unat (hl_withdrawnAmount ?c) + rest ?c" "rest ?c \<le> cc_balance (py_channel w)"
    and w': "py_channel w' = (py_channel w)\<lparr>cc_channels := (cc_channels (py_channel w))(?k \<mapsto> ?c\<lparr>hl_withdrawnAmount := y\<rparr>),
               cc_balance := cc_balance (py_channel w) - rest ?c\<rparr>"
    by (auto simp: withdrawChannel_def channel_send_Inr setters Let_def
      dest!: channel_remaining_Some add256_Some split: if_splits option.splits)
  show ?thesis
    by (rule chan_change [OF assms(2), where k = ?k and b = "?c\<lparr>hl_withdrawnAmount := y\<rparr>"])
      (use rest_withdraw [OF chan_ok_at [OF assms(2)] x(1)] x w' in auto)
qed

lemma deposit_chan:
  assumes "depositToChannel E r a v w = Inr w'" and "chan_inv (py_channel w)"
  shows "chan_inv (py_channel w')"
proof -
  let ?k = "getChannelKey E a r" let ?c = "channel_at w ?k"
  from assms(1) obtain y where y: "unat y = unat (hl_totalDeposited ?c) + unat v"
    and w': "py_channel w' = (py_channel w)\<lparr>cc_channels := (cc_channels (py_channel w))(?k \<mapsto> ?c\<lparr>hl_totalDeposited := y\<rparr>),
               cc_balance := cc_balance (py_channel w) + unat v\<rparr>"
    by (auto simp: depositToChannel_def setters Let_def dest!: add256_Some split: if_splits option.splits)
  show ?thesis
    by (rule chan_change [OF assms(2), where k = ?k and b = "?c\<lparr>hl_totalDeposited := y\<rparr>"])
      (use chan_ok_at [OF assms(2), of ?k] y w' in \<open>auto simp: channel_ok_def rest_def\<close>)
qed

lemma unlock_chan:
  assumes "initiateChannelUnlock E r a w = Inr w'" and "chan_inv (py_channel w)"
  shows "chan_inv (py_channel w')"
proof -
  let ?k = "getChannelKey E a r" let ?c = "channel_at w ?k"
  from assms(1) obtain b where w': "py_channel w' = (py_channel w)\<lparr>cc_channels := (cc_channels (py_channel w))(?k \<mapsto> ?c\<lparr>hl_unlockBlock := b\<rparr>)\<rparr>"
    by (auto simp: initiateChannelUnlock_def setters Let_def split: if_splits option.splits)
  show ?thesis
    by (rule chan_change [OF assms(2), where k = ?k and b = "?c\<lparr>hl_unlockBlock := b\<rparr>"])
      (use chan_ok_at [OF assms(2), of ?k] w' in \<open>auto simp: channel_ok_def rest_def\<close>)
qed

text \<open>Opening a channel is a deposit.\<close>

lemma open_is_deposit: "openChannel = depositToChannel"
  by (intro ext) (simp add: openChannel_def depositToChannel_def)

section \<open>Stakes\<close>

lemma register_reg:
  assumes "registerProvider a v w = Inr w'" and "reg_inv (py_registry w)"
  shows "reg_inv (py_registry w')"
proof -
  let ?p = "provider_at w a"
  from assms(1) obtain y where y: "unat y = unat (pv_stake ?p) + unat v"
    and w': "py_registry w' = (py_registry w)\<lparr>rg_providers := (rg_providers (py_registry w))(a \<mapsto> ?p\<lparr>pv_stake := y, pv_registered := True\<rparr>),
               rg_balance := rg_balance (py_registry w) + unat v\<rparr>"
    by (auto simp: registerProvider_def setters Let_def dest!: add256_Some split: if_splits option.splits)
  show ?thesis
    by (rule reg_change [OF assms(2), where a = a and p = "?p\<lparr>pv_stake := y, pv_registered := True\<rparr>"]) (use y w' in auto)
qed

lemma request_reg:
  assumes "requestUnstake a w = Inr w' \<or> requestPartialUnstake x a w = Inr w'" and "reg_inv (py_registry w)"
  shows "reg_inv (py_registry w')"
proof -
  let ?p = "provider_at w a"
  from assms(1) obtain y b where w': "py_registry w' = (py_registry w)\<lparr>rg_providers := (rg_providers (py_registry w))
      (a \<mapsto> ?p\<lparr>pv_pendingUnstakeAmount := y, pv_unstakeReleaseBlock := b\<rparr>)\<rparr>"
    by (auto simp: requestUnstake_def requestPartialUnstake_def setters Let_def split: if_splits option.splits)
  show ?thesis
    by (rule reg_change [OF assms(2), where a = a and p = "?p\<lparr>pv_pendingUnstakeAmount := y, pv_unstakeReleaseBlock := b\<rparr>"])
      (use w' in auto)
qed

lemma withdrawStake_Inr:
  assumes "withdrawStake E a w = Inr w'"
  defines "p \<equiv> provider_at w a"
  obtains g where "pv_pendingUnstakeAmount p \<le> pv_stake p" and "unat (pv_pendingUnstakeAmount p) \<le> rg_balance (py_registry w)"
    and "w' = w\<lparr>py_registry := (py_registry w)\<lparr>rg_providers := (rg_providers (py_registry w))
        (a \<mapsto> p\<lparr>pv_stake := pv_stake p - pv_pendingUnstakeAmount p, pv_pendingUnstakeAmount := 0, pv_unstakeReleaseBlock := 0, pv_registered := g\<rparr>),
        rg_balance := rg_balance (py_registry w) - unat (pv_pendingUnstakeAmount p)\<rparr>,
        py_paid := (py_paid w)(a := py_paid w a + unat (pv_pendingUnstakeAmount p))\<rparr>"
  using assms by (auto simp: withdrawStake_def registry_send_def setters Let_def split: if_splits)

lemma withdrawStake_reg:
  assumes "withdrawStake E a w = Inr w'" and "reg_inv (py_registry w)"
  shows "reg_inv (py_registry w')"
  using assms(1)
proof (rule withdrawStake_Inr)
  fix g
  let ?p = "provider_at w a"
  let ?q = "?p\<lparr>pv_stake := pv_stake ?p - pv_pendingUnstakeAmount ?p, pv_pendingUnstakeAmount := 0, pv_unstakeReleaseBlock := 0, pv_registered := g\<rparr>"
  assume x: "pv_pendingUnstakeAmount ?p \<le> pv_stake ?p" "unat (pv_pendingUnstakeAmount ?p) \<le> rg_balance (py_registry w)"
    and w': "w' = w\<lparr>py_registry := (py_registry w)\<lparr>rg_providers := (rg_providers (py_registry w))(a \<mapsto> ?q),
        rg_balance := rg_balance (py_registry w) - unat (pv_pendingUnstakeAmount ?p)\<rparr>,
        py_paid := (py_paid w)(a := py_paid w a + unat (pv_pendingUnstakeAmount ?p))\<rparr>"
  have "unat (pv_stake ?q) + unat (pv_pendingUnstakeAmount ?p) = unat (pv_stake ?p)"
    using x(1) by (simp add: unat_sub word_le_nat_alt)
  then show ?thesis by (intro reg_change [OF assms(2), where a = a and p = ?q]) (use x(2) w' in auto)
qed

lemma slash_Inr:
  assumes "slashProvider a x c w = Inr (y, w')"
  shows "w' = w \<and> y = 0 \<and> pv_stake (provider_at w a) = 0
    \<or> y \<le> pv_stake (provider_at w a) \<and> (\<exists>g. w' = set_provider a ((provider_at w a)\<lparr>pv_stake := pv_stake (provider_at w a) - y, pv_registered := g\<rparr>) w)"
  using assms by (auto simp: slashProvider_def Let_def split: if_splits)

lemma slash_frame:
  assumes "slashProvider a x c w = Inr (y, w')"
  shows "py_channel w' = py_channel w" "py_engine w' = py_engine w" "py_resolver w' = py_resolver w" "py_block w' = py_block w"
  using slash_Inr [OF assms] by (auto simp: set_provider_def)

lemma slash_reg:
  assumes "slashProvider a x c w = Inr (y, w')" and "reg_inv (py_registry w)"
  shows "reg_inv (py_registry w')"
  using slash_Inr [OF assms(1)]
proof (elim disjE conjE exE)
  fix g
  let ?p = "provider_at w a"
  assume y: "y \<le> pv_stake ?p" and w': "w' = set_provider a (?p\<lparr>pv_stake := pv_stake ?p - y, pv_registered := g\<rparr>) w"
  have "unat (pv_stake ?p - y) \<le> unat (pv_stake ?p)" using y by (simp add: unat_sub)
  then show ?thesis
    by (intro reg_change [OF assms(2), where a = a and p = "?p\<lparr>pv_stake := pv_stake ?p - y, pv_registered := g\<rparr>"])
      (use w' in \<open>auto simp: set_provider_def\<close>)
qed (use assms(2) in simp)

section \<open>Rounds\<close>

text \<open>A settled round: the guards hold, the round and the ticket are marked, and the rest is the payment.\<close>

definition mark_settled :: "pay_env \<Rightarrow> SolRoundTicket \<Rightarrow> payments \<Rightarrow> payments" where
  "mark_settled E t w = (let k = round_key E (rt_sender t) (rt_recipient t) (rt_roundId t); w1 = set_round k ((round_at w k)\<lparr>ro_status := RsSettled\<rparr>) w
     in w1\<lparr>py_engine := (py_engine w1)\<lparr>se_usedTickets := (se_usedTickets (py_engine w1))(roundTicketHash E t := True)\<rparr>\<rparr>)"

definition mark_claimed :: "pay_env \<Rightarrow> SolRoundTicket \<Rightarrow> payments \<Rightarrow> payments" where
  "mark_claimed E t w =
     w\<lparr>py_engine := (py_engine w)\<lparr>se_usedFallbackTickets := (se_usedFallbackTickets (py_engine w))(roundTicketHash E t := True)\<rparr>\<rparr>"

lemma settle_Inr:
  assumes "settleRoundInternal E t sig secret w = Inr w'"
  shows "ro_status (round_at w (round_key E (rt_sender t) (rt_recipient t) (rt_roundId t))) = RsOpen"
    and "payoutProvider E (rt_sender t) (rt_recipient t) (rt_faceValue t) (pe_engine E) (mark_settled E t w) = Inr w'"
  using assms by (auto simp: settleRoundInternal_def mark_settled_def Let_def split: if_splits sum.splits prod.splits)

lemma claim_Inr:
  assumes "claimFallbackTicket E t sig secret w = Inr w'"
  shows "payoutProvider E (rt_sender t) (rt_recipient t) (rt_faceValue t) (pe_engine E) (mark_claimed E t w) = Inr w'"
  using assms by (auto simp: claimFallbackTicket_def mark_claimed_def Let_def split: if_splits sum.splits option.splits)

lemma mark_frame [simp]:
  "py_channel (mark_settled E t w) = py_channel w" "py_registry (mark_settled E t w) = py_registry w"
  "py_block (mark_settled E t w) = py_block w" "py_paid (mark_settled E t w) = py_paid w"
  "py_channel (mark_claimed E t w) = py_channel w" "py_registry (mark_claimed E t w) = py_registry w"
  "py_block (mark_claimed E t w) = py_block w" "se_rounds (py_engine (mark_claimed E t w)) = se_rounds (py_engine w)"
  by (simp_all add: mark_settled_def mark_claimed_def Let_def setters)

lemma settleRound_inv:
  assumes "settleRoundInternal E t sig secret w = Inr w'" and "pay_inv w"
  shows "pay_inv w'"
  using payout_chan [OF settle_Inr(2) [OF assms(1)]] payout_frame(1) [OF settle_Inr(2) [OF assms(1)]] assms(2)
  by (simp add: pay_inv_def)

lemma settle_all_inv: "settle_all E xs w = Inr w' \<Longrightarrow> pay_inv w \<Longrightarrow> pay_inv w'"
  by (induction E xs w rule: settle_all.induct) (auto split: sum.splits dest: settleRound_inv)

lemma claim_inv:
  assumes "claimFallbackTicket E t sig secret w = Inr w'" and "pay_inv w"
  shows "pay_inv w'"
  using payout_chan [OF claim_Inr [OF assms(1)]] payout_frame(1) [OF claim_Inr [OF assms(1)]] assms(2)
  by (simp add: pay_inv_def)

section \<open>Functions that leave the money alone\<close>

lemma less_pending_frame [simp]:
  "py_channel (less_pending k w) = py_channel w" "py_registry (less_pending k w) = py_registry w"
  "py_engine (less_pending k w) = py_engine w" "py_block (less_pending k w) = py_block w"
  by (simp_all add: less_pending_def set_pending_def Let_def)

lemma set_dispute_frame [simp]:
  "py_channel (set_dispute k d w) = py_channel w" "py_registry (set_dispute k d w) = py_registry w"
  "py_engine (set_dispute k d w) = py_engine w" "py_block (set_dispute k d w) = py_block w"
  by (simp_all add: set_dispute_def)

lemma void_Inr:
  assumes "voidRound E s r n c w = Inr w'"
  shows "w' = set_round (round_key E s r n) ((round_at w (round_key E s r n))\<lparr>ro_status := RsVoided\<rparr>) w"
  using assms by (auto simp: voidRound_def Let_def split: if_splits)

lemma resolve_Inr:
  assumes "resolveExpiredDispute E s r n i w = Inr w'"
  obtains w1 x y w2 where "slashProvider r x (pe_resolver E) w1 = Inr (y, w2)" and "voidRound E s r n (pe_resolver E) w2 = Inr w'"
    and "py_channel w1 = py_channel w" and "py_registry w1 = py_registry w" and "py_engine w1 = py_engine w" and "py_block w1 = py_block w"
  using assms by (auto simp: resolveExpiredDispute_def Let_def split: if_splits option.splits sum.splits prod.splits)

lemma resolve_inv:
  assumes "resolveExpiredDispute E s r n i w = Inr w'" and "pay_inv w"
  shows "pay_inv w'"
  using assms(1)
proof (rule resolve_Inr)
  fix w1 x y w2
  assume s: "slashProvider r x (pe_resolver E) w1 = Inr (y, w2)" and v: "voidRound E s r n (pe_resolver E) w2 = Inr w'"
    and e: "py_channel w1 = py_channel w" "py_registry w1 = py_registry w"
  show ?thesis
    using slash_frame(1) [OF s] slash_reg [OF s] void_Inr [OF v] assms(2) e by (simp add: pay_inv_def setters)
qed

lemmas quiet_defs = setPayoutEngine_def channel_pause_def channel_unpause_def setSlasher_def setDisputeResolver_def engine_pause_def
  engine_unpause_def commitRoundSecret_def markRoundPartial_def raiseChunkDispute_def respondToDispute_def

lemma quiet_inv:
  assumes "pay_run E a v c w = Inr w'" and "pay_inv w"
    and "case c of SetPayoutEngine _ _ \<Rightarrow> True | ChannelPause \<Rightarrow> True | ChannelUnpause \<Rightarrow> True | SetSlasher _ _ \<Rightarrow> True
      | SetDisputeResolver _ \<Rightarrow> True | EnginePause \<Rightarrow> True | EngineUnpause \<Rightarrow> True | CommitRoundSecret _ _ _ _ _ \<Rightarrow> True
      | MarkRoundPartial _ _ \<Rightarrow> True | RaiseChunkDispute _ _ _ _ \<Rightarrow> True | RespondToDispute _ _ _ _ _ _ \<Rightarrow> True | VoidRound _ _ _ \<Rightarrow> True
      | _ \<Rightarrow> False"
  shows "pay_inv w'"
  using assms
  by (cases c) (auto simp: quiet_defs pay_inv_def chan_inv_def reg_inv_def set_round_def set_pending_def Let_def
    dest!: void_Inr split: if_splits option.splits)

lemma channel_frame:
  assumes "depositToChannel E r a v w = Inr w' \<or> initiateChannelUnlock E r a w = Inr w' \<or> withdrawChannel E r a w = Inr w'"
  shows "py_registry w' = py_registry w" "py_engine w' = py_engine w" "py_block w' = py_block w"
  using assms by (auto simp: depositToChannel_def initiateChannelUnlock_def withdrawChannel_def channel_send_Inr setters Let_def
    split: if_splits option.splits)

lemma registry_frame:
  assumes "registerProvider a v w = Inr w' \<or> requestUnstake a w = Inr w' \<or> requestPartialUnstake x a w = Inr w' \<or> withdrawStake E a w = Inr w'"
  shows "py_channel w' = py_channel w" "py_engine w' = py_engine w" "py_block w' = py_block w"
  using assms by (auto simp: registerProvider_def requestUnstake_def requestPartialUnstake_def setters Let_def
    elim!: withdrawStake_Inr split: if_splits option.splits)

lemma pay_run_inv:
  assumes "pay_run E a v c w = Inr w'" and "pay_inv w"
  shows "pay_inv w'"
proof (cases c)
  case (OpenChannel r)
  with assms show ?thesis using deposit_chan [of E r a v w w'] channel_frame(1) [of E r a v w w'] by (simp add: open_is_deposit pay_inv_def)
next
  case (DepositToChannel r)
  with assms show ?thesis using deposit_chan [of E r a v w w'] channel_frame(1) [of E r a v w w'] by (simp add: pay_inv_def)
next
  case (InitiateChannelUnlock r)
  with assms show ?thesis using unlock_chan [of E r a w w'] channel_frame(1) [of E r a v w w'] by (simp add: pay_inv_def)
next
  case (WithdrawChannel r)
  with assms show ?thesis using withdraw_chan [of E r a w w'] channel_frame(1) [of E r a v w w'] by (simp add: pay_inv_def)
next
  case (PayoutProvider s r x)
  with assms show ?thesis using payout_chan [of E s r x a w w'] payout_frame(1) [of E s r x a w w'] by (simp add: pay_inv_def)
next
  case RegisterProvider
  with assms show ?thesis using register_reg [of a v w w'] registry_frame(1) [of a v w w'] by (simp add: pay_inv_def)
next
  case RequestUnstake
  with assms show ?thesis using request_reg [of a w w'] registry_frame(1) [of a v w w'] by (simp add: pay_inv_def)
next
  case (RequestPartialUnstake x)
  with assms show ?thesis using request_reg [of a w w' x] registry_frame(1) [of a v w w' x] by (simp add: pay_inv_def)
next
  case WithdrawStake
  with assms show ?thesis using withdrawStake_reg [of E a w w'] registry_frame(1) [of a v w w' _ E] by (simp add: pay_inv_def)
next
  case (SlashProvider p x)
  with assms(1) obtain y where "slashProvider p x a w = Inr (y, w')" by (cases "slashProvider p x a w") auto
  with assms(2) show ?thesis using slash_reg [of p x a w y w'] slash_frame(1) [of p x a w y w'] by (simp add: pay_inv_def)
next
  case (SettleRound t sig x)
  with assms show ?thesis by (auto simp: settleRound_def intro: settleRound_inv split: if_splits)
next
  case (SettleRoundBatch ts sigs xs)
  with assms show ?thesis by (auto simp: settleRoundBatch_def intro: settle_all_inv split: if_splits)
next
  case (ClaimFallbackTicket t sig x)
  with assms show ?thesis by (auto intro: claim_inv)
next
  case (ResolveExpiredDispute s r n i)
  with assms show ?thesis by (auto intro: resolve_inv)
qed (use quiet_inv [OF assms] in simp_all)

interpretation pay_sys: invariant_system pay_init "pay_step E" pay_inv for E
proof unfold_locales
  fix w
  show "pay_init w \<Longrightarrow> pay_inv w" by (auto simp: pay_init_def new_payments_def pay_inv_def chan_inv_def reg_inv_def)
next
  fix w w'
  assume "pay_inv w" and "pay_step E w w'"
  then show "pay_inv w'"
    by (auto elim!: pay_stepE simp: pay_exec_def intro: pay_run_inv split: if_splits) (auto simp: pay_inv_def chan_inv_def reg_inv_def)
qed

end
