(* ===== verification/PaymentRounds.thy ===== *)
theory PaymentRounds
  imports PaymentRuns
begin

text \<open>
  The life of a round. The status of a round only moves forward, its parameters stay as they were committed, and used tickets stay used.
  From this: a round pays once, and a round that became partial because it was stale pays nothing.
\<close>

section \<open>What only moves forward\<close>

fun status_le :: "RoundStatus \<Rightarrow> RoundStatus \<Rightarrow> bool" where
  "status_le RsUncommitted s = True"
| "status_le RsOpen s \<longleftrightarrow> s \<noteq> RsUncommitted"
| "status_le RsSettled s \<longleftrightarrow> s = RsSettled \<or> s = RsVoided"
| "status_le RsPartialFallback s \<longleftrightarrow> s = RsPartialFallback \<or> s = RsVoided"
| "status_le RsVoided s \<longleftrightarrow> s = RsVoided"

definition same_params :: "Round \<Rightarrow> Round \<Rightarrow> bool" where
  "same_params r r' \<longleftrightarrow> ro_tau r' = ro_tau r \<and> ro_faceValue r' = ro_faceValue r
     \<and> ro_recipientRandHash r' = ro_recipientRandHash r \<and> ro_commitBlock r' = ro_commitBlock r"

definition round_le :: "Round \<Rightarrow> Round \<Rightarrow> bool" where
  "round_le r r' \<longleftrightarrow> status_le (ro_status r) (ro_status r') \<and> (ro_status r \<noteq> RsUncommitted \<longrightarrow> same_params r r')"

definition engine_le :: "SettlementEngine \<Rightarrow> SettlementEngine \<Rightarrow> bool" where
  "engine_le S S' \<longleftrightarrow> (\<forall>k. round_le (at zero_round (se_rounds S) k) (at zero_round (se_rounds S') k))
     \<and> (\<forall>h. se_usedTickets S h \<longrightarrow> se_usedTickets S' h) \<and> (\<forall>h. se_usedFallbackTickets S h \<longrightarrow> se_usedFallbackTickets S' h)"

definition pay_le :: "payments \<Rightarrow> payments \<Rightarrow> bool" where
  "pay_le w w' \<longleftrightarrow> py_block w \<le> py_block w' \<and> engine_le (py_engine w) (py_engine w')"

lemma status_le_refl [simp]: "status_le s s"
  by (cases s) simp_all

lemma status_le_trans: "status_le a b \<Longrightarrow> status_le b c \<Longrightarrow> status_le a c"
  by (cases a; cases b; cases c) simp_all

lemma status_le_Voided [simp]: "status_le s RsVoided"
  by (cases s) simp_all

lemma round_le_refl [simp]: "round_le r r"
  by (simp add: round_le_def same_params_def)

lemma round_le_trans: "round_le a b \<Longrightarrow> round_le b c \<Longrightarrow> round_le a c"
  by (cases "ro_status a"; cases "ro_status b") (auto simp: round_le_def same_params_def intro: status_le_trans)

lemma engine_le_refl [simp]: "engine_le S S"
  by (simp add: engine_le_def)

lemma engine_le_trans: "engine_le a b \<Longrightarrow> engine_le b c \<Longrightarrow> engine_le a c"
  by (auto simp: engine_le_def intro: round_le_trans)

lemma pay_le_trans: "pay_le a b \<Longrightarrow> pay_le b c \<Longrightarrow> pay_le a c"
  by (auto simp: pay_le_def intro: engine_le_trans)

lemma pay_le_same: "py_engine w' = py_engine w \<Longrightarrow> py_block w' = py_block w \<Longrightarrow> pay_le w w'"
  by (simp add: pay_le_def)

lemma set_round_le:
  assumes "round_le (round_at w k) r"
  shows "pay_le w (set_round k r w)"
  using assms by (auto simp: pay_le_def engine_le_def set_round_def)

lemma settle_le:
  assumes "settleRoundInternal E t sig secret w = Inr w'"
  shows "pay_le w w'"
proof -
  note p = settle_Inr [OF assms]
  have "pay_le w (mark_settled E t w)"
    using p(1) by (auto simp: mark_settled_def Let_def pay_le_def engine_le_def set_round_def round_le_def same_params_def)
  then show ?thesis using pay_le_same [OF payout_frame(2) [OF p(2)] payout_frame(4) [OF p(2)]] pay_le_trans by blast
qed

lemma settle_all_le: "settle_all E xs w = Inr w' \<Longrightarrow> pay_le w w'"
  by (induction E xs w rule: settle_all.induct) (auto simp: pay_le_same split: sum.splits dest: settle_le intro: pay_le_trans)

lemma claim_le:
  assumes "claimFallbackTicket E t sig secret w = Inr w'"
  shows "pay_le w w'"
proof -
  note p = claim_Inr [OF assms]
  have "pay_le w (mark_claimed E t w)" by (simp add: mark_claimed_def pay_le_def engine_le_def)
  then show ?thesis using pay_le_same [OF payout_frame(2) [OF p] payout_frame(4) [OF p]] pay_le_trans by blast
qed

lemma void_le: "voidRound E s r n c w = Inr w' \<Longrightarrow> pay_le w w'"
  by (drule void_Inr) (auto intro!: set_round_le simp: round_le_def same_params_def)

lemma resolve_le:
  assumes "resolveExpiredDispute E s r n i w = Inr w'"
  shows "pay_le w w'"
  using assms
proof (rule resolve_Inr)
  fix w1 x y w2
  assume s: "slashProvider r x (pe_resolver E) w1 = Inr (y, w2)" and v: "voidRound E s r n (pe_resolver E) w2 = Inr w'"
    and e: "py_engine w1 = py_engine w" "py_block w1 = py_block w"
  show ?thesis using void_le [OF v] slash_frame(2,4) [OF s] e by (simp add: pay_le_def)
qed

lemma commit_le: "commitRoundSecret E s n tau fv h a w = Inr w' \<Longrightarrow> pay_le w w'"
  by (auto simp: commitRoundSecret_def Let_def round_le_def intro!: set_round_le split: if_splits)

lemma mark_le: "markRoundPartial E s n a w = Inr w' \<Longrightarrow> pay_le w w'"
  by (auto simp: markRoundPartial_def Let_def round_le_def same_params_def intro!: set_round_le split: if_splits option.splits)

lemma channel_le:
  "depositToChannel E r a v w = Inr w' \<Longrightarrow> pay_le w w'" "initiateChannelUnlock E r a w = Inr w' \<Longrightarrow> pay_le w w'"
  "withdrawChannel E r a w = Inr w' \<Longrightarrow> pay_le w w'"
  using channel_frame(2,3) by (blast intro: pay_le_same)+

lemma registry_le:
  "registerProvider a v w = Inr w' \<Longrightarrow> pay_le w w'" "requestUnstake a w = Inr w' \<Longrightarrow> pay_le w w'"
  "requestPartialUnstake x a w = Inr w' \<Longrightarrow> pay_le w w'" "withdrawStake E a w = Inr w' \<Longrightarrow> pay_le w w'"
  using registry_frame(2,3) by (blast intro: pay_le_same)+

lemma quiet_le:
  assumes "pay_run E a v c w = Inr w'"
    and "case c of SetPayoutEngine _ _ \<Rightarrow> True | ChannelPause \<Rightarrow> True | ChannelUnpause \<Rightarrow> True | SetSlasher _ _ \<Rightarrow> True
      | SetDisputeResolver _ \<Rightarrow> True | EnginePause \<Rightarrow> True | EngineUnpause \<Rightarrow> True
      | RaiseChunkDispute _ _ _ _ \<Rightarrow> True | RespondToDispute _ _ _ _ _ _ \<Rightarrow> True | _ \<Rightarrow> False"
  shows "pay_le w w'"
  using assms
  by (cases c) (auto simp: quiet_defs pay_le_def engine_le_def set_pending_def Let_def split: if_splits option.splits)

lemma pay_run_le:
  assumes "pay_run E a v c w = Inr w'"
  shows "pay_le w w'"
proof (cases c)
  case (PayoutProvider s r x)
  with assms have "payoutProvider E s r x a w = Inr w'" by simp
  from payout_frame(2,4) [OF this] show ?thesis by (intro pay_le_same)
next
  case (SlashProvider p x)
  with assms obtain y where "slashProvider p x a w = Inr (y, w')" by (cases "slashProvider p x a w") auto
  from slash_frame(2,4) [OF this] show ?thesis by (intro pay_le_same)
next
  case (SettleRound t sig x)
  with assms show ?thesis by (auto simp: settleRound_def intro: settle_le split: if_splits)
next
  case (SettleRoundBatch ts sigs xs)
  with assms show ?thesis by (auto simp: settleRoundBatch_def intro: settle_all_le split: if_splits)
qed (use assms quiet_le [OF assms] in \<open>simp_all add: channel_le registry_le open_is_deposit claim_le void_le resolve_le commit_le mark_le\<close>)

interpretation pay_progress: monotone_system "pay_step E" pay_le for E
proof unfold_locales
  fix w t u
  show "pay_le w w" by (simp add: pay_le_def)
  show "pay_le w t \<Longrightarrow> pay_le t u \<Longrightarrow> pay_le w u" by (rule pay_le_trans)
  show "pay_step E w t \<Longrightarrow> pay_le w t"
    by (auto elim!: pay_stepE simp: pay_exec_def intro: pay_run_le split: if_splits) (auto simp: pay_le_def)
qed

lemma rounds_forward:
  assumes "(pay_step E)\<^sup>*\<^sup>* w w'"
  shows "round_le (round_at w k) (round_at w' k)" "py_block w \<le> py_block w'"
  using pay_progress.run_le [OF assms] by (simp_all add: pay_le_def engine_le_def)

section \<open>A round pays once\<close>

lemma settle_needs_open:
  assumes "ro_status (round_at w (round_key E (rt_sender t) (rt_recipient t) (rt_roundId t))) \<noteq> RsOpen"
  shows "\<exists>e. settleRoundInternal E t sig secret w = Inl e"
  using assms settle_Inr(1) [of E t sig secret w] by (cases "settleRoundInternal E t sig secret w") auto

lemma settled_stays:
  assumes "pay_le w w'" and "ro_status (round_at w k) = RsSettled"
  shows "ro_status (round_at w' k) \<in> {RsSettled, RsVoided}"
proof -
  have "round_le (round_at w k) (round_at w' k)" using assms(1) by (simp add: pay_le_def engine_le_def)
  with assms(2) show ?thesis by (simp add: round_le_def)
qed

lemma batch_needs_open:
  assumes "(t, sig, secret) \<in> set xs" and "ro_status (round_at w (round_key E (rt_sender t) (rt_recipient t) (rt_roundId t))) \<in> {RsSettled, RsVoided}"
  shows "\<exists>e. settle_all E xs w = Inl e"
  using assms
proof (induction xs arbitrary: w)
  case (Cons x xs)
  obtain t1 s1 x1 where x: "x = (t1, s1, x1)" by (cases x)
  let ?k = "round_key E (rt_sender t) (rt_recipient t) (rt_roundId t)"
  show ?case
  proof (cases "settleRoundInternal E t1 s1 x1 w")
    case (Inr w1)
    have "round_le (round_at w ?k) (round_at w1 ?k)" using settle_le [OF Inr] by (simp add: pay_le_def engine_le_def)
    then have "ro_status (round_at w1 ?k) \<in> {RsSettled, RsVoided}" using Cons.prems(2) by (auto simp: round_le_def)
    moreover have "x \<noteq> (t, sig, secret)" using settle_Inr(1) [OF Inr] Cons.prems(2) x by auto
    ultimately show ?thesis using Cons x Inr by auto
  qed (simp add: x)
qed simp

lemma settle_pays_face:
  assumes "settleRoundInternal E t sig secret w = Inr w'"
  defines "k \<equiv> round_key E (rt_sender t) (rt_recipient t) (rt_roundId t)"
  shows "py_paid w' = (py_paid w)(rt_recipient t := py_paid w (rt_recipient t) + unat (ro_faceValue (round_at w k)))"
    and "ro_status (round_at w' k) = RsSettled"
    and "rt_faceValue t = ro_faceValue (round_at w k)"
    and "unat (rt_faceValue t) \<le> rest (channel_at w (getChannelKey E (rt_sender t) (rt_recipient t)))"
    and "rest (channel_at w' (getChannelKey E (rt_sender t) (rt_recipient t))) + unat (rt_faceValue t)
      = rest (channel_at w (getChannelKey E (rt_sender t) (rt_recipient t)))"
proof -
  note p = settle_Inr(2) [OF assms(1)]
  show fv: "rt_faceValue t = ro_faceValue (round_at w k)"
    using assms by (auto simp: settleRoundInternal_def Let_def split: if_splits)
  show "py_paid w' = (py_paid w)(rt_recipient t := py_paid w (rt_recipient t) + unat (ro_faceValue (round_at w k)))"
    using p by (auto simp: fv [symmetric] elim!: payout_Inr)
  show "ro_status (round_at w' k) = RsSettled"
    using payout_frame(2) [OF p] by (simp add: mark_settled_def k_def set_round_def Let_def)
  from p show "unat (rt_faceValue t) \<le> rest (channel_at w (getChannelKey E (rt_sender t) (rt_recipient t)))"
    by (auto elim!: payout_Inr)
  from p show "rest (channel_at w' (getChannelKey E (rt_sender t) (rt_recipient t))) + unat (rt_faceValue t)
      = rest (channel_at w (getChannelKey E (rt_sender t) (rt_recipient t)))"
    by (rule payout_Inr) (auto simp: rest_def)
qed

section \<open>An example\<close>

text \<open>An environment in which the hash of some bytes is the number that the last 32 of them stand for, and every
  signature is by the account 1.\<close>

definition example_pay_env :: pay_env where
  "example_pay_env = \<lparr>pe_keccak = bytes_word, pe_blockhash = (\<lambda>now b. if unat b + 256 < unat now then 0 else 7), pe_hashTypedDataV4 = (\<lambda>h. h),
     pe_recover = (\<lambda>h sig. Some 1), pe_accepts = (\<lambda>_. True), pe_engine = 4, pe_resolver = 5, pe_otherPending = (\<lambda>_ _ _ _. False)\<rparr>"

lemma example_env [simp]:
  "pe_keccak example_pay_env = bytes_word" "pe_hashTypedDataV4 example_pay_env h = h" "pe_recover example_pay_env h sig = Some 1"
  "pe_accepts example_pay_env a" "pe_engine example_pay_env = 4" "pe_resolver example_pay_env = 5"
  "pe_blockhash example_pay_env now b = (if unat b + 256 < unat now then 0 else 7)"
  by (simp_all add: example_pay_env_def)

lemma le_nat_append: "le_nat (xs @ ys) = le_nat xs + 256 ^ length xs * le_nat ys"
  by (induction xs) (simp_all add: algebra_simps)

lemma bytes_word_abi [simp]: "bytes_word (xs @ abi_word (y :: u256)) = y" "bytes_word (abi_word y) = y"
proof -
  have y: "unat y < 256 ^ 32" using unsigned_less [of y, where ?'a = nat] by simp
  have "(of_nat (256 ^ 32) :: u256) = 0" by simp
  then have m: "of_nat (256 ^ 32 * n) = (0 :: u256)" for n by (simp only: of_nat_mult mult_zero_left)
  show "bytes_word (xs @ abi_word y) = y"
    using y m by (simp add: bytes_word_def abi_word_def le_nat_append le_nat_le_bytes del: of_nat_mult)
  show "bytes_word (abi_word y) = y" using y by (simp add: bytes_word_def abi_word_def le_nat_le_bytes)
qed

definition example_channel :: Channel where
  "example_channel = \<lparr>hl_totalDeposited = 500, hl_settledAmount = 0, hl_withdrawnAmount = 0, hl_unlockBlock = 0\<rparr>"

text \<open>A channel with 500 wei and a round of 10 tickets of 100 wei, committed in block 1000.\<close>

definition example_payments :: "u256 \<Rightarrow> payments" where
  "example_payments b = set_round 5 \<lparr>ro_tau = 10, ro_faceValue = 100, ro_recipientRandHash = 9, ro_commitBlock = 1000, ro_status = RsOpen\<rparr>
     (set_channel (getChannelKey example_pay_env 1 2) example_channel
       ((new_payments 3 b)\<lparr>py_channel := (py_channel (new_payments 3 b))\<lparr>cc_authorizedPayoutEngine := (\<lambda>_. False)(4 := True), cc_balance := 500\<rparr>\<rparr>))"

definition example_ticket :: SolRoundTicket where
  "example_ticket = \<lparr>rt_sender = 1, rt_recipient = 2, rt_roundId = 5, rt_localIndex = 5, rt_faceValue = 100, rt_winProb = 0, rt_senderNonce = 0\<rparr>"

lemma example_round_key [simp]: "roundKey example_pay_env c n = n"
  by (simp add: roundKey_def example_pay_env_def)

lemma example_draw: "entropy_computeWinnerIndex example_pay_env 1020 1000 9 5 10 = Inr (5, 7)"
  by (simp add: entropy_computeWinnerIndex_def computeWinnerIndex_def add256_def CONFIRMATION_DELAY_def MAX_BLOCKHASH_WINDOW_def
      del: append_assoc add: append_assoc [symmetric])

lemma example_settles: "\<exists>w'. settleRound example_pay_env example_ticket [] 9 (example_payments 1020) = Inr w'"
  by (simp add: settleRound_def settleRoundInternal_def Let_def example_payments_def example_ticket_def set_round_def set_channel_def new_payments_def
      dispute_blocks_def recoverSigner_def verifySecretCommitment_def example_draw add256_def
      payoutProvider_def channel_send_def channel_remaining_def sub256_def example_channel_def)

text \<open>C5. A round pays once. When \<open>settleRound\<close> succeeds, the recipient has received exactly the face value that was committed for
  the round, out of the channel of sender and recipient; and from then on, whatever transactions follow, every settlement of
  the round reverts, alone or in a batch, and so does every fallback claim for it.\<close>

theorem round_pays_once:
  assumes "settleRound E t sig secret w = Inr w'" and "(pay_step E)\<^sup>*\<^sup>* w' v"
    and "rt_sender u = rt_sender t" and "rt_recipient u = rt_recipient t" and "rt_roundId u = rt_roundId t"
  defines "k \<equiv> round_key E (rt_sender t) (rt_recipient t) (rt_roundId t)"
    and "c \<equiv> getChannelKey E (rt_sender t) (rt_recipient t)"
  shows "py_paid w' = (py_paid w)(rt_recipient t := py_paid w (rt_recipient t) + unat (ro_faceValue (round_at w k)))
    \<and> rest (channel_at w' c) + unat (ro_faceValue (round_at w k)) = rest (channel_at w c)
    \<and> (\<exists>e. settleRound E u sig' secret' v = Inl e) \<and> (\<exists>e. claimFallbackTicket E u sig' secret' v = Inl e)
    \<and> (u \<in> set us \<longrightarrow> (\<exists>e. settleRoundBatch E us sigs secrets v = Inl e))"
proof -
  have s: "settleRoundInternal E t sig secret w = Inr w'" using assms(1) by (simp add: settleRound_def split: if_splits)
  note p = settle_pays_face [OF s, folded k_def c_def]
  have v: "ro_status (round_at v k) \<in> {RsSettled, RsVoided}"
    using settled_stays [OF pay_progress.run_le [OF assms(2)] p(2)] .
  have k: "round_key E (rt_sender u) (rt_recipient u) (rt_roundId u) = k" using assms(3-5) by (simp add: k_def)
  have one: "\<exists>e. settleRound E u sig' secret' v = Inl e"
    using settle_needs_open [of v E u sig' secret'] k v by (auto simp: settleRound_def)
  have two: "\<exists>e. claimFallbackTicket E u sig' secret' v = Inl e"
    using k v by (auto simp: claimFallbackTicket_def Let_def)
  have "\<exists>e. settleRoundBatch E us sigs secrets v = Inl e" if u: "u \<in> set us"
  proof (cases "length us = length sigs \<and> length us = length secrets")
    case True
    from u obtain i where "i < length us" "us ! i = u" by (auto simp: in_set_conv_nth)
    then have "(u, sigs ! i, secrets ! i) \<in> set (zip us (zip sigs secrets))"
      using True by (auto simp: in_set_conv_nth intro!: exI [of _ i])
    from batch_needs_open [OF this] k v show ?thesis by (auto simp: settleRoundBatch_def)
  qed (auto simp: settleRoundBatch_def)
  with p one two show ?thesis by simp
qed

theorem round_pays_once_witness:
  "\<exists>w'. settleRound example_pay_env example_ticket [] 9 (example_payments 1020) = Inr w' \<and> py_paid w' 2 = 100
    \<and> (\<exists>e. settleRound example_pay_env example_ticket [] 9 w' = Inl e)"
proof -
  from example_settles obtain w' where w': "settleRound example_pay_env example_ticket [] 9 (example_payments 1020) = Inr w'" by blast
  have "py_paid w' 2 = 100 \<and> (\<exists>e. settleRound example_pay_env example_ticket [] 9 w' = Inl e)"
    using round_pays_once [OF w' rtranclp.rtrancl_refl refl refl refl, of "[]" 9 "[]" "[]" "[]"]
    by (simp add: example_payments_def example_ticket_def set_round_def set_channel_def new_payments_def)
  with w' show ?thesis by blast
qed

section \<open>Stale rounds\<close>

text \<open>The hash of a block is available for the 256 blocks after it.\<close>

definition recent_blockhash :: "pay_env \<Rightarrow> bool" where
  "recent_blockhash E \<longleftrightarrow> (\<forall>now b. unat b + 256 < unat now \<longrightarrow> pe_blockhash E now b = 0)"

lemma stale_claim_fails:
  assumes "recent_blockhash E" and "ro_commitBlock (round_at w k) = b" and "unat b + 3600 < unat (py_block w)"
    and "k = round_key E (rt_sender t) (rt_recipient t) (rt_roundId t)"
  shows "\<exists>e. claimFallbackTicket E t sig secret w = Inl e"
proof (cases "add256 b CONFIRMATION_DELAY")
  case None
  then show ?thesis using assms(2,4) by (auto simp: claimFallbackTicket_def Let_def split: sum.splits)
next
  case (Some n)
  have "unat n + 256 < unat (py_block w)" using add256_Some [OF Some] assms(3) by (simp add: CONFIRMATION_DELAY_def)
  then have "pe_blockhash E (py_block w) n = 0" using assms(1) by (simp add: recent_blockhash_def)
  then show ?thesis using assms(2,4) Some by (auto simp: claimFallbackTicket_def Let_def split: sum.splits)
qed

text \<open>C38. A round that became partial because it was stale pays nothing. \<open>markRoundPartial\<close> accepts a stale round only 3600
  blocks after its commitment, while \<open>claimFallbackTicket\<close> needs the hash of the 15th block after the commitment, which the
  EVM has for 256 blocks: after a successful \<open>markRoundPartial\<close> without an unlock of the channel, no fallback claim and no
  settlement of the round ever succeeds.\<close>

theorem stale_round_pays_nothing:
  assumes "recent_blockhash E" and "markRoundPartial E s n r w = Inr w'" and "\<not> isUnlockInitiated E s r w"
    and "(pay_step E)\<^sup>*\<^sup>* w' v" and "rt_sender t = s" and "rt_recipient t = r" and "rt_roundId t = n"
  shows "(\<exists>e. claimFallbackTicket E t sig secret v = Inl e) \<and> (\<exists>e. settleRound E t sig secret v = Inl e)"
proof -
  let ?k = "round_key E s r n"
  let ?b = "ro_commitBlock (round_at w ?k)"
  from assms(2,3) obtain c where c: "add256 ?b ROUND_STALE_TIMEOUT = Some c" "c < py_block w"
    and "w' = set_round ?k ((round_at w ?k)\<lparr>ro_status := RsPartialFallback\<rparr>) w"
    by (auto simp: markRoundPartial_def Let_def split: if_splits option.splits)
  then have w': "ro_status (round_at w' ?k) = RsPartialFallback" "ro_commitBlock (round_at w' ?k) = ?b" "py_block w' = py_block w"
    by (simp_all add: set_round_def)
  have "unat c = unat ?b + 3600" using add256_Some [OF c(1)] by (simp add: ROUND_STALE_TIMEOUT_def)
  then have b: "unat ?b + 3600 < unat (py_block w)" using c(2) by (simp only: word_less_nat_alt)
  have f: "round_le (round_at w' ?k) (round_at v ?k)" "py_block w' \<le> py_block v" by (rule rounds_forward [OF assms(4)])+
  have v: "ro_commitBlock (round_at v ?k) = ?b" "ro_status (round_at v ?k) \<noteq> RsOpen"
    using f(1) w' by (auto simp: round_le_def same_params_def)
  have "unat (py_block w) \<le> unat (py_block v)" using f(2) w'(3) by (simp only: word_le_nat_alt)
  with b have "unat ?b + 3600 < unat (py_block v)" by linarith
  then have "\<exists>e. claimFallbackTicket E t sig secret v = Inl e"
    by (rule stale_claim_fails [OF assms(1) v(1)]) (simp add: assms(5-7))
  moreover have "\<exists>e. settleRoundInternal E t sig secret v = Inl e"
    by (rule settle_needs_open) (use v(2) assms(5-7) in simp)
  ultimately show ?thesis by (simp add: settleRound_def)
qed

theorem stale_round_pays_nothing_witness:
  "\<exists>w'. markRoundPartial example_pay_env 1 5 2 (example_payments 5000) = Inr w'
    \<and> (\<exists>e. claimFallbackTicket example_pay_env example_ticket [] 9 w' = Inl e) \<and> (\<exists>e. settleRound example_pay_env example_ticket [] 9 w' = Inl e)"
proof -
  have r: "recent_blockhash example_pay_env" by (simp add: recent_blockhash_def)
  have u: "\<not> isUnlockInitiated example_pay_env 1 2 (example_payments 5000)"
    by (simp add: isUnlockInitiated_def example_payments_def set_round_def set_channel_def example_channel_def)
  then obtain w' where w': "markRoundPartial example_pay_env 1 5 2 (example_payments 5000) = Inr w'"
    by (simp add: markRoundPartial_def Let_def example_payments_def set_round_def set_channel_def new_payments_def add256_def ROUND_STALE_TIMEOUT_def)
  from stale_round_pays_nothing [OF r w' u rtranclp.rtrancl_refl, of example_ticket "[]" 9] w'
  show ?thesis by (simp add: example_ticket_def)
qed

end
