(* ===== verification/PaymentFunds.thy ===== *)
theory PaymentFunds
  imports PaymentRounds
begin

text \<open>
  The money of clients and providers: what a client gets back from a channel, what happens to a stake that is slashed while it is being
  withdrawn, and what it takes to clear a dispute.
\<close>

section \<open>Channels\<close>

lemma rest_le_balance:
  assumes "pay_inv w"
  shows "rest (channel_at w k) \<le> cc_balance (py_channel w)"
proof (cases "cc_channels (py_channel w) k")
  case (Some c)
  let ?m = "cc_channels (py_channel w)"
  have "rest (the (?m k)) \<le> (\<Sum>k \<in> dom ?m. rest (the (?m k)))"
    using assms Some by (intro member_le_sum) (auto simp: pay_inv_def chan_inv_def)
  also have "\<dots> \<le> cc_balance (py_channel w)" using assms by (simp add: pay_inv_def chan_inv_def)
  finally show ?thesis using Some by (simp add: at_def)
qed (simp add: at_def rest_zero)

text \<open>In a state that satisfies the invariant, a payment that the channel covers succeeds.\<close>

lemma payout_succeeds:
  assumes "pay_inv w" and "\<not> cc_paused (py_channel w)" and "cc_authorizedPayoutEngine (py_channel w) e" and "pe_accepts E r"
    and "unat x \<le> rest (channel_at w (getChannelKey E s r))"
  shows "\<exists>w'. payoutProvider E s r x e w = Inr w'"
proof -
  let ?c = "channel_at w (getChannelKey E s r)"
  have ok: "channel_ok ?c" using assms(1) chan_ok_at by (simp add: pay_inv_def)
  then obtain y where y: "channel_remaining ?c = Some y" "unat y = rest ?c"
    using channel_remaining_ok channel_remaining_Some by blast
  have "unat (hl_totalDeposited ?c) < 2 ^ 256" using unsigned_less [of "hl_totalDeposited ?c", where ?'a = nat] by simp
  then have "add256 (hl_settledAmount ?c) x = Some (hl_settledAmount ?c + x)"
    using ok assms(5) unfolding add256_def channel_ok_def rest_def by simp
  moreover have "\<not> y < x" using y(2) assms(5) by (simp add: word_less_nat_alt)
  ultimately show ?thesis
    using assms rest_le_balance [OF assms(1), of "getChannelKey E s r"] y(1)
    by (simp add: payoutProvider_def Let_def channel_send_def set_channel_def not_less)
qed

lemma withdraw_succeeds:
  assumes "pay_inv w" and "\<not> cc_paused (py_channel w)" and "pe_accepts E a"
    and "hl_unlockBlock (channel_at w (getChannelKey E a r)) \<noteq> 0"
    and "hl_unlockBlock (channel_at w (getChannelKey E a r)) \<le> py_block w" and "0 < rest (channel_at w (getChannelKey E a r))"
  shows "\<exists>w'. withdrawChannel E r a w = Inr w'
    \<and> py_paid w' = (py_paid w)(a := py_paid w a + rest (channel_at w (getChannelKey E a r)))
    \<and> rest (channel_at w' (getChannelKey E a r)) = 0"
proof -
  let ?k = "getChannelKey E a r"
  let ?c = "channel_at w ?k"
  have ok: "channel_ok ?c" using assms(1) chan_ok_at by (simp add: pay_inv_def)
  then obtain x where x: "channel_remaining ?c = Some x" "unat x = rest ?c"
    using channel_remaining_ok channel_remaining_Some by blast
  have "unat (hl_totalDeposited ?c) < 2 ^ 256" using unsigned_less [of "hl_totalDeposited ?c", where ?'a = nat] by simp
  then have y: "add256 (hl_withdrawnAmount ?c) x = Some (hl_withdrawnAmount ?c + x)"
    using ok x(2) unfolding add256_def channel_ok_def rest_def by simp
  have "rest (?c\<lparr>hl_withdrawnAmount := hl_withdrawnAmount ?c + x\<rparr>) = 0"
    by (rule rest_withdraw(2) [OF ok]) (use add256_Some [OF y] x(2) in simp)
  moreover have "x \<noteq> 0" using x(2) assms(6) by auto
  ultimately show ?thesis
    using assms(2-5) x y rest_le_balance [OF assms(1)] by (simp add: withdrawChannel_def Let_def channel_send_def set_channel_def not_less)
qed

definition stakes :: "payments \<Rightarrow> nat" where
  "stakes w = (\<Sum>a \<in> dom (rg_providers (py_registry w)). unat (getProviderStake a w))"

definition channel_funds :: "payments \<Rightarrow> nat" where
  "channel_funds w = (\<Sum>k \<in> dom (cc_channels (py_channel w)). rest (channel_at w k))"

lemma inv_funds:
  assumes "pay_inv w"
  shows "channel_funds w \<le> cc_balance (py_channel w)" "stakes w \<le> rg_balance (py_registry w)"
proof -
  have "channel_funds w = (\<Sum>k \<in> dom (cc_channels (py_channel w)). rest (the (cc_channels (py_channel w) k)))"
    unfolding channel_funds_def by (rule sum.cong) (auto simp: at_def)
  moreover have "stakes w = (\<Sum>a \<in> dom (rg_providers (py_registry w)). unat (pv_stake (the (rg_providers (py_registry w) a))))"
    unfolding stakes_def getProviderStake_def by (rule sum.cong) (auto simp: at_def)
  ultimately show "channel_funds w \<le> cc_balance (py_channel w)" "stakes w \<le> rg_balance (py_registry w)"
    using assms by (simp_all add: pay_inv_def chan_inv_def reg_inv_def)
qed

text \<open>C4. The payment contracts are solvent. In every state that transactions can reach, \<open>PaymentChannel\<close> holds at least what
  remains in all channels together and \<open>ProviderRegistry\<close> at least all stakes; no channel has paid out more than was
  deposited, so that \<open>channelBalance\<close> does not revert; and a client whose unlock period is over and who accepts money receives, by
  \<open>withdrawChannel\<close> of a contract that is not paused, all that remains in the channel.\<close>

theorem payment_contracts_solvent:
  assumes "reach pay_init (pay_step E) w"
  shows "channel_funds w \<le> cc_balance (py_channel w) \<and> stakes w \<le> rg_balance (py_registry w)
    \<and> (\<exists>x. channelBalance E a r w = Inr x \<and> unat x = rest (channel_at w (getChannelKey E a r)))
    \<and> (\<not> cc_paused (py_channel w) \<longrightarrow> pe_accepts E a \<longrightarrow> isUnlockInitiated E a r w
        \<longrightarrow> hl_unlockBlock (channel_at w (getChannelKey E a r)) \<le> py_block w \<longrightarrow> 0 < rest (channel_at w (getChannelKey E a r))
        \<longrightarrow> (\<exists>w'. withdrawChannel E r a w = Inr w'
             \<and> py_paid w' = (py_paid w)(a := py_paid w a + rest (channel_at w (getChannelKey E a r)))
             \<and> rest (channel_at w' (getChannelKey E a r)) = 0))"
proof -
  have i: "pay_inv w" using assms by (rule pay_sys.inv_reach)
  have "channel_ok (channel_at w (getChannelKey E a r))" using i chan_ok_at by (simp add: pay_inv_def)
  then have "\<exists>x. channelBalance E a r w = Inr x \<and> unat x = rest (channel_at w (getChannelKey E a r))"
    using channel_remaining_ok channel_remaining_Some by (fastforce simp: channelBalance_def)
  with inv_funds [OF i] withdraw_succeeds [OF i] show ?thesis by (simp add: isUnlockInitiated_def)
qed

text \<open>A client deposits 500 wei, starts the unlock, and withdraws after the unlock period.\<close>

lemma example_unlocked:
  "\<exists>w. reach pay_init (pay_step example_pay_env) w \<and> py_block w = 8000 \<and> \<not> cc_paused (py_channel w) \<and> py_paid w 1 = 0
    \<and> channel_at w (getChannelKey example_pay_env 1 2) = example_channel\<lparr>hl_unlockBlock := 7200\<rparr>"
proof -
  let ?k = "getChannelKey example_pay_env 1 2"
  let ?w0 = "new_payments 3 0"
  have "\<exists>w1. pay_exec example_pay_env 1 500 (OpenChannel 2) ?w0 = Inr w1 \<and> py_block w1 = 0 \<and> \<not> cc_paused (py_channel w1) \<and> py_paid w1 1 = 0
      \<and> channel_at w1 ?k = example_channel"
    by (simp add: pay_exec_def openChannel_def new_payments_def Let_def add256_def zero_channel_def set_channel_def example_channel_def)
  then obtain w1 where w1: "pay_exec example_pay_env 1 500 (OpenChannel 2) ?w0 = Inr w1" "py_block w1 = 0" "\<not> cc_paused (py_channel w1)"
    "py_paid w1 1 = 0" "channel_at w1 ?k = example_channel" by blast
  then have "\<exists>w2. pay_exec example_pay_env 1 0 (InitiateChannelUnlock 2) w1 = Inr w2 \<and> py_block w2 = 0 \<and> \<not> cc_paused (py_channel w2) \<and> py_paid w2 1 = 0
      \<and> channel_at w2 ?k = example_channel\<lparr>hl_unlockBlock := 7200\<rparr>"
    by (simp add: pay_exec_def initiateChannelUnlock_def Let_def add256_def set_channel_def CHANNEL_UNLOCK_PERIOD_def example_channel_def)
  then obtain w2 where w2: "pay_exec example_pay_env 1 0 (InitiateChannelUnlock 2) w1 = Inr w2" "py_block w2 = 0" "\<not> cc_paused (py_channel w2)"
    "py_paid w2 1 = 0" "channel_at w2 ?k = example_channel\<lparr>hl_unlockBlock := 7200\<rparr>" by blast
  have "reach pay_init (pay_step example_pay_env) ?w0" by (rule reach_init) (auto simp: pay_init_def)
  from reach_step [OF this ps_tx [OF w1(1)]] have "reach pay_init (pay_step example_pay_env) w1" by simp
  from reach_step [OF this ps_tx [OF w2(1)]] have "reach pay_init (pay_step example_pay_env) w2" by simp
  from reach_step [OF this ps_block [of w2 8000]] w2(2-5) show ?thesis by (intro exI [of _ "w2\<lparr>py_block := 8000\<rparr>"]) simp
qed

theorem payment_contracts_solvent_witness:
  "\<exists>w w'. reach pay_init (pay_step example_pay_env) w \<and> withdrawChannel example_pay_env 2 1 w = Inr w' \<and> py_paid w' 1 = 500"
proof -
  from example_unlocked obtain w where w: "reach pay_init (pay_step example_pay_env) w" "py_block w = 8000" "\<not> cc_paused (py_channel w)"
    "py_paid w 1 = 0" "channel_at w (getChannelKey example_pay_env 1 2) = example_channel\<lparr>hl_unlockBlock := 7200\<rparr>" by blast
  have "\<exists>w'. withdrawChannel example_pay_env 2 1 w = Inr w' \<and> py_paid w' 1 = 500"
    using payment_contracts_solvent [OF w(1), of 1 2] w(2-5) by (auto simp: isUnlockInitiated_def rest_def example_channel_def)
  with w(1) show ?thesis by blast
qed

section \<open>Stakes\<close>

text \<open>A provider whose stake is below what it has asked back.\<close>

definition stake_locked :: "address \<Rightarrow> payments \<Rightarrow> bool" where
  "stake_locked a w \<longleftrightarrow> pv_unstakeReleaseBlock (provider_at w a) \<noteq> 0 \<and> pv_stake (provider_at w a) < pv_pendingUnstakeAmount (provider_at w a)"

lemma locked_unchanged: "rg_providers (py_registry w') = rg_providers (py_registry w) \<Longrightarrow> stake_locked a w' = stake_locked a w"
  by (simp add: stake_locked_def)

lemma locked_reverts:
  assumes "stake_locked a w"
  shows "\<exists>e. withdrawStake E a w = Inl e" "\<exists>e. requestUnstake a w = Inl e" "\<exists>e. requestPartialUnstake z a w = Inl e"
  using assms by (auto simp: stake_locked_def withdrawStake_def requestUnstake_def requestPartialUnstake_def Let_def)

lemma locked_slash:
  assumes "stake_locked a w" and "slashProvider p x c w = Inr (y, w')"
  shows "stake_locked a w'"
proof (cases "p = a")
  case True
  have "pv_stake (provider_at w a) - y \<le> pv_stake (provider_at w a)" if "y \<le> pv_stake (provider_at w a)"
    using that by (simp add: word_le_nat_alt unat_sub)
  then show ?thesis
    using slash_Inr [OF assms(2)] assms(1) True by (auto simp: stake_locked_def set_provider_def)
next
  case False
  then show ?thesis using slash_Inr [OF assms(2)] assms(1) by (auto simp: stake_locked_def set_provider_def)
qed

lemma settle_registry: "settleRoundInternal E t sig x w = Inr w' \<Longrightarrow> py_registry w' = py_registry w"
  using payout_frame(1) [OF settle_Inr(2)] by simp

lemma settle_all_registry: "settle_all E xs w = Inr w' \<Longrightarrow> py_registry w' = py_registry w"
  by (induction E xs w rule: settle_all.induct) (auto split: sum.splits dest: settle_registry)

lemma void_registry: "voidRound E s r n c w = Inr w' \<Longrightarrow> py_registry w' = py_registry w"
  by (drule void_Inr) (simp add: set_round_def)

lemma channel_registry:
  "depositToChannel E r a v w = Inr w' \<Longrightarrow> py_registry w' = py_registry w" "initiateChannelUnlock E r a w = Inr w' \<Longrightarrow> py_registry w' = py_registry w"
  "withdrawChannel E r a w = Inr w' \<Longrightarrow> py_registry w' = py_registry w"
  using channel_frame(1) by blast+

lemma providers_unchanged:
  assumes "pay_run E s v c w = Inr w'"
    and "case c of RegisterProvider \<Rightarrow> False | RequestUnstake \<Rightarrow> False | RequestPartialUnstake _ \<Rightarrow> False | WithdrawStake \<Rightarrow> False
      | SlashProvider _ _ \<Rightarrow> False | ResolveExpiredDispute _ _ _ _ \<Rightarrow> False | _ \<Rightarrow> True"
  shows "rg_providers (py_registry w') = rg_providers (py_registry w)"
proof (cases c)
  case (SettleRound t sig x)
  with assms show ?thesis by (auto simp: settleRound_def dest: settle_registry split: if_splits)
next
  case (SettleRoundBatch ts sigs xs)
  with assms show ?thesis by (auto simp: settleRoundBatch_def dest: settle_all_registry split: if_splits)
next
  case (ClaimFallbackTicket t sig x)
  with assms show ?thesis using payout_frame(1) [OF claim_Inr] by simp
next
  case (PayoutProvider u r x)
  with assms show ?thesis using payout_frame(1) by simp
next
  case (VoidRound u r n)
  with assms show ?thesis using void_registry by simp
qed (use assms in \<open>auto simp: quiet_defs set_round_def set_pending_def Let_def open_is_deposit channel_registry
    split: if_splits option.splits\<close>)

lemma other_provider:
  assumes "registerProvider s v w = Inr w' \<or> requestUnstake s w = Inr w' \<or> requestPartialUnstake x s w = Inr w' \<or> withdrawStake E s w = Inr w'"
    and "s \<noteq> a"
  shows "provider_at w' a = provider_at w a"
  using assms by (auto simp: registerProvider_def requestUnstake_def requestPartialUnstake_def set_provider_def Let_def
    elim!: withdrawStake_Inr split: if_splits option.splits)

lemma locked_stays:
  assumes "stake_locked a w" and "pay_run E s v c w = Inr w'" and "c = RegisterProvider \<longrightarrow> s \<noteq> a"
  shows "stake_locked a w'"
proof (cases c)
  case (SlashProvider p x)
  with assms(2) obtain y where "slashProvider p x s w = Inr (y, w')" by (cases "slashProvider p x s w") auto
  with assms(1) show ?thesis by (rule locked_slash)
next
  case (ResolveExpiredDispute u r n i)
  with assms(2) have "resolveExpiredDispute E u r n i w = Inr w'" by simp
  then show ?thesis
  proof (rule resolve_Inr)
    fix w1 x y w2
    assume s: "slashProvider r x (pe_resolver E) w1 = Inr (y, w2)" and v: "voidRound E u r n (pe_resolver E) w2 = Inr w'"
      and e: "py_registry w1 = py_registry w"
    have "stake_locked a w1" using assms(1) e by (simp add: stake_locked_def)
    from locked_slash [OF this s] void_registry [OF v] show ?thesis by (simp add: stake_locked_def)
  qed
next
  case RegisterProvider
  with assms have r: "registerProvider s v w = Inr w'" and "s \<noteq> a" by simp_all
  from other_provider [OF disjI1 [OF r] this(2)] assms(1) show ?thesis by (simp add: stake_locked_def)
next
  case RequestUnstake
  with assms locked_reverts(2) [OF assms(1)] have r: "requestUnstake s w = Inr w'" and "s \<noteq> a" by auto
  with other_provider [of s v w w'] assms(1) show ?thesis by (simp add: stake_locked_def)
next
  case (RequestPartialUnstake x)
  with assms locked_reverts(3) [OF assms(1), of x] have r: "requestPartialUnstake x s w = Inr w'" and "s \<noteq> a" by auto
  with other_provider [of s v w w' x] assms(1) show ?thesis by (simp add: stake_locked_def)
next
  case WithdrawStake
  with assms locked_reverts(1) [OF assms(1), of E] have r: "withdrawStake E s w = Inr w'" and "s \<noteq> a" by auto
  with other_provider [of s v w w' _ E] assms(1) show ?thesis by (simp add: stake_locked_def)
qed (simp_all add: locked_unchanged [OF providers_unchanged [OF assms(2)]] assms(1))

text \<open>Steps of the contracts in which the provider \<open>a\<close> deposits nothing.\<close>

inductive no_topup_step :: "pay_env \<Rightarrow> address \<Rightarrow> payments \<Rightarrow> payments \<Rightarrow> bool" for E a where
  nt_tx: "pay_exec E s v c w = Inr w' \<Longrightarrow> c = RegisterProvider \<longrightarrow> s \<noteq> a \<Longrightarrow> no_topup_step E a w w'"
| nt_block: "no_topup_step E a w (w\<lparr>py_block := b\<rparr>)"

interpretation locked: invariant_system "stake_locked a" "no_topup_step E a" "stake_locked a" for E a
proof unfold_locales
  fix w w'
  assume "stake_locked a w" and "no_topup_step E a w w'"
  from this(2,1) show "stake_locked a w'"
    by (cases rule: no_topup_step.cases) (auto simp: pay_exec_def intro: locked_stays split: if_splits, simp add: stake_locked_def)
qed

lemma unstake_requested:
  assumes "requestUnstake a w = Inr w1 \<and> z = getProviderStake a w \<or> requestPartialUnstake z a w = Inr w1"
  shows "\<exists>b. b \<noteq> 0 \<and> provider_at w1 a = (provider_at w a)\<lparr>pv_pendingUnstakeAmount := z, pv_unstakeReleaseBlock := b\<rparr>"
proof -
  from assms obtain b where b: "add256 (py_block w) UNBONDING_PERIOD = Some b"
    and w1: "provider_at w1 a = (provider_at w a)\<lparr>pv_pendingUnstakeAmount := z, pv_unstakeReleaseBlock := b\<rparr>"
    by (auto simp: requestUnstake_def requestPartialUnstake_def getProviderStake_def set_provider_def Let_def split: if_splits option.splits)
  have "unat b \<noteq> 0" using add256_Some [OF b] by (simp add: UNBONDING_PERIOD_def)
  then have "b \<noteq> 0" by auto
  with w1 show ?thesis by blast
qed

lemma slash_keeps_request:
  assumes "slashProvider a x c w = Inr (y, w')"
  shows "pv_pendingUnstakeAmount (provider_at w' a) = pv_pendingUnstakeAmount (provider_at w a)"
    and "pv_unstakeReleaseBlock (provider_at w' a) = pv_unstakeReleaseBlock (provider_at w a)"
    and "0 < y \<Longrightarrow> getProviderStake a w' < getProviderStake a w"
proof -
  have "pv_stake (provider_at w a) - y < pv_stake (provider_at w a)" if "0 < y" "y \<le> pv_stake (provider_at w a)"
    using that by (simp add: word_less_nat_alt word_le_nat_alt unat_sub)
  then show "pv_pendingUnstakeAmount (provider_at w' a) = pv_pendingUnstakeAmount (provider_at w a)"
    "pv_unstakeReleaseBlock (provider_at w' a) = pv_unstakeReleaseBlock (provider_at w a)"
    "0 < y \<Longrightarrow> getProviderStake a w' < getProviderStake a w"
    using slash_Inr [OF assms] by (auto simp: set_provider_def getProviderStake_def)
qed

text \<open>A partial request that the stake still covers after the slash is paid out after the unbonding period.\<close>

lemma partial_request_survives_slash:
  assumes "requestPartialUnstake z a w = Inr w1" and "slashProvider a x c w1 = Inr (y, w2)" and "z \<le> getProviderStake a w2"
    and "pv_unstakeReleaseBlock (provider_at w2 a) \<le> py_block w2" and "unat z \<le> rg_balance (py_registry w2)" and "pe_accepts E a"
  shows "\<exists>v. withdrawStake E a w2 = Inr v \<and> py_paid v a = py_paid w2 a + unat z"
proof -
  obtain b where b: "b \<noteq> 0" "provider_at w1 a = (provider_at w a)\<lparr>pv_pendingUnstakeAmount := z, pv_unstakeReleaseBlock := b\<rparr>"
    using unstake_requested [of a w w1 z] assms(1) by blast
  have "z \<noteq> 0" using assms(1) by (auto simp: requestPartialUnstake_def Let_def split: if_splits)
  with b assms(3-6) slash_keeps_request [OF assms(2)] show ?thesis
    by (simp add: withdrawStake_def registry_send_def set_provider_def getProviderStake_def Let_def not_less)
qed

text \<open>C39. A slash during the unbonding period can lock the whole stake. \<open>slashProvider\<close> lowers the stake and not the amount that is
  to be withdrawn. After \<open>requestUnstake\<close> and a slash of any positive amount, and after \<open>requestPartialUnstake\<close> of an amount that the
  slash leaves uncovered, whatever follows, \<open>withdrawStake\<close> and every new request of the provider revert for as long as the
  provider deposits nothing more.\<close>

theorem slash_locks_pending_stake:
  assumes "requestUnstake a w = Inr w1 \<and> 0 < y \<or> requestPartialUnstake z a w = Inr w1 \<and> getProviderStake a w2 < z"
    and "slashProvider a x c w1 = Inr (y, w2)" and "(no_topup_step E a)\<^sup>*\<^sup>* w2 v"
  shows "(\<exists>e. withdrawStake E a v = Inl e) \<and> (\<exists>e. requestUnstake a v = Inl e) \<and> (\<exists>e. requestPartialUnstake z' a v = Inl e)"
proof -
  obtain z0 b where b: "b \<noteq> 0" "provider_at w1 a = (provider_at w a)\<lparr>pv_pendingUnstakeAmount := z0, pv_unstakeReleaseBlock := b\<rparr>"
    and "getProviderStake a w2 < z0"
    using assms(1)
  proof
    assume "requestUnstake a w = Inr w1 \<and> 0 < y"
    with unstake_requested [of a w w1 "getProviderStake a w"] slash_keeps_request(3) [OF assms(2)] that show thesis
      by (auto simp: getProviderStake_def)
  qed (use unstake_requested [of a w w1 z] that in blast)
  then have "stake_locked a w2" using slash_keeps_request(1,2) [OF assms(2)] by (simp add: stake_locked_def getProviderStake_def)
  from locked_reverts [OF locked.inv_steps [OF this assms(3)]] show ?thesis by blast
qed

definition example_staked :: payments where
  "example_staked = set_provider 2 \<lparr>pv_stake = 2000000000000000000, pv_unstakeReleaseBlock = 0, pv_pendingUnstakeAmount = 0, pv_registered = True\<rparr>
     ((new_payments 3 100)\<lparr>py_registry := (py_registry (new_payments 3 100))\<lparr>rg_authorizedSlashers := (\<lambda>a. a = 5), rg_balance := 2000000000000000000\<rparr>\<rparr>)"

theorem slash_locks_pending_stake_witness:
  "(\<exists>w1 w2. requestUnstake 2 example_staked = Inr w1 \<and> slashProvider 2 400 5 w1 = Inr (400, w2)
      \<and> (\<exists>e. withdrawStake example_pay_env 2 (w2\<lparr>py_block := 10000\<rparr>) = Inl e))
   \<and> (\<exists>w1 w2. requestPartialUnstake 500 2 example_staked = Inr w1 \<and> slashProvider 2 1999999999999999600 5 w1 = Inr (1999999999999999600, w2)
      \<and> (\<exists>e. withdrawStake example_pay_env 2 (w2\<lparr>py_block := 10000\<rparr>) = Inl e))"
proof
  have later: "(no_topup_step example_pay_env 2)\<^sup>*\<^sup>* w (w\<lparr>py_block := 10000\<rparr>)" for w by (rule r_into_rtranclp) (rule nt_block)
  obtain w1 where w1: "requestUnstake 2 example_staked = Inr w1" "pv_stake (provider_at w1 2) = 2000000000000000000" "rg_authorizedSlashers (py_registry w1) 5"
    by (simp add: requestUnstake_def example_staked_def new_payments_def set_provider_def Let_def add256_def UNBONDING_PERIOD_def)
  then obtain w2 where w2: "slashProvider 2 400 5 w1 = Inr (400, w2)"
    by (simp add: slashProvider_def Let_def)
  from slash_locks_pending_stake [OF _ w2 later, of example_staked] w1(1) w2
  show "\<exists>w1 w2. requestUnstake 2 example_staked = Inr w1 \<and> slashProvider 2 400 5 w1 = Inr (400, w2)
      \<and> (\<exists>e. withdrawStake example_pay_env 2 (w2\<lparr>py_block := 10000\<rparr>) = Inl e)" by auto
  obtain w3 where w3: "requestPartialUnstake 500 2 example_staked = Inr w3" "pv_stake (provider_at w3 2) = 2000000000000000000"
      "rg_authorizedSlashers (py_registry w3) 5"
    by (simp add: requestPartialUnstake_def example_staked_def new_payments_def set_provider_def Let_def add256_def UNBONDING_PERIOD_def
        MIN_PROVIDER_STAKE_def)
  then obtain w4 where w4: "slashProvider 2 1999999999999999600 5 w3 = Inr (1999999999999999600, w4)" "getProviderStake 2 w4 < 500"
    by (simp add: slashProvider_def set_provider_def getProviderStake_def Let_def)
  from slash_locks_pending_stake [OF _ w4(1) later, of example_staked 500] w3(1) w4
  show "\<exists>w1 w2. requestPartialUnstake 500 2 example_staked = Inr w1 \<and> slashProvider 2 1999999999999999600 5 w1 = Inr (1999999999999999600, w2)
      \<and> (\<exists>e. withdrawStake example_pay_env 2 (w2\<lparr>py_block := 10000\<rparr>) = Inl e)" by auto
qed

section \<open>Disputes\<close>

text \<open>C40. Any bytes clear a dispute. \<open>respondToDispute\<close> checks the chunk against a root that the caller passes in, and the contract
  keeps no root to compare it with: for every chunk, the leaf of that chunk as root and an empty proof resolve an open dispute in
  favour of the provider, who neither loses stake nor has to hold the disputed chunk.\<close>

theorem any_chunk_clears_dispute:
  assumes "getDisputeStatus E s r n i w = DsOpen" and "py_block w \<le> dp_deadlineBlock (dispute_at w (disputeKey E s r n i))"
  shows "\<exists>w'. respondToDispute E s n i chunk [] (chunk_leaf E chunk i) r w = Inr w' \<and> getDisputeStatus E s r n i w' = DsResolvedHonest
    \<and> py_registry w' = py_registry w \<and> (\<exists>e. resolveExpiredDispute E s r n i (w'\<lparr>py_block := b\<rparr>) = Inl e)"
  using assms
  by (auto simp: respondToDispute_def getDisputeStatus_def raffle_verifyMerkleProof_def resolveExpiredDispute_def less_pending_def
    set_dispute_def set_pending_def Let_def)

theorem any_chunk_clears_dispute_witness:
  "\<exists>w w'. raiseChunkDispute example_pay_env 2 5 3 0 1 (example_payments 1020) = Inr w
    \<and> respondToDispute example_pay_env 1 5 3 [] [] (chunk_leaf example_pay_env [] 3) 2 w = Inr w' \<and> getDisputeStatus example_pay_env 1 2 5 3 w' = DsResolvedHonest"
proof -
  have "\<exists>w. raiseChunkDispute example_pay_env 2 5 3 0 1 (example_payments 1020) = Inr w \<and> getDisputeStatus example_pay_env 1 2 5 3 w = DsOpen
      \<and> py_block w \<le> dp_deadlineBlock (dispute_at w (disputeKey example_pay_env 1 2 5 3))"
    by (simp add: raiseChunkDispute_def getDisputeStatus_def getRoundStatus_def example_payments_def new_payments_def set_round_def set_channel_def
        zero_dispute_def add256_def DISPUTE_RESPONSE_WINDOW_def set_dispute_def set_pending_def Let_def)
  then show ?thesis using any_chunk_clears_dispute by blast
qed

end
