(* ===== verification/TicketFlow.thy ===== *)
theory TicketFlow
  imports PaymentFunds
begin

text \<open>
  Tickets from the consumer to the chain: the client of \<open>network/payments/client.go\<close>, the ticket generator that
  \<open>nodes/consumer/main.go\<close> hands to the chunk client, and the ticket handler that \<open>nodes/provider/main.go\<close> hands to the stream
  handler. The connection to an Ethereum node and the bound contracts are parameters, in the records \<open>eth_lib\<close> and
  \<open>eth_bindings\<close>; the last section fills in the contract that settles with the model of it.
\<close>

section \<open>The payment client\<close>

record ContractAddresses =
  ca_PaymentChannel :: address
  ca_SettlementEngine :: address
  ca_EntropySource :: address
  ca_ProviderRegistry :: address

record TransactOpts =
  op_From :: address
  op_Value :: "int option"
  op_GasPrice :: "int option"

text \<open>What the client calls of a bound contract. The state \<open>'s\<close> is the chain.\<close>

record 's eth_bindings =
  eb_ChannelBalance :: "address \<Rightarrow> address \<Rightarrow> 's \<Rightarrow> string + int"
  eb_ProviderStake :: "address \<Rightarrow> 's \<Rightarrow> string + int"
  eb_SettleRound :: "TransactOpts \<Rightarrow> RoundTicket \<Rightarrow> bytes \<Rightarrow> bytes32 \<Rightarrow> 's \<Rightarrow> (string + unit) \<times> 's"

text \<open>\<open>ethclient.DialContext\<close> and \<open>ChainID\<close>, \<open>crypto.HexToECDSA\<close>, the binding of a contract, \<open>bind.NewKeyedTransactorWithChainID\<close> and
  \<open>SuggestGasPrice\<close>.\<close>

record ('k, 'p, 'r) eth_lib =
  el_crypto :: "('k, 'p) ticket_crypto"
  el_dial :: "string \<Rightarrow> string + 'r"
  el_chainID :: "'r \<Rightarrow> string + int"
  el_hexToECDSA :: "string \<Rightarrow> string + 'k"
  el_bind :: "address \<Rightarrow> 'r \<Rightarrow> string option"
  el_transactor :: "'k \<Rightarrow> int \<Rightarrow> string + TransactOpts"
  el_gasPrice :: "'r \<Rightarrow> string + int"

text \<open>A bound contract is given by its address.\<close>

record ('k, 'r) PaymentClient =
  pm_Client :: 'r
  pm_ChainID :: int
  pm_PrivateKey :: "'k option"
  pm_Address :: address
  pm_Signer :: "'k TicketSigner"
  pm_PaymentChannel :: "address option"
  pm_SettlementEngine :: "address option"
  pm_EntropySource :: "address option"
  pm_ProviderRegistry :: "address option"

datatype payclient_error =
    PcDial string
  | PcChainID string
  | PcInvalidKey string
  | PcBind string string
  | PcNotBound string
  | PcNoPrivateKey
  | PcTransactor string
  | PcQuery string
  | PcSubmit string

definition client_key :: "('k, 'p, 'r) eth_lib \<Rightarrow> string \<Rightarrow> payclient_error + 'k option" where
  "client_key L hex =
     (if hex = [] then Inr None
      else (case el_hexToECDSA L (if 2 \<le> length hex \<and> take 2 hex = ''0x'' then drop 2 hex else hex) of
              Inl e \<Rightarrow> Inl (PcInvalidKey e)
            | Inr k \<Rightarrow> Inr (Some k)))"

definition bind_contract :: "('k, 'p, 'r) eth_lib \<Rightarrow> string \<Rightarrow> address \<Rightarrow> 'r \<Rightarrow> payclient_error + address option" where
  "bind_contract L contract a client =
     (if a = 0 then Inr None
      else (case el_bind L a client of Some e \<Rightarrow> Inl (PcBind contract e) | None \<Rightarrow> Inr (Some a)))"

definition NewPaymentClient ::
    "('k, 'p, 'r) eth_lib \<Rightarrow> string \<Rightarrow> string \<Rightarrow> ContractAddresses \<Rightarrow> payclient_error + ('k, 'r) PaymentClient" where
  "NewPaymentClient L rpcURL privKeyHex addrs = (case el_dial L rpcURL of
     Inl e \<Rightarrow> Inl (PcDial e)
   | Inr client \<Rightarrow> (case el_chainID L client of
       Inl e \<Rightarrow> Inl (PcChainID e)
     | Inr chainID \<Rightarrow> (case client_key L privKeyHex of
         Inl e \<Rightarrow> Inl e
       | Inr privKey \<Rightarrow> (case bind_contract L ''PaymentChannel'' (ca_PaymentChannel addrs) client of
           Inl e \<Rightarrow> Inl e
         | Inr pc \<Rightarrow> (case bind_contract L ''SettlementEngine'' (ca_SettlementEngine addrs) client of
             Inl e \<Rightarrow> Inl e
           | Inr se \<Rightarrow> (case bind_contract L ''CommitRevealEntropy'' (ca_EntropySource addrs) client of
               Inl e \<Rightarrow> Inl e
             | Inr es \<Rightarrow> (case bind_contract L ''ProviderRegistry'' (ca_ProviderRegistry addrs) client of
                 Inl e \<Rightarrow> Inl e
               | Inr pr \<Rightarrow>
                   Inr \<lparr>pm_Client = client, pm_ChainID = chainID, pm_PrivateKey = privKey,
                        pm_Address = (case privKey of None \<Rightarrow> 0 | Some k \<Rightarrow> tc_pubkeyToAddress (el_crypto L) (tc_public (el_crypto L) k)),
                        pm_Signer = NewTicketSigner (el_crypto L) privKey chainID (ca_EntropySource addrs),
                        pm_PaymentChannel = pc, pm_SettlementEngine = se, pm_EntropySource = es, pm_ProviderRegistry = pr\<rparr>)))))))"

definition GetTransactor :: "('k, 'p, 'r) eth_lib \<Rightarrow> ('k, 'r) PaymentClient \<Rightarrow> int option \<Rightarrow> payclient_error + TransactOpts" where
  "GetTransactor L c v = (case pm_PrivateKey c of
     None \<Rightarrow> Inl PcNoPrivateKey
   | Some k \<Rightarrow> (case el_transactor L k (pm_ChainID c) of
       Inl e \<Rightarrow> Inl (PcTransactor e)
     | Inr auth \<Rightarrow>
         let auth1 = (case v of None \<Rightarrow> auth | Some x \<Rightarrow> auth\<lparr>op_Value := Some x\<rparr>) in
         Inr (case el_gasPrice L (pm_Client c) of Inl _ \<Rightarrow> auth1 | Inr g \<Rightarrow> auth1\<lparr>op_GasPrice := Some g\<rparr>)))"

definition GetChannelBalance ::
    "(address \<Rightarrow> 's eth_bindings) \<Rightarrow> ('k, 'r) PaymentClient \<Rightarrow> address \<Rightarrow> address \<Rightarrow> 's \<Rightarrow> payclient_error + int" where
  "GetChannelBalance B c sender recipient s = (case pm_PaymentChannel c of
     None \<Rightarrow> Inl (PcNotBound ''PaymentChannel'')
   | Some a \<Rightarrow> (case eb_ChannelBalance (B a) sender recipient s of Inl e \<Rightarrow> Inl (PcQuery e) | Inr bal \<Rightarrow> Inr bal))"

definition client_GetProviderStake ::
    "(address \<Rightarrow> 's eth_bindings) \<Rightarrow> ('k, 'r) PaymentClient \<Rightarrow> address \<Rightarrow> 's \<Rightarrow> payclient_error + int" where
  "client_GetProviderStake B c provider s = (case pm_ProviderRegistry c of
     None \<Rightarrow> Inl (PcNotBound ''ProviderRegistry'')
   | Some a \<Rightarrow> (case eb_ProviderStake (B a) provider s of Inl e \<Rightarrow> Inl (PcQuery e) | Inr stake \<Rightarrow> Inr stake))"

definition client_SettleRound ::
    "('k, 'p, 'r) eth_lib \<Rightarrow> (address \<Rightarrow> 's eth_bindings) \<Rightarrow> ('k, 'r) PaymentClient \<Rightarrow> RoundTicket \<Rightarrow> bytes \<Rightarrow> bytes32
     \<Rightarrow> 's \<Rightarrow> (payclient_error + unit) \<times> 's" where
  "client_SettleRound L B c ticket senderSig secret s = (case pm_SettlementEngine c of
     None \<Rightarrow> (Inl (PcNotBound ''SettlementEngine''), s)
   | Some a \<Rightarrow> (case GetTransactor L c None of
       Inl e \<Rightarrow> (Inl e, s)
     | Inr auth \<Rightarrow> (case eb_SettleRound (B a) auth ticket senderSig secret s of
         (Inl e, s') \<Rightarrow> (Inl (PcSubmit e), s')
       | (Inr _, s') \<Rightarrow> (Inr (), s'))))"

section \<open>The consumer and the provider\<close>

text \<open>\<open>chunkIdxMap\<close>: a chunk that occurs more than once in the manifest has its last index.\<close>

definition chunkIdxMap :: "'c list \<Rightarrow> 'c \<rightharpoonup> nat" where
  "chunkIdxMap chunkIDs = map_of (rev (zip chunkIDs [0..<length chunkIDs]))"

datatype generator_error = ChunkNotInManifest | GeneratorSign ticket_error

definition ticketGenerator ::
    "('k, 'p) ticket_crypto \<Rightarrow> ('k, 'r) PaymentClient \<Rightarrow> address \<Rightarrow> int \<Rightarrow> int \<Rightarrow> bool \<Rightarrow> 'c list \<Rightarrow> 'c \<Rightarrow> generator_error + SignedTicket" where
  "ticketGenerator C payClient pAddr rID faceVal simulateCheat chunkIDs chunkID = (case chunkIdxMap chunkIDs chunkID of
     None \<Rightarrow> Inl ChunkNotInManifest
   | Some idx \<Rightarrow>
       let ticket = \<lparr>tk_Sender = pm_Address payClient, tk_Recipient = pAddr, tk_RoundID = rID, tk_LocalIndex = int idx,
                     tk_FaceValue = faceVal, tk_WinProb = 100000000000000000, tk_SenderNonce = 12345\<rparr> in
       (case SignTicket C (pm_Signer payClient) ticket of
          Inl e \<Rightarrow> Inl (GeneratorSign e)
        | Inr sig \<Rightarrow>
            Inr \<lparr>st_Ticket = ticket, st_Signature = (if simulateCheat then map (\<lambda>b. xor b 0xFF) sig else sig)\<rparr>))"

text \<open>\<open>hex\<close> is \<open>common.Address.Hex\<close>.\<close>

definition ticketHandler ::
    "('k, 'p) ticket_crypto \<Rightarrow> (address \<Rightarrow> string) \<Rightarrow> 'k TicketSigner \<Rightarrow> SignedTicket \<Rightarrow> SignedTicket list
     \<Rightarrow> (string + unit) \<times> SignedTicket list" where
  "ticketHandler C hex verifierSigner ticket storedTickets =
     (if \<not> ticket_Verify C verifierSigner (st_Ticket ticket) (st_Signature ticket) (tk_Sender (st_Ticket ticket))
      then (Inl (''invalid ticket signature from '' @ hex (tk_Sender (st_Ticket ticket))), storedTickets)
      else (Inr (), storedTickets @ [ticket]))"

section \<open>The same ticket on both sides\<close>

text \<open>A ticket as the binding encodes it for the contract, and the contracts as what the client is bound to; a transaction that would revert
  is not sent.\<close>

definition sol_ticket :: "RoundTicket \<Rightarrow> SolRoundTicket" where
  "sol_ticket t = \<lparr>rt_sender = tk_Sender t, rt_recipient = tk_Recipient t, rt_roundId = word_of_int (tk_RoundID t),
     rt_localIndex = word_of_int (tk_LocalIndex t), rt_faceValue = word_of_int (tk_FaceValue t), rt_winProb = word_of_int (tk_WinProb t),
     rt_senderNonce = word_of_int (tk_SenderNonce t)\<rparr>"

definition chain_bindings :: "pay_env \<Rightarrow> payments eth_bindings" where
  "chain_bindings E = \<lparr>
     eb_ChannelBalance = (\<lambda>s r w. case channelBalance E s r w of Inl _ \<Rightarrow> Inl ''execution reverted'' | Inr x \<Rightarrow> Inr (uint x)),
     eb_ProviderStake = (\<lambda>p w. Inr (uint (getProviderStake p w))),
     eb_SettleRound = (\<lambda>_ t sig secret w. case settleRound E (sol_ticket t) sig secret w of
        Inl _ \<Rightarrow> (Inl ''execution reverted'', w)
      | Inr w' \<Rightarrow> (Inr (), w'))\<rparr>"

text \<open>What the two sides rely on: the same \<open>keccak256\<close>; the typed data hash of EIP-712 with the domain of the entropy contract; signatures of 65
  bytes whose last byte is 0 or 1, from which go-ethereum finds the key, and \<open>ECDSA.recover\<close>, with 27 added to that byte, its
  address.\<close>

definition tickets_agree :: "pay_env \<Rightarrow> ('k, 'p) ticket_crypto \<Rightarrow> int \<Rightarrow> address \<Rightarrow> bool" where
  "tickets_agree E C chainID entropy \<longleftrightarrow> pe_keccak E = tc_keccak C
     \<and> (\<forall>h. pe_hashTypedDataV4 E h = HashTypedData C (ComputeDomainSeparator C chainID entropy) h)
     \<and> (\<forall>h k sig. tc_sign C h k = Inr sig \<longrightarrow> length sig = 65 \<and> (sig ! 64 = 0 \<or> sig ! 64 = 1) \<and> tc_sigToPub C h sig = Some (tc_public C k)
          \<and> pe_recover E h (sig[64 := sig ! 64 + 27]) = Some (tc_pubkeyToAddress C (tc_public C k)))"

definition in_range :: "RoundTicket \<Rightarrow> bool" where
  "in_range t \<longleftrightarrow> (\<forall>n \<in> {tk_RoundID t, tk_LocalIndex t, tk_FaceValue t, tk_WinProb t, tk_SenderNonce t}. 0 \<le> n \<and> n < 2 ^ 256)"

lemma byte_len_le: "m < 256 ^ n \<Longrightarrow> byte_len m \<le> n"
proof (induction n arbitrary: m)
  case 0
  then show ?case by (simp add: byte_len.simps)
next
  case (Suc n)
  then have "m div 256 < 256 ^ n" by (simp add: less_mult_imp_div_less mult.commute)
  then show ?case using Suc.IH by (subst byte_len.simps) simp
qed

lemma padded_abi:
  assumes "0 \<le> n" and "n < 2 ^ 256"
  shows "PaddedBigBytes n 32 = abi_word (word_of_int n :: u256)"
proof -
  have "nat n < 256 ^ 32" using assms by (simp add: nat_less_iff)
  then have "byte_len (nat n) \<le> 32" by (rule byte_len_le)
  moreover have "uint (word_of_int n :: u256) = n" using assms by (simp add: uint_word_of_int)
  then have "unat (word_of_int n :: u256) = nat n" by (simp only: unat_eq_nat_uint)
  ultimately show ?thesis using assms(1) by (simp add: PaddedBigBytes_def abi_word_def max_def Let_def)
qed

lemma digest_same:
  assumes "tickets_agree E C chainID entropy" and "in_range t" and "sn_DomainSeparator s = ComputeDomainSeparator C chainID entropy"
  shows "roundTicketHash E (sol_ticket t) = ticket_Digest C s t"
  using assms by (simp add: tickets_agree_def in_range_def roundTicketHash_def ticket_Digest_def HashRoundTicket_def sol_ticket_def padded_abi)

text \<open>A signature by \<open>SignTicket\<close> is accepted by \<open>Verify\<close> and by the contract.\<close>

lemma signed_ticket:
  assumes "tickets_agree E C chainID entropy" and "SignTicket C (NewTicketSigner C (Some k) chainID entropy) t = Inr sig"
  defines "a \<equiv> tc_pubkeyToAddress C (tc_public C k)"
  shows "ticket_Verify C (NewTicketSigner C key chainID entropy) t sig a"
    and "in_range t \<Longrightarrow> recoverSigner E (roundTicketHash E (sol_ticket t)) sig = Inr a"
proof -
  let ?d = "HashTypedData C (ComputeDomainSeparator C chainID entropy) (HashRoundTicket C t)"
  have d: "ticket_Digest C (NewTicketSigner C key' chainID entropy) t = ?d" for key'
    by (simp add: ticket_Digest_def NewTicketSigner_def)
  from assms(2) obtain sg where "tc_sign C ?d k = Inr sg" and sig: "sig = (if sg ! 64 < 27 then sg[64 := sg ! 64 + 27] else sg)"
    unfolding SignTicket_def d by (auto simp: NewTicketSigner_def split: sum.splits if_splits)
  then have s: "length sg = 65" "sg ! 64 = 0 \<or> sg ! 64 = 1" "tc_sigToPub C ?d sg = Some (tc_public C k)" "pe_recover E ?d (sg[64 := sg ! 64 + 27]) = Some a"
    using assms(1) by (simp_all add: tickets_agree_def a_def)
  have v: "sig = sg[64 := sg ! 64 + 27]" using sig s(2) by auto
  have "sig[64 := sig ! 64 - 27] = sg" "27 \<le> sig ! 64" using v s(1,2) by (auto simp: list_update_overwrite)
  then show "ticket_Verify C (NewTicketSigner C key chainID entropy) t sig a"
    using s v by (simp add: ticket_Verify_def RecoverSigner_def d a_def)
  show "recoverSigner E (roundTicketHash E (sol_ticket t)) sig = Inr a" if "in_range t"
    using digest_same [OF assms(1) that, of "NewTicketSigner C key chainID entropy"] s(4) v
    by (simp add: recoverSigner_def d) (simp add: NewTicketSigner_def)
qed

section \<open>From the consumer to the chain\<close>

lemma new_client:
  assumes "NewPaymentClient L url hex addrs = Inr c"
  shows "pm_Signer c = NewTicketSigner (el_crypto L) (pm_PrivateKey c) (pm_ChainID c) (ca_EntropySource addrs)"
    and "pm_Address c = (case pm_PrivateKey c of None \<Rightarrow> 0 | Some k \<Rightarrow> tc_pubkeyToAddress (el_crypto L) (tc_public (el_crypto L) k))"
  using assms by (auto simp: NewPaymentClient_def split: sum.splits)

lemma chunkIdxMap_Some: "chunkIdxMap ids c = Some i \<Longrightarrow> i < length ids \<and> ids ! i = c"
  by (auto simp: chunkIdxMap_def dest!: map_of_SomeD simp: set_zip)

text \<open>A ticket whose round is open and whose index has won.\<close>

definition winning :: "pay_env \<Rightarrow> SolRoundTicket \<Rightarrow> bytes32 \<Rightarrow> payments \<Rightarrow> bool" where
  "winning E t secret w \<longleftrightarrow> (let r = round_at w (round_key E (rt_sender t) (rt_recipient t) (rt_roundId t)) in
     ro_status r = RsOpen \<and> rt_faceValue t = ro_faceValue r \<and> rt_localIndex t < ro_tau r
     \<and> \<not> dispute_blocks E (rt_sender t) (rt_recipient t) (rt_roundId t) w \<and> \<not> se_usedTickets (py_engine w) (roundTicketHash E t)
     \<and> verifySecretCommitment E secret (ro_recipientRandHash r)
     \<and> (\<exists>bh. entropy_computeWinnerIndex E (py_block w) (ro_commitBlock r) secret (rt_roundId t) (ro_tau r) = Inr (rt_localIndex t, bh)))"

text \<open>The contract is deployed as intended: nothing is paused and the engine may pay.\<close>

definition open_for_business :: "pay_env \<Rightarrow> payments \<Rightarrow> bool" where
  "open_for_business E w \<longleftrightarrow> \<not> se_paused (py_engine w) \<and> \<not> cc_paused (py_channel w) \<and> cc_authorizedPayoutEngine (py_channel w) (pe_engine E)"

lemma winning_settles:
  assumes "pay_inv w" and "open_for_business E w" and "winning E t secret w" and "recoverSigner E (roundTicketHash E t) sig = Inr (rt_sender t)"
    and "pe_accepts E (rt_recipient t)" and "unat (rt_faceValue t) \<le> rest (channel_at w (getChannelKey E (rt_sender t) (rt_recipient t)))"
  shows "\<exists>w'. settleRound E t sig secret w = Inr w'"
proof -
  have "pay_inv (mark_settled E t w)" using assms(1) by (simp add: pay_inv_def)
  then obtain w' where "payoutProvider E (rt_sender t) (rt_recipient t) (rt_faceValue t) (pe_engine E) (mark_settled E t w) = Inr w'"
    using payout_succeeds [of "mark_settled E t w" "pe_engine E" E "rt_recipient t" "rt_faceValue t" "rt_sender t"] assms(2,5,6)
    by (auto simp: open_for_business_def)
  with assms(2-4) have "settleRound E t sig secret w = Inr w'"
    by (auto simp: settleRound_def settleRoundInternal_def winning_def open_for_business_def mark_settled_def Let_def not_le)
  then show ?thesis by blast
qed

text \<open>C3. A consumer's ticket pays the provider. The ticket that the consumer's generator signs for a chunk is accepted and stored by the
  provider's ticket handler; and if its index wins the round, the provider's client settles it: the contract accepts the
  signature made in Go, marks the round as settled and pays the provider exactly the face value, out of the consumer's channel.\<close>

theorem consumer_ticket_pays_provider:
  assumes "tickets_agree E C chainID entropy" and "el_crypto L = C" and "ca_EntropySource addrs = entropy"
    and "NewPaymentClient L url hex addrs = Inr consumer" and "pm_ChainID consumer = chainID" and "pm_PrivateKey consumer = Some k"
    and "ticketGenerator C consumer provider rID faceVal False ids chunkID = Inr st"
    and "0 \<le> rID" and "rID < 2 ^ 256" and "0 \<le> faceVal" and "faceVal < 2 ^ 256" and "length ids \<le> 2 ^ 256"
    and "pm_SettlementEngine pc = Some se" and "GetTransactor L' pc None = Inr auth"
    and "reach pay_init (pay_step E) w" and "open_for_business E w" and "winning E (sol_ticket (st_Ticket st)) secret w"
    and "pe_accepts E provider" and "nat faceVal \<le> rest (channel_at w (getChannelKey E (pm_Address consumer) provider))"
  shows "ticketHandler C hexaddr (NewTicketSigner C None chainID entropy) st stored = (Inr (), stored @ [st])
    \<and> (\<exists>w'. client_SettleRound L' (\<lambda>_. chain_bindings E) pc (st_Ticket st) (st_Signature st) secret w = (Inr (), w')
         \<and> py_paid w' = (py_paid w)(provider := py_paid w provider + nat faceVal)
         \<and> getRoundStatus E (pm_Address consumer) provider (word_of_int rID) w' = RsSettled)"
proof -
  note c = new_client [OF assms(4)]
  from assms(7) obtain i where i: "chunkIdxMap ids chunkID = Some i"
    and t: "tk_Sender (st_Ticket st) = pm_Address consumer" "tk_Recipient (st_Ticket st) = provider" "tk_RoundID (st_Ticket st) = rID"
      "tk_LocalIndex (st_Ticket st) = int i" "tk_FaceValue (st_Ticket st) = faceVal" "tk_WinProb (st_Ticket st) = 100000000000000000"
      "tk_SenderNonce (st_Ticket st) = 12345"
    and "SignTicket C (pm_Signer consumer) (st_Ticket st) = Inr (st_Signature st)"
    by (auto simp: ticketGenerator_def Let_def split: option.splits sum.splits)
  then have sig: "SignTicket C (NewTicketSigner C (Some k) chainID entropy) (st_Ticket st) = Inr (st_Signature st)"
    using c(1) assms(2,3,5,6) by simp
  have a: "pm_Address consumer = tc_pubkeyToAddress C (tc_public C k)" using c(2) assms(2,6) by simp
  have "int i < 2 ^ 256" using chunkIdxMap_Some [OF i] assms(12) by simp
  then have r: "in_range (st_Ticket st)" using t assms(8-11) by (simp add: in_range_def)
  note s = signed_ticket [OF assms(1) sig, folded a]
  let ?t = "sol_ticket (st_Ticket st)"
  have st: "rt_sender ?t = pm_Address consumer" "rt_recipient ?t = provider" "rt_roundId ?t = word_of_int rID" by (simp_all add: sol_ticket_def t)
  have "uint (word_of_int faceVal :: u256) = faceVal" using assms(10,11) by (simp add: uint_word_of_int)
  then have f: "unat (rt_faceValue ?t) = nat faceVal" by (simp add: sol_ticket_def t unat_eq_nat_uint)
  have inv: "pay_inv w" using assms(15) by (rule pay_sys.inv_reach)
  obtain w' where w': "settleRound E ?t (st_Signature st) secret w = Inr w'"
    using winning_settles [OF inv assms(16,17)] s(2) [OF r] assms(18,19) st f by auto
  then have "settleRoundInternal E ?t (st_Signature st) secret w = Inr w'" by (simp add: settleRound_def split: if_splits)
  note p = settle_pays_face(1-3) [OF this]
  have "client_SettleRound L' (\<lambda>_. chain_bindings E) pc (st_Ticket st) (st_Signature st) secret w = (Inr (), w')"
    using w' assms(13,14) by (simp add: client_SettleRound_def chain_bindings_def)
  moreover have "ticketHandler C hexaddr (NewTicketSigner C None chainID entropy) st stored = (Inr (), stored @ [st])"
    using s(1) [of None] t(1) by (simp add: ticketHandler_def)
  ultimately show ?thesis using p st f by (simp add: getRoundStatus_def)
qed

text \<open>The provider accepts tickets that pay it nothing. The handler checks only that a ticket is signed by the sender it names: a
  ticket for another recipient is accepted, and accepted again when it is sent again, and settling it leaves what the provider
  has received unchanged.\<close>

lemma provider_accepts_foreign_ticket:
  assumes "tickets_agree E C chainID entropy" and "SignTicket C (NewTicketSigner C (Some k) chainID entropy) t = Inr sig"
    and "tk_Sender t = tc_pubkeyToAddress C (tc_public C k)" and "tk_Recipient t \<noteq> provider"
  defines "st \<equiv> \<lparr>st_Ticket = t, st_Signature = sig\<rparr>"
  shows "ticketHandler C hexaddr (NewTicketSigner C None chainID entropy) st stored = (Inr (), stored @ [st])
    \<and> ticketHandler C hexaddr (NewTicketSigner C None chainID entropy) st (stored @ [st]) = (Inr (), stored @ [st, st])
    \<and> (\<forall>secret w w'. settleRound E (sol_ticket t) sig secret w = Inr w' \<longrightarrow> py_paid w' provider = py_paid w provider)"
proof -
  have "py_paid w' provider = py_paid w provider" if "settleRound E (sol_ticket t) sig secret w = Inr w'" for secret w w'
  proof -
    from that have "settleRoundInternal E (sol_ticket t) sig secret w = Inr w'" by (simp add: settleRound_def split: if_splits)
    from settle_pays_face(1) [OF this] assms(4) show ?thesis by (simp add: sol_ticket_def)
  qed
  moreover have "ticket_Verify C (NewTicketSigner C None chainID entropy) t sig (tk_Sender t)"
    using signed_ticket(1) [OF assms(1,2)] assms(3) by simp
  ultimately show ?thesis by (simp add: ticketHandler_def st_def)
qed

section \<open>An example\<close>

definition example_crypto :: "(unit, unit) ticket_crypto" where
  "example_crypto = \<lparr>tc_keccak = bytes_word, tc_public = (\<lambda>k. k), tc_pubkeyToAddress = (\<lambda>_. 1), tc_sign = (\<lambda>h k. Inr (replicate 65 0)),
     tc_sigToPub = (\<lambda>h sig. Some ())\<rparr>"

definition example_eth :: "(unit, unit, unit) eth_lib" where
  "example_eth = \<lparr>el_crypto = example_crypto, el_dial = (\<lambda>_. Inr ()), el_chainID = (\<lambda>_. Inr 1), el_hexToECDSA = (\<lambda>_. Inr ()), el_bind = (\<lambda>_ _. None),
     el_transactor = (\<lambda>_ _. Inr \<lparr>op_From = 2, op_Value = None, op_GasPrice = None\<rparr>), el_gasPrice = (\<lambda>_. Inr 1)\<rparr>"

definition example_addrs :: ContractAddresses where
  "example_addrs = \<lparr>ca_PaymentChannel = 0, ca_SettlementEngine = 4, ca_EntropySource = 6, ca_ProviderRegistry = 0\<rparr>"

definition example_client :: "(unit, unit) PaymentClient" where
  "example_client = \<lparr>pm_Client = (), pm_ChainID = 1, pm_PrivateKey = Some (), pm_Address = 1, pm_Signer = NewTicketSigner example_crypto (Some ()) 1 6,
     pm_PaymentChannel = None, pm_SettlementEngine = Some 4, pm_EntropySource = Some 6, pm_ProviderRegistry = None\<rparr>"

lemma example_new_client: "NewPaymentClient example_eth ''rpc'' ''0x01'' example_addrs = Inr example_client"
  by (simp add: NewPaymentClient_def client_key_def bind_contract_def example_eth_def example_addrs_def example_client_def example_crypto_def)

lemma example_agree: "tickets_agree example_pay_env example_crypto 1 6"
proof -
  have "HashTypedData example_crypto d h = h" for d h
    using bytes_word_abi(1) [of "[0x19, 0x01] @ abi_word d" h] by (simp add: HashTypedData_def example_crypto_def)
  then show ?thesis by (simp add: tickets_agree_def) (simp add: example_crypto_def)
qed

definition example_signed :: SignedTicket where
  "example_signed = \<lparr>st_Ticket = \<lparr>tk_Sender = 1, tk_Recipient = 2, tk_RoundID = 5, tk_LocalIndex = 5, tk_FaceValue = 100,
     tk_WinProb = 100000000000000000, tk_SenderNonce = 12345\<rparr>, st_Signature = (replicate 65 0)[64 := 27]\<rparr>"

lemma example_generator: "ticketGenerator example_crypto example_client 2 5 100 False [10, 11, 12, 13, 14, 15 :: nat] 15 = Inr example_signed"
  by (simp add: ticketGenerator_def chunkIdxMap_def example_client_def SignTicket_def NewTicketSigner_def example_crypto_def example_signed_def
      upt_rec Let_def del: replicate.simps)

text \<open>The owner authorizes the engine, the consumer opens a channel, the provider commits a round, and 20 blocks pass.\<close>

lemma pay_reach:
  "reach pay_init (pay_step E) w \<Longrightarrow> pay_exec E a v c w = Inr w' \<Longrightarrow> a \<notin> {0, pe_engine E, pe_resolver E} \<Longrightarrow> reach pay_init (pay_step E) w'"
  using reach_step ps_tx by metis

lemma example_payments_reach: "reach pay_init (pay_step example_pay_env) (example_payments 1020)"
proof -
  let ?E = example_pay_env
  let ?w0 = "new_payments 3 1000"
  let ?w1 = "?w0\<lparr>py_channel := (py_channel ?w0)\<lparr>cc_authorizedPayoutEngine := (\<lambda>_. False)(4 := True)\<rparr>\<rparr>"
  let ?w2 = "set_channel (getChannelKey ?E 1 2) example_channel (?w1\<lparr>py_channel := (py_channel ?w1)\<lparr>cc_balance := 500\<rparr>\<rparr>)"
  have "reach pay_init (pay_step ?E) ?w0" by (rule reach_init) (auto simp: pay_init_def)
  moreover have "pay_exec ?E 3 0 (SetPayoutEngine 4 True) ?w0 = Inr ?w1"
    by (simp add: pay_exec_def setPayoutEngine_def new_payments_def)
  ultimately have "reach pay_init (pay_step ?E) ?w1" by (rule pay_reach) simp
  moreover have "pay_exec ?E 1 500 (OpenChannel 2) ?w1 = Inr ?w2"
    by (simp add: pay_exec_def openChannel_def new_payments_def Let_def add256_def zero_channel_def set_channel_def example_channel_def)
  ultimately have "reach pay_init (pay_step ?E) ?w2" by (rule pay_reach) simp
  moreover have "pay_exec ?E 2 0 (CommitRoundSecret 1 5 10 100 9) ?w2 = Inr (example_payments 1000)"
    by (simp add: pay_exec_def commitRoundSecret_def new_payments_def Let_def MAX_ROUND_SIZE_def zero_round_def set_channel_def set_round_def
        example_payments_def)
  ultimately have "reach pay_init (pay_step ?E) (example_payments 1000)" by (rule pay_reach) simp
  from reach_step [OF this ps_block [of _ 1020]] show ?thesis
    by (simp add: example_payments_def new_payments_def set_channel_def set_round_def)
qed

lemma example_winning: "winning example_pay_env (sol_ticket (st_Ticket example_signed)) 9 (example_payments 1020)"
  by (simp add: winning_def sol_ticket_def example_signed_def Let_def example_payments_def set_round_def set_channel_def new_payments_def
      dispute_blocks_def verifySecretCommitment_def example_draw)

theorem consumer_ticket_pays_provider_witness:
  "\<exists>w'. client_SettleRound example_eth (\<lambda>_. chain_bindings example_pay_env) example_client (st_Ticket example_signed) (st_Signature example_signed) 9
      (example_payments 1020) = (Inr (), w') \<and> py_paid w' 2 = 100"
proof -
  have "\<exists>auth. GetTransactor example_eth example_client None = Inr auth"
    by (simp add: GetTransactor_def example_eth_def example_client_def)
  then obtain auth where auth: "GetTransactor example_eth example_client None = Inr auth" ..
  have s: "open_for_business example_pay_env (example_payments 1020)" "py_paid (example_payments 1020) 2 = 0"
    "nat 100 \<le> rest (channel_at (example_payments 1020) (getChannelKey example_pay_env (pm_Address example_client) 2))"
    by (simp_all add: open_for_business_def example_payments_def new_payments_def set_channel_def set_round_def example_client_def rest_def example_channel_def)
  have e: "el_crypto example_eth = example_crypto" "ca_EntropySource example_addrs = 6" "pm_ChainID example_client = 1"
    "pm_PrivateKey example_client = Some ()" "pm_SettlementEngine example_client = Some 4"
    by (simp_all add: example_eth_def example_addrs_def example_client_def)
  from consumer_ticket_pays_provider [OF example_agree e(1,2) example_new_client e(3,4) example_generator _ _ _ _ _ e(5) auth
      example_payments_reach s(1) example_winning _ s(3), of "\<lambda>_. []" "[]"] s(2)
  show ?thesis by auto
qed

lemma provider_accepts_foreign_ticket_witness:
  "fst (ticketHandler example_crypto (\<lambda>_. []) (NewTicketSigner example_crypto None 1 6) example_signed []) = Inr ()"
proof -
  have "SignTicket example_crypto (NewTicketSigner example_crypto (Some ()) 1 6) (st_Ticket example_signed) = Inr (st_Signature example_signed)"
    by (simp add: SignTicket_def NewTicketSigner_def example_crypto_def example_signed_def del: replicate.simps)
  from provider_accepts_foreign_ticket [OF example_agree this, of 7 "\<lambda>_. []" "[]"] show ?thesis
    by (simp add: example_signed_def example_crypto_def del: replicate.simps)
qed

end
