(* ===== verification/Spec2Isabelle.thy ===== *)
theory Spec2Isabelle
  imports ContractRuns ChunkExchange Replication DemandBridge AvailabilityWire Resolver EthereumAdapter TransferManager FileTransfer TicketFlow
begin

text \<open>
  Verification of the CIPHER storage network, a Go program with Solidity contracts. Publishers cut files into encrypted chunks and place
  them with providers; consumers fetch the chunks from several providers at once and pay with signed lottery tickets; publishers
  challenge providers to prove that they still hold a file, and pay them through an escrow contract. All paths below are under
  \<open>src/\<close>.

  \<^bold>\<open>How code is modelled.\<close> An operation of Go is a function on an explicit state that returns an error or a value together with the
  new state; a panic is an error value. An external function of Solidity takes the transaction and the state and returns the error it
  reverts with or the new state, with checked arithmetic. Unsigned integers are words of their width, \<open>int64\<close> is an integer with the
  wrap-around written out, \<open>big.Int\<close> is an integer, bytes are words of 8 bits, times are nanoseconds. Random bytes and readings of
  the clock are arguments. A file system is a map with a script that says which system calls fail, a stream is the bytes to be read and
  the bytes written. Goroutines, and transactions from different accounts, are steps of an inductive relation, so that a theorem about
  reachable states covers every interleaving. Code that is not under \<open>src/\<close> (Ed25519, ChaCha20-Poly1305, secp256k1, Keccak, JSON,
  libp2p, go-ethereum, OpenZeppelin, the EVM) is an argument, and what is relied on is a named hypothesis, such as \<open>ed25519_correct\<close>,
  \<open>geth_agrees\<close>, \<open>tickets_agree\<close> or \<open>recent_blockhash\<close>, which the witnesses satisfy with concrete functions. SHA-256 is defined.

  \<^bold>\<open>Foundations.\<close>
  \<^item> \<open>Prelude\<close>: generic lemmas and the locales of transition systems: invariants, monotone quantities, forward simulation. Every theory about
    runs interprets one of them on its own step relation.
  \<^item> \<open>GoLib\<close>, \<open>Sha256\<close>, \<open>Signatures\<close>, \<open>Wire\<close>: what the source uses of Go's library, and the contract of a message framing, which the three
    wire protocols interpret.

  \<^bold>\<open>Availability contracts\<close>, \<open>availability/availability-contracts\<close> and \<open>integration/availability\<close>.
  \<^item> \<open>AvailTypes\<close>, \<open>Epochs\<close> (\<open>challenge\<close>), \<open>Settlement\<close>, \<open>Verification\<close>, \<open>Contracts\<close> (\<open>contract\<close>), \<open>ContractRuns\<close>: an epoch challenges each
    chunk exactly once; payouts are proportional and conserve the funds unless the product overflows; the bookkeeping of reachable contracts
    is consistent and only grows; a funded contract can always issue its next challenge.
  \<^item> \<open>Merkle\<close> (\<open>merkle.go\<close>), \<open>ProofEngine\<close> (\<open>proof_engine.go\<close>), \<open>AvailabilityWire\<close> (\<open>protocol.go\<close>), \<open>Resolver\<close> (\<open>resolver.go\<close>): generated proofs
    verify, a proof of full length binds the leaf or gives a collision, and a challenge for a registered file that is sent over the wire is
    answered with a response that verifies. Shorter proofs are accepted as well, and chunk IDs alone are enough to answer.

  \<^bold>\<open>Escrow payments\<close>, \<open>availability/escrow-payment\<close>.
  \<^item> \<open>Bindings\<close>, \<open>Payment\<close>, \<open>Coordinator\<close>, \<open>Dispatcher\<close>, \<open>DispatchRuns\<close>, \<open>CoordinatorBridge\<close>: from verified results to signed vouchers; what is paid for
    every pass up to the maximum, what a signature covers, when a failing provider may be slashed.
  \<^item> \<open>Escrow\<close>, \<open>EscrowRuns\<close> (\<open>EscrowContract.sol\<close> and the files it includes): the contract is solvent in every reachable state, and settlement
    pays the voucher.
  \<^item> \<open>EthereumAdapter\<close> (\<open>signer.go\<close>, \<open>escrow_adapter.go\<close>): a voucher signed in Go settles on the chain, and one from the bridge does not.

  \<^bold>\<open>Requests and demand\<close>, \<open>availability/proof-of-request\<close>: \<open>Requests\<close>, \<open>DemandProofs\<close>, \<open>DemandBridge\<close>. The store of requests refines a set of
  active requests; the search for a proof of work finds the first nonce, and ends if there is one; the replica tracker stays well formed.

  \<^bold>\<open>Content and its transfer\<close>, \<open>network\<close>.
  \<^item> \<open>Content\<close>, \<open>Storage\<close>, \<open>ContentEngine\<close>, \<open>ContentAddressed\<close> (\<open>content\<close>): what is ingested is reassembled; the chunks partition the stream; a store
    keeps its chunks under every fault.
  \<^item> \<open>ChunkMessages\<close>, \<open>ChunkValidation\<close>, \<open>ChunkProtocol\<close>, \<open>ChunkExchange\<close> (\<open>protocol/chunk\<close>): the streaming decoder agrees with the plain one; a client
    stores only chunks with the requested hash, and two peers that follow the protocol complete a download.
  \<^item> \<open>PushMessages\<close>, \<open>PushHandler\<close>, \<open>PushRuns\<close>, \<open>PushClient\<close> (\<open>protocol/push\<close>), \<open>Distribution\<close>, \<open>Uploader\<close>, \<open>Replication\<close> (\<open>distribution\<close>): placement,
    upload and acceptance of batches.
  \<^item> \<open>Scheduler\<close>, \<open>SchedulerRuns\<close>, \<open>SchedulerFaults\<close> (\<open>transfer/scheduler\<close>): a run that returns without an error has done each task once, and with
    clients linked to the handlers of providers that have the chunks it returns; two ways in which it fails although it could succeed.
  \<^item> \<open>Sessions\<close>, \<open>TransferManager\<close> (\<open>transfer/manager\<close>, \<open>retrieval\<close>), \<open>FileTransfer\<close> (\<open>transfer/header.go\<close>, \<open>sender.go\<close>, \<open>receiver.go\<close>): a download that
    reports success has all chunks; a file arrives as it was sent.

  \<^bold>\<open>Lottery payments\<close>, \<open>network/payments\<close> and \<open>payments/src\<close>.
  \<^item> \<open>Tickets\<close> (\<open>signer.go\<close>, \<open>RaffleMath.sol\<close>, \<open>CommitRevealEntropy.sol\<close>) and \<open>PaymentContracts\<close> (\<open>PaymentChannel.sol\<close>, \<open>ProviderRegistry.sol\<close>,
    \<open>SettlementEngine.sol\<close>, \<open>ChunkDisputeResolver.sol\<close>, \<open>ProtocolConfig.sol\<close>): the definitions.
  \<^item> \<open>PaymentRuns\<close>, \<open>PaymentRounds\<close>, \<open>PaymentFunds\<close>: the contracts are solvent; a round pays once; stale rounds pay nothing; a slash during unbonding
    that leaves less than was requested locks the stake; any bytes clear a dispute.
  \<^item> \<open>TicketFlow\<close> (\<open>client.go\<close>, and the ticket callbacks in \<open>nodes/consumer/main.go\<close> and \<open>nodes/provider/main.go\<close>): a ticket that the consumer
    signs is accepted by the provider and paid by the contract.

  \<^bold>\<open>Loops and bounds.\<close> No definition has fuel. The loops of the chunker and of the proof-of-work search may run forever and are partial functions
  into an option type; the theorems say when they return. All other loops are total functions, with a decreasing measure where the recursion
  is not structural. That the scheduler ends is a bound on the number of steps of every run.

  \<^bold>\<open>Not modelled.\<close> Generated contract bindings, as the code that calls them is modelled with the calls as arguments; DHT discovery, libp2p hosts,
  key files and identities, which are calls of libraries; the programs under \<open>network/cmd\<close>, \<open>nodes\<close> and \<open>scripts\<close> apart from the ticket callbacks, which
  parse flags and connect the components; logging and progress displays; \<open>Protocol_Raffle.sol\<close>, an earlier single-file form of the modular
  payment contracts, and \<open>Counter.sol\<close>; events of contracts; gas. Calls that a recipient makes while it is being paid are later transactions,
  which is exact for functions whose transfer is their last action; for \<open>settleRoundBatch\<close> it leaves out calls between two payments.
\<close>

end
